(* ===== verification/Prelude.thy ===== *)
theory Prelude
  imports Main "HOL-Library.Word" "HOL-Library.List_Lexorder" "HOL-Library.Char_ord"
    "HOL-Library.Sublist"
begin

text \<open>
  Shared vocabulary of the development: the error values every component returns, the
  result type of fallible code, the string helpers of the Go standard library the sources
  use (\<open>strings.Split\<close>, \<open>strings.Join\<close>, \<open>strings.Contains\<close>), big-endian integers, and the
  generic lemmas about lists and results that the component proofs share.

  Go strings and byte slices are Isabelle strings (lists of 8-bit characters).  A Go
  \<open>error\<close> is an \<^typ>\<open>'e + 'a\<close> value whose left side carries a sentinel: the wrapping text of
  \<open>errorsmod.Wrap\<close> is not kept, the registered codespace and code are.
\<close>

section \<open>Errors and results\<close>

text \<open>
  \<open>Registered cs n\<close> is the sentinel that \<open>errorsmod.Register(cs, n, ...)\<close> creates;
  \<open>Plain\<close> is an unregistered \<open>fmt.Errorf\<close>/\<open>errors.New\<close> error; \<open>Panicked\<close> is a Go panic that
  unwinds to the caller, kept apart from the errors that the code returns.
\<close>

datatype error =
    Registered string nat
  | Plain string
  | Panicked string

type_synonym 'a res = "error + 'a"

abbreviation ErrUnauthorized :: error where "ErrUnauthorized \<equiv> Registered ''sdk'' 4"
abbreviation ErrInsufficientFunds :: error where "ErrInsufficientFunds \<equiv> Registered ''sdk'' 5"
abbreviation ErrInvalidAddress :: error where "ErrInvalidAddress \<equiv> Registered ''sdk'' 7"
abbreviation ErrInvalidCoins :: error where "ErrInvalidCoins \<equiv> Registered ''sdk'' 10"
abbreviation ErrOutOfGas :: error where "ErrOutOfGas \<equiv> Registered ''sdk'' 11"
abbreviation ErrInsufficientFee :: error where "ErrInsufficientFee \<equiv> Registered ''sdk'' 13"
abbreviation ErrInvalidRequest :: error where "ErrInvalidRequest \<equiv> Registered ''sdk'' 18"
abbreviation ErrTxDecode :: error where "ErrTxDecode \<equiv> Registered ''sdk'' 2"
abbreviation ErrNotFound :: error where "ErrNotFound \<equiv> Registered ''sdk'' 38"
abbreviation ErrInvalidType :: error where "ErrInvalidType \<equiv> Registered ''sdk'' 29"
abbreviation ErrInvalidPubKey :: error where "ErrInvalidPubKey \<equiv> Registered ''sdk'' 8"
abbreviation ErrInvalidSequence :: error where "ErrInvalidSequence \<equiv> Registered ''sdk'' 3"
abbreviation ErrPanic :: error where "ErrPanic \<equiv> Registered ''undefined'' 111222"
abbreviation ErrLogic :: error where "ErrLogic \<equiv> Registered ''sdk'' 35"
abbreviation ErrGovInvalidSigner :: error where "ErrGovInvalidSigner \<equiv> Registered ''gov'' 15"

definition is_panic :: "'a res \<Rightarrow> bool" where
  "is_panic r = (case r of Inl (Panicked m) \<Rightarrow> True | _ \<Rightarrow> False)"

definition is_ok :: "'a res \<Rightarrow> bool" where
  "is_ok r = (case r of Inl e \<Rightarrow> False | Inr x \<Rightarrow> True)"

lemma is_ok_simps [simp]: "is_ok (Inr x)" "\<not> is_ok (Inl e)"
  by (simp_all add: is_ok_def)

lemma is_ok_iff: "is_ok r \<longleftrightarrow> (\<exists>x. r = Inr x)"
  by (cases r) auto

lemma is_panic_simps [simp]:
  "is_panic (Inl (Panicked m))" "\<not> is_panic (Inr x)"
  "\<not> is_panic (Inl (Plain m))" "\<not> is_panic (Inl (Registered c n))"
  by (simp_all add: is_panic_def)

lemma is_panic_iff: "is_panic r \<longleftrightarrow> (\<exists>m. r = Inl (Panicked m))"
  by (auto simp: is_panic_def split: sum.splits error.splits)

text \<open>
  A sequence of checks without effects: the result is the error of the first one that fails.
  \<open>as_error\<close> is a \<open>Wrap\<close> that replaces the sentinel.
\<close>

fun first_error :: "unit res list \<Rightarrow> unit res" where
  "first_error [] = Inr ()"
| "first_error (c # cs) = (case c of Inl e \<Rightarrow> Inl e | Inr _ \<Rightarrow> first_error cs)"

definition as_error :: "error \<Rightarrow> unit res \<Rightarrow> unit res" where
  "as_error e r = (case r of Inl _ \<Rightarrow> Inl e | Inr _ \<Rightarrow> Inr ())"

definition check :: "error \<Rightarrow> bool \<Rightarrow> unit res" where
  "check e b = (if b then Inr () else Inl e)"

definition no_value :: "'a res \<Rightarrow> unit res" where
  "no_value r = (case r of Inl e \<Rightarrow> Inl e | Inr _ \<Rightarrow> Inr ())"

lemma first_error_ok [simp]: "first_error cs = Inr () \<longleftrightarrow> (\<forall>c \<in> set cs. c = Inr ())"
  by (induction cs) (auto split: sum.splits)

lemma check_ok [simp]: "check e b = Inr () \<longleftrightarrow> b"
  by (simp add: check_def)

lemma as_error_ok [simp]: "as_error e r = Inr () \<longleftrightarrow> is_ok r"
  by (cases r) (simp_all add: as_error_def)

lemma no_value_ok [simp]: "no_value r = Inr () \<longleftrightarrow> is_ok r"
  by (cases r) (simp_all add: no_value_def)

lemma is_ok_no_value [simp]: "is_ok (no_value r) = is_ok r"
  by (cases r) (simp_all add: no_value_def)

text \<open>The collection of the inversion rules of the components' handlers.\<close>

named_theorems handler_simps "unfolded handlers, for forward reasoning about results"

section \<open>Strings of the Go library\<close>

text \<open>\<open>strings.Split(s, sep)\<close> for a one-byte separator.\<close>

fun go_split :: "char \<Rightarrow> string \<Rightarrow> string list" where
  "go_split c [] = [[]]"
| "go_split c (x # xs) =
     (if x = c then [] # go_split c xs
      else (case go_split c xs of [] \<Rightarrow> [[x]] | p # ps \<Rightarrow> (x # p) # ps))"

text \<open>\<open>strings.Join(parts, sep)\<close> for a one-byte separator.\<close>

fun go_join :: "char \<Rightarrow> string list \<Rightarrow> string" where
  "go_join c [] = []"
| "go_join c [p] = p"
| "go_join c (p # q # ps) = p @ c # go_join c (q # ps)"

lemma go_split_not_Nil [simp]: "go_split c s \<noteq> []"
  by (induction s) (auto split: list.splits)

lemma go_split_no_sep: "c \<notin> set s \<Longrightarrow> go_split c s = [s]"
  by (induction s) auto

lemma go_split_append: "c \<notin> set p \<Longrightarrow> go_split c (p @ c # s) = p # go_split c s"
  by (induction p) auto

lemma go_join_Cons: "ps \<noteq> [] \<Longrightarrow> go_join c (p # ps) = p @ c # go_join c ps"
  by (cases ps) auto

lemma go_join_split [simp]: "go_join c (go_split c s) = s"
proof (induction s)
  case Nil
  show ?case by simp
next
  case (Cons x xs)
  obtain p ps where ps: "go_split c xs = p # ps"
    by (cases "go_split c xs") auto
  show ?case
    using Cons ps by (cases "x = c"; cases ps) (auto simp: go_join_Cons)
qed

lemma go_split_parts: "p \<in> set (go_split c s) \<Longrightarrow> c \<notin> set p"
  by (induction s arbitrary: p) (auto split: if_splits list.splits)

text \<open>\<open>strings.TrimSpace\<close> on ASCII white space.\<close>

definition is_space :: "char \<Rightarrow> bool" where
  "is_space c = (c \<in> {CHR '' '', CHR 0x09, CHR 0x0A, CHR 0x0B, CHR 0x0C, CHR 0x0D})"

definition trim_space :: "string \<Rightarrow> string" where
  "trim_space s = rev (dropWhile is_space (rev (dropWhile is_space s)))"

text \<open>\<open>strconv.Itoa\<close>: decimal digits, with a sign.\<close>

fun dec_digits :: "nat \<Rightarrow> string" where
  "dec_digits n = (if n < 10 then [char_of (48 + n)] else dec_digits (n div 10) @ [char_of (48 + n mod 10)])"

declare dec_digits.simps [simp del]

definition go_itoa :: "int \<Rightarrow> string" where
  "go_itoa i = (if i < 0 then CHR ''-'' # dec_digits (nat (- i)) else dec_digits (nat i))"

lemma dec_digits_value: "foldl (\<lambda>a c. a * 10 + (of_char c - 48)) 0 (dec_digits n) = n"
proof (induction n rule: dec_digits.induct)
  case (1 n)
  show ?case
  proof (cases "n < 10")
    case True
    then show ?thesis by (subst dec_digits.simps) simp
  next
    case False
    then show ?thesis using 1 by (subst dec_digits.simps) simp
  qed
qed

lemma dec_digits_inj: "dec_digits a = dec_digits b \<longleftrightarrow> a = b"
  by (metis dec_digits_value)

lemma dec_digits_chars: "c \<in> set (dec_digits n) \<Longrightarrow> 48 \<le> (of_char c :: nat) \<and> (of_char c :: nat) \<le> 57"
proof (induction n rule: dec_digits.induct)
  case (1 n)
  then show ?case
    by (subst (asm) dec_digits.simps) (auto split: if_splits)
qed

text \<open>\<open>hex.EncodeToString\<close>.\<close>

definition hex_digit :: "nat \<Rightarrow> char" where
  "hex_digit n = (if n < 10 then char_of (48 + n) else char_of (87 + n))"

definition hex_encode :: "string \<Rightarrow> string" where
  "hex_encode bz = concat (map (\<lambda>c. [hex_digit (of_char c div 16), hex_digit (of_char c mod 16)]) bz)"

section \<open>Fixed-width integers\<close>

type_synonym u64 = "64 word"
type_synonym u32 = "32 word"

text \<open>The \<open>n\<close>-byte big-endian encoding, as \<open>sdk.Uint64ToBigEndian\<close> produces it for 8.\<close>

fun be_bytes :: "nat \<Rightarrow> nat \<Rightarrow> string" where
  "be_bytes 0 v = []"
| "be_bytes (Suc n) v = be_bytes n (v div 256) @ [char_of (v mod 256)]"

definition be_value :: "string \<Rightarrow> nat" where
  "be_value s = foldl (\<lambda>a c. a * 256 + of_char c) 0 s"

lemma length_be_bytes [simp]: "length (be_bytes n v) = n"
  by (induction n arbitrary: v) auto

lemma be_value_snoc [simp]: "be_value (s @ [c]) = be_value s * 256 + of_char c"
  by (simp add: be_value_def)

lemma be_value_bytes: "v < 256 ^ n \<Longrightarrow> be_value (be_bytes n v) = v"
proof (induction n arbitrary: v)
  case 0
  then show ?case by (simp add: be_value_def)
next
  case (Suc n)
  have "v div 256 < 256 ^ n"
    using Suc.prems by (simp add: less_mult_imp_div_less mult.commute)
  then show ?case
    using Suc.IH by simp
qed

lemma be_bytes_inj: "a < 256 ^ n \<Longrightarrow> b < 256 ^ n \<Longrightarrow> be_bytes n a = be_bytes n b \<longleftrightarrow> a = b"
  by (metis be_value_bytes)

definition Uint64ToBigEndian :: "u64 \<Rightarrow> string" where
  "Uint64ToBigEndian w = be_bytes 8 (unat w)"

definition BigEndianToUint64 :: "string \<Rightarrow> u64" where
  "BigEndianToUint64 s = (if s = [] then 0 else of_nat (be_value (take 8 s)))"

lemma unat_u64_bound: "unat (w :: u64) < 256 ^ 8"
  using unsigned_less [of w] by simp

lemma Uint64_roundtrip [simp]: "BigEndianToUint64 (Uint64ToBigEndian w) = w"
proof -
  have "be_bytes 8 (unat w) \<noteq> []"
    by (metis length_be_bytes list.size(3) zero_neq_numeral)
  then show ?thesis
    using be_value_bytes [OF unat_u64_bound, of w]
    by (simp add: BigEndianToUint64_def Uint64ToBigEndian_def)
qed

lemma Uint64ToBigEndian_inj [simp]:
  "Uint64ToBigEndian a = Uint64ToBigEndian b \<longleftrightarrow> a = b"
  by (metis Uint64_roundtrip)

lemma length_Uint64ToBigEndian [simp]: "length (Uint64ToBigEndian w) = 8"
  by (simp add: Uint64ToBigEndian_def)

text \<open>A conversion to \<open>int64\<close> reads the same bits as a signed number.\<close>

type_synonym i64 = "64 word"

definition le_bytes4 :: "u32 \<Rightarrow> string" where
  "le_bytes4 w = rev (be_bytes 4 (unat w))"

section \<open>Lists\<close>

lemma append_eq_same_length:
  "length a = length c \<Longrightarrow> a @ b = c @ d \<longleftrightarrow> a = c \<and> b = d"
  by simp

text \<open>
  A Go function that returns early on an error: a result and the state it leaves behind, followed by
  what runs on success.
\<close>

definition bindR :: "'a res \<times> 's \<Rightarrow> ('a \<Rightarrow> 's \<Rightarrow> 'b res \<times> 's) \<Rightarrow> 'b res \<times> 's" where
  "bindR m k = (case m of (Inl e, s) \<Rightarrow> (Inl e, s) | (Inr a, s) \<Rightarrow> k a s)"

definition guardR :: "bool \<Rightarrow> error \<Rightarrow> 's \<Rightarrow> unit res \<times> 's" where
  "guardR b e s = (if b then Inr () else Inl e, s)"

lemma bindR_simps [simp]:
  "bindR (Inl e, s) k = (Inl e, s)"
  "bindR (Inr a, s) k = k a s"
  by (simp_all add: bindR_def)

lemma guardR_simps [simp]:
  "guardR True e s = (Inr (), s)"
  "guardR False e s = (Inl e, s)"
  by (simp_all add: guardR_def)

lemma bindR_ok: "bindR m k = (Inr b, t) \<longleftrightarrow> (\<exists>a s. m = (Inr a, s) \<and> k a s = (Inr b, t))"
  by (auto simp: bindR_def split: prod.splits sum.splits)

lemma guardR_ok: "guardR b e s = (Inr u, t) \<longleftrightarrow> b \<and> t = s"
  by (auto simp: guardR_def)

text \<open>A separator that does not occur on the left makes a concatenation injective.\<close>

lemma sep_append_inj:
  assumes "x \<notin> set a" and "x \<notin> set b" and "a @ x # c = b @ x # d"
  shows "a = b \<and> c = d"
  using assms
proof (induction a arbitrary: b)
  case Nil
  then show ?case by (cases b) auto
next
  case (Cons y ys)
  then show ?case by (cases b) auto
qed

text \<open>A separator that does not occur on the right splits a concatenation from the end.\<close>

lemma sep_append_inj_right:
  assumes "x \<notin> set b" and "x \<notin> set d" and "a @ x # b = c @ x # d"
  shows "a = c \<and> b = d"
proof -
  have "rev b @ x # rev a = rev d @ x # rev c"
    using arg_cong [OF assms(3), of rev] by simp
  then show ?thesis using sep_append_inj [of x "rev b" "rev d" "rev a" "rev c"] assms(1,2) by simp
qed

lemma strict_sorted_distinct: "sorted_wrt (<) (xs :: 'a::linorder list) \<Longrightarrow> distinct xs"
  by (simp add: strict_sorted_iff)

lemma strict_sorted_filter: "sorted_wrt P xs \<Longrightarrow> sorted_wrt P (filter Q xs)"
  by (induction xs) auto

end
