(* ===== verification/Sdk.thy ===== *)
theory Sdk
  imports Prelude
begin

text \<open>
  What the modules call of the Cosmos SDK.  The SDK is not part of the repository, so every
  function of it is a field of the record \<open>sdk\<close>, over an unspecified type \<open>'w\<close> of the chain
  state behind those calls, and the documented behaviour a theorem needs is a named
  hypothesis: \<open>bech32_laws\<close>, \<open>bank_laws\<close>, \<open>metadata_laws\<close>, \<open>coins_laws\<close>.  The instance
  \<open>ledger_sdk\<close>, a small bank ledger, shows that the hypotheses can hold together.
\<close>

section \<open>Coins and denomination metadata\<close>

record Coin =
  Denom :: string
  Amount :: int

type_synonym Coins = "Coin list"

text \<open>The amount a coin set holds of a denomination.\<close>

definition coins_amount :: "Coins \<Rightarrow> string \<Rightarrow> int" where
  "coins_amount cs d = sum_list (map Amount (filter (\<lambda>c. Denom c = d) cs))"

lemma coins_amount_simps [simp]:
  "coins_amount [] d = 0"
  "coins_amount (c # cs) d = (if Denom c = d then Amount c else 0) + coins_amount cs d"
  "coins_amount (cs @ ds) d = coins_amount cs d + coins_amount ds d"
  by (simp_all add: coins_amount_def)

lemma coins_amount_not_in: "d \<notin> Denom ` set cs \<Longrightarrow> coins_amount cs d = 0"
  by (induction cs) auto

lemma coins_amount_nonneg: "(\<And>c. c \<in> set cs \<Longrightarrow> 0 \<le> Amount c) \<Longrightarrow> 0 \<le> coins_amount cs d"
  by (induction cs) auto

record DenomUnit =
  UnitDenom :: string
  Exponent :: nat

record Metadata =
  Description :: string
  DenomUnits :: "DenomUnit list"
  Base :: string
  Display :: string
  MdName :: string
  Symbol :: string

text \<open>What the modules read of the contract information that \<open>x/wasm\<close> keeps.\<close>

record ContractInfo =
  ci_Creator :: string
  ci_Admin :: string

section \<open>The functions of the SDK the modules call\<close>

record 'w sdk =
  AccAddressFromBech32 :: "string \<Rightarrow> string res"
  AccAddressString :: "string \<Rightarrow> string"
  ValidateDenom :: "string \<Rightarrow> unit res"
  CoinIsValid :: "Coin \<Rightarrow> bool"
  CoinsValidate :: "Coins \<Rightarrow> unit res"
  NewCoins :: "Coins \<Rightarrow> Coins res"
  MetadataValidate :: "Metadata \<Rightarrow> unit res"
  GetDenomMetaData :: "'w \<Rightarrow> string \<Rightarrow> Metadata option"
  SetDenomMetaData :: "Metadata \<Rightarrow> 'w \<Rightarrow> 'w"
  MintCoins :: "string \<Rightarrow> Coins \<Rightarrow> 'w \<Rightarrow> unit res \<times> 'w"
  BurnCoins :: "string \<Rightarrow> Coins \<Rightarrow> 'w \<Rightarrow> unit res \<times> 'w"
  SendCoins :: "string \<Rightarrow> string \<Rightarrow> Coins \<Rightarrow> 'w \<Rightarrow> unit res \<times> 'w"
  SendCoinsFromModuleToAccount :: "string \<Rightarrow> string \<Rightarrow> Coins \<Rightarrow> 'w \<Rightarrow> unit res \<times> 'w"
  SendCoinsFromAccountToModule :: "string \<Rightarrow> string \<Rightarrow> Coins \<Rightarrow> 'w \<Rightarrow> unit res \<times> 'w"
  BlockedAddr :: "string \<Rightarrow> bool"
  FundCommunityPool :: "Coins \<Rightarrow> string \<Rightarrow> 'w \<Rightarrow> unit res \<times> 'w"
  ConsumeGas :: "u64 \<Rightarrow> 'w \<Rightarrow> unit res \<times> 'w"

section \<open>Documented behaviour, as named hypotheses\<close>

text \<open>
  Bech32 decoding refuses the empty string, decodes the canonical string of an address it
  has decoded back to that address, and accepts only the characters of the bech32 alphabet
  behind the chain's prefix, so neither a slash nor a vertical bar.
\<close>

definition bech32_laws :: "'w sdk \<Rightarrow> bool" where
  "bech32_laws S \<longleftrightarrow>
     (\<forall>s a. AccAddressFromBech32 S s = Inr a \<longrightarrow>
        s \<noteq> [] \<and> CHR ''/'' \<notin> set s \<and> CHR ''|'' \<notin> set s \<and>
        AccAddressFromBech32 S (AccAddressString S a) = Inr a)"

text \<open>
  The bank: a successful mint or burn changes the supply by the coins given and the balance
  of the module account by the same; a successful transfer moves the coins and keeps the
  supply.  \<open>supply\<close> and \<open>bal\<close> observe the chain state, \<open>modaddr\<close> is a module's account.
\<close>

definition moved ::
  "('w \<Rightarrow> string \<Rightarrow> int) \<Rightarrow> ('w \<Rightarrow> string \<Rightarrow> string \<Rightarrow> int) \<Rightarrow> string \<Rightarrow> string \<Rightarrow> Coins \<Rightarrow> 'w \<Rightarrow> 'w \<Rightarrow> bool"
  where
  "moved supply bal a b cs w w' \<longleftrightarrow>
     supply w' = supply w \<and>
     (\<forall>x d. bal w' x d = bal w x d + (if x = b then coins_amount cs d else 0)
                                   - (if x = a then coins_amount cs d else 0))"

definition bank_laws ::
  "'w sdk \<Rightarrow> ('w \<Rightarrow> string \<Rightarrow> int) \<Rightarrow> ('w \<Rightarrow> string \<Rightarrow> string \<Rightarrow> int) \<Rightarrow> (string \<Rightarrow> string) \<Rightarrow> bool"
  where
  "bank_laws S supply bal modaddr \<longleftrightarrow>
     (\<forall>m cs w w'. MintCoins S m cs w = (Inr (), w') \<longrightarrow>
        (\<forall>d. supply w' d = supply w d + coins_amount cs d) \<and>
        (\<forall>x d. bal w' x d = bal w x d + (if x = modaddr m then coins_amount cs d else 0))) \<and>
     (\<forall>m cs w w'. BurnCoins S m cs w = (Inr (), w') \<longrightarrow>
        (\<forall>d. supply w' d = supply w d - coins_amount cs d) \<and>
        (\<forall>x d. bal w' x d = bal w x d - (if x = modaddr m then coins_amount cs d else 0))) \<and>
     (\<forall>a b cs w w'. SendCoins S a b cs w = (Inr (), w') \<longrightarrow> moved supply bal a b cs w w') \<and>
     (\<forall>m b cs w w'. SendCoinsFromModuleToAccount S m b cs w = (Inr (), w') \<longrightarrow>
        moved supply bal (modaddr m) b cs w w') \<and>
     (\<forall>a m cs w w'. SendCoinsFromAccountToModule S a m cs w = (Inr (), w') \<longrightarrow>
        moved supply bal a (modaddr m) cs w w') \<and>
     (\<forall>cs a w w'. FundCommunityPool S cs a w = (Inr (), w') \<longrightarrow> supply w' = supply w) \<and>
     (\<forall>n w r w'. ConsumeGas S n w = (r, w') \<longrightarrow> supply w' = supply w \<and> bal w' = bal w) \<and>
     (\<forall>md w. supply (SetDenomMetaData S md w) = supply w \<and> bal (SetDenomMetaData S md w) = bal w)"

text \<open>
  Denomination metadata is stored under its base denomination, and no other call of the
  modules changes it.
\<close>

definition metadata_laws :: "'w sdk \<Rightarrow> bool" where
  "metadata_laws S \<longleftrightarrow>
     (\<forall>md w d. GetDenomMetaData S (SetDenomMetaData S md w) d =
        (if d = Base md then Some md else GetDenomMetaData S w d)) \<and>
     (\<forall>m cs w. GetDenomMetaData S (snd (MintCoins S m cs w)) = GetDenomMetaData S w) \<and>
     (\<forall>m cs w. GetDenomMetaData S (snd (BurnCoins S m cs w)) = GetDenomMetaData S w) \<and>
     (\<forall>a b cs w. GetDenomMetaData S (snd (SendCoins S a b cs w)) = GetDenomMetaData S w) \<and>
     (\<forall>m b cs w. GetDenomMetaData S (snd (SendCoinsFromModuleToAccount S m b cs w))
        = GetDenomMetaData S w) \<and>
     (\<forall>a m cs w. GetDenomMetaData S (snd (SendCoinsFromAccountToModule S a m cs w))
        = GetDenomMetaData S w) \<and>
     (\<forall>cs a w. GetDenomMetaData S (snd (FundCommunityPool S cs a w)) = GetDenomMetaData S w) \<and>
     (\<forall>n w. GetDenomMetaData S (snd (ConsumeGas S n w)) = GetDenomMetaData S w)"

text \<open>\<open>sdk.NewCoins\<close> keeps the amount of every denomination.\<close>

definition coins_laws :: "'w sdk \<Rightarrow> bool" where
  "coins_laws S \<longleftrightarrow>
     (\<forall>cs ds. NewCoins S cs = Inr ds \<longrightarrow> (\<forall>d. coins_amount ds d = coins_amount cs d))"

lemma bech32_lawsD:
  assumes "bech32_laws S" and "AccAddressFromBech32 S s = Inr a"
  shows "s \<noteq> []" and "CHR ''/'' \<notin> set s" and "CHR ''|'' \<notin> set s"
    and "AccAddressFromBech32 S (AccAddressString S a) = Inr a"
  using assms unfolding bech32_laws_def by blast+

lemma coins_lawsD:
  "coins_laws S \<Longrightarrow> NewCoins S [c] = Inr cs \<Longrightarrow>
     coins_amount cs d = (if d = Denom c then Amount c else 0)"
  unfolding coins_laws_def by fastforce

lemma NewCoins_amount: "coins_laws S \<Longrightarrow> NewCoins S cs = Inr ds \<Longrightarrow> coins_amount ds d = coins_amount cs d"
  unfolding coins_laws_def by blast

lemma bank_lawsD:
  assumes "bank_laws S supply bal modaddr"
  shows "MintCoins S m cs w = (Inr (), w') \<Longrightarrow> supply w' d = supply w d + coins_amount cs d"
    and "MintCoins S m cs w = (Inr (), w') \<Longrightarrow>
      bal w' x d = bal w x d + (if x = modaddr m then coins_amount cs d else 0)"
    and "BurnCoins S m cs w = (Inr (), w') \<Longrightarrow> supply w' d = supply w d - coins_amount cs d"
    and "BurnCoins S m cs w = (Inr (), w') \<Longrightarrow>
      bal w' x d = bal w x d - (if x = modaddr m then coins_amount cs d else 0)"
    and "SendCoins S a b cs w = (Inr (), w') \<Longrightarrow> moved supply bal a b cs w w'"
    and "SendCoinsFromModuleToAccount S m b cs w = (Inr (), w') \<Longrightarrow>
      moved supply bal (modaddr m) b cs w w'"
    and "SendCoinsFromAccountToModule S a m cs w = (Inr (), w') \<Longrightarrow>
      moved supply bal a (modaddr m) cs w w'"
    and "FundCommunityPool S cs a w = (Inr (), w') \<Longrightarrow> supply w' = supply w"
    and "ConsumeGas S n w = (r, w') \<Longrightarrow> supply w' = supply w"
    and "supply (SetDenomMetaData S md w) = supply w"
  using assms unfolding bank_laws_def by simp_all

lemma metadata_lawsD:
  assumes "metadata_laws S"
  shows "GetDenomMetaData S (SetDenomMetaData S md w) d =
      (if d = Base md then Some md else GetDenomMetaData S w d)"
    and "MintCoins S m cs w = (r, w') \<Longrightarrow> GetDenomMetaData S w' = GetDenomMetaData S w"
    and "BurnCoins S m cs w = (r, w') \<Longrightarrow> GetDenomMetaData S w' = GetDenomMetaData S w"
    and "SendCoins S a b cs w = (r, w') \<Longrightarrow> GetDenomMetaData S w' = GetDenomMetaData S w"
    and "SendCoinsFromModuleToAccount S m b cs w = (r, w') \<Longrightarrow>
      GetDenomMetaData S w' = GetDenomMetaData S w"
    and "SendCoinsFromAccountToModule S a m cs w = (r, w') \<Longrightarrow>
      GetDenomMetaData S w' = GetDenomMetaData S w"
    and "FundCommunityPool S cs a w = (r, w') \<Longrightarrow> GetDenomMetaData S w' = GetDenomMetaData S w"
    and "ConsumeGas S n w = (r, w') \<Longrightarrow> GetDenomMetaData S w' = GetDenomMetaData S w"
  using assms unfolding metadata_laws_def by (metis snd_conv)+

section \<open>An instance: a bank ledger\<close>

record ledger =
  balances :: "string \<Rightarrow> string \<Rightarrow> int"
  supplies :: "string \<Rightarrow> int"
  metadatas :: "string \<Rightarrow> Metadata option"
  gas_left :: int

definition credit :: "string \<Rightarrow> Coins \<Rightarrow> ledger \<Rightarrow> ledger" where
  "credit a cs w = w\<lparr>balances := (\<lambda>x d. balances w x d + (if x = a then coins_amount cs d else 0))\<rparr>"

definition debit :: "string \<Rightarrow> Coins \<Rightarrow> ledger \<Rightarrow> ledger" where
  "debit a cs w = w\<lparr>balances := (\<lambda>x d. balances w x d - (if x = a then coins_amount cs d else 0))\<rparr>"

definition covers :: "string \<Rightarrow> Coins \<Rightarrow> ledger \<Rightarrow> bool" where
  "covers a cs w = list_all (\<lambda>c. coins_amount cs (Denom c) \<le> balances w a (Denom c)) cs"

definition ledger_send :: "string \<Rightarrow> string \<Rightarrow> Coins \<Rightarrow> ledger \<Rightarrow> unit res \<times> ledger" where
  "ledger_send a b cs w =
     (if covers a cs w then (Inr (), credit b cs (debit a cs w))
      else (Inl ErrInsufficientFunds, w))"

definition ledger_mint :: "string \<Rightarrow> Coins \<Rightarrow> ledger \<Rightarrow> unit res \<times> ledger" where
  "ledger_mint m cs w =
     (Inr (), credit m cs (w\<lparr>supplies := (\<lambda>d. supplies w d + coins_amount cs d)\<rparr>))"

definition ledger_burn :: "string \<Rightarrow> Coins \<Rightarrow> ledger \<Rightarrow> unit res \<times> ledger" where
  "ledger_burn m cs w =
     (if covers m cs w
      then (Inr (), debit m cs (w\<lparr>supplies := (\<lambda>d. supplies w d - coins_amount cs d)\<rparr>))
      else (Inl ErrInsufficientFunds, w))"

definition ledger_gas :: "u64 \<Rightarrow> ledger \<Rightarrow> unit res \<times> ledger" where
  "ledger_gas n w =
     (if uint n \<le> gas_left w then (Inr (), w\<lparr>gas_left := gas_left w - uint n\<rparr>)
      else (Inl (Panicked ''out of gas''), w\<lparr>gas_left := 0\<rparr>))"

definition addr_char :: "char \<Rightarrow> bool" where
  "addr_char c = (CHR ''a'' \<le> c \<and> c \<le> CHR ''z'' \<or> CHR ''0'' \<le> c \<and> c \<le> CHR ''9'')"

definition ledger_sdk :: "ledger sdk" where
  "ledger_sdk = \<lparr>
     AccAddressFromBech32 = (\<lambda>s. if s \<noteq> [] \<and> list_all addr_char s then Inr s
                               else Inl (Plain ''decoding bech32 failed'')),
     AccAddressString = (\<lambda>a. a),
     ValidateDenom = (\<lambda>d. if 3 \<le> length d \<and> length d \<le> 128 then Inr ()
                          else Inl (Plain ''invalid denom'')),
     CoinIsValid = (\<lambda>c. 0 \<le> Amount c),
     CoinsValidate = (\<lambda>cs. if list_all (\<lambda>c. 0 < Amount c) cs then Inr ()
                           else Inl (Plain ''coin is not positive'')),
     NewCoins = (\<lambda>cs. if list_all (\<lambda>c. 0 \<le> Amount c) cs
                      then Inr (filter (\<lambda>c. Amount c \<noteq> 0) cs)
                      else Inl (Panicked ''invalid coins'')),
     MetadataValidate = (\<lambda>md. if Base md \<noteq> [] then Inr () else Inl (Plain ''blank base'')),
     GetDenomMetaData = (\<lambda>w. metadatas w),
     SetDenomMetaData = (\<lambda>md w. w\<lparr>metadatas := (metadatas w)(Base md \<mapsto> md)\<rparr>),
     MintCoins = ledger_mint,
     BurnCoins = ledger_burn,
     SendCoins = ledger_send,
     SendCoinsFromModuleToAccount = ledger_send,
     SendCoinsFromAccountToModule = ledger_send,
     BlockedAddr = (\<lambda>a. a = ''blocked''),
     FundCommunityPool = (\<lambda>cs a. ledger_send a ''distribution'' cs),
     ConsumeGas = ledger_gas\<rparr>"

lemmas ledger_defs = ledger_send_def ledger_mint_def ledger_burn_def ledger_gas_def credit_def
  debit_def

lemma ledger_bech32: "bech32_laws ledger_sdk"
  by (auto simp: bech32_laws_def ledger_sdk_def list_all_iff addr_char_def less_eq_char_def
      split: if_splits)

lemma ledger_bank: "bank_laws ledger_sdk supplies balances (\<lambda>m. m)"
  by (auto simp: bank_laws_def ledger_sdk_def ledger_defs moved_def split: if_splits)

lemma ledger_metadata: "metadata_laws ledger_sdk"
  by (simp add: metadata_laws_def ledger_sdk_def ledger_defs)

lemma coins_amount_nonzero: "coins_amount (filter (\<lambda>c. Amount c \<noteq> 0) cs) d = coins_amount cs d"
  by (induction cs) auto

lemma ledger_coins: "coins_laws ledger_sdk"
  by (auto simp: coins_laws_def ledger_sdk_def coins_amount_nonzero split: if_splits)

definition ledger0 :: ledger where
  "ledger0 = \<lparr>balances = (\<lambda>a d. 0), supplies = (\<lambda>d. 0), metadatas = (\<lambda>d. None),
     gas_left = 10000000\<rparr>"

end
