(* ===== verification/KVStore.thy ===== *)
theory KVStore
  imports Prelude
begin

text \<open>
  The key-value store a module keeps its state in: byte keys in strictly ascending order,
  each with one value.  The modules read it with \<open>Get\<close>, write it with \<open>Set\<close> and \<open>Delete\<close>,
  and walk a prefix in key order.  The contract the modules rely on is the locale
  \<open>ordered_store\<close>; it is interpreted on the store below, and the component proofs use its
  facts under the qualifier \<open>kvs\<close>.
\<close>

type_synonym 'v kv = "(string \<times> 'v) list"

definition kv_empty :: "'v kv" where "kv_empty = []"

definition kv_get :: "'v kv \<Rightarrow> string \<Rightarrow> 'v option" where
  "kv_get m = map_of m"

fun kv_set :: "string \<Rightarrow> 'v \<Rightarrow> 'v kv \<Rightarrow> 'v kv" where
  "kv_set k v [] = [(k, v)]"
| "kv_set k v ((k', v') # m) =
     (if k = k' then (k, v) # m
      else if k < k' then (k, v) # (k', v') # m
      else (k', v') # kv_set k v m)"

definition kv_del :: "string \<Rightarrow> 'v kv \<Rightarrow> 'v kv" where
  "kv_del k m = filter (\<lambda>e. fst e \<noteq> k) m"

definition kv_has :: "'v kv \<Rightarrow> string \<Rightarrow> bool" where
  "kv_has m k = (kv_get m k \<noteq> None)"

text \<open>
  \<open>prefix.NewStore(store, p).Iterator(nil, nil)\<close>: the entries below \<open>p\<close>, in key order, with
  the prefix cut off the keys.
\<close>

definition kv_scan :: "string \<Rightarrow> 'v kv \<Rightarrow> (string \<times> 'v) list" where
  "kv_scan p m = map (\<lambda>e. (drop (length p) (fst e), snd e)) (filter (\<lambda>e. prefix p (fst e)) m)"

definition kv_wf :: "'v kv \<Rightarrow> bool" where
  "kv_wf m = sorted_wrt (<) (map fst m)"

lemma fst_kv_set: "fst ` set (kv_set k v m) = insert k (fst ` set m)"
  by (induction k v m rule: kv_set.induct) auto

lemma kv_get_set: "kv_get (kv_set k v m) = (kv_get m)(k \<mapsto> v)"
  by (induction k v m rule: kv_set.induct) (auto simp: kv_get_def fun_eq_iff)

lemma kv_get_del: "kv_get (kv_del k m) = (kv_get m)(k := None)"
  by (induction m) (auto simp: kv_get_def kv_del_def fun_eq_iff)

lemma kv_wf_set: "kv_wf m \<Longrightarrow> kv_wf (kv_set k v m)"
proof (induction k v m rule: kv_set.induct)
  case (2 k v k' v' m)
  then show ?case
    using fst_kv_set [of k v m] by (auto simp: kv_wf_def image_iff)
qed (simp add: kv_wf_def)

lemma kv_wf_del: "kv_wf m \<Longrightarrow> kv_wf (kv_del k m)"
  by (induction m) (auto simp: kv_wf_def kv_del_def)

lemma kv_wf_distinct: "kv_wf m \<Longrightarrow> distinct (map fst m)"
  unfolding kv_wf_def by (rule strict_sorted_distinct)

lemma kv_get_iff: "kv_wf m \<Longrightarrow> kv_get m k = Some v \<longleftrightarrow> (k, v) \<in> set m"
  by (simp add: kv_get_def kv_wf_distinct)

lemma kv_scan_iff: "kv_wf m \<Longrightarrow> (k, v) \<in> set (kv_scan p m) \<longleftrightarrow> kv_get m (p @ k) = Some v"
  by (force simp: kv_scan_def kv_get_iff prefix_def)

lemma kv_scan_sorted: "kv_wf m \<Longrightarrow> sorted_wrt (<) (map fst (kv_scan p m))"
proof (induction m)
  case Nil
  then show ?case by (simp add: kv_scan_def)
next
  case (Cons e m)
  then have IH: "sorted_wrt (<) (map fst (kv_scan p m))"
    by (simp add: kv_wf_def)
  have less: "\<And>k. k \<in> fst ` set m \<Longrightarrow> fst e < k"
    using Cons.prems by (auto simp: kv_wf_def)
  show ?case
  proof (cases "prefix p (fst e)")
    case True
    then obtain r where r: "fst e = p @ r" by (auto simp: prefix_def)
    have "r < k" if "k \<in> fst ` set (kv_scan p m)" for k
    proof -
      from that obtain v where "(p @ k, v) \<in> set m"
        by (force simp: kv_scan_def prefix_def)
      then have "p @ r < p @ k" using less r by force
      then show ?thesis by (induction p) auto
    qed
    moreover have "map fst (kv_scan p (e # m)) = r # map fst (kv_scan p m)"
      using True r by (simp add: kv_scan_def)
    ultimately show ?thesis using IH by simp
  next
    case False
    then have "kv_scan p (e # m) = kv_scan p m" by (simp add: kv_scan_def)
    then show ?thesis using IH by simp
  qed
qed

text \<open>The contract of a store, as the modules' code relies on it.\<close>

locale ordered_store =
  fixes empty :: "'m"
    and get :: "'m \<Rightarrow> string \<Rightarrow> 'v option"
    and set_key :: "string \<Rightarrow> 'v \<Rightarrow> 'm \<Rightarrow> 'm"
    and del :: "string \<Rightarrow> 'm \<Rightarrow> 'm"
    and scan :: "string \<Rightarrow> 'm \<Rightarrow> (string \<times> 'v) list"
    and wf :: "'m \<Rightarrow> bool"
  assumes wf_empty: "wf empty"
    and wf_set: "wf m \<Longrightarrow> wf (set_key k v m)"
    and wf_del: "wf m \<Longrightarrow> wf (del k m)"
    and get_empty: "get empty k = None"
    and get_set: "get (set_key k v m) = (get m)(k \<mapsto> v)"
    and get_del: "get (del k m) = (get m)(k := None)"
    and scan_iff: "wf m \<Longrightarrow> (k, v) \<in> set (scan p m) \<longleftrightarrow> get m (p @ k) = Some v"
    and scan_sorted: "wf m \<Longrightarrow> sorted_wrt (<) (map fst (scan p m))"
begin

lemma scan_keys_distinct: "wf m \<Longrightarrow> distinct (map fst (scan p m))"
  by (rule strict_sorted_distinct) (rule scan_sorted)

lemma scan_unique:
  assumes "wf m" and "wf m'" and "get m = get m'"
  shows "scan p m = scan p m'"
proof (rule map_sorted_distinct_set_unique [of fst])
  show "inj_on fst (set (scan p m) \<union> set (scan p m'))"
    using assms by (auto simp: inj_on_def scan_iff)
  show "sorted (map fst (scan p m))" "sorted (map fst (scan p m'))"
    using assms scan_sorted by (auto intro: strict_sorted_imp_sorted)
  show "distinct (map fst (scan p m))" "distinct (map fst (scan p m'))"
    using assms scan_keys_distinct by auto
  show "set (scan p m) = set (scan p m')"
    using assms by (auto simp: scan_iff)
qed

lemma scan_set_other:
  assumes "wf m" and "\<not> prefix p k"
  shows "scan p (set_key k v m) = scan p m"
proof (rule map_sorted_distinct_set_unique [of fst])
  show "set (scan p (set_key k v m)) = set (scan p m)"
    using assms by (auto simp: scan_iff wf_set get_set split: if_splits)
  show "inj_on fst (set (scan p (set_key k v m)) \<union> set (scan p m))"
    using assms by (auto simp: inj_on_def scan_iff wf_set get_set split: if_splits)
  show "sorted (map fst (scan p (set_key k v m)))" "sorted (map fst (scan p m))"
    using assms by (auto intro: strict_sorted_imp_sorted scan_sorted wf_set)
  show "distinct (map fst (scan p (set_key k v m)))" "distinct (map fst (scan p m))"
    using assms by (auto intro: scan_keys_distinct wf_set)
qed

lemma scan_keys_iff: "wf m \<Longrightarrow> j \<in> fst ` set (scan p m) \<longleftrightarrow> get m (p @ j) \<noteq> None"
  using scan_iff [of m j _ p] by force

lemma scan_keys_set:
  assumes "wf m"
  shows "fst ` set (scan p (set_key (p @ k) v m)) = insert k (fst ` set (scan p m))"
  by (rule set_eqI) (simp add: scan_keys_iff assms wf_set get_set)

end

interpretation kvs: ordered_store kv_empty kv_get kv_set kv_del kv_scan kv_wf
proof
  show "kv_wf kv_empty" by (simp add: kv_wf_def kv_empty_def)
  show "kv_get kv_empty k = None" for k by (simp add: kv_get_def kv_empty_def)
qed (simp_all add: kv_wf_set kv_wf_del kv_get_set kv_get_del kv_scan_iff kv_scan_sorted)

lemmas kv_simps = kvs.get_set kvs.get_del kvs.get_empty kvs.wf_set kvs.wf_del kvs.wf_empty

lemma kv_has_set [simp]: "kv_has (kv_set k v m) j \<longleftrightarrow> j = k \<or> kv_has m j"
  by (auto simp: kv_has_def kv_simps)

lemma kv_has_del [simp]: "kv_has (kv_del k m) j \<longleftrightarrow> j \<noteq> k \<and> kv_has m j"
  by (auto simp: kv_has_def kv_simps)

end
