(* ===== verification/ParamsServer.thy ===== *)
theory ParamsServer
  imports Prelude
begin

text \<open>
  The contract every module's \<open>UpdateParams\<close> handler follows: a request is refused unless it
  names the keeper's authority, refused without any write when the parameters do not validate,
  and otherwise stores the parameters, which the module then reads back in their wire form.
  The modules that have such a handler interpret the locale on their own definitions.
\<close>

locale params_server =
  fixes update :: "'k \<Rightarrow> string \<Rightarrow> 'p \<Rightarrow> 's \<Rightarrow> unit res \<times> 's"
    and authority :: "'k \<Rightarrow> string"
    and validate :: "'p \<Rightarrow> unit res"
    and current :: "'s \<Rightarrow> 'p res"
    and wire :: "'p \<Rightarrow> 'p"
  assumes refuse: "authority k \<noteq> a \<Longrightarrow> update k a p s = (Inl ErrGovInvalidSigner, s)"
    and invalid: "authority k = a \<Longrightarrow> validate p = Inl e \<Longrightarrow>
      \<not> is_ok (fst (update k a p s)) \<and> snd (update k a p s) = s"
    and accept: "authority k = a \<Longrightarrow> validate p = Inr () \<Longrightarrow>
      fst (update k a p s) = Inr () \<and> current (snd (update k a p s)) = Inr (wire p)"
begin

lemma update_ok_iff:
  "fst (update k a p s) = Inr () \<longleftrightarrow> authority k = a \<and> validate p = Inr ()"
proof (cases "authority k = a")
  case True
  then show ?thesis
  proof (cases "validate p")
    case (Inl e)
    then show ?thesis using invalid [OF True Inl, of s] by (auto simp: is_ok_iff)
  next
    case (Inr u)
    then show ?thesis using accept [OF True, of p s] True by simp
  qed
next
  case False
  then show ?thesis using refuse [OF False, of p s] by simp
qed

lemma update_fail_same: "fst (update k a p s) \<noteq> Inr () \<Longrightarrow> snd (update k a p s) = s"
proof (cases "authority k = a")
  case True
  assume "fst (update k a p s) \<noteq> Inr ()"
  then obtain e where "validate p = Inl e"
    using accept [OF True, of p s] by (cases "validate p") auto
  then show ?thesis using invalid [OF True, of p e s] by simp
next
  case False
  then show ?thesis using refuse [OF False, of p s] by simp
qed

text \<open>
  After any sequence of requests the parameters in force are those of the last request that
  came from the authority and validates, and the initial ones when there is none.
\<close>

lemma params_in_force:
  "current (foldl (\<lambda>s (a, p). snd (update k a p s)) s reqs) =
     (case rev (filter (\<lambda>(a, p). authority k = a \<and> validate p = Inr ()) reqs) of
        [] \<Rightarrow> current s
      | (a, p) # _ \<Rightarrow> Inr (wire p))"
proof (induction reqs rule: rev_induct)
  case Nil
  then show ?case by simp
next
  case (snoc r reqs)
  obtain a p where r: "r = (a, p)" by (cases r)
  let ?s = "foldl (\<lambda>s (a, p). snd (update k a p s)) s reqs"
  show ?case
  proof (cases "authority k = a \<and> validate p = Inr ()")
    case True
    then show ?thesis using accept [of k a p ?s] r by simp
  next
    case False
    then have "snd (update k a p ?s) = ?s"
      using update_ok_iff [of k a p ?s] update_fail_same [of k a p ?s] by simp
    then have "foldl (\<lambda>s (a, p). snd (update k a p s)) s (reqs @ [r]) = ?s"
      using r by simp
    moreover have "filter (\<lambda>(a, p). authority k = a \<and> validate p = Inr ()) (reqs @ [r])
        = filter (\<lambda>(a, p). authority k = a \<and> validate p = Inr ()) reqs"
      using False r by simp
    ultimately show ?thesis using snoc by simp
  qed
qed

end

end
