(* ===== verification/TokenFactory.thy ===== *)
theory TokenFactory
  imports Sdk KVStore ParamsServer
begin

text \<open>
  Module \<open>x/tokenfactory\<close>: denominations \<open>factory/{creator}/{subdenom}\<close> that their admin
  mints, burns, transfers and describes.  The state is the module's store (parameters, the
  admin of each denomination, the denominations of each creator) and the chain state behind
  the SDK calls.  Handlers return a result and the state at the point they stop, so writes
  made before an error are visible; the rollback of a failed message is \<open>tf_deliver\<close>.
\<close>

section \<open>Errors, keys and data\<close>

abbreviation TFErrDenomExists :: error where "TFErrDenomExists \<equiv> Registered ''tokenfactory'' 2"
abbreviation TFErrUnauthorized :: error where "TFErrUnauthorized \<equiv> Registered ''tokenfactory'' 3"
abbreviation TFErrInvalidDenom :: error where "TFErrInvalidDenom \<equiv> Registered ''tokenfactory'' 4"
abbreviation TFErrInvalidCreator :: error where "TFErrInvalidCreator \<equiv> Registered ''tokenfactory'' 5"
abbreviation TFErrInvalidAuthorityMetadata :: error where
  "TFErrInvalidAuthorityMetadata \<equiv> Registered ''tokenfactory'' 6"
abbreviation TFErrInvalidGenesis :: error where "TFErrInvalidGenesis \<equiv> Registered ''tokenfactory'' 7"
abbreviation TFErrSubdenomTooLong :: error where "TFErrSubdenomTooLong \<equiv> Registered ''tokenfactory'' 8"
abbreviation TFErrCreatorTooLong :: error where "TFErrCreatorTooLong \<equiv> Registered ''tokenfactory'' 9"
abbreviation TFErrDenomDoesNotExist :: error where
  "TFErrDenomDoesNotExist \<equiv> Registered ''tokenfactory'' 10"
abbreviation TFErrCapabilityNotEnabled :: error where
  "TFErrCapabilityNotEnabled \<equiv> Registered ''tokenfactory'' 11"

definition ModuleName :: string where "ModuleName = ''tokenfactory''"
definition ModuleDenomPrefix :: string where "ModuleDenomPrefix = ''factory''"
definition MaxSubdenomLength :: nat where "MaxSubdenomLength = 44"
definition MaxHrpLength :: nat where "MaxHrpLength = 16"
definition MaxCreatorLength :: nat where "MaxCreatorLength = 59 + MaxHrpLength"

definition ParamsKey :: string where "ParamsKey = [CHR 0x00]"
definition DenomAuthorityMetadataKey :: string where
  "DenomAuthorityMetadataKey = ''authoritymetadata''"

definition GetDenomPrefixStore :: "string \<Rightarrow> string" where
  "GetDenomPrefixStore denom = go_join CHR ''|'' [''denoms'', denom, '''']"

definition GetCreatorPrefix :: "string \<Rightarrow> string" where
  "GetCreatorPrefix creator = go_join CHR ''|'' [''creator'', creator, '''']"

definition GetCreatorsPrefix :: string where
  "GetCreatorsPrefix = go_join CHR ''|'' [''creator'', '''']"

record DenomAuthorityMetadata =
  Admin :: string

text \<open>\<open>None\<close> is Go's nil coin set, which the code tells apart from an empty one.\<close>

record TFParams =
  DenomCreationFee :: "Coins option"
  DenomCreationGasConsume :: u64

datatype tf_val = VParams TFParams | VAuth DenomAuthorityMetadata | VDenom string

record 'w tf_state =
  tf_store :: "tf_val kv"
  tf_world :: 'w

record tf_keeper =
  enabledCapabilities :: "string list"
  tf_authority :: string

text \<open>\<open>NewKeeper\<close> sets neither the capabilities nor the authority: both keep Go's zero value.\<close>

definition NewKeeper :: tf_keeper where
  "NewKeeper = \<lparr>enabledCapabilities = [], tf_authority = ''''\<rparr>"

definition EnableSetMetadata :: string where "EnableSetMetadata = ''enable_metadata''"
definition EnableForceTransfer :: string where "EnableForceTransfer = ''enable_force_transfer''"
definition EnableBurnFrom :: string where "EnableBurnFrom = ''enable_burn_from''"

definition IsCapabilityEnabled :: "string list \<Rightarrow> string \<Rightarrow> bool" where
  "IsCapabilityEnabled caps c = (if caps = [] then True else list_ex (\<lambda>v. v = c) caps)"

section \<open>Denominations\<close>

definition GetTokenDenom :: "'w sdk \<Rightarrow> string \<Rightarrow> string \<Rightarrow> string res" where
  "GetTokenDenom S creator subdenom =
     (if MaxSubdenomLength < length subdenom then Inl TFErrSubdenomTooLong
      else if MaxCreatorLength < length creator then Inl TFErrCreatorTooLong
      else if CHR ''/'' \<in> set creator then Inl TFErrInvalidCreator
      else let denom = go_join CHR ''/'' [ModuleDenomPrefix, creator, subdenom]
           in case ValidateDenom S denom of Inl e \<Rightarrow> Inl e | Inr _ \<Rightarrow> Inr denom)"

definition DeconstructDenom :: "'w sdk \<Rightarrow> string \<Rightarrow> (string \<times> string) res" where
  "DeconstructDenom S denom =
     (case ValidateDenom S denom of
        Inl e \<Rightarrow> Inl e
      | Inr _ \<Rightarrow>
          let strParts = go_split CHR ''/'' denom in
          if length strParts < 3 then Inl TFErrInvalidDenom
          else if strParts ! 0 \<noteq> ModuleDenomPrefix then Inl TFErrInvalidDenom
          else (case AccAddressFromBech32 S (strParts ! 1) of
                  Inl e \<Rightarrow> Inl TFErrInvalidDenom
                | Inr creatorAddr \<Rightarrow>
                    Inr (AccAddressString S creatorAddr, go_join CHR ''/'' (drop 2 strParts))))"

section \<open>Store access\<close>

definition TFParamsValidate :: "'w sdk \<Rightarrow> TFParams \<Rightarrow> unit res" where
  "TFParamsValidate S p =
     (case CoinsValidate S (case DenomCreationFee p of None \<Rightarrow> [] | Some cs \<Rightarrow> cs) of
        Inl e \<Rightarrow> Inl (Plain ''invalid denom creation fee'')
      | Inr _ \<Rightarrow> Inr ())"

text \<open>The wire form has no element for an empty list, so an empty fee is read back as nil.\<close>

definition tf_params_wire :: "TFParams \<Rightarrow> TFParams" where
  "tf_params_wire p =
     p\<lparr>DenomCreationFee := (if DenomCreationFee p = Some [] then None else DenomCreationFee p)\<rparr>"

definition TFGetParams :: "'w tf_state \<Rightarrow> TFParams res" where
  "TFGetParams st =
     (case kv_get (tf_store st) ParamsKey of
        None \<Rightarrow> Inr \<lparr>DenomCreationFee = None, DenomCreationGasConsume = 0\<rparr>
      | Some (VParams p) \<Rightarrow> Inr p
      | Some _ \<Rightarrow> Inl (Panicked ''unmarshal params''))"

definition TFSetParams :: "'w sdk \<Rightarrow> TFParams \<Rightarrow> 'w tf_state \<Rightarrow> unit res \<times> 'w tf_state" where
  "TFSetParams S p st =
     (case TFParamsValidate S p of
        Inl e \<Rightarrow> (Inl (Panicked ''invalid params''), st)
      | Inr _ \<Rightarrow>
          (Inr (), st\<lparr>tf_store := kv_set ParamsKey (VParams (tf_params_wire p)) (tf_store st)\<rparr>))"

definition AuthorityMetadataValidate :: "'w sdk \<Rightarrow> DenomAuthorityMetadata \<Rightarrow> unit res" where
  "AuthorityMetadataValidate S m =
     (if Admin m \<noteq> '''' then
        (case AccAddressFromBech32 S (Admin m) of Inl e \<Rightarrow> Inl e | Inr _ \<Rightarrow> Inr ())
      else Inr ())"

definition auth_key :: "string \<Rightarrow> string" where
  "auth_key denom = GetDenomPrefixStore denom @ DenomAuthorityMetadataKey"

text \<open>Unmarshalling the absent value gives the zero metadata, with no admin.\<close>

definition GetAuthorityMetadata :: "'w tf_state \<Rightarrow> string \<Rightarrow> DenomAuthorityMetadata res" where
  "GetAuthorityMetadata st denom =
     (case kv_get (tf_store st) (auth_key denom) of
        None \<Rightarrow> Inr \<lparr>Admin = ''''\<rparr>
      | Some (VAuth m) \<Rightarrow> Inr m
      | Some _ \<Rightarrow> Inl (Plain ''unmarshal authority metadata''))"

definition setAuthorityMetadata ::
  "'w sdk \<Rightarrow> string \<Rightarrow> DenomAuthorityMetadata \<Rightarrow> 'w tf_state \<Rightarrow> unit res \<times> 'w tf_state" where
  "setAuthorityMetadata S denom m st =
     (case AuthorityMetadataValidate S m of
        Inl e \<Rightarrow> (Inl e, st)
      | Inr _ \<Rightarrow> (Inr (), st\<lparr>tf_store := kv_set (auth_key denom) (VAuth m) (tf_store st)\<rparr>))"

definition setAdmin :: "'w sdk \<Rightarrow> string \<Rightarrow> string \<Rightarrow> 'w tf_state \<Rightarrow> unit res \<times> 'w tf_state" where
  "setAdmin S denom admin st =
     (case GetAuthorityMetadata st denom of
        Inl e \<Rightarrow> (Inl e, st)
      | Inr m \<Rightarrow> setAuthorityMetadata S denom (m\<lparr>Admin := admin\<rparr>) st)"

definition addDenomFromCreator :: "string \<Rightarrow> string \<Rightarrow> 'w tf_state \<Rightarrow> 'w tf_state" where
  "addDenomFromCreator creator denom st =
     st\<lparr>tf_store := kv_set (GetCreatorPrefix creator @ denom) (VDenom denom) (tf_store st)\<rparr>"

definition GetDenomsFromCreator :: "'w tf_state \<Rightarrow> string \<Rightarrow> string list" where
  "GetDenomsFromCreator st creator = map fst (kv_scan (GetCreatorPrefix creator) (tf_store st))"

definition GetAllDenomsIterator :: "'w tf_state \<Rightarrow> (string \<times> tf_val) list" where
  "GetAllDenomsIterator st = kv_scan GetCreatorsPrefix (tf_store st)"

section \<open>Creating a denomination\<close>

definition validateCreateDenom :: "'w sdk \<Rightarrow> string \<Rightarrow> string \<Rightarrow> 'w tf_state \<Rightarrow> string res" where
  "validateCreateDenom S creatorAddr subdenom st =
     (case GetTokenDenom S creatorAddr subdenom of
        Inl e \<Rightarrow> Inl e
      | Inr denom \<Rightarrow>
          (case GetDenomMetaData S (tf_world st) denom of
             Some _ \<Rightarrow> Inl TFErrDenomExists
           | None \<Rightarrow> Inr denom))"

definition consumeDenomGas :: "'w sdk \<Rightarrow> u64 \<Rightarrow> 'w tf_state \<Rightarrow> unit res \<times> 'w tf_state" where
  "consumeDenomGas S g st =
     (if g \<noteq> 0 then (case ConsumeGas S g (tf_world st) of (r, w) \<Rightarrow> (r, st\<lparr>tf_world := w\<rparr>))
      else (Inr (), st))"

definition chargeForCreateDenom ::
  "'w sdk \<Rightarrow> string \<Rightarrow> string \<Rightarrow> 'w tf_state \<Rightarrow> unit res \<times> 'w tf_state" where
  "chargeForCreateDenom S creatorAddr subdenom st =
     (case TFGetParams st of
        Inl e \<Rightarrow> (Inl e, st)
      | Inr params \<Rightarrow>
          (case DenomCreationFee params of
             None \<Rightarrow> consumeDenomGas S (DenomCreationGasConsume params) st
           | Some fee \<Rightarrow>
               (case AccAddressFromBech32 S creatorAddr of
                  Inl e \<Rightarrow> (Inl e, st)
                | Inr accAddr \<Rightarrow>
                    (case FundCommunityPool S fee accAddr (tf_world st) of
                       (Inl e, w) \<Rightarrow> (Inl e, st\<lparr>tf_world := w\<rparr>)
                     | (Inr _, w) \<Rightarrow>
                         consumeDenomGas S (DenomCreationGasConsume params) (st\<lparr>tf_world := w\<rparr>)))))"

definition createDenomAfterValidation ::
  "'w sdk \<Rightarrow> string \<Rightarrow> string \<Rightarrow> 'w tf_state \<Rightarrow> unit res \<times> 'w tf_state" where
  "createDenomAfterValidation S creatorAddr denom st =
     (let denomMetaData = \<lparr>Description = '''', DenomUnits = [\<lparr>UnitDenom = denom, Exponent = 0\<rparr>],
            Base = denom, Display = denom, MdName = denom, Symbol = denom\<rparr>;
          st1 = st\<lparr>tf_world := SetDenomMetaData S denomMetaData (tf_world st)\<rparr>
      in case setAuthorityMetadata S denom \<lparr>Admin = creatorAddr\<rparr> st1 of
           (Inl e, st2) \<Rightarrow> (Inl e, st2)
         | (Inr _, st2) \<Rightarrow> (Inr (), addDenomFromCreator creatorAddr denom st2))"

definition KeeperCreateDenom ::
  "'w sdk \<Rightarrow> string \<Rightarrow> string \<Rightarrow> 'w tf_state \<Rightarrow> string res \<times> 'w tf_state" where
  "KeeperCreateDenom S creatorAddr subdenom st =
     (case validateCreateDenom S creatorAddr subdenom st of
        Inl e \<Rightarrow> (Inl e, st)
      | Inr denom \<Rightarrow>
          (case chargeForCreateDenom S creatorAddr subdenom st of
             (Inl e, st1) \<Rightarrow> (Inl e, st1)
           | (Inr _, st1) \<Rightarrow>
               (case createDenomAfterValidation S creatorAddr denom st1 of
                  (Inl e, st2) \<Rightarrow> (Inl e, st2)
                | (Inr _, st2) \<Rightarrow> (Inr denom, st2))))"

section \<open>Bank actions\<close>

definition mintTo :: "'w sdk \<Rightarrow> Coin \<Rightarrow> string \<Rightarrow> 'w \<Rightarrow> unit res \<times> 'w" where
  "mintTo S amount to w =
     (case DeconstructDenom S (Denom amount) of
        Inl e \<Rightarrow> (Inl e, w)
      | Inr _ \<Rightarrow>
     (case NewCoins S [amount] of
        Inl e \<Rightarrow> (Inl e, w)
      | Inr coins \<Rightarrow>
     (case MintCoins S ModuleName coins w of
        (Inl e, w1) \<Rightarrow> (Inl e, w1)
      | (Inr _, w1) \<Rightarrow>
     (case AccAddressFromBech32 S to of
        Inl e \<Rightarrow> (Inl e, w1)
      | Inr addr \<Rightarrow>
          if BlockedAddr S addr then (Inl (Plain ''failed to mint to blocked address''), w1)
          else SendCoinsFromModuleToAccount S ModuleName addr coins w1))))"

definition burnFrom :: "'w sdk \<Rightarrow> Coin \<Rightarrow> string \<Rightarrow> 'w \<Rightarrow> unit res \<times> 'w" where
  "burnFrom S amount from_addr w =
     (case DeconstructDenom S (Denom amount) of
        Inl e \<Rightarrow> (Inl e, w)
      | Inr _ \<Rightarrow>
     (case AccAddressFromBech32 S from_addr of
        Inl e \<Rightarrow> (Inl e, w)
      | Inr addr \<Rightarrow>
          if BlockedAddr S addr then (Inl (Plain ''failed to burn from blocked address''), w)
          else
     (case NewCoins S [amount] of
        Inl e \<Rightarrow> (Inl e, w)
      | Inr coins \<Rightarrow>
     (case SendCoinsFromAccountToModule S addr ModuleName coins w of
        (Inl e, w1) \<Rightarrow> (Inl e, w1)
      | (Inr _, w1) \<Rightarrow> BurnCoins S ModuleName coins w1))))"

definition forceTransfer :: "'w sdk \<Rightarrow> Coin \<Rightarrow> string \<Rightarrow> string \<Rightarrow> 'w \<Rightarrow> unit res \<times> 'w" where
  "forceTransfer S amount fromAddr toAddr w =
     (case DeconstructDenom S (Denom amount) of
        Inl e \<Rightarrow> (Inl e, w)
      | Inr _ \<Rightarrow>
     (case AccAddressFromBech32 S fromAddr of
        Inl e \<Rightarrow> (Inl e, w)
      | Inr fromSdkAddr \<Rightarrow>
     (case AccAddressFromBech32 S toAddr of
        Inl e \<Rightarrow> (Inl e, w)
      | Inr toSdkAddr \<Rightarrow>
          if BlockedAddr S toSdkAddr
          then (Inl (Plain ''failed to force transfer to blocked address''), w)
          else
     (case NewCoins S [amount] of
        Inl e \<Rightarrow> (Inl e, w)
      | Inr coins \<Rightarrow> SendCoins S fromSdkAddr toSdkAddr coins w))))"

section \<open>Messages\<close>

record MsgCreateDenom =
  cd_Sender :: string
  cd_Subdenom :: string

record MsgMint =
  mint_Sender :: string
  mint_Amount :: Coin
  MintToAddress :: string

record MsgBurn =
  burn_Sender :: string
  burn_Amount :: Coin
  BurnFromAddress :: string

record MsgForceTransfer =
  ft_Sender :: string
  ft_Amount :: Coin
  TransferFromAddress :: string
  TransferToAddress :: string

record MsgChangeAdmin =
  ca_Sender :: string
  ca_Denom :: string
  NewAdmin :: string

record MsgSetDenomMetadata =
  sm_Sender :: string
  sm_Metadata :: Metadata

record TFMsgUpdateParams =
  tfup_Authority :: string
  tfup_Params :: TFParams

definition validAddr :: "'w sdk \<Rightarrow> string \<Rightarrow> bool" where
  "validAddr S a = is_ok (AccAddressFromBech32 S a)"

definition MsgCreateDenom_ValidateBasic :: "'w sdk \<Rightarrow> MsgCreateDenom \<Rightarrow> unit res" where
  "MsgCreateDenom_ValidateBasic S m =
     (if \<not> validAddr S (cd_Sender m) then Inl ErrInvalidAddress
      else case GetTokenDenom S (cd_Sender m) (cd_Subdenom m) of
             Inl e \<Rightarrow> Inl TFErrInvalidDenom
           | Inr _ \<Rightarrow> Inr ())"

definition MsgMint_ValidateBasic :: "'w sdk \<Rightarrow> MsgMint \<Rightarrow> unit res" where
  "MsgMint_ValidateBasic S m =
     (if \<not> validAddr S (mint_Sender m) then Inl ErrInvalidAddress
      else if MintToAddress m \<noteq> '''' \<and> \<not> validAddr S (MintToAddress m) then Inl ErrInvalidAddress
      else if \<not> CoinIsValid S (mint_Amount m) \<or> Amount (mint_Amount m) = 0 then Inl ErrInvalidCoins
      else Inr ())"

definition MsgBurn_ValidateBasic :: "'w sdk \<Rightarrow> MsgBurn \<Rightarrow> unit res" where
  "MsgBurn_ValidateBasic S m =
     (if \<not> validAddr S (burn_Sender m) then Inl ErrInvalidAddress
      else if \<not> CoinIsValid S (burn_Amount m) \<or> Amount (burn_Amount m) = 0 then Inl ErrInvalidCoins
      else if BurnFromAddress m \<noteq> '''' \<and> \<not> validAddr S (BurnFromAddress m)
      then Inl ErrInvalidAddress
      else Inr ())"

definition MsgForceTransfer_ValidateBasic :: "'w sdk \<Rightarrow> MsgForceTransfer \<Rightarrow> unit res" where
  "MsgForceTransfer_ValidateBasic S m =
     (if \<not> validAddr S (ft_Sender m) then Inl ErrInvalidAddress
      else if \<not> validAddr S (TransferFromAddress m) then Inl ErrInvalidAddress
      else if \<not> validAddr S (TransferToAddress m) then Inl ErrInvalidAddress
      else if \<not> CoinIsValid S (ft_Amount m) then Inl ErrInvalidCoins
      else Inr ())"

definition MsgChangeAdmin_ValidateBasic :: "'w sdk \<Rightarrow> MsgChangeAdmin \<Rightarrow> unit res" where
  "MsgChangeAdmin_ValidateBasic S m =
     (if \<not> validAddr S (ca_Sender m) then Inl ErrInvalidAddress
      else if \<not> validAddr S (NewAdmin m) then Inl ErrInvalidAddress
      else case DeconstructDenom S (ca_Denom m) of Inl e \<Rightarrow> Inl e | Inr _ \<Rightarrow> Inr ())"

definition MsgSetDenomMetadata_ValidateBasic :: "'w sdk \<Rightarrow> MsgSetDenomMetadata \<Rightarrow> unit res" where
  "MsgSetDenomMetadata_ValidateBasic S m =
     (if \<not> validAddr S (sm_Sender m) then Inl ErrInvalidAddress
      else case MetadataValidate S (sm_Metadata m) of
             Inl e \<Rightarrow> Inl e
           | Inr _ \<Rightarrow> (case DeconstructDenom S (Base (sm_Metadata m)) of
                         Inl e \<Rightarrow> Inl e | Inr _ \<Rightarrow> Inr ()))"

definition TFMsgUpdateParams_ValidateBasic :: "'w sdk \<Rightarrow> TFMsgUpdateParams \<Rightarrow> unit res" where
  "TFMsgUpdateParams_ValidateBasic S m =
     (case AccAddressFromBech32 S (tfup_Authority m) of
        Inl e \<Rightarrow> Inl e
      | Inr _ \<Rightarrow> TFParamsValidate S (tfup_Params m))"

section \<open>The message server\<close>

definition CreateDenom ::
  "'w sdk \<Rightarrow> MsgCreateDenom \<Rightarrow> 'w tf_state \<Rightarrow> string res \<times> 'w tf_state" where
  "CreateDenom S msg st =
     (case MsgCreateDenom_ValidateBasic S msg of
        Inl e \<Rightarrow> (Inl e, st)
      | Inr _ \<Rightarrow> KeeperCreateDenom S (cd_Sender msg) (cd_Subdenom msg) st)"

definition on_world :: "('w \<Rightarrow> 'a \<times> 'w) \<Rightarrow> 'w tf_state \<Rightarrow> 'a \<times> 'w tf_state" where
  "on_world f st = (case f (tf_world st) of (r, w) \<Rightarrow> (r, st\<lparr>tf_world := w\<rparr>))"

definition Mint :: "'w sdk \<Rightarrow> MsgMint \<Rightarrow> 'w tf_state \<Rightarrow> unit res \<times> 'w tf_state" where
  "Mint S msg st =
     (if GetDenomMetaData S (tf_world st) (Denom (mint_Amount msg)) = None
      then (Inl TFErrDenomDoesNotExist, st)
      else case GetAuthorityMetadata st (Denom (mint_Amount msg)) of
             Inl e \<Rightarrow> (Inl e, st)
           | Inr authorityMetadata \<Rightarrow>
               if mint_Sender msg \<noteq> Admin authorityMetadata then (Inl TFErrUnauthorized, st)
               else let to = (if MintToAddress msg = '''' then mint_Sender msg else MintToAddress msg)
                    in on_world (mintTo S (mint_Amount msg) to) st)"

definition Burn :: "'w sdk \<Rightarrow> tf_keeper \<Rightarrow> MsgBurn \<Rightarrow> 'w tf_state \<Rightarrow> unit res \<times> 'w tf_state" where
  "Burn S k msg st =
     (case GetAuthorityMetadata st (Denom (burn_Amount msg)) of
        Inl e \<Rightarrow> (Inl e, st)
      | Inr authorityMetadata \<Rightarrow>
          if burn_Sender msg \<noteq> Admin authorityMetadata then (Inl TFErrUnauthorized, st)
          else if BurnFromAddress msg = ''''
          then on_world (burnFrom S (burn_Amount msg) (burn_Sender msg)) st
          else if \<not> IsCapabilityEnabled (enabledCapabilities k) EnableBurnFrom
          then (Inl TFErrCapabilityNotEnabled, st)
          else on_world (burnFrom S (burn_Amount msg) (BurnFromAddress msg)) st)"

definition ForceTransfer ::
  "'w sdk \<Rightarrow> tf_keeper \<Rightarrow> MsgForceTransfer \<Rightarrow> 'w tf_state \<Rightarrow> unit res \<times> 'w tf_state" where
  "ForceTransfer S k msg st =
     (if \<not> IsCapabilityEnabled (enabledCapabilities k) EnableForceTransfer
      then (Inl TFErrCapabilityNotEnabled, st)
      else case GetAuthorityMetadata st (Denom (ft_Amount msg)) of
             Inl e \<Rightarrow> (Inl e, st)
           | Inr authorityMetadata \<Rightarrow>
               if ft_Sender msg \<noteq> Admin authorityMetadata then (Inl TFErrUnauthorized, st)
               else on_world (forceTransfer S (ft_Amount msg) (TransferFromAddress msg)
                                (TransferToAddress msg)) st)"

definition ChangeAdmin :: "'w sdk \<Rightarrow> MsgChangeAdmin \<Rightarrow> 'w tf_state \<Rightarrow> unit res \<times> 'w tf_state" where
  "ChangeAdmin S msg st =
     (case GetAuthorityMetadata st (ca_Denom msg) of
        Inl e \<Rightarrow> (Inl e, st)
      | Inr authorityMetadata \<Rightarrow>
          if ca_Sender msg \<noteq> Admin authorityMetadata then (Inl TFErrUnauthorized, st)
          else setAdmin S (ca_Denom msg) (NewAdmin msg) st)"

definition SetDenomMetadata ::
  "'w sdk \<Rightarrow> tf_keeper \<Rightarrow> MsgSetDenomMetadata \<Rightarrow> 'w tf_state \<Rightarrow> unit res \<times> 'w tf_state" where
  "SetDenomMetadata S k msg st =
     (if \<not> IsCapabilityEnabled (enabledCapabilities k) EnableSetMetadata
      then (Inl TFErrCapabilityNotEnabled, st)
      else case MetadataValidate S (sm_Metadata msg) of
             Inl e \<Rightarrow> (Inl e, st)
           | Inr _ \<Rightarrow>
               (case GetAuthorityMetadata st (Base (sm_Metadata msg)) of
                  Inl e \<Rightarrow> (Inl e, st)
                | Inr authorityMetadata \<Rightarrow>
                    if sm_Sender msg \<noteq> Admin authorityMetadata then (Inl TFErrUnauthorized, st)
                    else (Inr (), st\<lparr>tf_world := SetDenomMetaData S (sm_Metadata msg) (tf_world st)\<rparr>)))"

definition TFUpdateParams ::
  "'w sdk \<Rightarrow> tf_keeper \<Rightarrow> TFMsgUpdateParams \<Rightarrow> 'w tf_state \<Rightarrow> unit res \<times> 'w tf_state" where
  "TFUpdateParams S k req st =
     (if tf_authority k \<noteq> tfup_Authority req then (Inl ErrGovInvalidSigner, st)
      else TFSetParams S (tfup_Params req) st)"

section \<open>Genesis\<close>

record GenesisDenom =
  gd_Denom :: string
  gd_AuthorityMetadata :: DenomAuthorityMetadata

record TFGenesis =
  tfg_Params :: TFParams
  FactoryDenoms :: "GenesisDenom list"

fun genesis_denoms_ok :: "'w sdk \<Rightarrow> string list \<Rightarrow> GenesisDenom list \<Rightarrow> unit res" where
  "genesis_denoms_ok S seenDenoms [] = Inr ()"
| "genesis_denoms_ok S seenDenoms (d # ds) =
     (if gd_Denom d \<in> set seenDenoms then Inl TFErrInvalidGenesis
      else case DeconstructDenom S (gd_Denom d) of
             Inl e \<Rightarrow> Inl e
           | Inr _ \<Rightarrow>
               if Admin (gd_AuthorityMetadata d) \<noteq> '''' \<and> \<not> validAddr S (Admin (gd_AuthorityMetadata d))
               then Inl TFErrInvalidAuthorityMetadata
               else genesis_denoms_ok S (gd_Denom d # seenDenoms) ds)"

definition TFGenesis_Validate :: "'w sdk \<Rightarrow> TFGenesis \<Rightarrow> unit res" where
  "TFGenesis_Validate S gs =
     (case TFParamsValidate S (tfg_Params gs) of
        Inl e \<Rightarrow> Inl e
      | Inr _ \<Rightarrow> genesis_denoms_ok S [] (FactoryDenoms gs))"

fun initDenoms :: "'w sdk \<Rightarrow> GenesisDenom list \<Rightarrow> 'w tf_state \<Rightarrow> unit res \<times> 'w tf_state" where
  "initDenoms S [] st = (Inr (), st)"
| "initDenoms S (d # ds) st =
     (case DeconstructDenom S (gd_Denom d) of
        Inl e \<Rightarrow> (Inl (Panicked ''deconstruct denom''), st)
      | Inr (creator, _) \<Rightarrow>
     (case createDenomAfterValidation S creator (gd_Denom d) st of
        (Inl e, st1) \<Rightarrow> (Inl (Panicked ''create denom''), st1)
      | (Inr _, st1) \<Rightarrow>
     (case setAuthorityMetadata S (gd_Denom d) (gd_AuthorityMetadata d) st1 of
        (Inl e, st2) \<Rightarrow> (Inl (Panicked ''set authority metadata''), st2)
      | (Inr _, st2) \<Rightarrow> initDenoms S ds st2)))"

definition TFInitGenesis :: "'w sdk \<Rightarrow> TFGenesis \<Rightarrow> 'w tf_state \<Rightarrow> unit res \<times> 'w tf_state" where
  "TFInitGenesis S gs st =
     (let params = (if DenomCreationFee (tfg_Params gs) = None
                    then (tfg_Params gs)\<lparr>DenomCreationFee := Some []\<rparr> else tfg_Params gs)
      in case TFSetParams S params st of
           (Inl e, st1) \<Rightarrow> (Inl e, st1)
         | (Inr _, st1) \<Rightarrow> initDenoms S (FactoryDenoms gs) st1)"

fun exportDenoms :: "'w tf_state \<Rightarrow> (string \<times> tf_val) list \<Rightarrow> GenesisDenom list res" where
  "exportDenoms st [] = Inr []"
| "exportDenoms st ((_, v) # it) =
     (case v of
        VDenom denom \<Rightarrow>
          (case GetAuthorityMetadata st denom of
             Inl e \<Rightarrow> Inl (Panicked ''authority metadata'')
           | Inr m \<Rightarrow>
               (case exportDenoms st it of
                  Inl e \<Rightarrow> Inl e
                | Inr ds \<Rightarrow> Inr (\<lparr>gd_Denom = denom, gd_AuthorityMetadata = m\<rparr> # ds)))
      | _ \<Rightarrow> Inl (Panicked ''not a denom entry''))"

definition TFExportGenesis :: "'w tf_state \<Rightarrow> TFGenesis res" where
  "TFExportGenesis st =
     (case exportDenoms st (GetAllDenomsIterator st) of
        Inl e \<Rightarrow> Inl e
      | Inr ds \<Rightarrow>
          (case TFGetParams st of
             Inl e \<Rightarrow> Inl e
           | Inr p \<Rightarrow> Inr \<lparr>tfg_Params = p, FactoryDenoms = ds\<rparr>))"

section \<open>Delivery of messages\<close>

text \<open>
  The application runs a message's stateless check, then its handler on a branch of the state
  that is written back only when the handler succeeds.
\<close>

datatype tf_msg =
    TCreateDenom MsgCreateDenom
  | TMint MsgMint
  | TBurn MsgBurn
  | TForceTransfer MsgForceTransfer
  | TChangeAdmin MsgChangeAdmin
  | TSetDenomMetadata MsgSetDenomMetadata
  | TUpdateParams TFMsgUpdateParams

primrec tf_basic :: "'w sdk \<Rightarrow> tf_msg \<Rightarrow> unit res" where
  "tf_basic S (TCreateDenom m) = MsgCreateDenom_ValidateBasic S m"
| "tf_basic S (TMint m) = MsgMint_ValidateBasic S m"
| "tf_basic S (TBurn m) = MsgBurn_ValidateBasic S m"
| "tf_basic S (TForceTransfer m) = MsgForceTransfer_ValidateBasic S m"
| "tf_basic S (TChangeAdmin m) = MsgChangeAdmin_ValidateBasic S m"
| "tf_basic S (TSetDenomMetadata m) = MsgSetDenomMetadata_ValidateBasic S m"
| "tf_basic S (TUpdateParams m) = TFMsgUpdateParams_ValidateBasic S m"

primrec tf_handle ::
  "'w sdk \<Rightarrow> tf_keeper \<Rightarrow> tf_msg \<Rightarrow> 'w tf_state \<Rightarrow> unit res \<times> 'w tf_state" where
  "tf_handle S k (TCreateDenom m) st =
     (case CreateDenom S m st of (Inl e, st') \<Rightarrow> (Inl e, st') | (Inr _, st') \<Rightarrow> (Inr (), st'))"
| "tf_handle S k (TMint m) st = Mint S m st"
| "tf_handle S k (TBurn m) st = Burn S k m st"
| "tf_handle S k (TForceTransfer m) st = ForceTransfer S k m st"
| "tf_handle S k (TChangeAdmin m) st = ChangeAdmin S m st"
| "tf_handle S k (TSetDenomMetadata m) st = SetDenomMetadata S k m st"
| "tf_handle S k (TUpdateParams m) st = TFUpdateParams S k m st"

definition tf_deliver ::
  "'w sdk \<Rightarrow> tf_keeper \<Rightarrow> tf_msg \<Rightarrow> 'w tf_state \<Rightarrow> unit res \<times> 'w tf_state" where
  "tf_deliver S k msg st =
     (case tf_basic S msg of
        Inl e \<Rightarrow> (Inl e, st)
      | Inr _ \<Rightarrow> (case tf_handle S k msg st of
                    (Inl e, _) \<Rightarrow> (Inl e, st)
                  | (Inr _, st') \<Rightarrow> (Inr (), st')))"

inductive tf_reach :: "'w sdk \<Rightarrow> tf_keeper \<Rightarrow> 'w tf_state \<Rightarrow> 'w tf_state \<Rightarrow> bool"
  for S :: "'w sdk" and k :: tf_keeper and st0 :: "'w tf_state" where
  tf_init: "tf_reach S k st0 st0"
| tf_step: "tf_reach S k st0 st \<Longrightarrow> tf_deliver S k msg st = (r, st') \<Longrightarrow> tf_reach S k st0 st'"

section \<open>Keys\<close>

lemma auth_key_eq: "auth_key d = ''denoms|'' @ d @ ''|authoritymetadata''"
  by (simp add: auth_key_def GetDenomPrefixStore_def DenomAuthorityMetadataKey_def)

lemma creator_key_eq: "GetCreatorPrefix c @ d = ''creator|'' @ c @ CHR ''|'' # d"
  by (simp add: GetCreatorPrefix_def)

lemma creators_prefix_eq: "GetCreatorsPrefix = ''creator|''"
  by (simp add: GetCreatorsPrefix_def)

lemma auth_key_inj [simp]: "auth_key d = auth_key d' \<longleftrightarrow> d = d'"
  by (simp add: auth_key_eq)

lemma creator_key_inj:
  "CHR ''|'' \<notin> set c \<Longrightarrow> CHR ''|'' \<notin> set c' \<Longrightarrow>
     GetCreatorPrefix c @ d = GetCreatorPrefix c' @ d' \<longleftrightarrow> c = c' \<and> d = d'"
  using sep_append_inj [of "CHR ''|''" c c' d d'] by (auto simp: creator_key_eq)

lemma tf_keys_disjoint [simp]:
  "auth_key d \<noteq> ParamsKey" "ParamsKey \<noteq> auth_key d"
  "auth_key d \<noteq> GetCreatorPrefix c @ e" "GetCreatorPrefix c @ e \<noteq> auth_key d"
  "GetCreatorPrefix c @ e \<noteq> ParamsKey" "ParamsKey \<noteq> GetCreatorPrefix c @ e"
  "auth_key d \<noteq> GetCreatorsPrefix @ e" "GetCreatorsPrefix @ e \<noteq> auth_key d"
  "GetCreatorsPrefix @ e \<noteq> ParamsKey" "ParamsKey \<noteq> GetCreatorsPrefix @ e"
  by (simp_all add: auth_key_eq creator_key_eq creators_prefix_eq ParamsKey_def)

lemma creators_creator_key:
  "GetCreatorsPrefix @ j = GetCreatorPrefix c @ d \<longleftrightarrow> j = c @ CHR ''|'' # d"
  by (simp add: creator_key_eq creators_prefix_eq)

section \<open>What each handler does when it succeeds\<close>

lemma on_world_ok:
  "on_world f st = (Inr x, st') \<longleftrightarrow>
     (\<exists>w. f (tf_world st) = (Inr x, w) \<and> st' = st\<lparr>tf_world := w\<rparr>)"
  by (auto simp: on_world_def split: prod.splits)

lemma mintTo_ok:
  assumes "mintTo S amount to w = (Inr (), w')"
  obtains c sd coins w1 addr where
    "DeconstructDenom S (Denom amount) = Inr (c, sd)" "NewCoins S [amount] = Inr coins"
    "MintCoins S ModuleName coins w = (Inr (), w1)" "AccAddressFromBech32 S to = Inr addr"
    "\<not> BlockedAddr S addr" "SendCoinsFromModuleToAccount S ModuleName addr coins w1 = (Inr (), w')"
  using assms by (auto simp: mintTo_def split: sum.splits prod.splits if_splits)

lemma burnFrom_ok:
  assumes "burnFrom S amount from_addr w = (Inr (), w')"
  obtains c sd coins w1 addr where
    "DeconstructDenom S (Denom amount) = Inr (c, sd)" "NewCoins S [amount] = Inr coins"
    "AccAddressFromBech32 S from_addr = Inr addr" "\<not> BlockedAddr S addr"
    "SendCoinsFromAccountToModule S addr ModuleName coins w = (Inr (), w1)"
    "BurnCoins S ModuleName coins w1 = (Inr (), w')"
  using assms by (auto simp: burnFrom_def split: sum.splits prod.splits if_splits)

lemma forceTransfer_ok:
  assumes "forceTransfer S amount a b w = (Inr (), w')"
  obtains c sd coins from_addr to where
    "DeconstructDenom S (Denom amount) = Inr (c, sd)" "NewCoins S [amount] = Inr coins"
    "AccAddressFromBech32 S a = Inr from_addr" "AccAddressFromBech32 S b = Inr to"
    "\<not> BlockedAddr S to" "SendCoins S from_addr to coins w = (Inr (), w')"
  using assms by (auto simp: forceTransfer_def split: sum.splits prod.splits if_splits)

lemma Mint_ok:
  "Mint S msg st = (Inr (), st') \<longleftrightarrow>
     GetDenomMetaData S (tf_world st) (Denom (mint_Amount msg)) \<noteq> None \<and>
     (\<exists>m. GetAuthorityMetadata st (Denom (mint_Amount msg)) = Inr m \<and> Admin m = mint_Sender msg) \<and>
     (\<exists>w. mintTo S (mint_Amount msg)
            (if MintToAddress msg = '''' then mint_Sender msg else MintToAddress msg) (tf_world st)
          = (Inr (), w) \<and> st' = st\<lparr>tf_world := w\<rparr>)"
  by (auto simp: Mint_def on_world_ok Let_def split: sum.splits)

lemma Burn_ok:
  "Burn S k msg st = (Inr (), st') \<longleftrightarrow>
     (\<exists>m. GetAuthorityMetadata st (Denom (burn_Amount msg)) = Inr m \<and> Admin m = burn_Sender msg) \<and>
     (BurnFromAddress msg \<noteq> '''' \<longrightarrow> IsCapabilityEnabled (enabledCapabilities k) EnableBurnFrom) \<and>
     (\<exists>w. burnFrom S (burn_Amount msg)
            (if BurnFromAddress msg = '''' then burn_Sender msg else BurnFromAddress msg) (tf_world st)
          = (Inr (), w) \<and> st' = st\<lparr>tf_world := w\<rparr>)"
  by (auto simp: Burn_def on_world_ok split: sum.splits if_splits)

lemma ForceTransfer_ok:
  "ForceTransfer S k msg st = (Inr (), st') \<longleftrightarrow>
     IsCapabilityEnabled (enabledCapabilities k) EnableForceTransfer \<and>
     (\<exists>m. GetAuthorityMetadata st (Denom (ft_Amount msg)) = Inr m \<and> Admin m = ft_Sender msg) \<and>
     (\<exists>w. forceTransfer S (ft_Amount msg) (TransferFromAddress msg) (TransferToAddress msg)
            (tf_world st) = (Inr (), w) \<and> st' = st\<lparr>tf_world := w\<rparr>)"
  by (auto simp: ForceTransfer_def on_world_ok split: sum.splits if_splits)

lemma setAuthorityMetadata_ok:
  "setAuthorityMetadata S d m st = (Inr (), st') \<longleftrightarrow>
     AuthorityMetadataValidate S m = Inr () \<and>
     st' = st\<lparr>tf_store := kv_set (auth_key d) (VAuth m) (tf_store st)\<rparr>"
  by (auto simp: setAuthorityMetadata_def split: sum.splits)

lemma ChangeAdmin_ok:
  "ChangeAdmin S msg st = (Inr (), st') \<longleftrightarrow>
     (\<exists>m. GetAuthorityMetadata st (ca_Denom msg) = Inr m \<and> Admin m = ca_Sender msg \<and>
        AuthorityMetadataValidate S (m\<lparr>Admin := NewAdmin msg\<rparr>) = Inr () \<and>
        st' = st\<lparr>tf_store := kv_set (auth_key (ca_Denom msg)) (VAuth (m\<lparr>Admin := NewAdmin msg\<rparr>))
                              (tf_store st)\<rparr>)"
  by (auto simp: ChangeAdmin_def setAdmin_def setAuthorityMetadata_ok split: sum.splits)

lemma SetDenomMetadata_ok:
  "SetDenomMetadata S k msg st = (Inr (), st') \<longleftrightarrow>
     IsCapabilityEnabled (enabledCapabilities k) EnableSetMetadata \<and>
     MetadataValidate S (sm_Metadata msg) = Inr () \<and>
     (\<exists>m. GetAuthorityMetadata st (Base (sm_Metadata msg)) = Inr m \<and> Admin m = sm_Sender msg) \<and>
     st' = st\<lparr>tf_world := SetDenomMetaData S (sm_Metadata msg) (tf_world st)\<rparr>"
  by (auto simp: SetDenomMetadata_def split: sum.splits if_splits)

lemma TFUpdateParams_ok:
  "TFUpdateParams S k req st = (Inr (), st') \<longleftrightarrow>
     tf_authority k = tfup_Authority req \<and> TFParamsValidate S (tfup_Params req) = Inr () \<and>
     st' = st\<lparr>tf_store := kv_set ParamsKey (VParams (tf_params_wire (tfup_Params req))) (tf_store st)\<rparr>"
  by (auto simp: TFUpdateParams_def TFSetParams_def split: sum.splits)

lemma createDenomAfterValidation_ok:
  "createDenomAfterValidation S c d st = (Inr (), st') \<longleftrightarrow>
     AuthorityMetadataValidate S \<lparr>Admin = c\<rparr> = Inr () \<and>
     st' = \<lparr>tf_store = kv_set (GetCreatorPrefix c @ d) (VDenom d)
                         (kv_set (auth_key d) (VAuth \<lparr>Admin = c\<rparr>) (tf_store st)),
            tf_world = SetDenomMetaData S \<lparr>Description = '''',
              DenomUnits = [\<lparr>UnitDenom = d, Exponent = 0\<rparr>], Base = d, Display = d, MdName = d,
              Symbol = d\<rparr> (tf_world st)\<rparr>"
  by (cases st) (auto simp: createDenomAfterValidation_def Let_def setAuthorityMetadata_def
      addDenomFromCreator_def split: sum.splits prod.splits)

lemma chargeForCreateDenom_store:
  "chargeForCreateDenom S c sd st = (r, st') \<Longrightarrow> tf_store st' = tf_store st"
  by (auto simp: chargeForCreateDenom_def consumeDenomGas_def
      split: sum.splits option.splits prod.splits if_splits)

lemma chargeForCreateDenom_metadata:
  assumes "metadata_laws S" and "chargeForCreateDenom S c sd st = (r, st')"
  shows "GetDenomMetaData S (tf_world st') = GetDenomMetaData S (tf_world st)"
  using assms(2)
  by (auto simp: chargeForCreateDenom_def consumeDenomGas_def metadata_lawsD [OF assms(1)]
      split: sum.splits option.splits prod.splits if_splits)

lemma chargeForCreateDenom_supply:
  assumes "bank_laws S supply bal modaddr" and "chargeForCreateDenom S c sd st = (Inr (), st')"
  shows "supply (tf_world st') = supply (tf_world st)"
  using assms(2)
  by (auto simp: chargeForCreateDenom_def consumeDenomGas_def bank_lawsD [OF assms(1)]
      split: sum.splits option.splits prod.splits if_splits)

lemma CreateDenom_ok:
  assumes "CreateDenom S msg st = (Inr d, st')"
  obtains st1 where
    "GetTokenDenom S (cd_Sender msg) (cd_Subdenom msg) = Inr d" "validAddr S (cd_Sender msg)"
    "GetDenomMetaData S (tf_world st) d = None"
    "chargeForCreateDenom S (cd_Sender msg) (cd_Subdenom msg) st = (Inr (), st1)"
    "createDenomAfterValidation S (cd_Sender msg) d st1 = (Inr (), st')"
  using assms
  by (auto simp: CreateDenom_def KeeperCreateDenom_def MsgCreateDenom_ValidateBasic_def
      validateCreateDenom_def split: sum.splits prod.splits option.splits if_splits)

lemma tf_deliver_ok:
  "tf_deliver S k msg st = (Inr (), st') \<longleftrightarrow>
     tf_basic S msg = Inr () \<and> tf_handle S k msg st = (Inr (), st')"
  by (auto simp: tf_deliver_def split: sum.splits prod.splits)

lemma tf_deliver_error: "tf_deliver S k msg st = (Inl e, st') \<Longrightarrow> st' = st"
  by (auto simp: tf_deliver_def split: sum.splits prod.splits)

section \<open>Denomination names\<close>

lemma GetTokenDenom_ok:
  "GetTokenDenom S c sd = Inr d \<longleftrightarrow>
     length sd \<le> MaxSubdenomLength \<and> length c \<le> MaxCreatorLength \<and> CHR ''/'' \<notin> set c \<and>
     d = ''factory/'' @ c @ CHR ''/'' # sd \<and> ValidateDenom S d = Inr ()"
  by (auto simp: GetTokenDenom_def Let_def ModuleDenomPrefix_def split: sum.splits if_splits)

lemma split_token_denom:
  "CHR ''/'' \<notin> set c \<Longrightarrow>
     go_split CHR ''/'' (''factory/'' @ c @ CHR ''/'' # sd) = ''factory'' # c # go_split CHR ''/'' sd"
  using go_split_append [of "CHR ''/''" "''factory''"] go_split_append [of "CHR ''/''" c sd] by simp

text \<open>
  A denomination that \<open>GetTokenDenom\<close> builds from a canonical creator address is taken
  apart by \<open>DeconstructDenom\<close> into exactly that creator and subdenom, slashes inside the
  subdenom included.
\<close>

theorem tf_denom_roundtrip:
  assumes "GetTokenDenom S creator subdenom = Inr denom"
    and "AccAddressFromBech32 S creator = Inr a" and "AccAddressString S a = creator"
  shows "DeconstructDenom S denom = Inr (creator, subdenom)"
proof -
  have d: "denom = ''factory/'' @ creator @ CHR ''/'' # subdenom"
    and v: "ValidateDenom S denom = Inr ()" and ns: "CHR ''/'' \<notin> set creator"
    using assms(1) by (auto simp: GetTokenDenom_ok)
  obtain p ps where "go_split CHR ''/'' subdenom = p # ps"
    by (cases "go_split CHR ''/'' subdenom") auto
  then show ?thesis
    using go_join_split [of "CHR ''/''" subdenom] split_token_denom [OF ns, of subdenom] v assms
    by (simp add: DeconstructDenom_def d ModuleDenomPrefix_def Let_def)
qed

theorem tf_denom_roundtrip_witness:
  "DeconstructDenom ledger_sdk ''factory/terp1abc/gov/x'' = Inr (''terp1abc'', ''gov/x'')"
  by (rule tf_denom_roundtrip [of _ _ _ _ "''terp1abc''"])
    (simp_all add: GetTokenDenom_ok MaxSubdenomLength_def MaxCreatorLength_def MaxHrpLength_def
      ledger_sdk_def addr_char_def less_eq_char_def)

lemma DeconstructDenom_ok:
  assumes "DeconstructDenom S denom = Inr (c, sd)"
  obtains p a where "denom = ''factory/'' @ p @ CHR ''/'' # sd" "AccAddressFromBech32 S p = Inr a"
    "c = AccAddressString S a" "CHR ''/'' \<notin> set p"
proof -
  obtain p q qs where parts: "go_split CHR ''/'' denom = ''factory'' # p # q # qs"
    using assms
    by (cases "go_split CHR ''/'' denom"; cases "tl (go_split CHR ''/'' denom)";
        cases "tl (tl (go_split CHR ''/'' denom))")
      (auto simp: DeconstructDenom_def Let_def ModuleDenomPrefix_def split: sum.splits if_splits)
  obtain a where a: "AccAddressFromBech32 S p = Inr a" "c = AccAddressString S a"
    "sd = go_join CHR ''/'' (q # qs)"
    using assms parts by (auto simp: DeconstructDenom_def Let_def split: sum.splits if_splits)
  have "denom = go_join CHR ''/'' (''factory'' # p # q # qs)"
    using parts by (metis go_join_split)
  then have "denom = ''factory/'' @ p @ CHR ''/'' # sd"
    using a by simp
  moreover have "CHR ''/'' \<notin> set p"
    using parts go_split_parts [of p "CHR ''/''" denom] by simp
  ultimately show ?thesis using that a by blast
qed

section \<open>Who may change the supply\<close>

lemma mintTo_supply:
  assumes "bank_laws S supply bal modaddr" "coins_laws S" "mintTo S amount to w = (Inr (), w')"
  shows "supply w' d = supply w d + (if d = Denom amount then Amount amount else 0)"
  using assms(3)
proof (rule mintTo_ok)
  fix coins w1 addr
  assume "NewCoins S [amount] = Inr coins" "MintCoins S ModuleName coins w = (Inr (), w1)"
    "SendCoinsFromModuleToAccount S ModuleName addr coins w1 = (Inr (), w')"
  then show ?thesis
    using bank_lawsD(1) [OF assms(1), of ModuleName coins w w1 d]
      bank_lawsD(6) [OF assms(1), of ModuleName addr coins w1 w'] coins_lawsD [OF assms(2)]
    by (simp add: moved_def)
qed

lemma burnFrom_supply:
  assumes "bank_laws S supply bal modaddr" "coins_laws S" "burnFrom S amount a w = (Inr (), w')"
  shows "supply w' d = supply w d - (if d = Denom amount then Amount amount else 0)"
  using assms(3)
proof (rule burnFrom_ok)
  fix coins w1 addr
  assume "NewCoins S [amount] = Inr coins"
    "SendCoinsFromAccountToModule S addr ModuleName coins w = (Inr (), w1)"
    "BurnCoins S ModuleName coins w1 = (Inr (), w')"
  then show ?thesis
    using bank_lawsD(3) [OF assms(1), of ModuleName coins w1 w' d]
      bank_lawsD(7) [OF assms(1), of addr ModuleName coins w w1] coins_lawsD [OF assms(2)]
    by (simp add: moved_def)
qed

lemma forceTransfer_supply:
  assumes "bank_laws S supply bal modaddr" "forceTransfer S amount a b w = (Inr (), w')"
  shows "supply w' = supply w"
  using assms(2)
  by (rule forceTransfer_ok) (use bank_lawsD(5) [OF assms(1)] in \<open>auto simp: moved_def\<close>)

lemma CreateDenom_supply:
  assumes "bank_laws S supply bal modaddr" "CreateDenom S msg st = (Inr x, st')"
  shows "supply (tf_world st') = supply (tf_world st)"
  using assms(2)
  by (rule CreateDenom_ok)
    (auto simp: createDenomAfterValidation_ok bank_lawsD(10) [OF assms(1)]
      chargeForCreateDenom_supply [OF assms(1)])

text \<open>
  C2. The supply of a denomination changes only through a delivered mint or burn of that
  denomination signed by its current admin, and then by exactly the amount of the message:
  no other message of the module changes any supply.
\<close>

theorem tf_supply_authorised:
  assumes "bank_laws S supply bal modaddr" and "coins_laws S"
    and "tf_deliver S k msg st = (Inr (), st')"
    and "supply (tf_world st') d \<noteq> supply (tf_world st) d"
  shows "(\<exists>m. msg = TMint m \<and> Denom (mint_Amount m) = d \<and>
            GetAuthorityMetadata st d = Inr \<lparr>Admin = mint_Sender m\<rparr> \<and>
            supply (tf_world st') d = supply (tf_world st) d + Amount (mint_Amount m)) \<or>
         (\<exists>m. msg = TBurn m \<and> Denom (burn_Amount m) = d \<and>
            GetAuthorityMetadata st d = Inr \<lparr>Admin = burn_Sender m\<rparr> \<and>
            supply (tf_world st') d = supply (tf_world st) d - Amount (burn_Amount m))"
proof -
  have h: "tf_handle S k msg st = (Inr (), st')"
    using assms(3) by (simp add: tf_deliver_ok)
  show ?thesis
  proof (cases msg)
    case (TCreateDenom m)
    then obtain x where "CreateDenom S m st = (Inr x, st')"
      using h by (auto split: prod.splits sum.splits)
    then show ?thesis
      using CreateDenom_supply [OF assms(1)] assms(4) by metis
  next
    case (TMint m)
    obtain am w where am: "GetAuthorityMetadata st (Denom (mint_Amount m)) = Inr am"
      "Admin am = mint_Sender m" and w: "st' = st\<lparr>tf_world := w\<rparr>"
      "mintTo S (mint_Amount m) (if MintToAddress m = '''' then mint_Sender m else MintToAddress m)
         (tf_world st) = (Inr (), w)"
      using h TMint by (auto simp: Mint_ok)
    have "am = \<lparr>Admin = mint_Sender m\<rparr>" using am(2) by (cases am) simp
    then show ?thesis
      using mintTo_supply [OF assms(1,2) w(2), of d] TMint am(1) w(1) assms(4)
      by (auto split: if_splits)
  next
    case (TBurn m)
    obtain am w where am: "GetAuthorityMetadata st (Denom (burn_Amount m)) = Inr am"
      "Admin am = burn_Sender m" and w: "st' = st\<lparr>tf_world := w\<rparr>"
      "burnFrom S (burn_Amount m) (if BurnFromAddress m = '''' then burn_Sender m else BurnFromAddress m)
         (tf_world st) = (Inr (), w)"
      using h TBurn by (auto simp: Burn_ok)
    have "am = \<lparr>Admin = burn_Sender m\<rparr>" using am(2) by (cases am) simp
    then show ?thesis
      using burnFrom_supply [OF assms(1,2) w(2), of d] TBurn am(1) w(1) assms(4)
      by (auto split: if_splits)
  next
    case (TForceTransfer m)
    then show ?thesis
      using h assms(4) forceTransfer_supply [OF assms(1)] by (auto simp: ForceTransfer_ok)
  next
    case (TChangeAdmin m)
    then show ?thesis using h assms(4) by (auto simp: ChangeAdmin_ok)
  next
    case (TSetDenomMetadata m)
    then show ?thesis
      using h assms(4) by (auto simp: SetDenomMetadata_ok bank_lawsD(10) [OF assms(1)])
  next
    case (TUpdateParams m)
    then show ?thesis using h assms(4) by (auto simp: TFUpdateParams_ok)
  qed
qed

text \<open>A concrete run: \<open>terp1abc\<close> creates a denomination and mints of it.\<close>

definition tf_ex0 :: "ledger tf_state" where
  "tf_ex0 = \<lparr>tf_store = kv_empty, tf_world = ledger0\<rparr>"

definition tf_ex_denom :: string where "tf_ex_denom = ''factory/terp1abc/x''"

definition tf_ex1 :: "ledger tf_state" where
  "tf_ex1 = snd (CreateDenom ledger_sdk \<lparr>cd_Sender = ''terp1abc'', cd_Subdenom = ''x''\<rparr> tf_ex0)"

definition tf_ex_mint :: MsgMint where
  "tf_ex_mint = \<lparr>mint_Sender = ''terp1abc'', mint_Amount = \<lparr>Denom = tf_ex_denom, Amount = 100\<rparr>,
     MintToAddress = ''terp1xyz''\<rparr>"

definition tf_ex2 :: "ledger tf_state" where
  "tf_ex2 = snd (tf_deliver ledger_sdk NewKeeper (TMint tf_ex_mint) tf_ex1)"

lemma tf_ex_mint_ok: "fst (tf_deliver ledger_sdk NewKeeper (TMint tf_ex_mint) tf_ex1) = Inr ()"
  by code_simp

lemma tf_ex_mint_run:
  "tf_deliver ledger_sdk NewKeeper (TMint tf_ex_mint) tf_ex1 = (Inr (), tf_ex2)"
  using tf_ex_mint_ok by (simp add: tf_ex2_def prod_eq_iff)

lemma tf_ex_supplies:
  "supplies (tf_world tf_ex2) tf_ex_denom = 100" "supplies (tf_world tf_ex1) tf_ex_denom = 0"
  by code_simp+

theorem tf_supply_authorised_witness:
  "\<exists>m. TMint tf_ex_mint = TMint m \<and> GetAuthorityMetadata tf_ex1 tf_ex_denom = Inr \<lparr>Admin = mint_Sender m\<rparr>"
  using tf_supply_authorised [OF ledger_bank ledger_coins tf_ex_mint_run, of tf_ex_denom]
  by (auto simp: tf_ex_supplies)

lemma mintTo_balances:
  assumes "bank_laws S supply bal modaddr" "coins_laws S" "mintTo S amount to w = (Inr (), w')"
    and "AccAddressFromBech32 S to = Inr addr"
  shows "bal w' x d = bal w x d + (if x = addr \<and> d = Denom amount then Amount amount else 0)"
  using assms(3)
proof (rule mintTo_ok)
  fix coins w1 addr'
  assume a: "NewCoins S [amount] = Inr coins" "MintCoins S ModuleName coins w = (Inr (), w1)"
    "SendCoinsFromModuleToAccount S ModuleName addr' coins w1 = (Inr (), w')"
    "AccAddressFromBech32 S to = Inr addr'"
  have m: "bal w' x d = bal w1 x d + (if x = addr then coins_amount coins d else 0)
      - (if x = modaddr ModuleName then coins_amount coins d else 0)"
    using bank_lawsD(6) [OF assms(1) a(3)] a(4) assms(4) by (simp add: moved_def)
  show ?thesis
    using m coins_lawsD [OF assms(2) a(1), of d] bank_lawsD(2) [OF assms(1) a(2), of x d] by auto
qed

lemma Mint_recipient:
  assumes "Mint S msg st = (Inr (), st')"
  obtains addr where
    "AccAddressFromBech32 S (if MintToAddress msg = '''' then mint_Sender msg else MintToAddress msg)
       = Inr addr" "\<not> BlockedAddr S addr"
  using assms unfolding Mint_ok by (metis mintTo_ok)

text \<open>
  A successful mint credits the whole amount to one unblocked recipient, the one named by
  the message or its sender when none is named.  No other balance of any account changes, the
  module account holds nothing of it afterwards, and the module's own store is untouched.
\<close>

theorem tf_mint_effect:
  assumes "bank_laws S supply bal modaddr" and "coins_laws S"
    and "Mint S msg st = (Inr (), st')"
  shows "\<exists>addr. AccAddressFromBech32 S
             (if MintToAddress msg = '''' then mint_Sender msg else MintToAddress msg) = Inr addr \<and>
           \<not> BlockedAddr S addr \<and> tf_store st' = tf_store st \<and>
           (\<forall>x d. bal (tf_world st') x d = bal (tf_world st) x d +
              (if x = addr \<and> d = Denom (mint_Amount msg) then Amount (mint_Amount msg) else 0))"
proof -
  obtain addr where addr: "AccAddressFromBech32 S
      (if MintToAddress msg = '''' then mint_Sender msg else MintToAddress msg) = Inr addr"
    "\<not> BlockedAddr S addr"
    using Mint_recipient [OF assms(3)] .
  obtain w where w: "mintTo S (mint_Amount msg)
      (if MintToAddress msg = '''' then mint_Sender msg else MintToAddress msg) (tf_world st)
      = (Inr (), w)" "st' = st\<lparr>tf_world := w\<rparr>"
    using assms(3) by (auto simp: Mint_ok)
  show ?thesis
    using mintTo_balances [OF assms(1,2) w(1) addr(1)] addr w(2) by (intro exI [of _ addr]) auto
qed

lemma tf_ex_mint_handler: "Mint ledger_sdk tf_ex_mint tf_ex1 = (Inr (), tf_ex2)"
  using tf_ex_mint_run by (simp add: tf_deliver_ok)

theorem tf_mint_effect_witness:
  "balances (tf_world tf_ex2) ''terp1xyz'' tf_ex_denom
     = balances (tf_world tf_ex1) ''terp1xyz'' tf_ex_denom + 100"
  using tf_mint_effect [OF ledger_bank ledger_coins tf_ex_mint_handler]
  by (auto simp: tf_ex_mint_def ledger_sdk_def split: if_splits)

section \<open>The store invariant\<close>

text \<open>
  The store holds parameters under the parameter key, metadata under the denomination keys
  and denominations under the creator keys.  Every denomination listed under a creator has an
  admin record and bank metadata, and every admin record belongs to a listed denomination.
\<close>

definition tf_typed :: "'w tf_state \<Rightarrow> bool" where
  "tf_typed st \<longleftrightarrow> kv_wf (tf_store st) \<and>
     (\<forall>v. kv_get (tf_store st) ParamsKey = Some v \<longrightarrow> (\<exists>p. v = VParams p)) \<and>
     (\<forall>d v. kv_get (tf_store st) (auth_key d) = Some v \<longrightarrow> (\<exists>m. v = VAuth m)) \<and>
     (\<forall>j v. kv_get (tf_store st) (GetCreatorsPrefix @ j) = Some v \<longrightarrow>
        (\<exists>c d. j = c @ CHR ''|'' # d \<and> CHR ''|'' \<notin> set c \<and> v = VDenom d))"

definition tf_listed :: "'w sdk \<Rightarrow> 'w tf_state \<Rightarrow> bool" where
  "tf_listed S st \<longleftrightarrow>
     (\<forall>d. (\<exists>c. CHR ''|'' \<notin> set c \<and> kv_get (tf_store st) (GetCreatorPrefix c @ d) = Some (VDenom d)) \<longleftrightarrow>
          kv_get (tf_store st) (auth_key d) \<noteq> None) \<and>
     (\<forall>d. kv_get (tf_store st) (auth_key d) \<noteq> None \<longrightarrow> GetDenomMetaData S (tf_world st) d \<noteq> None)"

definition tf_inv :: "'w sdk \<Rightarrow> 'w tf_state \<Rightarrow> bool" where
  "tf_inv S st \<longleftrightarrow> tf_typed st \<and> tf_listed S st"

lemma tf_inv_empty: "tf_inv S \<lparr>tf_store = kv_empty, tf_world = w\<rparr>"
  by (simp add: tf_inv_def tf_typed_def tf_listed_def kv_simps)

text \<open>Handlers that keep the store and the bank metadata keep the invariant.\<close>

lemma tf_inv_world:
  assumes "tf_inv S st" and "\<And>d. GetDenomMetaData S (tf_world st) d \<noteq> None \<Longrightarrow>
      GetDenomMetaData S w d \<noteq> None"
  shows "tf_inv S (st\<lparr>tf_world := w\<rparr>)"
  using assms by (auto simp: tf_inv_def tf_typed_def tf_listed_def)

lemma tf_inv_params: "tf_inv S st \<Longrightarrow> tf_inv S (st\<lparr>tf_store := kv_set ParamsKey (VParams p) (tf_store st)\<rparr>)"
  by (auto simp: tf_inv_def tf_typed_def tf_listed_def kv_simps)

lemma tf_inv_reset_admin:
  assumes "tf_inv S st" and "kv_get (tf_store st) (auth_key d) \<noteq> None"
  shows "tf_inv S (st\<lparr>tf_store := kv_set (auth_key d) (VAuth m) (tf_store st)\<rparr>)"
  using assms unfolding tf_inv_def tf_typed_def tf_listed_def by (simp add: kv_simps)

lemma tf_inv_create:
  assumes inv: "tf_inv S st" and md: "metadata_laws S" and nc: "CHR ''|'' \<notin> set c"
    and ok: "createDenomAfterValidation S c d st = (Inr (), st')"
  shows "tf_inv S st'"
proof -
  have st': "kv_get (tf_store st') = (kv_get (tf_store st))
      (auth_key d \<mapsto> VAuth \<lparr>Admin = c\<rparr>, GetCreatorPrefix c @ d \<mapsto> VDenom d)"
    and w: "\<And>e. GetDenomMetaData S (tf_world st') e \<noteq> None \<longleftrightarrow>
      e = d \<or> GetDenomMetaData S (tf_world st) e \<noteq> None"
    and wf: "kv_wf (tf_store st')"
    using ok inv by (auto simp: createDenomAfterValidation_ok kv_simps metadata_lawsD(1) [OF md]
        tf_inv_def tf_typed_def)
  have "tf_typed st'"
    using inv nc wf unfolding tf_inv_def tf_typed_def st' by (auto simp: creators_creator_key)
  moreover have "tf_listed S st'"
    unfolding tf_listed_def
  proof (intro conjI allI)
    fix e
    have other: "kv_get (tf_store st') (GetCreatorPrefix b @ e) = kv_get (tf_store st) (GetCreatorPrefix b @ e)"
      if "CHR ''|'' \<notin> set b" "e \<noteq> d" for b
      using that nc by (simp add: st' creator_key_inj del: append_eq_append_conv)
    have old: "(\<exists>c. CHR ''|'' \<notin> set c \<and> kv_get (tf_store st) (GetCreatorPrefix c @ e) = Some (VDenom e))
      \<longleftrightarrow> kv_get (tf_store st) (auth_key e) \<noteq> None"
      using inv by (simp add: tf_inv_def tf_listed_def)
    show "(\<exists>c. CHR ''|'' \<notin> set c \<and> kv_get (tf_store st') (GetCreatorPrefix c @ e) = Some (VDenom e))
      \<longleftrightarrow> kv_get (tf_store st') (auth_key e) \<noteq> None"
    proof (cases "e = d")
      case True
      then show ?thesis using nc by (auto simp: st')
    next
      case False
      then have "kv_get (tf_store st') (auth_key e) = kv_get (tf_store st) (auth_key e)"
        by (simp add: st')
      then show ?thesis using old other [OF _ False] by metis
    qed
    show "kv_get (tf_store st') (auth_key e) \<noteq> None \<longrightarrow> GetDenomMetaData S (tf_world st') e \<noteq> None"
      using inv unfolding w by (auto simp: st' tf_inv_def tf_listed_def)
  qed
  ultimately show ?thesis by (simp add: tf_inv_def)
qed


lemma mintTo_metadata:
  "metadata_laws S \<Longrightarrow> mintTo S a t w = (Inr (), w') \<Longrightarrow> GetDenomMetaData S w' = GetDenomMetaData S w"
  by (erule mintTo_ok) (simp add: metadata_lawsD(2,5))

lemma burnFrom_metadata:
  "metadata_laws S \<Longrightarrow> burnFrom S a t w = (Inr (), w') \<Longrightarrow> GetDenomMetaData S w' = GetDenomMetaData S w"
  by (erule burnFrom_ok) (simp add: metadata_lawsD(3,6))

lemma forceTransfer_metadata:
  "metadata_laws S \<Longrightarrow> forceTransfer S a f t w = (Inr (), w') \<Longrightarrow>
     GetDenomMetaData S w' = GetDenomMetaData S w"
  by (erule forceTransfer_ok) (simp add: metadata_lawsD(4))

lemma tf_inv_CreateDenom:
  assumes inv: "tf_inv S st" and md: "metadata_laws S" and bl: "bech32_laws S"
    and ok: "CreateDenom S m st = (Inr d, st')"
  shows "tf_inv S st'"
  using ok
proof (rule CreateDenom_ok)
  fix st1
  assume a: "validAddr S (cd_Sender m)"
    "chargeForCreateDenom S (cd_Sender m) (cd_Subdenom m) st = (Inr (), st1)"
    "createDenomAfterValidation S (cd_Sender m) d st1 = (Inr (), st')"
  obtain addr where "AccAddressFromBech32 S (cd_Sender m) = Inr addr"
    using a(1) by (auto simp: validAddr_def is_ok_iff)
  then have nc: "CHR ''|'' \<notin> set (cd_Sender m)" using bl bech32_lawsD(3) by blast
  have "st1 = st\<lparr>tf_world := tf_world st1\<rparr>"
    using chargeForCreateDenom_store [OF a(2)] by (cases st; cases st1) simp
  moreover have "tf_inv S (st\<lparr>tf_world := tf_world st1\<rparr>)"
    using chargeForCreateDenom_metadata [OF md a(2)] by (intro tf_inv_world [OF inv]) simp
  ultimately have "tf_inv S st1" by simp
  then show ?thesis by (rule tf_inv_create [OF _ md nc a(3)])
qed

lemma GetAuthorityMetadata_admin:
  "GetAuthorityMetadata st d = Inr m \<Longrightarrow> Admin m \<noteq> [] \<Longrightarrow> kv_get (tf_store st) (auth_key d) = Some (VAuth m)"
  by (auto simp: GetAuthorityMetadata_def split: option.splits tf_val.splits)

lemma tf_inv_deliver:
  assumes inv: "tf_inv S st" and md: "metadata_laws S" and bl: "bech32_laws S"
    and ok: "tf_deliver S k msg st = (Inr (), st')"
  shows "tf_inv S st'"
proof -
  have b: "tf_basic S msg = Inr ()" and h: "tf_handle S k msg st = (Inr (), st')"
    using ok by (simp_all add: tf_deliver_ok)
  show ?thesis
  proof (cases msg)
    case (TCreateDenom m)
    then obtain x where "CreateDenom S m st = (Inr x, st')"
      using h by (auto split: prod.splits sum.splits)
    then show ?thesis by (rule tf_inv_CreateDenom [OF inv md bl])
  next
    case (TMint m)
    then show ?thesis
      using h mintTo_metadata [OF md] by (auto simp: Mint_ok intro: tf_inv_world [OF inv])
  next
    case (TBurn m)
    then show ?thesis
      using h burnFrom_metadata [OF md] by (auto simp: Burn_ok intro: tf_inv_world [OF inv])
  next
    case (TForceTransfer m)
    then show ?thesis
      using h forceTransfer_metadata [OF md]
      by (auto simp: ForceTransfer_ok intro: tf_inv_world [OF inv])
  next
    case (TChangeAdmin m)
    obtain addr where "AccAddressFromBech32 S (ca_Sender m) = Inr addr"
      using b TChangeAdmin
      by (auto simp: MsgChangeAdmin_ValidateBasic_def validAddr_def is_ok_iff split: if_splits)
    then have "ca_Sender m \<noteq> []" using bl bech32_lawsD(1) by blast
    then have "kv_get (tf_store st) (auth_key (ca_Denom m)) \<noteq> None"
      using h TChangeAdmin GetAuthorityMetadata_admin by (fastforce simp: ChangeAdmin_ok)
    then show ?thesis
      using h TChangeAdmin by (auto simp: ChangeAdmin_ok intro!: tf_inv_reset_admin [OF inv])
  next
    case (TSetDenomMetadata m)
    then show ?thesis
      using h by (auto simp: SetDenomMetadata_ok metadata_lawsD(1) [OF md] intro: tf_inv_world [OF inv])
  next
    case (TUpdateParams m)
    then show ?thesis using h by (auto simp: TFUpdateParams_ok intro: tf_inv_params [OF inv])
  qed
qed

text \<open>
  C15. In every state reached from the empty store by any sequence of messages, failed ones
  included, the denominations listed under creators are exactly those with an admin record,
  each of them has bank metadata, and every key holds a value of its kind.
\<close>

theorem tf_reach_inv:
  assumes "metadata_laws S" and "bech32_laws S"
    and "tf_reach S k \<lparr>tf_store = kv_empty, tf_world = w\<rparr> st"
  shows "tf_inv S st"
  using assms(3)
proof (induction rule: tf_reach.induct)
  case tf_init
  show ?case by (rule tf_inv_empty)
next
  case (tf_step st msg r st')
  then show ?case
    using tf_deliver_error [of S k msg st] tf_inv_deliver [OF _ assms(1,2)] by (cases r) auto
qed

lemma tf_ex_create_ok:
  "fst (tf_deliver ledger_sdk NewKeeper (TCreateDenom \<lparr>cd_Sender = ''terp1abc'', cd_Subdenom = ''x''\<rparr>)
     tf_ex0) = Inr ()"
  by code_simp

lemma tf_ex_create_run:
  "tf_deliver ledger_sdk NewKeeper (TCreateDenom \<lparr>cd_Sender = ''terp1abc'', cd_Subdenom = ''x''\<rparr>) tf_ex0
     = (Inr (), tf_ex1)"
proof -
  obtain st' where st': "tf_deliver ledger_sdk NewKeeper
      (TCreateDenom \<lparr>cd_Sender = ''terp1abc'', cd_Subdenom = ''x''\<rparr>) tf_ex0 = (Inr (), st')"
    using tf_ex_create_ok by (metis prod.collapse)
  then have "st' = tf_ex1"
    by (auto simp: tf_deliver_ok tf_ex1_def split: prod.splits sum.splits)
  then show ?thesis using st' by simp
qed

theorem tf_reach_inv_witness: "tf_inv ledger_sdk tf_ex2"
proof (rule tf_reach_inv [OF ledger_metadata ledger_bech32])
  show "tf_reach ledger_sdk NewKeeper \<lparr>tf_store = kv_empty, tf_world = ledger0\<rparr> tf_ex2"
    using tf_step [OF tf_step [OF tf_init tf_ex_create_run] tf_ex_mint_run]
    by (simp add: tf_ex0_def)
qed

text \<open>
  C23. The admin of a denomination changes only in two ways: its current admin hands it over
  with a change-admin message, or the denomination is created by that message and had no bank
  metadata before, in which case the creator becomes its admin.
\<close>

theorem tf_admin_handover:
  assumes "tf_deliver S k msg st = (Inr (), st')"
    and "GetAuthorityMetadata st' d \<noteq> GetAuthorityMetadata st d"
  shows "(\<exists>m. msg = TChangeAdmin m \<and> ca_Denom m = d \<and>
            GetAuthorityMetadata st d = Inr \<lparr>Admin = ca_Sender m\<rparr> \<and>
            GetAuthorityMetadata st' d = Inr \<lparr>Admin = NewAdmin m\<rparr>) \<or>
         (\<exists>m. msg = TCreateDenom m \<and> GetTokenDenom S (cd_Sender m) (cd_Subdenom m) = Inr d \<and>
            GetDenomMetaData S (tf_world st) d = None \<and>
            GetAuthorityMetadata st' d = Inr \<lparr>Admin = cd_Sender m\<rparr>)"
proof -
  have h: "tf_handle S k msg st = (Inr (), st')"
    using assms(1) by (simp add: tf_deliver_ok)
  note gam = GetAuthorityMetadata_def
  show ?thesis
  proof (cases msg)
    case (TCreateDenom m)
    then obtain x where "CreateDenom S m st = (Inr x, st')"
      using h by (auto split: prod.splits sum.splits)
    then show ?thesis
    proof (rule CreateDenom_ok)
      fix st1
      assume a: "GetTokenDenom S (cd_Sender m) (cd_Subdenom m) = Inr x"
        "GetDenomMetaData S (tf_world st) x = None"
        "chargeForCreateDenom S (cd_Sender m) (cd_Subdenom m) st = (Inr (), st1)"
        "createDenomAfterValidation S (cd_Sender m) x st1 = (Inr (), st')"
      then have "tf_store st' = kv_set (GetCreatorPrefix (cd_Sender m) @ x) (VDenom x)
          (kv_set (auth_key x) (VAuth \<lparr>Admin = cd_Sender m\<rparr>) (tf_store st))"
        using chargeForCreateDenom_store by (fastforce simp: createDenomAfterValidation_ok)
      then show ?thesis
        using a assms(2) TCreateDenom by (auto simp: gam kv_simps split: if_splits)
    qed
  next
    case (TChangeAdmin m)
    then obtain am where am: "GetAuthorityMetadata st (ca_Denom m) = Inr am" "Admin am = ca_Sender m"
      and st': "tf_store st' = kv_set (auth_key (ca_Denom m)) (VAuth (am\<lparr>Admin := NewAdmin m\<rparr>)) (tf_store st)"
      using h by (auto simp: ChangeAdmin_ok)
    show ?thesis
      using am st' assms(2) TChangeAdmin by (cases am) (auto simp: gam kv_simps split: if_splits)
  next
    case (TMint m)
    then show ?thesis using h assms(2) by (auto simp: Mint_ok gam)
  next
    case (TBurn m)
    then show ?thesis using h assms(2) by (auto simp: Burn_ok gam)
  next
    case (TForceTransfer m)
    then show ?thesis using h assms(2) by (auto simp: ForceTransfer_ok gam)
  next
    case (TSetDenomMetadata m)
    then show ?thesis using h assms(2) by (auto simp: SetDenomMetadata_ok gam)
  next
    case (TUpdateParams m)
    then show ?thesis using h assms(2) by (auto simp: TFUpdateParams_ok gam kv_simps)
  qed
qed

lemma tf_ex_admins:
  "GetAuthorityMetadata tf_ex0 tf_ex_denom = Inr \<lparr>Admin = []\<rparr>"
  "GetAuthorityMetadata tf_ex1 tf_ex_denom = Inr \<lparr>Admin = ''terp1abc''\<rparr>"
  by code_simp+

theorem tf_admin_handover_witness: "GetDenomMetaData ledger_sdk (tf_world tf_ex0) tf_ex_denom = None"
  using tf_admin_handover [OF tf_ex_create_run, of tf_ex_denom] by (auto simp: tf_ex_admins)

text \<open>
  The keeper that \<open>NewKeeper\<close> builds has an empty authority, so no parameter update that
  passes its stateless check is ever executed, whoever sends it, governance included.
\<close>

theorem tf_params_frozen:
  assumes "bech32_laws S"
  shows "fst (tf_deliver S NewKeeper (TUpdateParams m) st) \<noteq> Inr ()"
proof
  assume "fst (tf_deliver S NewKeeper (TUpdateParams m) st) = Inr ()"
  then obtain st' where "tf_deliver S NewKeeper (TUpdateParams m) st = (Inr (), st')"
    by (metis prod.collapse)
  then have "is_ok (AccAddressFromBech32 S (tfup_Authority m))" "tfup_Authority m = []"
    by (auto simp: tf_deliver_ok TFMsgUpdateParams_ValidateBasic_def TFUpdateParams_ok NewKeeper_def
        split: sum.splits)
  then show False using assms bech32_lawsD(1) by (auto simp: is_ok_iff)
qed

theorem tf_params_frozen_witness:
  "fst (tf_deliver ledger_sdk NewKeeper (TUpdateParams \<lparr>tfup_Authority = ''gov'',
     tfup_Params = \<lparr>DenomCreationFee = None, DenomCreationGasConsume = 0\<rparr>\<rparr>) tf_ex0) \<noteq> Inr ()"
  by (rule tf_params_frozen [OF ledger_bech32])

section \<open>Genesis round trip\<close>

lemma exportDenoms_ok:
  assumes "\<And>j v. (j, v) \<in> set it \<Longrightarrow> \<exists>d. v = VDenom d \<and> GetAuthorityMetadata st d = Inr (f d)"
  shows "\<exists>ds. exportDenoms st it = Inr ds \<and>
           (\<forall>g \<in> set ds. gd_AuthorityMetadata g = f (gd_Denom g)) \<and>
           gd_Denom ` set ds = {d. \<exists>j. (j, VDenom d) \<in> set it}"
  using assms
proof (induction it)
  case Nil
  then show ?case by simp
next
  case (Cons e it)
  obtain j v where e: "e = (j, v)" by (cases e)
  obtain d where d: "v = VDenom d" "GetAuthorityMetadata st d = Inr (f d)"
    using Cons.prems [of j v] e by auto
  obtain ds where ds: "exportDenoms st it = Inr ds"
    "\<forall>g \<in> set ds. gd_AuthorityMetadata g = f (gd_Denom g)"
    "gd_Denom ` set ds = {d. \<exists>j. (j, VDenom d) \<in> set it}"
    using Cons.IH Cons.prems by (meson list.set_intros(2))
  have "{d'. \<exists>j'. (j', VDenom d') \<in> set (e # it)} = insert d (gd_Denom ` set ds)"
    using e d(1) ds(3) by auto
  then show ?case using e d ds by simp
qed

text \<open>What importing a list of denominations writes, key by key.\<close>

lemma initDenoms_ok:
  assumes "\<And>g. g \<in> set ds \<Longrightarrow> \<exists>sd. DeconstructDenom S (gd_Denom g) = Inr (cr (gd_Denom g), sd)"
    and "\<And>g. g \<in> set ds \<Longrightarrow> AuthorityMetadataValidate S \<lparr>Admin = cr (gd_Denom g)\<rparr> = Inr ()"
    and "\<And>g. g \<in> set ds \<Longrightarrow> AuthorityMetadataValidate S (gd_AuthorityMetadata g) = Inr ()"
    and "\<And>g. g \<in> set ds \<Longrightarrow> gd_AuthorityMetadata g = f (gd_Denom g)"
    and "\<And>g. g \<in> set ds \<Longrightarrow> CHR ''|'' \<notin> set (cr (gd_Denom g))"
    and "kv_wf (tf_store st)"
  shows "\<exists>st'. initDenoms S ds st = (Inr (), st') \<and> kv_wf (tf_store st') \<and>
           kv_get (tf_store st') ParamsKey = kv_get (tf_store st) ParamsKey \<and>
           (\<forall>d. kv_get (tf_store st') (auth_key d) =
              (if d \<in> gd_Denom ` set ds then Some (VAuth (f d)) else kv_get (tf_store st) (auth_key d))) \<and>
           (\<forall>c d. CHR ''|'' \<notin> set c \<longrightarrow> kv_get (tf_store st') (GetCreatorPrefix c @ d) =
              (if d \<in> gd_Denom ` set ds \<and> c = cr d then Some (VDenom d)
               else kv_get (tf_store st) (GetCreatorPrefix c @ d)))"
  using assms
proof (induction ds arbitrary: st)
  case Nil
  then show ?case by simp
next
  case (Cons g ds)
  let ?d = "gd_Denom g"
  obtain sd where sd: "DeconstructDenom S ?d = Inr (cr ?d, sd)" using Cons.prems(1) by fastforce
  obtain st1 where st1: "createDenomAfterValidation S (cr ?d) ?d st = (Inr (), st1)"
    using Cons.prems(2) [of g] by (simp add: createDenomAfterValidation_ok)
  let ?st2 = "st1\<lparr>tf_store := kv_set (auth_key ?d) (VAuth (f ?d)) (tf_store st1)\<rparr>"
  have st2: "setAuthorityMetadata S ?d (gd_AuthorityMetadata g) st1 = (Inr (), ?st2)"
    using Cons.prems(3) [of g] Cons.prems(4) [of g] by (simp add: setAuthorityMetadata_ok)
  have get2: "kv_get (tf_store ?st2) = (kv_get (tf_store st))
      (auth_key ?d \<mapsto> VAuth (f ?d), GetCreatorPrefix (cr ?d) @ ?d \<mapsto> VDenom ?d)"
    and wf2: "kv_wf (tf_store ?st2)"
    using st1 Cons.prems(6) by (auto simp: createDenomAfterValidation_ok kv_simps fun_eq_iff)
  have run: "initDenoms S (g # ds) st = initDenoms S ds ?st2"
    using sd st1 st2 by simp
  have nc: "CHR ''|'' \<notin> set (cr ?d)" using Cons.prems(5) by simp
  have "\<exists>st'. initDenoms S ds ?st2 = (Inr (), st') \<and> kv_wf (tf_store st') \<and>
           kv_get (tf_store st') ParamsKey = kv_get (tf_store ?st2) ParamsKey \<and>
           (\<forall>d. kv_get (tf_store st') (auth_key d) =
              (if d \<in> gd_Denom ` set ds then Some (VAuth (f d)) else kv_get (tf_store ?st2) (auth_key d))) \<and>
           (\<forall>c d. CHR ''|'' \<notin> set c \<longrightarrow> kv_get (tf_store st') (GetCreatorPrefix c @ d) =
              (if d \<in> gd_Denom ` set ds \<and> c = cr d then Some (VDenom d)
               else kv_get (tf_store ?st2) (GetCreatorPrefix c @ d)))"
    by (rule Cons.IH) (use Cons.prems wf2 in auto)
  then show ?case
    unfolding run get2 using nc creator_key_inj [OF _ nc] by (auto simp: creator_key_inj)
qed

text \<open>
  A state that can be exported: parameters are set and valid, every admin is empty or an
  address, and every denomination is listed under the creator its name carries.
\<close>

definition tf_exportable :: "'w sdk \<Rightarrow> 'w tf_state \<Rightarrow> bool" where
  "tf_exportable S st \<longleftrightarrow>
     (\<exists>p. kv_get (tf_store st) ParamsKey = Some (VParams p) \<and> tf_params_wire p = p \<and>
        TFParamsValidate S p = Inr ()) \<and>
     (\<forall>d m. kv_get (tf_store st) (auth_key d) = Some (VAuth m) \<longrightarrow>
        AuthorityMetadataValidate S m = Inr ()) \<and>
     (\<forall>c d v. CHR ''|'' \<notin> set c \<and> kv_get (tf_store st) (GetCreatorPrefix c @ d) = Some v \<longrightarrow>
        (\<exists>sd. DeconstructDenom S d = Inr (c, sd)))"

lemma creators_entry:
  assumes "tf_typed st" and "(j, v) \<in> set (GetAllDenomsIterator st)"
  obtains c d where "CHR ''|'' \<notin> set c" "j = c @ CHR ''|'' # d" "v = VDenom d"
    "kv_get (tf_store st) (GetCreatorPrefix c @ d) = Some (VDenom d)"
proof -
  have g: "kv_get (tf_store st) (GetCreatorsPrefix @ j) = Some v"
    using assms by (simp add: GetAllDenomsIterator_def kvs.scan_iff tf_typed_def)
  then obtain c d where "j = c @ CHR ''|'' # d" "CHR ''|'' \<notin> set c" "v = VDenom d"
    using assms(1) unfolding tf_typed_def by blast
  then show ?thesis using that g by (simp add: creator_key_eq creators_prefix_eq)
qed

lemma canonical_creator:
  assumes "bech32_laws S" and "DeconstructDenom S d = Inr (c, sd)"
  shows "AuthorityMetadataValidate S \<lparr>Admin = c\<rparr> = Inr ()" and "CHR ''|'' \<notin> set c"
proof -
  obtain p a where "AccAddressFromBech32 S p = Inr a" "c = AccAddressString S a"
    using DeconstructDenom_ok [OF assms(2)] by metis
  then have "AccAddressFromBech32 S c = Inr a" using bech32_lawsD(4) [OF assms(1)] by simp
  then show "AuthorityMetadataValidate S \<lparr>Admin = c\<rparr> = Inr ()" "CHR ''|'' \<notin> set c"
    using bech32_lawsD(3) [OF assms(1)] by (auto simp: AuthorityMetadataValidate_def)
qed

lemma tf_typed_auth: "tf_typed st \<Longrightarrow> kv_get (tf_store st) (auth_key d) = Some v \<Longrightarrow> \<exists>m. v = VAuth m"
  by (simp add: tf_typed_def)

lemma export_denoms_of_state:
  assumes "tf_inv S st"
  shows "\<exists>ds f. exportDenoms st (GetAllDenomsIterator st) = Inr ds \<and>
           (\<forall>d. kv_get (tf_store st) (auth_key d) = (if d \<in> gd_Denom ` set ds then Some (VAuth (f d)) else None)) \<and>
           (\<forall>g \<in> set ds. gd_AuthorityMetadata g = f (gd_Denom g)) \<and>
           (\<forall>d. d \<in> gd_Denom ` set ds \<longleftrightarrow>
              (\<exists>c. CHR ''|'' \<notin> set c \<and> kv_get (tf_store st) (GetCreatorPrefix c @ d) = Some (VDenom d)))"
proof -
  let ?f = "\<lambda>d. case GetAuthorityMetadata st d of Inr m \<Rightarrow> m"
  have ty: "tf_typed st" and li: "tf_listed S st" using assms by (auto simp: tf_inv_def)
  have rec: "GetAuthorityMetadata st d = Inr (?f d)" for d
    using ty by (auto simp: GetAuthorityMetadata_def tf_typed_def split: option.splits tf_val.splits)
  have auth: "kv_get (tf_store st) (auth_key d) = Some (VAuth (?f d))"
    if present: "kv_get (tf_store st) (auth_key d) \<noteq> None" for d
  proof -
    obtain v where v: "kv_get (tf_store st) (auth_key d) = Some v" using present by auto
    then obtain m where "v = VAuth m" using tf_typed_auth [OF ty] by blast
    with v have "kv_get (tf_store st) (auth_key d) = Some (VAuth m)" by simp
    then show ?thesis by (simp add: GetAuthorityMetadata_def)
  qed
  obtain ds where ds: "exportDenoms st (GetAllDenomsIterator st) = Inr ds"
    "\<forall>g \<in> set ds. gd_AuthorityMetadata g = ?f (gd_Denom g)"
    "gd_Denom ` set ds = {d. \<exists>j. (j, VDenom d) \<in> set (GetAllDenomsIterator st)}"
  proof -
    have "\<exists>d. v = VDenom d \<and> GetAuthorityMetadata st d = Inr (?f d)"
      if "(j, v) \<in> set (GetAllDenomsIterator st)" for j v
      using creators_entry [OF ty that] rec by blast
    then show ?thesis using exportDenoms_ok [of "GetAllDenomsIterator st" st ?f] that by blast
  qed
  have mem: "d \<in> gd_Denom ` set ds \<longleftrightarrow>
      (\<exists>c. CHR ''|'' \<notin> set c \<and> kv_get (tf_store st) (GetCreatorPrefix c @ d) = Some (VDenom d))" for d
  proof
    assume "d \<in> gd_Denom ` set ds"
    then obtain j where "(j, VDenom d) \<in> set (GetAllDenomsIterator st)" using ds(3) by auto
    then show "\<exists>c. CHR ''|'' \<notin> set c \<and> kv_get (tf_store st) (GetCreatorPrefix c @ d) = Some (VDenom d)"
      by (rule creators_entry [OF ty]) auto
  next
    assume "\<exists>c. CHR ''|'' \<notin> set c \<and> kv_get (tf_store st) (GetCreatorPrefix c @ d) = Some (VDenom d)"
    then obtain c where c: "kv_get (tf_store st) (GetCreatorPrefix c @ d) = Some (VDenom d)" by auto
    then have "(c @ CHR ''|'' # d, VDenom d) \<in> set (GetAllDenomsIterator st)"
      using ty by (simp add: GetAllDenomsIterator_def kvs.scan_iff tf_typed_def creators_prefix_eq creator_key_eq)
    then show "d \<in> gd_Denom ` set ds" using ds(3) by auto
  qed
  have "kv_get (tf_store st) (auth_key d) = (if d \<in> gd_Denom ` set ds then Some (VAuth (?f d)) else None)" for d
    using li auth [of d] mem [of d] by (cases "kv_get (tf_store st) (auth_key d)") (auto simp: tf_listed_def)
  then show ?thesis using ds(1,2) mem by (intro exI [of _ ds] exI [of _ ?f]) simp
qed

lemma same_denoms_from_creator:
  assumes "kv_wf (tf_store st)" "kv_wf (tf_store st')"
    and "\<And>d. kv_get (tf_store st') (GetCreatorPrefix c @ d) = kv_get (tf_store st) (GetCreatorPrefix c @ d)"
  shows "GetDenomsFromCreator st' c = GetDenomsFromCreator st c"
proof -
  have "set (GetDenomsFromCreator st' c) = set (GetDenomsFromCreator st c)"
    by (rule set_eqI) (simp add: GetDenomsFromCreator_def kvs.scan_keys_iff assms)
  then show ?thesis
    using kvs.scan_sorted [OF assms(1), of "GetCreatorPrefix c"]
      kvs.scan_sorted [OF assms(2), of "GetCreatorPrefix c"]
    by (auto simp: GetDenomsFromCreator_def strict_sorted_iff intro: sorted_distinct_set_unique)
qed

text \<open>The creator in a denomination's name, and the entry of an exportable state under it.\<close>

definition denom_creator :: "'w sdk \<Rightarrow> string \<Rightarrow> string" where
  "denom_creator S d = (case DeconstructDenom S d of Inl e \<Rightarrow> [] | Inr (c, _) \<Rightarrow> c)"

lemma exportable_entry:
  assumes "tf_inv S st" "tf_exportable S st" "CHR ''|'' \<notin> set c"
    and "kv_get (tf_store st) (GetCreatorPrefix c @ d) = Some v"
  shows "v = VDenom d" and "\<exists>sd. DeconstructDenom S d = Inr (c, sd)" and "c = denom_creator S d"
proof -
  obtain c' d' where e: "c @ CHR ''|'' # d = c' @ CHR ''|'' # d'" "CHR ''|'' \<notin> set c'" "v = VDenom d'"
    using assms(1,4) unfolding tf_inv_def tf_typed_def
    by (metis creators_creator_key)
  then show "v = VDenom d" using sep_append_inj [OF assms(3) e(2,1)] by simp
  show dec: "\<exists>sd. DeconstructDenom S d = Inr (c, sd)"
    using assms(2-4) unfolding tf_exportable_def by blast
  then show "c = denom_creator S d" by (auto simp: denom_creator_def)
qed

lemma import_of_export:
  assumes bl: "bech32_laws S" and inv: "tf_inv S st" and ex: "tf_exportable S st"
    and wf: "kv_wf s1" and old: "\<And>d. kv_get s1 (auth_key d) = None"
      "\<And>c d. kv_get s1 (GetCreatorPrefix c @ d) = None"
  shows "\<exists>ds st'. exportDenoms st (GetAllDenomsIterator st) = Inr ds \<and>
           initDenoms S ds \<lparr>tf_store = s1, tf_world = w\<rparr> = (Inr (), st') \<and> kv_wf (tf_store st') \<and>
           kv_get (tf_store st') ParamsKey = kv_get s1 ParamsKey \<and>
           (\<forall>d. kv_get (tf_store st') (auth_key d) = kv_get (tf_store st) (auth_key d)) \<and>
           (\<forall>c d. CHR ''|'' \<notin> set c \<longrightarrow> kv_get (tf_store st') (GetCreatorPrefix c @ d)
              = kv_get (tf_store st) (GetCreatorPrefix c @ d))"
proof -
  obtain ds f where ds: "exportDenoms st (GetAllDenomsIterator st) = Inr ds"
    "\<And>d. kv_get (tf_store st) (auth_key d) = (if d \<in> gd_Denom ` set ds then Some (VAuth (f d)) else None)"
    "\<And>g. g \<in> set ds \<Longrightarrow> gd_AuthorityMetadata g = f (gd_Denom g)"
    "\<And>d. d \<in> gd_Denom ` set ds \<longleftrightarrow>
       (\<exists>c. CHR ''|'' \<notin> set c \<and> kv_get (tf_store st) (GetCreatorPrefix c @ d) = Some (VDenom d))"
    using export_denoms_of_state [OF inv] by metis
  have dec: "\<exists>sd. DeconstructDenom S (gd_Denom g) = Inr (denom_creator S (gd_Denom g), sd)"
    if "g \<in> set ds" for g
    using ds(4) [of "gd_Denom g"] exportable_entry(2,3) [OF inv ex] that by (metis imageI)
  have "\<exists>st'. initDenoms S ds \<lparr>tf_store = s1, tf_world = w\<rparr> = (Inr (), st') \<and> kv_wf (tf_store st') \<and>
           kv_get (tf_store st') ParamsKey = kv_get (tf_store \<lparr>tf_store = s1, tf_world = w\<rparr>) ParamsKey \<and>
           (\<forall>d. kv_get (tf_store st') (auth_key d) = (if d \<in> gd_Denom ` set ds then Some (VAuth (f d))
              else kv_get (tf_store \<lparr>tf_store = s1, tf_world = w\<rparr>) (auth_key d))) \<and>
           (\<forall>c d. CHR ''|'' \<notin> set c \<longrightarrow> kv_get (tf_store st') (GetCreatorPrefix c @ d) =
              (if d \<in> gd_Denom ` set ds \<and> c = denom_creator S d then Some (VDenom d)
               else kv_get (tf_store \<lparr>tf_store = s1, tf_world = w\<rparr>) (GetCreatorPrefix c @ d)))"
  proof (rule initDenoms_ok)
    fix g assume g: "g \<in> set ds"
    show "\<exists>sd. DeconstructDenom S (gd_Denom g) = Inr (denom_creator S (gd_Denom g), sd)"
      by (rule dec [OF g])
    then show "AuthorityMetadataValidate S \<lparr>Admin = denom_creator S (gd_Denom g)\<rparr> = Inr ()"
      "CHR ''|'' \<notin> set (denom_creator S (gd_Denom g))"
      using canonical_creator [OF bl] by blast+
    show "gd_AuthorityMetadata g = f (gd_Denom g)" by (rule ds(3) [OF g])
    then have "kv_get (tf_store st) (auth_key (gd_Denom g)) = Some (VAuth (gd_AuthorityMetadata g))"
      using ds(2) [of "gd_Denom g"] g by simp
    then show "AuthorityMetadataValidate S (gd_AuthorityMetadata g) = Inr ()"
      using ex unfolding tf_exportable_def by blast
  qed (simp add: wf)
  then obtain st' where st': "initDenoms S ds \<lparr>tf_store = s1, tf_world = w\<rparr> = (Inr (), st')"
    "kv_wf (tf_store st')" "kv_get (tf_store st') ParamsKey = kv_get s1 ParamsKey"
    "\<And>d. kv_get (tf_store st') (auth_key d) = (if d \<in> gd_Denom ` set ds then Some (VAuth (f d)) else None)"
    "\<And>c d. CHR ''|'' \<notin> set c \<Longrightarrow> kv_get (tf_store st') (GetCreatorPrefix c @ d) =
       (if d \<in> gd_Denom ` set ds \<and> c = denom_creator S d then Some (VDenom d) else None)"
    by (elim exE conjE) (simp add: old)
  have "kv_get (tf_store st) (GetCreatorPrefix c @ d) =
       (if d \<in> gd_Denom ` set ds \<and> c = denom_creator S d then Some (VDenom d) else None)"
    if c: "CHR ''|'' \<notin> set c" for c d
  proof (cases "kv_get (tf_store st) (GetCreatorPrefix c @ d)")
    case None
    then show ?thesis using ds(4) [of d] exportable_entry(3) [OF inv ex] by fastforce
  next
    case (Some v)
    then show ?thesis using ds(4) [of d] exportable_entry [OF inv ex c Some] c by auto
  qed
  then show ?thesis using st' ds(1,2) by auto
qed


definition tf_ex3 :: "ledger tf_state" where
  "tf_ex3 = snd (TFSetParams ledger_sdk \<lparr>DenomCreationFee = None, DenomCreationGasConsume = 5\<rparr> tf_ex2)"

lemma tf_ex3_store:
  "tf_store tf_ex3 =
     [(ParamsKey, VParams \<lparr>DenomCreationFee = None, DenomCreationGasConsume = 5\<rparr>),
      (GetCreatorPrefix ''terp1abc'' @ tf_ex_denom, VDenom tf_ex_denom),
      (auth_key tf_ex_denom, VAuth \<lparr>Admin = ''terp1abc''\<rparr>)]"
  by code_simp

lemma tf_ex3_inv: "tf_inv ledger_sdk tf_ex3"
proof -
  have "tf_ex3 = tf_ex2\<lparr>tf_store := kv_set ParamsKey
      (VParams \<lparr>DenomCreationFee = None, DenomCreationGasConsume = 5\<rparr>) (tf_store tf_ex2)\<rparr>"
    by (simp add: tf_ex3_def TFSetParams_def TFParamsValidate_def ledger_sdk_def tf_params_wire_def)
  moreover have "tf_inv ledger_sdk tf_ex2"
    using tf_inv_deliver [OF tf_inv_deliver [OF tf_inv_empty ledger_metadata ledger_bech32
        tf_ex_create_run [unfolded tf_ex0_def]] ledger_metadata ledger_bech32 tf_ex_mint_run] .
  ultimately show ?thesis by (metis tf_inv_params)
qed

lemma tf_ex3_exportable: "tf_exportable ledger_sdk tf_ex3"
proof -
  have dec: "DeconstructDenom ledger_sdk tf_ex_denom = Inr (''terp1abc'', ''x'')" by code_simp
  have adm: "AuthorityMetadataValidate ledger_sdk \<lparr>Admin = ''terp1abc''\<rparr> = Inr ()" by code_simp
  have par: "TFParamsValidate ledger_sdk \<lparr>DenomCreationFee = None, DenomCreationGasConsume = 5\<rparr> = Inr ()"
    by code_simp
  have inj: "GetCreatorPrefix c @ d = GetCreatorPrefix ''terp1abc'' @ tf_ex_denom \<longleftrightarrow>
      c = ''terp1abc'' \<and> d = tf_ex_denom" if "CHR ''|'' \<notin> set c" for c d
    using creator_key_inj [OF that, of "''terp1abc''"] by simp
  have 1: "kv_get (tf_store tf_ex3) ParamsKey = Some (VParams \<lparr>DenomCreationFee = None, DenomCreationGasConsume = 5\<rparr>)"
    by (simp add: tf_ex3_store kv_get_def)
  have 2: "m = \<lparr>Admin = ''terp1abc''\<rparr>" if "kv_get (tf_store tf_ex3) (auth_key d) = Some (VAuth m)" for d m
    using that by (simp add: tf_ex3_store kv_get_def split: if_splits)
  have 3: "c = ''terp1abc'' \<and> d = tf_ex_denom"
    if "CHR ''|'' \<notin> set c" "kv_get (tf_store tf_ex3) (GetCreatorPrefix c @ d) = Some v" for c d v
    using that(2) by (simp add: tf_ex3_store kv_get_def inj [OF that(1)] del: append_eq_append_conv
        split: if_splits)
  show ?thesis
    unfolding tf_exportable_def
  proof (intro conjI allI impI)
    show "\<exists>p. kv_get (tf_store tf_ex3) ParamsKey = Some (VParams p) \<and> tf_params_wire p = p \<and>
        TFParamsValidate ledger_sdk p = Inr ()"
      using 1 par by (simp add: tf_params_wire_def)
  qed (use 2 adm 3 dec in blast)+
qed

lemma tf_ex3_admin: "GetAuthorityMetadata tf_ex3 tf_ex_denom = Inr \<lparr>Admin = ''terp1abc''\<rparr>"
  by code_simp


section \<open>The parameter contract\<close>

interpretation tf_server: params_server
  "\<lambda>k a p st. TFUpdateParams S k \<lparr>tfup_Authority = a, tfup_Params = p\<rparr> st"
  tf_authority "TFParamsValidate S" TFGetParams tf_params_wire
  for S :: "'w sdk"
  by unfold_locales
    (auto simp: TFUpdateParams_def TFSetParams_def TFGetParams_def kv_simps split: sum.splits)

end
