(* ===== verification/Drip.thy ===== *)
theory Drip
  imports Sdk ParamsServer
begin

text \<open>
  Module \<open>x/drip\<close>: addresses allowed by governance send coins to the fee collector, from where
  the distribution module pays them to the stakers of the next block.  The module's store holds
  its parameters only.
\<close>

section \<open>Parameters\<close>

abbreviation ErrDripDisabled :: error where "ErrDripDisabled \<equiv> Registered ''drip'' 1"
abbreviation ErrDripNotAllowed :: error where "ErrDripNotAllowed \<equiv> Registered ''drip'' 2"
abbreviation DripErrDuplicate :: error where "DripErrDuplicate \<equiv> Registered ''drip'' 4"
abbreviation DripErrBlank :: error where "DripErrBlank \<equiv> Registered ''drip'' 5"

record DripParams =
  EnableDrip :: bool
  AllowedAddresses :: "string list"

definition DripDefaultParams :: DripParams where
  "DripDefaultParams = \<lparr>EnableDrip = True, AllowedAddresses = []\<rparr>"

text \<open>The loop over the addresses, with the set of the addresses already seen.\<close>

fun assertValidAddresses_loop :: "'w sdk \<Rightarrow> string list \<Rightarrow> string list \<Rightarrow> unit res" where
  "assertValidAddresses_loop S idx [] = Inr ()"
| "assertValidAddresses_loop S idx (a # as) =
     (if a = '''' then Inl DripErrBlank
      else case AccAddressFromBech32 S a of
             Inl e \<Rightarrow> Inl e
           | Inr _ \<Rightarrow> if a \<in> set idx then Inl DripErrDuplicate
                       else assertValidAddresses_loop S (a # idx) as)"

definition assertValidAddresses :: "'w sdk \<Rightarrow> string list \<Rightarrow> unit res" where
  "assertValidAddresses S addrs = assertValidAddresses_loop S [] addrs"

text \<open>The two type checks of \<open>Validate\<close> cannot fail on a value of type \<open>Params\<close>.\<close>

definition DripParamsValidate :: "'w sdk \<Rightarrow> DripParams \<Rightarrow> unit res" where
  "DripParamsValidate S p = assertValidAddresses S (AllowedAddresses p)"

section \<open>Keeper and messages\<close>

record drip_keeper =
  feeCollectorName :: string
  drip_authority :: string

record 'w drip_state =
  drip_params :: "DripParams option"
  drip_world :: 'w

definition DripGetParams :: "'w drip_state \<Rightarrow> DripParams" where
  "DripGetParams st =
     (case drip_params st of None \<Rightarrow> \<lparr>EnableDrip = False, AllowedAddresses = []\<rparr> | Some p \<Rightarrow> p)"

definition DripSetParams :: "'w sdk \<Rightarrow> DripParams \<Rightarrow> 'w drip_state \<Rightarrow> unit res \<times> 'w drip_state" where
  "DripSetParams S p st =
     (case DripParamsValidate S p of
        Inl e \<Rightarrow> (Inl e, st)
      | Inr _ \<Rightarrow> (Inr (), st\<lparr>drip_params := Some p\<rparr>))"

record MsgDistributeTokens =
  SenderAddress :: string
  dt_Amount :: Coins

definition MsgDistributeTokens_ValidateBasic :: "'w sdk \<Rightarrow> MsgDistributeTokens \<Rightarrow> unit res" where
  "MsgDistributeTokens_ValidateBasic S msg =
     (if SenderAddress msg = '''' then Inl (Plain ''sender address cannot be empty'')
      else case AccAddressFromBech32 S (SenderAddress msg) of
             Inl e \<Rightarrow> Inl e
           | Inr _ \<Rightarrow>
               if dt_Amount msg = [] then Inl (Plain ''invalid coins'')
               else if \<not> is_ok (CoinsValidate S (dt_Amount msg)) then Inl (Plain ''invalid coins'')
               else Inr ())"

definition SendCoinsFromAccountToFeeCollector ::
  "'w sdk \<Rightarrow> drip_keeper \<Rightarrow> string \<Rightarrow> Coins \<Rightarrow> 'w \<Rightarrow> unit res \<times> 'w" where
  "SendCoinsFromAccountToFeeCollector S k senderAddr amt w =
     SendCoinsFromAccountToModule S senderAddr (feeCollectorName k) amt w"

definition DistributeTokens ::
  "'w sdk \<Rightarrow> drip_keeper \<Rightarrow> MsgDistributeTokens \<Rightarrow> 'w drip_state \<Rightarrow> unit res \<times> 'w drip_state" where
  "DistributeTokens S k msg st =
     (case MsgDistributeTokens_ValidateBasic S msg of
        Inl e \<Rightarrow> (Inl e, st)
      | Inr _ \<Rightarrow>
          let params = DripGetParams st in
          if \<not> EnableDrip params then (Inl ErrDripDisabled, st)
          else if \<not> list_ex (\<lambda>addr. SenderAddress msg = addr) (AllowedAddresses params)
          then (Inl ErrDripNotAllowed, st)
          else (case AccAddressFromBech32 S (SenderAddress msg) of
                  Inl e \<Rightarrow> (Inl e, st)
                | Inr sender \<Rightarrow>
                    (case SendCoinsFromAccountToFeeCollector S k sender (dt_Amount msg) (drip_world st) of
                       (Inl e, w) \<Rightarrow> (Inl e, st\<lparr>drip_world := w\<rparr>)
                     | (Inr _, w) \<Rightarrow> (Inr (), st\<lparr>drip_world := w\<rparr>))))"

record DripMsgUpdateParams =
  dup_Authority :: string
  dup_Params :: DripParams

definition DripMsgUpdateParams_ValidateBasic :: "'w sdk \<Rightarrow> DripMsgUpdateParams \<Rightarrow> unit res" where
  "DripMsgUpdateParams_ValidateBasic S m =
     (case AccAddressFromBech32 S (dup_Authority m) of
        Inl e \<Rightarrow> Inl e
      | Inr _ \<Rightarrow> DripParamsValidate S (dup_Params m))"

definition DripUpdateParams ::
  "'w sdk \<Rightarrow> drip_keeper \<Rightarrow> DripMsgUpdateParams \<Rightarrow> 'w drip_state \<Rightarrow> unit res \<times> 'w drip_state" where
  "DripUpdateParams S k req st =
     (if drip_authority k \<noteq> dup_Authority req then (Inl ErrGovInvalidSigner, st)
      else DripSetParams S (dup_Params req) st)"

definition DripInitGenesis :: "'w sdk \<Rightarrow> DripParams \<Rightarrow> 'w drip_state \<Rightarrow> unit res \<times> 'w drip_state" where
  "DripInitGenesis S params st =
     (case DripSetParams S params st of
        (Inl e, st') \<Rightarrow> (Inl (Panicked ''set params''), st')
      | (Inr _, st') \<Rightarrow> (Inr (), st'))"

definition DripExportGenesis :: "'w drip_state \<Rightarrow> DripParams" where
  "DripExportGenesis st = DripGetParams st"

section \<open>Properties\<close>

lemma assertValidAddresses_loop_ok:
  "assertValidAddresses_loop S idx as = Inr () \<longleftrightarrow>
     (\<forall>a \<in> set as. a \<noteq> '''' \<and> is_ok (AccAddressFromBech32 S a)) \<and>
     distinct as \<and> set as \<inter> set idx = {}"
  by (induction S idx as rule: assertValidAddresses_loop.induct) (auto split: sum.splits)

text \<open>
  Parameters validate exactly when the allowed addresses are distinct, none is blank and
  every one of them decodes.
\<close>

theorem drip_params_valid_iff:
  "DripParamsValidate S p = Inr () \<longleftrightarrow>
     distinct (AllowedAddresses p) \<and>
     (\<forall>a \<in> set (AllowedAddresses p). a \<noteq> '''' \<and> is_ok (AccAddressFromBech32 S a))"
  by (auto simp: DripParamsValidate_def assertValidAddresses_def assertValidAddresses_loop_ok)

theorem drip_params_valid_iff_witness:
  "DripParamsValidate ledger_sdk \<lparr>EnableDrip = True, AllowedAddresses = [''terp1a'', ''terp1b'']\<rparr> = Inr ()"
  by (simp add: drip_params_valid_iff ledger_sdk_def addr_char_def less_eq_char_def)

interpretation drip_server: params_server
  "\<lambda>k a p st. DripUpdateParams S k \<lparr>dup_Authority = a, dup_Params = p\<rparr> st"
  drip_authority "DripParamsValidate S" "\<lambda>st. Inr (DripGetParams st)" "\<lambda>p. p"
  for S :: "'w sdk"
  by unfold_locales
    (auto simp: DripUpdateParams_def DripSetParams_def DripGetParams_def split: sum.splits)

text \<open>
  C36. Tokens are distributed only for a sender that governance has allowed, while the module is
  enabled: the coins then move from that sender to the fee collector, nothing else moves, no
  supply changes and the parameters stay as they are.
\<close>

theorem drip_distribute_effect:
  assumes "bank_laws S supply bal modaddr" and "DistributeTokens S k msg st = (Inr (), st')"
  shows "EnableDrip (DripGetParams st) \<and> SenderAddress msg \<in> set (AllowedAddresses (DripGetParams st)) \<and>
         drip_params st' = drip_params st \<and>
         (\<exists>sender. AccAddressFromBech32 S (SenderAddress msg) = Inr sender \<and>
            moved supply bal sender (modaddr (feeCollectorName k)) (dt_Amount msg)
              (drip_world st) (drip_world st'))"
  using assms(2) bank_lawsD(7) [OF assms(1)]
  by (auto simp: DistributeTokens_def SendCoinsFromAccountToFeeCollector_def Let_def list_ex_iff
      split: sum.splits prod.splits if_splits)

definition drip_ex :: "ledger drip_state" where
  "drip_ex = \<lparr>drip_params = Some \<lparr>EnableDrip = True, AllowedAddresses = [''terp1a'']\<rparr>,
     drip_world = credit ''terp1a'' [\<lparr>Denom = ''uterp'', Amount = 50\<rparr>] ledger0\<rparr>"

definition drip_ex_keeper :: drip_keeper where
  "drip_ex_keeper = \<lparr>feeCollectorName = ''feecollector'', drip_authority = ''gov''\<rparr>"

definition drip_ex_msg :: MsgDistributeTokens where
  "drip_ex_msg = \<lparr>SenderAddress = ''terp1a'', dt_Amount = [\<lparr>Denom = ''uterp'', Amount = 20\<rparr>]\<rparr>"

lemma drip_ex_ok: "fst (DistributeTokens ledger_sdk drip_ex_keeper drip_ex_msg drip_ex) = Inr ()"
  by code_simp

lemma drip_ex_run: "DistributeTokens ledger_sdk drip_ex_keeper drip_ex_msg drip_ex
    = (Inr (), snd (DistributeTokens ledger_sdk drip_ex_keeper drip_ex_msg drip_ex))"
  using drip_ex_ok by (simp add: prod_eq_iff)

theorem drip_distribute_effect_witness:
  "balances (drip_world (snd (DistributeTokens ledger_sdk drip_ex_keeper drip_ex_msg drip_ex)))
     ''feecollector'' ''uterp'' = 20"
  using drip_distribute_effect [OF ledger_bank drip_ex_run]
  by (auto simp: moved_def ledger_sdk_def drip_ex_msg_def drip_ex_keeper_def drip_ex_def credit_def
      ledger0_def split: if_splits)

text \<open>
  A distribution that fails before the bank is called changes nothing: a disabled module, a
  sender that is not allowed and a malformed message are each reported with the state untouched,
  in that order of precedence after the stateless check.
\<close>

lemma drip_distribute_refused:
  "MsgDistributeTokens_ValidateBasic S msg = Inl e \<Longrightarrow> DistributeTokens S k msg st = (Inl e, st)"
  "MsgDistributeTokens_ValidateBasic S msg = Inr () \<Longrightarrow> \<not> EnableDrip (DripGetParams st) \<Longrightarrow>
     DistributeTokens S k msg st = (Inl ErrDripDisabled, st)"
  "MsgDistributeTokens_ValidateBasic S msg = Inr () \<Longrightarrow> EnableDrip (DripGetParams st) \<Longrightarrow>
     SenderAddress msg \<notin> set (AllowedAddresses (DripGetParams st)) \<Longrightarrow>
     DistributeTokens S k msg st = (Inl ErrDripNotAllowed, st)"
  by (auto simp: DistributeTokens_def Let_def list_ex_iff)

end
