(* ===== verification/SdkMath.thy ===== *)
theory SdkMath
  imports Sdk
begin

text \<open>
  The arithmetic of the SDK that the fee modules and the wasm authorizations call: fixed-point
  decimals (\<open>LegacyDec\<close>, kept as an integer number of \<open>10\<^sup>-\<^sup>1\<^sup>8\<close> units) and coin sets.  Both are
  library code, so they are records of functions, with their documented behaviour as the
  predicates \<open>dec_laws\<close> and \<open>coin_set_laws\<close> and a reference instance that satisfies them.
\<close>

section \<open>Decimals\<close>

type_synonym dec = int

definition dec_one :: dec where "dec_one = 1000000000000000000"

record dec_ops =
  MulInt :: "dec \<Rightarrow> int \<Rightarrow> dec"
  QuoInt64 :: "dec \<Rightarrow> int \<Rightarrow> dec"
  RoundInt :: "dec \<Rightarrow> int"
  CeilInt :: "dec \<Rightarrow> int"
  DecMul :: "dec \<Rightarrow> dec \<Rightarrow> dec"

text \<open>
  Multiplication by an integer, or by a decimal that is one, is exact, division by a positive integer of a value that is not
  negative rounds down, rounding to an integer is off by at most a half, and the ceiling is the
  least integer that is not smaller.
\<close>

definition dec_laws :: "dec_ops \<Rightarrow> bool" where
  "dec_laws D \<longleftrightarrow>
     (\<forall>d i. MulInt D d i = d * i) \<and>
     (\<forall>d n. 0 \<le> d \<and> 0 < n \<longrightarrow> QuoInt64 D d n = d div n) \<and>
     (\<forall>d. 2 * \<bar>RoundInt D d * dec_one - d\<bar> \<le> dec_one) \<and>
     (\<forall>d. d \<le> CeilInt D d * dec_one \<and> CeilInt D d * dec_one < d + dec_one) \<and>
     (\<forall>d i. DecMul D d (i * dec_one) = d * i)"

definition round_half_even :: "dec \<Rightarrow> int" where
  "round_half_even d =
     (let q = d div dec_one; r = d mod dec_one in
      if 2 * r < dec_one then q else if dec_one < 2 * r then q + 1
      else if even q then q else q + 1)"

definition ref_dec :: dec_ops where
  "ref_dec = \<lparr>MulInt = (\<lambda>d i. d * i), QuoInt64 = (\<lambda>d n. d div n),
     RoundInt = round_half_even, CeilInt = (\<lambda>d. - ((- d) div dec_one)),
     DecMul = (\<lambda>d e. round_half_even (d * e))\<rparr>"

lemma round_half_even_close: "2 * \<bar>round_half_even d * dec_one - d\<bar> \<le> dec_one"
proof -
  let ?q = "d div dec_one" and ?r = "d mod dec_one"
  have e: "d = ?q * dec_one + ?r" by simp
  have b: "0 \<le> ?r" "?r < dec_one" by (simp_all add: dec_one_def)
  have low: "?q * dec_one - d = - ?r" using e by linarith
  have up: "(?q + 1) * dec_one - d = dec_one - ?r"
    using low unfolding distrib_right by linarith
  have "round_half_even d = ?q \<and> 2 * ?r \<le> dec_one \<or> round_half_even d = ?q + 1 \<and> dec_one \<le> 2 * ?r"
    by (simp add: round_half_even_def Let_def)
  then show ?thesis
  proof
    assume "round_half_even d = ?q \<and> 2 * ?r \<le> dec_one"
    then show ?thesis using low b by simp
  next
    assume "round_half_even d = ?q + 1 \<and> dec_one \<le> 2 * ?r"
    then show ?thesis using up b by simp
  qed
qed

lemma ceil_close:
  "d \<le> - ((- d) div dec_one) * dec_one" "- ((- d) div dec_one) * dec_one < d + dec_one"
proof -
  have e: "- d = (- d) div dec_one * dec_one + (- d) mod dec_one" by simp
  have "0 \<le> (- d) mod dec_one" "(- d) mod dec_one < dec_one" by (simp_all add: dec_one_def)
  then show "d \<le> - ((- d) div dec_one) * dec_one" "- ((- d) div dec_one) * dec_one < d + dec_one"
    using e by linarith+
qed

lemma round_half_even_exact: "round_half_even (d * (i * dec_one)) = d * i"
proof -
  have "d * (i * dec_one) = d * i * dec_one" by simp
  moreover have "d * i * dec_one div dec_one = d * i" "d * i * dec_one mod dec_one = 0"
    by (simp_all add: dec_one_def)
  ultimately show ?thesis by (simp only: round_half_even_def Let_def) (simp add: dec_one_def)
qed

lemma ref_dec_laws: "dec_laws ref_dec"
  using round_half_even_exact round_half_even_close ceil_close by (auto simp: dec_laws_def ref_dec_def)

lemma dec_lawsD:
  assumes "dec_laws D"
  shows "MulInt D d i = d * i"
    and "0 \<le> d \<Longrightarrow> 0 < n \<Longrightarrow> QuoInt64 D d n = d div n"
    and "2 * \<bar>RoundInt D d * dec_one - d\<bar> \<le> dec_one"
    and "d \<le> CeilInt D d * dec_one" and "CeilInt D d * dec_one < d + dec_one"
    and "DecMul D d (i * dec_one) = d * i"
  using assms unfolding dec_laws_def by blast+

lemma RoundInt_nonneg:
  assumes "dec_laws D" and "0 \<le> d"
  shows "0 \<le> RoundInt D d"
proof (rule ccontr)
  assume "\<not> 0 \<le> RoundInt D d"
  then have "RoundInt D d * dec_one \<le> - dec_one" by (simp add: dec_one_def)
  then show False using dec_lawsD(3) [OF assms(1), of d] assms(2) by (simp add: dec_one_def)
qed

text \<open>\<open>Int.Quo\<close> truncates towards zero.\<close>

definition int_quo :: "int \<Rightarrow> int \<Rightarrow> int" where
  "int_quo a b = sgn a * sgn b * (\<bar>a\<bar> div \<bar>b\<bar>)"

lemma int_quo_nonneg: "0 \<le> a \<Longrightarrow> 0 < b \<Longrightarrow> int_quo a b = a div b"
  by (cases "a = 0") (simp_all add: int_quo_def)

section \<open>Coin sets\<close>

record coin_ops =
  CoinsSort :: "Coins \<Rightarrow> Coins"
  CoinsAdd :: "Coins \<Rightarrow> Coins \<Rightarrow> Coins"
  CoinsSub :: "Coins \<Rightarrow> Coins \<Rightarrow> Coins res"
  CoinsIsAllLTE :: "Coins \<Rightarrow> Coins \<Rightarrow> bool"
  NewCoin :: "string \<Rightarrow> int \<Rightarrow> Coin res"
  DenomsSubsetOf :: "Coins \<Rightarrow> Coins \<Rightarrow> bool"
  IsAnyGTE :: "Coins \<Rightarrow> Coins \<Rightarrow> bool"
  CoinsIsZero :: "Coins \<Rightarrow> bool"

text \<open>A coin set: one coin per denomination, no negative amount.\<close>

definition coin_wf :: "Coins \<Rightarrow> bool" where
  "coin_wf cs \<longleftrightarrow> distinct (map Denom cs) \<and> (\<forall>c \<in> set cs. 0 \<le> Amount c)"

text \<open>A requirement: a sorted coin set without zero amounts.\<close>

definition required_set :: "Coins \<Rightarrow> bool" where
  "required_set ds \<longleftrightarrow> coin_wf ds \<and> sorted (map Denom ds) \<and> (\<forall>e \<in> set ds. Amount e \<noteq> 0)"

text \<open>
  Sorting permutes and sorts; \<open>NewCoin\<close> refuses a negative amount; adding adds the amount of every denomination; comparison compares every
  denomination; subtraction panics exactly when a denomination would become negative.  Sorting
  and adding give coin sets from coin sets.  Against a sorted coin set without zero amounts,
  \<open>DenomsSubsetOf\<close> compares the denominations, and \<open>IsAnyGTE\<close> looks for one coin that covers the
  coin of its denomination.
\<close>

definition coin_set_laws :: "coin_ops \<Rightarrow> bool" where
  "coin_set_laws A \<longleftrightarrow>
     (\<forall>cs. set (CoinsSort A cs) = set cs \<and> (\<forall>d. coins_amount (CoinsSort A cs) d = coins_amount cs d) \<and>
           sorted (map Denom (CoinsSort A cs))) \<and>
     (\<forall>cs ds d. coins_amount (CoinsAdd A cs ds) d = coins_amount cs d + coins_amount ds d) \<and>
     (\<forall>cs ds. CoinsIsAllLTE A cs ds \<longleftrightarrow> (\<forall>d. coins_amount cs d \<le> coins_amount ds d)) \<and>
     (\<forall>cs ds rs. CoinsSub A cs ds = Inr rs \<longrightarrow>
        (\<forall>d. coins_amount rs d = coins_amount cs d - coins_amount ds d \<and> 0 \<le> coins_amount rs d)) \<and>
     (\<forall>cs ds. (\<forall>d. coins_amount ds d \<le> coins_amount cs d) \<longrightarrow> is_ok (CoinsSub A cs ds)) \<and>
     (\<forall>d n c. NewCoin A d n = Inr c \<longrightarrow> 0 \<le> n \<and> c = \<lparr>Denom = d, Amount = n\<rparr>) \<and>
     (\<forall>cs. coin_wf cs \<longrightarrow> coin_wf (CoinsSort A cs)) \<and>
     (\<forall>cs ds. coin_wf cs \<and> coin_wf ds \<longrightarrow> coin_wf (CoinsAdd A cs ds)) \<and>
     (\<forall>cs ds. coin_wf cs \<and> required_set ds \<longrightarrow>
        (DenomsSubsetOf A cs ds \<longleftrightarrow> Denom ` set cs \<subseteq> Denom ` set ds) \<and>
        (IsAnyGTE A cs ds \<longleftrightarrow> (\<exists>c \<in> set cs. \<exists>e \<in> set ds. Denom e = Denom c \<and> Amount e \<le> Amount c))) \<and>
     (\<forall>cs. CoinsIsZero A cs \<longleftrightarrow> (\<forall>c \<in> set cs. Amount c = 0))"

lemma coin_set_lawsD:
  assumes "coin_set_laws A"
  shows "set (CoinsSort A cs) = set cs"
    and "coins_amount (CoinsSort A cs) d = coins_amount cs d"
    and "coins_amount (CoinsAdd A cs ds) d = coins_amount cs d + coins_amount ds d"
    and "CoinsIsAllLTE A cs ds \<longleftrightarrow> (\<forall>d. coins_amount cs d \<le> coins_amount ds d)"
    and "CoinsSub A cs ds = Inr rs \<Longrightarrow> coins_amount rs d = coins_amount cs d - coins_amount ds d"
    and "NewCoin A d n = Inr c \<Longrightarrow> c = \<lparr>Denom = d, Amount = n\<rparr>"
    and "coin_wf cs \<Longrightarrow> coin_wf (CoinsSort A cs)"
    and "coin_wf cs \<Longrightarrow> coin_wf ds \<Longrightarrow> coin_wf (CoinsAdd A cs ds)"
    and "sorted (map Denom (CoinsSort A cs))"
    and "NewCoin A d n = Inr c \<Longrightarrow> 0 \<le> n"
    and "coin_wf cs \<Longrightarrow> required_set ds \<Longrightarrow> DenomsSubsetOf A cs ds \<longleftrightarrow> Denom ` set cs \<subseteq> Denom ` set ds"
    and "coin_wf cs \<Longrightarrow> required_set ds \<Longrightarrow>
      IsAnyGTE A cs ds \<longleftrightarrow> (\<exists>c \<in> set cs. \<exists>e \<in> set ds. Denom e = Denom c \<and> Amount e \<le> Amount c)"
    and CoinsIsZero_iff: "CoinsIsZero A cs \<longleftrightarrow> (\<forall>c \<in> set cs. Amount c = 0)"
    and CoinsSub_nonneg: "CoinsSub A cs ds = Inr rs \<Longrightarrow> 0 \<le> coins_amount rs d"
    and CoinsSub_ok: "\<forall>d. coins_amount ds d \<le> coins_amount cs d \<Longrightarrow> is_ok (CoinsSub A cs ds)"
proof -
  note L = assms [unfolded coin_set_laws_def]
  note L1 = L [THEN conjunct1]
  note L2 = L [THEN conjunct2, THEN conjunct1]
  note L3 = L [THEN conjunct2, THEN conjunct2, THEN conjunct1]
  note L4 = L [THEN conjunct2, THEN conjunct2, THEN conjunct2, THEN conjunct1]
  note L5 = L [THEN conjunct2, THEN conjunct2, THEN conjunct2, THEN conjunct2, THEN conjunct1]
  note L6 = L [THEN conjunct2, THEN conjunct2, THEN conjunct2, THEN conjunct2, THEN conjunct2, THEN conjunct1]
  note L7 = L [THEN conjunct2, THEN conjunct2, THEN conjunct2, THEN conjunct2, THEN conjunct2, THEN conjunct2, THEN conjunct1]
  note L8 = L [THEN conjunct2, THEN conjunct2, THEN conjunct2, THEN conjunct2, THEN conjunct2, THEN conjunct2, THEN conjunct2, THEN conjunct1]
  note L9 = L [THEN conjunct2, THEN conjunct2, THEN conjunct2, THEN conjunct2, THEN conjunct2, THEN conjunct2, THEN conjunct2, THEN conjunct2, THEN conjunct1]
  note L10 = L [THEN conjunct2, THEN conjunct2, THEN conjunct2, THEN conjunct2, THEN conjunct2, THEN conjunct2, THEN conjunct2, THEN conjunct2, THEN conjunct2]
  show "set (CoinsSort A cs) = set cs" using L1 by simp
  show "coins_amount (CoinsSort A cs) d = coins_amount cs d" using L1 by simp
  show "coins_amount (CoinsAdd A cs ds) d = coins_amount cs d + coins_amount ds d" using L2 by simp
  show "CoinsIsAllLTE A cs ds \<longleftrightarrow> (\<forall>d. coins_amount cs d \<le> coins_amount ds d)" using L3 by simp
  show "CoinsSub A cs ds = Inr rs \<Longrightarrow> coins_amount rs d = coins_amount cs d - coins_amount ds d" using L4 by blast
  show "NewCoin A d n = Inr c \<Longrightarrow> c = \<lparr>Denom = d, Amount = n\<rparr>" using L6 by blast
  show "coin_wf cs \<Longrightarrow> coin_wf (CoinsSort A cs)" using L7 by blast
  show "coin_wf cs \<Longrightarrow> coin_wf ds \<Longrightarrow> coin_wf (CoinsAdd A cs ds)" using L8 by blast
  show "sorted (map Denom (CoinsSort A cs))" using L1 by simp
  show "NewCoin A d n = Inr c \<Longrightarrow> 0 \<le> n" using L6 by blast
  show "coin_wf cs \<Longrightarrow> required_set ds \<Longrightarrow> DenomsSubsetOf A cs ds \<longleftrightarrow> Denom ` set cs \<subseteq> Denom ` set ds"
    "coin_wf cs \<Longrightarrow> required_set ds \<Longrightarrow>
      IsAnyGTE A cs ds \<longleftrightarrow> (\<exists>c \<in> set cs. \<exists>e \<in> set ds. Denom e = Denom c \<and> Amount e \<le> Amount c)"
    using L9 by simp_all
  show "CoinsIsZero A cs \<longleftrightarrow> (\<forall>c \<in> set cs. Amount c = 0)" using L10 by simp
  show "CoinsSub A cs ds = Inr rs \<Longrightarrow> 0 \<le> coins_amount rs d" using L4 by blast
  show "\<forall>d. coins_amount ds d \<le> coins_amount cs d \<Longrightarrow> is_ok (CoinsSub A cs ds)" using L5 by blast
qed

definition neg_coins :: "Coins \<Rightarrow> Coins" where
  "neg_coins cs = map (\<lambda>c. c\<lparr>Amount := - Amount c\<rparr>) cs"

definition all_amounts :: "(int \<Rightarrow> bool) \<Rightarrow> Coins \<Rightarrow> bool" where
  "all_amounts P cs = list_all (\<lambda>c. P (coins_amount cs (Denom c))) cs"

fun add_coin :: "Coin \<Rightarrow> Coins \<Rightarrow> Coins" where
  "add_coin c [] = [c]"
| "add_coin c (x # xs) =
     (if Denom x = Denom c then x\<lparr>Amount := Amount x + Amount c\<rparr> # xs else x # add_coin c xs)"

definition ref_coins :: coin_ops where
  "ref_coins = \<lparr>CoinsSort = sort_key Denom, CoinsAdd = (\<lambda>cs ds. foldr add_coin ds cs),
     CoinsSub = (\<lambda>cs ds. if all_amounts (\<lambda>n. 0 \<le> n) (foldr add_coin (neg_coins ds) cs)
                        then Inr (filter (\<lambda>c. Amount c \<noteq> 0) (foldr add_coin (neg_coins ds) cs))
                        else Inl (Panicked ''negative coin amount'')),
     CoinsIsAllLTE = (\<lambda>cs ds. all_amounts (\<lambda>n. 0 \<le> n) (ds @ neg_coins cs)),
     NewCoin = (\<lambda>d n. if 0 \<le> n then Inr \<lparr>Denom = d, Amount = n\<rparr> else Inl (Panicked ''negative coin'')),
     DenomsSubsetOf = (\<lambda>cs ds. list_all (\<lambda>c. list_ex (\<lambda>e. Denom e = Denom c) ds) cs),
     IsAnyGTE = (\<lambda>cs ds. list_ex (\<lambda>c. list_ex (\<lambda>e. Denom e = Denom c \<and> Amount e \<le> Amount c) ds) cs),
     CoinsIsZero = list_all (\<lambda>c. Amount c = 0)\<rparr>"

lemma coins_amount_neg: "coins_amount (neg_coins cs) d = - coins_amount cs d"
  by (induction cs) (auto simp: neg_coins_def)

lemma all_amounts_iff:
  "P 0 \<Longrightarrow> all_amounts P cs \<longleftrightarrow> (\<forall>d. P (coins_amount cs d))"
  unfolding all_amounts_def list_all_iff
  by (metis coins_amount_not_in image_iff)

lemma coins_amount_add_coin:
  "coins_amount (add_coin c cs) d = coins_amount cs d + (if Denom c = d then Amount c else 0)"
  by (induction c cs rule: add_coin.induct) auto

lemma denoms_add_coin: "Denom ` set (add_coin c cs) = insert (Denom c) (Denom ` set cs)"
  by (induction c cs rule: add_coin.induct) auto

lemma coin_wf_add_coin: "coin_wf cs \<Longrightarrow> 0 \<le> Amount c \<Longrightarrow> coin_wf (add_coin c cs)"
proof (induction c cs rule: add_coin.induct)
  case (2 c x xs)
  then show ?case using denoms_add_coin [of c xs] by (auto simp: coin_wf_def image_iff)
qed (simp add: coin_wf_def)

lemma coins_amount_foldr: "coins_amount (foldr add_coin ds cs) d = coins_amount cs d + coins_amount ds d"
  by (induction ds) (auto simp: coins_amount_add_coin)

lemma coin_wf_foldr: "coin_wf cs \<Longrightarrow> (\<forall>c \<in> set ds. 0 \<le> Amount c) \<Longrightarrow> coin_wf (foldr add_coin ds cs)"
  by (induction ds) (auto intro: coin_wf_add_coin)

lemma coin_wf_amount: "coin_wf cs \<Longrightarrow> c \<in> set cs \<Longrightarrow> coins_amount cs (Denom c) = Amount c"
  by (induction cs) (auto simp: coin_wf_def coins_amount_not_in image_iff)

lemma coin_wf_nonneg: "coin_wf cs \<Longrightarrow> 0 \<le> coins_amount cs d"
  by (rule coins_amount_nonneg) (simp add: coin_wf_def)

lemma coins_amount_insort:
  "coins_amount (insort_key Denom c cs) d = coins_amount (c # cs) d"
  by (induction cs) auto

lemma coins_amount_sort: "coins_amount (sort_key Denom cs) d = coins_amount cs d"
  by (induction cs) (auto simp: coins_amount_insort)

lemma insort_denoms: "map Denom (insort_key Denom c cs) = insort (Denom c) (map Denom cs)"
  by (induction cs) auto

lemma sort_denoms: "map Denom (sort_key Denom cs) = sort (map Denom cs)"
  by (induction cs) (auto simp: insort_denoms)

lemma coin_wf_sort: "coin_wf cs \<Longrightarrow> coin_wf (sort_key Denom cs)"
  by (simp add: coin_wf_def sort_denoms)

lemma ref_coin_set_laws: "coin_set_laws ref_coins"
proof -
  have "coin_wf (foldr add_coin ds cs)" if "coin_wf cs" "coin_wf ds" for cs ds
    using that by (auto intro: coin_wf_foldr simp: coin_wf_def [of ds])
  moreover have "list_all (\<lambda>c. list_ex (\<lambda>e. Denom e = Denom c) ds) cs \<longleftrightarrow> Denom ` set cs \<subseteq> Denom ` set ds"
    for cs ds :: Coins
    unfolding list_all_iff list_ex_iff image_subset_iff image_iff by (metis (lifting))
  ultimately show ?thesis
    unfolding coin_set_laws_def ref_coins_def coin_ops.simps all_amounts_iff [of "\<lambda>n. 0 \<le> n", OF order_refl]
       coins_amount_foldr coins_amount_sort
    by (simp add: coins_amount_neg coins_amount_nonzero coins_amount_foldr sort_denoms coin_wf_sort list_ex_iff list_all_iff)
qed

end
