(* ===== verification/FeeShare.thy ===== *)
theory FeeShare
  imports SdkMath KVStore ParamsServer
begin

text \<open>
  Module \<open>x/feeshare\<close>: contracts register an address that receives a share of the fees of the
  transactions that execute them.  The store holds the parameters, the registration of each
  contract, and two indexes from deployers and from withdrawers to contracts.  The payout runs
  in the ante handler and draws on the fee collector.
\<close>

section \<open>Errors, keys and data\<close>

abbreviation ErrFeeShareDisabled :: error where "ErrFeeShareDisabled \<equiv> Registered ''feeshare'' 1"
abbreviation ErrFeeShareAlreadyRegistered :: error where
  "ErrFeeShareAlreadyRegistered \<equiv> Registered ''feeshare'' 2"
abbreviation ErrFeeShareContractNotRegistered :: error where
  "ErrFeeShareContractNotRegistered \<equiv> Registered ''feeshare'' 4"
abbreviation ErrFeeSharePayment :: error where "ErrFeeSharePayment \<equiv> Registered ''feeshare'' 5"
abbreviation ErrFeeShareInvalidWithdrawer :: error where
  "ErrFeeShareInvalidWithdrawer \<equiv> Registered ''feeshare'' 6"

definition KeyPrefixFeeShare :: string where "KeyPrefixFeeShare = [CHR 0x01]"
definition KeyPrefixDeployer :: string where "KeyPrefixDeployer = [CHR 0x02]"
definition KeyPrefixWithdrawer :: string where "KeyPrefixWithdrawer = [CHR 0x03]"
definition FSParamsKey :: string where "FSParamsKey = [CHR 0x04]"

definition GetKeyPrefixDeployer :: "string \<Rightarrow> string" where
  "GetKeyPrefixDeployer deployer = KeyPrefixDeployer @ deployer"

definition GetKeyPrefixWithdrawer :: "string \<Rightarrow> string" where
  "GetKeyPrefixWithdrawer withdrawer = KeyPrefixWithdrawer @ withdrawer"

record FeeShare =
  ContractAddress :: string
  DeployerAddress :: string
  WithdrawerAddress :: string

text \<open>\<open>None\<close> is the zero \<open>LegacyDec\<close>, whose inner integer is nil.\<close>

record FSParams =
  EnableFeeShare :: bool
  DeveloperShares :: "dec option"
  AllowedDenoms :: "string list"

datatype fs_val = FParams FSParams | FShare FeeShare | FMark

type_synonym fs_store = "fs_val kv"

text \<open>The wasm keeper and the account keeper, as far as the module reads them.\<close>

record fs_keeper =
  fs_authority :: string
  fs_GetContractInfo :: "string \<Rightarrow> ContractInfo option"
  fs_HasContractInfo :: "string \<Rightarrow> bool"
  fs_GovAddress :: string

section \<open>Registrations\<close>

definition NewFeeShare :: "'w sdk \<Rightarrow> string \<Rightarrow> string \<Rightarrow> string \<Rightarrow> FeeShare" where
  "NewFeeShare S contract deployer withdrawer =
     \<lparr>ContractAddress = AccAddressString S contract, DeployerAddress = AccAddressString S deployer,
      WithdrawerAddress = AccAddressString S withdrawer\<rparr>"

text \<open>\<open>None\<close> is the nil address that the accessors return when decoding fails.\<close>

definition addr_or_nil :: "'w sdk \<Rightarrow> string \<Rightarrow> string option" where
  "addr_or_nil S s = (case AccAddressFromBech32 S s of Inl e \<Rightarrow> None | Inr a \<Rightarrow> Some a)"

definition GetContractAddr :: "'w sdk \<Rightarrow> FeeShare \<Rightarrow> string option" where
  "GetContractAddr S fs = addr_or_nil S (ContractAddress fs)"

definition GetDeployerAddr :: "'w sdk \<Rightarrow> FeeShare \<Rightarrow> string option" where
  "GetDeployerAddr S fs = addr_or_nil S (DeployerAddress fs)"

definition GetWithdrawerAddr :: "'w sdk \<Rightarrow> FeeShare \<Rightarrow> string option" where
  "GetWithdrawerAddr S fs = addr_or_nil S (WithdrawerAddress fs)"

definition FeeShareValidate :: "'w sdk \<Rightarrow> FeeShare \<Rightarrow> unit res" where
  "FeeShareValidate S fs =
     (case AccAddressFromBech32 S (ContractAddress fs) of
        Inl e \<Rightarrow> Inl e
      | Inr _ \<Rightarrow>
     (case AccAddressFromBech32 S (DeployerAddress fs) of
        Inl e \<Rightarrow> Inl e
      | Inr _ \<Rightarrow>
          if WithdrawerAddress fs = '''' then Inl ErrInvalidAddress
          else (case AccAddressFromBech32 S (WithdrawerAddress fs) of
                  Inl e \<Rightarrow> Inl e
                | Inr _ \<Rightarrow> Inr ())))"

section \<open>Parameters\<close>

definition validateShares :: "dec option \<Rightarrow> unit res" where
  "validateShares v =
     (case v of
        None \<Rightarrow> Inl (Plain ''invalid parameter: nil'')
      | Some d \<Rightarrow> if d < 0 then Inl (Plain ''value cannot be negative'')
                  else if dec_one < d then Inl (Plain ''value cannot be greater than 1'')
                  else Inr ())"

fun validateArray :: "string list \<Rightarrow> unit res" where
  "validateArray [] = Inr ()"
| "validateArray (denom # ds) =
     (if denom = '''' then Inl (Plain ''denom cannot be blank'') else validateArray ds)"

definition FSParamsValidate :: "FSParams \<Rightarrow> unit res" where
  "FSParamsValidate p =
     (case validateShares (DeveloperShares p) of
        Inl e \<Rightarrow> Inl e
      | Inr _ \<Rightarrow> validateArray (AllowedDenoms p))"

definition FSGetParams :: "fs_store \<Rightarrow> FSParams res" where
  "FSGetParams st =
     (case kv_get st FSParamsKey of
        None \<Rightarrow> Inr \<lparr>EnableFeeShare = False, DeveloperShares = None, AllowedDenoms = []\<rparr>
      | Some (FParams p) \<Rightarrow> Inr p
      | Some _ \<Rightarrow> Inl (Panicked ''unmarshal params''))"

definition FSSetParams :: "FSParams \<Rightarrow> fs_store \<Rightarrow> unit res \<times> fs_store" where
  "FSSetParams p st =
     (case FSParamsValidate p of
        Inl e \<Rightarrow> (Inl e, st)
      | Inr _ \<Rightarrow> (Inr (), kv_set FSParamsKey (FParams p) st))"

section \<open>Store access\<close>

definition GetFeeShare :: "fs_store \<Rightarrow> string \<Rightarrow> FeeShare option res" where
  "GetFeeShare st contract =
     (case kv_get st (KeyPrefixFeeShare @ contract) of
        None \<Rightarrow> Inr None
      | Some (FShare fs) \<Rightarrow> Inr (Some fs)
      | Some _ \<Rightarrow> Inl (Panicked ''unmarshal feeshare''))"

text \<open>The key of a nil contract address is a call on a nil interface, which panics.\<close>

definition SetFeeShare :: "'w sdk \<Rightarrow> FeeShare \<Rightarrow> fs_store \<Rightarrow> unit res \<times> fs_store" where
  "SetFeeShare S fs st =
     (case GetContractAddr S fs of
        None \<Rightarrow> (Inl (Panicked ''nil contract address''), st)
      | Some key \<Rightarrow> (Inr (), kv_set (KeyPrefixFeeShare @ key) (FShare fs) st))"

definition DeleteFeeShare :: "'w sdk \<Rightarrow> FeeShare \<Rightarrow> fs_store \<Rightarrow> unit res \<times> fs_store" where
  "DeleteFeeShare S fs st =
     (case GetContractAddr S fs of
        None \<Rightarrow> (Inl (Panicked ''nil contract address''), st)
      | Some key \<Rightarrow> (Inr (), kv_del (KeyPrefixFeeShare @ key) st))"

text \<open>The bytes of a nil account address are empty.\<close>

definition addr_bytes :: "string option \<Rightarrow> string" where
  "addr_bytes a = (case a of None \<Rightarrow> [] | Some b \<Rightarrow> b)"

definition SetDeployerMap :: "string option \<Rightarrow> string \<Rightarrow> fs_store \<Rightarrow> fs_store" where
  "SetDeployerMap deployer contract st = kv_set (KeyPrefixDeployer @ addr_bytes deployer @ contract) FMark st"

definition DeleteDeployerMap :: "string option \<Rightarrow> string \<Rightarrow> fs_store \<Rightarrow> fs_store" where
  "DeleteDeployerMap deployer contract st = kv_del (KeyPrefixDeployer @ addr_bytes deployer @ contract) st"

definition SetWithdrawerMap :: "string option \<Rightarrow> string \<Rightarrow> fs_store \<Rightarrow> fs_store" where
  "SetWithdrawerMap withdrawer contract st =
     kv_set (KeyPrefixWithdrawer @ addr_bytes withdrawer @ contract) FMark st"

definition DeleteWithdrawerMap :: "string option \<Rightarrow> string \<Rightarrow> fs_store \<Rightarrow> fs_store" where
  "DeleteWithdrawerMap withdrawer contract st =
     kv_del (KeyPrefixWithdrawer @ addr_bytes withdrawer @ contract) st"

definition IsFeeShareRegistered :: "fs_store \<Rightarrow> string \<Rightarrow> bool" where
  "IsFeeShareRegistered st contract = kv_has st (KeyPrefixFeeShare @ contract)"

definition IsDeployerMapSet :: "fs_store \<Rightarrow> string \<Rightarrow> string \<Rightarrow> bool" where
  "IsDeployerMapSet st deployer contract = kv_has st (KeyPrefixDeployer @ deployer @ contract)"

definition IsWithdrawerMapSet :: "fs_store \<Rightarrow> string \<Rightarrow> string \<Rightarrow> bool" where
  "IsWithdrawerMapSet st withdrawer contract = kv_has st (KeyPrefixWithdrawer @ withdrawer @ contract)"

fun unmarshal_shares :: "(string \<times> fs_val) list \<Rightarrow> FeeShare list res" where
  "unmarshal_shares [] = Inr []"
| "unmarshal_shares ((k, v) # it) =
     (case v of
        FShare fs \<Rightarrow> (case unmarshal_shares it of Inl e \<Rightarrow> Inl e | Inr l \<Rightarrow> Inr (fs # l))
      | _ \<Rightarrow> Inl (Panicked ''unmarshal feeshare''))"

definition GetFeeShares :: "fs_store \<Rightarrow> FeeShare list res" where
  "GetFeeShares st = unmarshal_shares (kv_scan KeyPrefixFeeShare st)"

section \<open>Who controls a contract\<close>

text \<open>A contract that the wasm keeper does not know is a nil pointer, and reading it panics.\<close>

definition GetIfContractWasCreatedFromFactory ::
  "'w sdk \<Rightarrow> fs_keeper \<Rightarrow> ContractInfo option \<Rightarrow> bool res" where
  "GetIfContractWasCreatedFromFactory S k info_ptr =
     (case info_ptr of
        None \<Rightarrow> Inl (Panicked ''nil contract info'')
      | Some info \<Rightarrow>
     (case AccAddressFromBech32 S (ci_Creator info) of
        Inl e \<Rightarrow> Inr False
      | Inr creator \<Rightarrow>
          if ci_Admin info = fs_GovAddress k then Inr True
          else if ci_Admin info = '''' then Inr (fs_HasContractInfo k creator)
          else (case AccAddressFromBech32 S (ci_Admin info) of
                  Inl e \<Rightarrow> Inr False
                | Inr admin \<Rightarrow> Inr (fs_HasContractInfo k admin))))"

definition GetContractAdminOrCreatorAddress ::
  "'w sdk \<Rightarrow> fs_keeper \<Rightarrow> string \<Rightarrow> string \<Rightarrow> string res" where
  "GetContractAdminOrCreatorAddress S k contract deployer =
     (case AccAddressFromBech32 S deployer of
        Inl e \<Rightarrow> Inl ErrInvalidAddress
      | Inr _ \<Rightarrow>
     (case fs_GetContractInfo k contract of
        None \<Rightarrow> Inl (Panicked ''nil contract info'')
      | Some info \<Rightarrow>
          if ci_Admin info = '''' then
            if ci_Creator info \<noteq> deployer then Inl ErrUnauthorized
            else (case AccAddressFromBech32 S (ci_Creator info) of
                    Inl e \<Rightarrow> Inl ErrInvalidAddress
                  | Inr creatorAddr \<Rightarrow> Inr creatorAddr)
          else if ci_Admin info \<noteq> deployer then Inl ErrUnauthorized
          else (case AccAddressFromBech32 S (ci_Admin info) of
                  Inl e \<Rightarrow> Inl ErrInvalidAddress
                | Inr adminAddr \<Rightarrow> Inr adminAddr)))"

section \<open>Messages\<close>

record MsgRegisterFeeShare =
  rf_Contract :: string
  rf_Deployer :: string
  rf_Withdrawer :: string

record MsgUpdateFeeShare =
  uf_Contract :: string
  uf_Deployer :: string
  uf_Withdrawer :: string

record MsgCancelFeeShare =
  cf_Contract :: string
  cf_Deployer :: string

definition MsgRegisterFeeShare_ValidateBasic :: "'w sdk \<Rightarrow> MsgRegisterFeeShare \<Rightarrow> unit res" where
  "MsgRegisterFeeShare_ValidateBasic S m =
     (case AccAddressFromBech32 S (rf_Deployer m) of
        Inl e \<Rightarrow> Inl e
      | Inr _ \<Rightarrow>
     (case AccAddressFromBech32 S (rf_Contract m) of
        Inl e \<Rightarrow> Inl e
      | Inr _ \<Rightarrow>
          if rf_Withdrawer m \<noteq> '''' then
            (case AccAddressFromBech32 S (rf_Withdrawer m) of Inl e \<Rightarrow> Inl e | Inr _ \<Rightarrow> Inr ())
          else Inr ()))"

definition MsgCancelFeeShare_ValidateBasic :: "'w sdk \<Rightarrow> MsgCancelFeeShare \<Rightarrow> unit res" where
  "MsgCancelFeeShare_ValidateBasic S m =
     (case AccAddressFromBech32 S (cf_Deployer m) of
        Inl e \<Rightarrow> Inl e
      | Inr _ \<Rightarrow> (case AccAddressFromBech32 S (cf_Contract m) of Inl e \<Rightarrow> Inl e | Inr _ \<Rightarrow> Inr ()))"

definition MsgUpdateFeeShare_ValidateBasic :: "'w sdk \<Rightarrow> MsgUpdateFeeShare \<Rightarrow> unit res" where
  "MsgUpdateFeeShare_ValidateBasic S m =
     (case AccAddressFromBech32 S (uf_Deployer m) of
        Inl e \<Rightarrow> Inl e
      | Inr _ \<Rightarrow>
     (case AccAddressFromBech32 S (uf_Contract m) of
        Inl e \<Rightarrow> Inl e
      | Inr _ \<Rightarrow>
     (case AccAddressFromBech32 S (uf_Withdrawer m) of
        Inl e \<Rightarrow> Inl e
      | Inr _ \<Rightarrow> Inr ())))"

section \<open>The message server\<close>

text \<open>The three writes that end a registration, in the order of the code.\<close>

definition storeFeeShare ::
  "'w sdk \<Rightarrow> string \<Rightarrow> string \<Rightarrow> string \<Rightarrow> fs_store \<Rightarrow> unit res \<times> fs_store" where
  "storeFeeShare S contract deployer withdrawer st =
     (case SetFeeShare S (NewFeeShare S contract deployer withdrawer) st of
        (Inl e, st1) \<Rightarrow> (Inl e, st1)
      | (Inr _, st1) \<Rightarrow>
          (Inr (), SetWithdrawerMap (Some withdrawer) contract (SetDeployerMap (Some deployer) contract st1)))"

definition RegisterFeeShare ::
  "'w sdk \<Rightarrow> fs_keeper \<Rightarrow> MsgRegisterFeeShare \<Rightarrow> fs_store \<Rightarrow> unit res \<times> fs_store" where
  "RegisterFeeShare S k msg st =
     (case FSGetParams st of
        Inl e \<Rightarrow> (Inl e, st)
      | Inr params \<Rightarrow>
          if \<not> EnableFeeShare params then (Inl ErrFeeShareDisabled, st)
          else
     (case AccAddressFromBech32 S (rf_Contract msg) of
        Inl e \<Rightarrow> (Inl ErrInvalidAddress, st)
      | Inr contract \<Rightarrow>
          if IsFeeShareRegistered st contract then (Inl ErrFeeShareAlreadyRegistered, st)
          else
     (case AccAddressFromBech32 S (rf_Withdrawer msg) of
        Inl e \<Rightarrow> (Inl ErrInvalidAddress, st)
      | Inr withdrawer \<Rightarrow>
     (case GetIfContractWasCreatedFromFactory S k (fs_GetContractInfo k contract) of
        Inl e \<Rightarrow> (Inl e, st)
      | Inr True \<Rightarrow>
          if rf_Withdrawer msg \<noteq> rf_Contract msg then (Inl ErrFeeShareInvalidWithdrawer, st)
          else (case AccAddressFromBech32 S (rf_Contract msg) of
                  Inl e \<Rightarrow> (Inl e, st)
                | Inr deployer \<Rightarrow> storeFeeShare S contract deployer withdrawer st)
      | Inr False \<Rightarrow>
          (case GetContractAdminOrCreatorAddress S k contract (rf_Deployer msg) of
             Inl e \<Rightarrow> (Inl e, st)
           | Inr deployer \<Rightarrow> storeFeeShare S contract deployer withdrawer st)))))"

definition UpdateFeeShare ::
  "'w sdk \<Rightarrow> fs_keeper \<Rightarrow> MsgUpdateFeeShare \<Rightarrow> fs_store \<Rightarrow> unit res \<times> fs_store" where
  "UpdateFeeShare S k msg st =
     (case FSGetParams st of
        Inl e \<Rightarrow> (Inl e, st)
      | Inr params \<Rightarrow>
          if \<not> EnableFeeShare params then (Inl ErrFeeShareDisabled, st)
          else
     (case AccAddressFromBech32 S (uf_Contract msg) of
        Inl e \<Rightarrow> (Inl ErrInvalidAddress, st)
      | Inr contract \<Rightarrow>
     (case GetFeeShare st contract of
        Inl e \<Rightarrow> (Inl e, st)
      | Inr None \<Rightarrow> (Inl ErrFeeShareContractNotRegistered, st)
      | Inr (Some feeshare) \<Rightarrow>
          if uf_Withdrawer msg = WithdrawerAddress feeshare then (Inl ErrFeeShareAlreadyRegistered, st)
          else
     (case GetContractAdminOrCreatorAddress S k contract (uf_Deployer msg) of
        Inl e \<Rightarrow> (Inl e, st)
      | Inr _ \<Rightarrow>
     (case AccAddressFromBech32 S (WithdrawerAddress feeshare) of
        Inl e \<Rightarrow> (Inl ErrInvalidAddress, st)
      | Inr withdrawAddr \<Rightarrow>
     (case AccAddressFromBech32 S (uf_Withdrawer msg) of
        Inl e \<Rightarrow> (Inl ErrInvalidAddress, st)
      | Inr newWithdrawAddr \<Rightarrow>
          SetFeeShare S (feeshare\<lparr>WithdrawerAddress := AccAddressString S newWithdrawAddr\<rparr>)
            (SetWithdrawerMap (Some newWithdrawAddr) contract
               (DeleteWithdrawerMap (Some withdrawAddr) contract st))))))))"

definition CancelFeeShare ::
  "'w sdk \<Rightarrow> fs_keeper \<Rightarrow> MsgCancelFeeShare \<Rightarrow> fs_store \<Rightarrow> unit res \<times> fs_store" where
  "CancelFeeShare S k msg st =
     (case FSGetParams st of
        Inl e \<Rightarrow> (Inl e, st)
      | Inr params \<Rightarrow>
          if \<not> EnableFeeShare params then (Inl ErrFeeShareDisabled, st)
          else
     (case AccAddressFromBech32 S (cf_Contract msg) of
        Inl e \<Rightarrow> (Inl ErrInvalidAddress, st)
      | Inr contract \<Rightarrow>
     (case GetFeeShare st contract of
        Inl e \<Rightarrow> (Inl e, st)
      | Inr None \<Rightarrow> (Inl ErrFeeShareContractNotRegistered, st)
      | Inr (Some fee) \<Rightarrow>
     (case GetContractAdminOrCreatorAddress S k contract (cf_Deployer msg) of
        Inl e \<Rightarrow> (Inl e, st)
      | Inr _ \<Rightarrow>
     (case DeleteFeeShare S fee st of
        (Inl e, st1) \<Rightarrow> (Inl e, st1)
      | (Inr _, st1) \<Rightarrow>
          let st2 = DeleteDeployerMap (GetDeployerAddr S fee) contract st1 in
          (case GetWithdrawerAddr S fee of
             None \<Rightarrow> (Inr (), st2)
           | Some withdrawAddr \<Rightarrow> (Inr (), DeleteWithdrawerMap (Some withdrawAddr) contract st2)))))))"

definition FSUpdateParams :: "fs_keeper \<Rightarrow> string \<Rightarrow> FSParams \<Rightarrow> fs_store \<Rightarrow> unit res \<times> fs_store" where
  "FSUpdateParams k auth p st =
     (if fs_authority k \<noteq> auth then (Inl ErrGovInvalidSigner, st) else FSSetParams p st)"

text \<open>
  The migration to version 2 takes the parameters of the legacy parameter store when there is
  one; without it the default parameters are set unless parameters are already there.
\<close>

definition MigrateV2 :: "FSParams \<Rightarrow> fs_store \<Rightarrow> unit res \<times> fs_store" where
  "MigrateV2 currParams st =
     (case FSParamsValidate currParams of
        Inl e \<Rightarrow> (Inl e, st)
      | Inr _ \<Rightarrow> (Inr (), kv_set FSParamsKey (FParams currParams) st))"

definition FSDefaultParams :: FSParams where
  "FSDefaultParams = \<lparr>EnableFeeShare = True, DeveloperShares = Some 500000000000000000, AllowedDenoms = []\<rparr>"

definition Migrate1to2 :: "FSParams option \<Rightarrow> fs_store \<Rightarrow> unit res \<times> fs_store" where
  "Migrate1to2 legacySubspace st =
     (case legacySubspace of
        None \<Rightarrow> if \<not> kv_has st FSParamsKey then FSSetParams FSDefaultParams st else (Inr (), st)
      | Some currParams \<Rightarrow> MigrateV2 currParams st)"

section \<open>Genesis\<close>

fun fs_genesis_loop :: "'w sdk \<Rightarrow> string list \<Rightarrow> FeeShare list \<Rightarrow> unit res" where
  "fs_genesis_loop S seenContract [] = Inr ()"
| "fs_genesis_loop S seenContract (fs # l) =
     (if ContractAddress fs \<in> set seenContract then Inl (Plain ''contract duplicated on genesis'')
      else case FeeShareValidate S fs of
             Inl e \<Rightarrow> Inl e
           | Inr _ \<Rightarrow> fs_genesis_loop S (ContractAddress fs # seenContract) l)"

definition FSGenesisValidate :: "'w sdk \<Rightarrow> FSParams \<Rightarrow> FeeShare list \<Rightarrow> unit res" where
  "FSGenesisValidate S p shares =
     (case fs_genesis_loop S [] shares of Inl e \<Rightarrow> Inl e | Inr _ \<Rightarrow> FSParamsValidate p)"

fun initShares :: "'w sdk \<Rightarrow> FeeShare list \<Rightarrow> fs_store \<Rightarrow> unit res \<times> fs_store" where
  "initShares S [] st = (Inr (), st)"
| "initShares S (share # l) st =
     (case SetFeeShare S share st of
        (Inl e, st1) \<Rightarrow> (Inl e, st1)
      | (Inr _, st1) \<Rightarrow>
          let contract = addr_bytes (GetContractAddr S share);
              st2 = SetDeployerMap (GetDeployerAddr S share) contract st1;
              st3 = (if addr_bytes (GetWithdrawerAddr S share) \<noteq> []
                     then SetWithdrawerMap (GetWithdrawerAddr S share) contract st2 else st2)
          in initShares S l st3)"

definition FSInitGenesis :: "'w sdk \<Rightarrow> FSParams \<Rightarrow> FeeShare list \<Rightarrow> fs_store \<Rightarrow> unit res \<times> fs_store" where
  "FSInitGenesis S p shares st =
     (case FSSetParams p st of
        (Inl e, st1) \<Rightarrow> (Inl (Panicked ''set params''), st1)
      | (Inr _, st1) \<Rightarrow> initShares S shares st1)"

section \<open>The payout in the ante handler\<close>

datatype fs_msg = MsgExecuteContract string | OtherMsg

fun FeePayLogic_loop :: "dec_ops \<Rightarrow> coin_ops \<Rightarrow> dec \<Rightarrow> int \<Rightarrow> Coins \<Rightarrow> Coins \<Rightarrow> Coins res" where
  "FeePayLogic_loop D A govPercent numPairs splitFees [] = Inr splitFees"
| "FeePayLogic_loop D A govPercent numPairs splitFees (c # cs) =
     (let rewardAmount = RoundInt D (QuoInt64 D (MulInt D govPercent (Amount c)) numPairs) in
      if rewardAmount \<noteq> 0 then
        (case NewCoin A (Denom c) rewardAmount of
           Inl e \<Rightarrow> Inl e
         | Inr r \<Rightarrow> FeePayLogic_loop D A govPercent numPairs (CoinsAdd A splitFees [r]) cs)
      else FeePayLogic_loop D A govPercent numPairs splitFees cs)"

definition FeePayLogic :: "dec_ops \<Rightarrow> coin_ops \<Rightarrow> Coins \<Rightarrow> dec \<Rightarrow> nat \<Rightarrow> Coins res" where
  "FeePayLogic D A fees govPercent numPairs =
     FeePayLogic_loop D A govPercent (int numPairs) [] (CoinsSort A fees)"

fun payees :: "'w sdk \<Rightarrow> fs_store \<Rightarrow> fs_msg list \<Rightarrow> string list res" where
  "payees S st [] = Inr []"
| "payees S st (m # ms) =
     (case m of
        OtherMsg \<Rightarrow> payees S st ms
      | MsgExecuteContract contract \<Rightarrow>
     (case AccAddressFromBech32 S contract of
        Inl e \<Rightarrow> Inl e
      | Inr contractAddr \<Rightarrow>
     (case GetFeeShare st contractAddr of
        Inl e \<Rightarrow> Inl e
      | Inr shareData \<Rightarrow>
          let withdrawAddr = addr_bytes (case shareData of None \<Rightarrow> addr_or_nil S ''''
                                         | Some fs \<Rightarrow> GetWithdrawerAddr S fs) in
          (case payees S st ms of
             Inl e \<Rightarrow> Inl e
           | Inr toPay \<Rightarrow> Inr (if withdrawAddr \<noteq> [] then withdrawAddr # toPay else toPay)))))"

text \<open>Every allowed denomination that equals the denomination of a fee adds that fee once more.\<close>

definition allowedFees :: "coin_ops \<Rightarrow> string list \<Rightarrow> Coins \<Rightarrow> Coins" where
  "allowedFees A allowedDenoms totalFees =
     (if allowedDenoms = [] then totalFees
      else foldl (\<lambda>fees fee. foldl (\<lambda>f allowed. if Denom fee = allowed then CoinsAdd A f [fee] else f)
                               fees allowedDenoms)
             [] (CoinsSort A totalFees))"

fun payAll :: "'w sdk \<Rightarrow> Coins \<Rightarrow> string list \<Rightarrow> 'w \<Rightarrow> unit res \<times> 'w" where
  "payAll S splitFees [] w = (Inr (), w)"
| "payAll S splitFees (withdrawAddr # toPay) w =
     (case SendCoinsFromModuleToAccount S ''fee_collector'' withdrawAddr splitFees w of
        (Inl e, w1) \<Rightarrow> (Inl ErrFeeSharePayment, w1)
      | (Inr _, w1) \<Rightarrow> payAll S splitFees toPay w1)"

definition FeeSharePayout ::
  "'w sdk \<Rightarrow> dec_ops \<Rightarrow> coin_ops \<Rightarrow> fs_store \<Rightarrow> Coins \<Rightarrow> fs_msg list \<Rightarrow> 'w \<Rightarrow> unit res \<times> 'w" where
  "FeeSharePayout S D A st totalFees msgs w =
     (case FSGetParams st of
        Inl e \<Rightarrow> (Inl e, w)
      | Inr params \<Rightarrow>
          if \<not> EnableFeeShare params then (Inr (), w)
          else
     (case payees S st msgs of
        Inl e \<Rightarrow> (Inl e, w)
      | Inr toPay \<Rightarrow>
          if toPay = [] then (Inr (), w)
          else
     (case DeveloperShares params of
        None \<Rightarrow> (Inl (Panicked ''nil developer shares''), w)
      | Some govPercent \<Rightarrow>
     (case FeePayLogic D A (allowedFees A (AllowedDenoms params) totalFees) govPercent (length toPay) of
        Inl e \<Rightarrow> (Inl e, w)
      | Inr splitFees \<Rightarrow> payAll S splitFees toPay w))))"

definition FeeShareAnteHandle ::
  "'w sdk \<Rightarrow> dec_ops \<Rightarrow> coin_ops \<Rightarrow> fs_store \<Rightarrow> Coins option \<Rightarrow> fs_msg list \<Rightarrow> 'w \<Rightarrow> unit res \<times> 'w" where
  "FeeShareAnteHandle S D A st feeTx msgs w =
     (case feeTx of
        None \<Rightarrow> (Inl ErrTxDecode, w)
      | Some totalFees \<Rightarrow>
          (case FeeSharePayout S D A st totalFees msgs w of
             (Inl (Panicked m), w1) \<Rightarrow> (Inl (Panicked m), w1)
           | (Inl e, w1) \<Rightarrow> (Inl ErrInsufficientFunds, w1)
           | (Inr _, w1) \<Rightarrow> (Inr (), w1)))"

section \<open>The parameter contract\<close>

interpretation fs_server: params_server FSUpdateParams fs_authority FSParamsValidate FSGetParams "\<lambda>p. p"
  by unfold_locales
    (auto simp: FSUpdateParams_def FSSetParams_def FSGetParams_def kv_simps split: sum.splits)

section \<open>The two indexes\<close>

lemma fs_keys_disjoint [simp]:
  "KeyPrefixFeeShare @ x \<noteq> KeyPrefixDeployer @ y" "KeyPrefixFeeShare @ x \<noteq> KeyPrefixWithdrawer @ y"
  "KeyPrefixDeployer @ x \<noteq> KeyPrefixFeeShare @ y" "KeyPrefixWithdrawer @ x \<noteq> KeyPrefixFeeShare @ y"
  "KeyPrefixDeployer @ x \<noteq> KeyPrefixWithdrawer @ y" "KeyPrefixWithdrawer @ x \<noteq> KeyPrefixDeployer @ y"
  "FSParamsKey \<noteq> KeyPrefixFeeShare @ y" "KeyPrefixFeeShare @ y \<noteq> FSParamsKey"
  "FSParamsKey \<noteq> KeyPrefixDeployer @ y" "KeyPrefixDeployer @ y \<noteq> FSParamsKey"
  "FSParamsKey \<noteq> KeyPrefixWithdrawer @ y" "KeyPrefixWithdrawer @ y \<noteq> FSParamsKey"
  by (simp_all add: KeyPrefixFeeShare_def KeyPrefixDeployer_def KeyPrefixWithdrawer_def FSParamsKey_def)

definition registered :: "fs_store \<Rightarrow> string \<Rightarrow> fs_val option" where
  "registered st c = kv_get st (KeyPrefixFeeShare @ c)"

text \<open>
  An index is right when it holds the pair of an address and a contract exactly for the
  registered contracts whose registration names that address.  Contract addresses have 32
  bytes, which makes the concatenated keys unambiguous.
\<close>

definition index_ok ::
  "(fs_store \<Rightarrow> string \<Rightarrow> string \<Rightarrow> bool) \<Rightarrow> (FeeShare \<Rightarrow> string option) \<Rightarrow> fs_store \<Rightarrow> bool" where
  "index_ok is_set owner st \<longleftrightarrow>
     (\<forall>a c. length c = 32 \<longrightarrow>
        (is_set st a c \<longleftrightarrow> (\<exists>fs. registered st c = Some (FShare fs) \<and> owner fs = Some a)))"

lemma registered_simps [simp]:
  "registered (kv_set (KeyPrefixFeeShare @ c) v st) c' = (if c' = c then Some v else registered st c')"
  "registered (kv_del (KeyPrefixFeeShare @ c) st) c' = (if c' = c then None else registered st c')"
  "registered (kv_set FSParamsKey v st) c' = registered st c'"
  by (auto simp: registered_def kv_simps)

locale contract_index =
  fixes mark :: "string option \<Rightarrow> string \<Rightarrow> fs_store \<Rightarrow> fs_store"
    and unmark :: "string option \<Rightarrow> string \<Rightarrow> fs_store \<Rightarrow> fs_store"
    and is_set :: "fs_store \<Rightarrow> string \<Rightarrow> string \<Rightarrow> bool"
  assumes set_mark: "length c = 32 \<Longrightarrow> length c' = 32 \<Longrightarrow>
      is_set (mark (Some a) c st) a' c' \<longleftrightarrow> a' = a \<and> c' = c \<or> is_set st a' c'"
    and set_unmark: "length c = 32 \<Longrightarrow> length c' = 32 \<Longrightarrow>
      is_set (unmark (Some a) c st) a' c' \<longleftrightarrow> \<not> (a' = a \<and> c' = c) \<and> is_set st a' c'"
    and set_reg: "is_set (kv_set (KeyPrefixFeeShare @ y) v st) a c = is_set st a c"
    and set_unreg: "is_set (kv_del (KeyPrefixFeeShare @ y) st) a c = is_set st a c"
    and set_params: "is_set (kv_set FSParamsKey v st) a c = is_set st a c"
    and reg_mark: "registered (mark x c st) y = registered st y"
    and reg_unmark: "registered (unmark x c st) y = registered st y"
begin

lemma index_cong:
  "(\<And>a c. is_set st' a c = is_set st a c) \<Longrightarrow> (\<And>c. registered st' c = registered st c) \<Longrightarrow>
     index_ok is_set owner st \<Longrightarrow> index_ok is_set owner st'"
  by (simp add: index_ok_def)

text \<open>Registering a fresh contract and marking its owner keeps the index right.\<close>

lemma index_register:
  assumes "index_ok is_set owner st" "length c = 32" "registered st c = None" "owner fs = Some a"
  shows "index_ok is_set owner (mark (Some a) c (kv_set (KeyPrefixFeeShare @ c) (FShare fs) st))"
  using assms by (auto simp: index_ok_def set_mark set_reg reg_mark)

text \<open>Removing a registration and its owner's mark keeps the index right.\<close>

lemma index_cancel:
  assumes "index_ok is_set owner st" "length c = 32" "registered st c = Some (FShare fs)"
    and "owner fs = Some a"
  shows "index_ok is_set owner (unmark (Some a) c (kv_del (KeyPrefixFeeShare @ c) st))"
  using assms by (auto simp: index_ok_def set_unmark set_unreg reg_unmark)

text \<open>So does moving a registration from one owner to another.\<close>

lemma index_move:
  assumes "index_ok is_set owner st" "length c = 32" "registered st c = Some (FShare fs)"
    and "owner fs = Some a" "owner fs' = Some b"
  shows "index_ok is_set owner
           (kv_set (KeyPrefixFeeShare @ c) (FShare fs') (mark (Some b) c (unmark (Some a) c st)))"
  using assms by (auto simp: index_ok_def set_unmark set_mark set_reg reg_unmark reg_mark)

text \<open>Rewriting a registration without changing its owner does not concern the index.\<close>

lemma index_same_owner:
  assumes "index_ok is_set owner st" "registered st c = Some (FShare fs)" "owner fs' = owner fs"
  shows "index_ok is_set owner (kv_set (KeyPrefixFeeShare @ c) (FShare fs') st)"
  using assms by (auto simp: index_ok_def set_reg)

end

interpretation dep: contract_index SetDeployerMap DeleteDeployerMap IsDeployerMapSet
  by unfold_locales
    (auto simp: SetDeployerMap_def DeleteDeployerMap_def IsDeployerMapSet_def addr_bytes_def
      registered_def kv_has_def kv_simps)

interpretation wdr: contract_index SetWithdrawerMap DeleteWithdrawerMap IsWithdrawerMapSet
  by unfold_locales
    (auto simp: SetWithdrawerMap_def DeleteWithdrawerMap_def IsWithdrawerMapSet_def addr_bytes_def
      registered_def kv_has_def kv_simps)

lemma index_independent [simp]:
  "IsDeployerMapSet (SetWithdrawerMap x c st) a y = IsDeployerMapSet st a y"
  "IsDeployerMapSet (DeleteWithdrawerMap x c st) a y = IsDeployerMapSet st a y"
  "IsWithdrawerMapSet (SetDeployerMap x c st) a y = IsWithdrawerMapSet st a y"
  "IsWithdrawerMapSet (DeleteDeployerMap x c st) a y = IsWithdrawerMapSet st a y"
  by (auto simp: IsDeployerMapSet_def IsWithdrawerMapSet_def SetWithdrawerMap_def
      DeleteWithdrawerMap_def SetDeployerMap_def DeleteDeployerMap_def)

section \<open>The store invariant\<close>

definition share_ok :: "'w sdk \<Rightarrow> string \<Rightarrow> FeeShare \<Rightarrow> bool" where
  "share_ok S c fs \<longleftrightarrow> length c = 32 \<and> GetContractAddr S fs = Some c \<and>
     GetDeployerAddr S fs \<noteq> None \<and> GetWithdrawerAddr S fs \<noteq> None"

definition fs_inv :: "'w sdk \<Rightarrow> fs_store \<Rightarrow> bool" where
  "fs_inv S st \<longleftrightarrow>
     (\<forall>c v. registered st c = Some v \<longrightarrow> (\<exists>fs. v = FShare fs \<and> share_ok S c fs)) \<and>
     index_ok IsDeployerMapSet (GetDeployerAddr S) st \<and>
     index_ok IsWithdrawerMapSet (GetWithdrawerAddr S) st"

lemma fs_inv_empty: "fs_inv S kv_empty"
  by (simp add: fs_inv_def registered_def index_ok_def IsDeployerMapSet_def IsWithdrawerMapSet_def
      kv_has_def kv_simps)

lemma fs_inv_params: "fs_inv S st \<Longrightarrow> fs_inv S (kv_set FSParamsKey (FParams p) st)"
  by (simp add: fs_inv_def index_ok_def dep.set_params wdr.set_params)

lemma share_ok_new:
  assumes "bech32_laws S" "length c = 32" "AccAddressFromBech32 S cs = Inr c"
    "AccAddressFromBech32 S ds = Inr d" "AccAddressFromBech32 S ws = Inr w"
  shows "share_ok S c (NewFeeShare S c d w)" "GetDeployerAddr S (NewFeeShare S c d w) = Some d"
    "GetWithdrawerAddr S (NewFeeShare S c d w) = Some w"
    "GetContractAddr S (NewFeeShare S c d w) = Some c"
  using assms(2-5) bech32_lawsD(4) [OF assms(1)]
  by (simp_all add: share_ok_def NewFeeShare_def GetContractAddr_def GetDeployerAddr_def
      GetWithdrawerAddr_def addr_or_nil_def)

lemma storeFeeShare_inv:
  assumes inv: "fs_inv S st" and bl: "bech32_laws S" and len: "length c = 32"
    and dec: "AccAddressFromBech32 S cs = Inr c" "AccAddressFromBech32 S ds = Inr d"
      "AccAddressFromBech32 S ws = Inr w"
    and fresh: "\<not> IsFeeShareRegistered st c"
  shows "\<exists>st'. storeFeeShare S c d w st = (Inr (), st') \<and> fs_inv S st' \<and>
           (\<forall>y. registered st' y = (if y = c then Some (FShare (NewFeeShare S c d w)) else registered st y))"
proof -
  note new = share_ok_new [OF bl len dec]
  let ?fs = "NewFeeShare S c d w"
  let ?st1 = "kv_set (KeyPrefixFeeShare @ c) (FShare ?fs) st"
  let ?st' = "SetWithdrawerMap (Some w) c (SetDeployerMap (Some d) c ?st1)"
  have dep0: "index_ok IsDeployerMapSet (GetDeployerAddr S) st"
    and wdr0: "index_ok IsWithdrawerMapSet (GetWithdrawerAddr S) st"
    using inv by (simp_all add: fs_inv_def)
  have none: "registered st c = None"
    using fresh by (simp add: IsFeeShareRegistered_def kv_has_def registered_def)
  have run: "storeFeeShare S c d w st = (Inr (), ?st')"
    using new(4) by (simp add: storeFeeShare_def SetFeeShare_def)
  have reg: "registered ?st' y = (if y = c then Some (FShare ?fs) else registered st y)" for y
    by (simp add: dep.reg_mark wdr.reg_mark)
  have "index_ok IsDeployerMapSet (GetDeployerAddr S) ?st'"
    by (rule dep.index_cong [OF _ _ dep.index_register [OF dep0 len none new(2)]])
      (simp_all add: wdr.reg_mark)
  moreover have "index_ok IsWithdrawerMapSet (GetWithdrawerAddr S) (SetWithdrawerMap (Some w) c ?st1)"
    by (rule wdr.index_register [OF wdr0 len none new(3)])
  then have "index_ok IsWithdrawerMapSet (GetWithdrawerAddr S) ?st'"
    unfolding index_ok_def using len by (simp add: wdr.set_mark wdr.reg_mark dep.reg_mark)
  ultimately have "fs_inv S ?st'"
    using inv new(1) unfolding fs_inv_def reg by auto
  then show ?thesis using run reg by blast
qed


text \<open>Contract addresses, as the wasm keeper hands them out, have 32 bytes.\<close>

definition contract_len :: "fs_keeper \<Rightarrow> bool" where
  "contract_len k \<longleftrightarrow> (\<forall>c info. fs_GetContractInfo k c = Some info \<longrightarrow> length c = 32)"

text \<open>The account that controls a contract: its admin, or its creator when it has no admin.\<close>

definition controls :: "fs_keeper \<Rightarrow> string \<Rightarrow> string \<Rightarrow> bool" where
  "controls k contract who \<longleftrightarrow>
     (\<exists>info. fs_GetContractInfo k contract = Some info \<and>
        who = (if ci_Admin info = '''' then ci_Creator info else ci_Admin info))"

lemma GetContractAdminOrCreatorAddress_ok:
  "GetContractAdminOrCreatorAddress S k contract deployer = Inr d \<longleftrightarrow>
     AccAddressFromBech32 S deployer = Inr d \<and> controls k contract deployer"
  by (auto simp: GetContractAdminOrCreatorAddress_def controls_def split: sum.splits option.splits if_splits)

definition from_factory :: "'w sdk \<Rightarrow> fs_keeper \<Rightarrow> string \<Rightarrow> bool" where
  "from_factory S k contract \<longleftrightarrow>
     GetIfContractWasCreatedFromFactory S k (fs_GetContractInfo k contract) = Inr True"

lemma factory_known:
  "GetIfContractWasCreatedFromFactory S k (fs_GetContractInfo k contract) = Inr b \<Longrightarrow>
     \<exists>info. fs_GetContractInfo k contract = Some info"
  by (auto simp: GetIfContractWasCreatedFromFactory_def split: option.splits)

lemma RegisterFeeShare_ok:
  assumes "RegisterFeeShare S k msg st = (Inr (), st')"
  obtains contract deployer withdrawer dstr where
    "AccAddressFromBech32 S (rf_Contract msg) = Inr contract"
    "AccAddressFromBech32 S (rf_Withdrawer msg) = Inr withdrawer"
    "AccAddressFromBech32 S dstr = Inr deployer"
    "fs_GetContractInfo k contract \<noteq> None" "\<not> IsFeeShareRegistered st contract"
    "storeFeeShare S contract deployer withdrawer st = (Inr (), st')"
    "from_factory S k contract \<and> withdrawer = contract \<or> dstr = rf_Deployer msg \<and> controls k contract dstr"
proof -
  obtain contract withdrawer b where c: "AccAddressFromBech32 S (rf_Contract msg) = Inr contract"
    "AccAddressFromBech32 S (rf_Withdrawer msg) = Inr withdrawer" "\<not> IsFeeShareRegistered st contract"
    and b: "GetIfContractWasCreatedFromFactory S k (fs_GetContractInfo k contract) = Inr b"
    using assms by (auto simp: RegisterFeeShare_def split: sum.splits if_splits bool.splits)
  have known: "fs_GetContractInfo k contract \<noteq> None" using factory_known [OF b] by auto
  show ?thesis
  proof (cases b)
    case True
    then have "rf_Withdrawer msg = rf_Contract msg" "storeFeeShare S contract contract withdrawer st = (Inr (), st')"
      using assms c b by (auto simp: RegisterFeeShare_def split: sum.splits if_splits)
    then show ?thesis
      using that [OF c(1,2) c(1) known c(3)] c b True by (simp add: from_factory_def)
  next
    case False
    then obtain d where "GetContractAdminOrCreatorAddress S k contract (rf_Deployer msg) = Inr d"
      and st: "storeFeeShare S contract d withdrawer st = (Inr (), st')"
      using assms c b by (auto simp: RegisterFeeShare_def split: sum.splits if_splits)
    then have "AccAddressFromBech32 S (rf_Deployer msg) = Inr d" "controls k contract (rf_Deployer msg)"
      by (simp_all add: GetContractAdminOrCreatorAddress_ok)
    then show ?thesis using that [OF c(1,2) _ known c(3) st] by blast
  qed
qed

lemma GetFeeShare_registered:
  "GetFeeShare st c = Inr (Some fs) \<longleftrightarrow> registered st c = Some (FShare fs)"
  by (auto simp: GetFeeShare_def registered_def split: option.splits fs_val.splits)

lemma UpdateFeeShare_ok:
  assumes "UpdateFeeShare S k msg st = (Inr (), st')"
  obtains contract fs old new where
    "AccAddressFromBech32 S (uf_Contract msg) = Inr contract" "registered st contract = Some (FShare fs)"
    "controls k contract (uf_Deployer msg)" "AccAddressFromBech32 S (WithdrawerAddress fs) = Inr old"
    "AccAddressFromBech32 S (uf_Withdrawer msg) = Inr new"
    "SetFeeShare S (fs\<lparr>WithdrawerAddress := AccAddressString S new\<rparr>)
       (SetWithdrawerMap (Some new) contract (DeleteWithdrawerMap (Some old) contract st)) = (Inr (), st')"
proof -
  obtain contract fs d where a: "AccAddressFromBech32 S (uf_Contract msg) = Inr contract"
    "GetFeeShare st contract = Inr (Some fs)"
    "GetContractAdminOrCreatorAddress S k contract (uf_Deployer msg) = Inr d"
    using assms by (auto simp: UpdateFeeShare_def split: sum.splits if_splits option.splits)
  have c: "registered st contract = Some (FShare fs)" "controls k contract (uf_Deployer msg)"
    using a by (simp_all add: GetFeeShare_registered GetContractAdminOrCreatorAddress_ok)
  show ?thesis
    using assms a that [OF a(1) c]
    by (auto simp: UpdateFeeShare_def Let_def split: sum.splits if_splits option.splits prod.splits)
qed

lemma CancelFeeShare_ok:
  assumes "CancelFeeShare S k msg st = (Inr (), st')"
  obtains contract fs st1 where
    "AccAddressFromBech32 S (cf_Contract msg) = Inr contract" "registered st contract = Some (FShare fs)"
    "controls k contract (cf_Deployer msg)" "DeleteFeeShare S fs st = (Inr (), st1)"
    "st' = (case GetWithdrawerAddr S fs of
        None \<Rightarrow> DeleteDeployerMap (GetDeployerAddr S fs) contract st1
      | Some w \<Rightarrow> DeleteWithdrawerMap (Some w) contract (DeleteDeployerMap (GetDeployerAddr S fs) contract st1))"
proof -
  obtain contract fs d where a: "AccAddressFromBech32 S (cf_Contract msg) = Inr contract"
    "GetFeeShare st contract = Inr (Some fs)"
    "GetContractAdminOrCreatorAddress S k contract (cf_Deployer msg) = Inr d"
    using assms by (auto simp: CancelFeeShare_def split: sum.splits if_splits option.splits)
  have c: "registered st contract = Some (FShare fs)" "controls k contract (cf_Deployer msg)"
    using a by (simp_all add: GetFeeShare_registered GetContractAdminOrCreatorAddress_ok)
  show ?thesis
    using assms a that [OF a(1) c]
    by (auto simp: CancelFeeShare_def Let_def split: sum.splits if_splits option.splits prod.splits)
qed

section \<open>Reachable states\<close>

datatype fs_tx =
    FRegister MsgRegisterFeeShare
  | FUpdate MsgUpdateFeeShare
  | FCancel MsgCancelFeeShare
  | FParamsUpdate string FSParams

primrec fs_handle :: "'w sdk \<Rightarrow> fs_keeper \<Rightarrow> fs_tx \<Rightarrow> fs_store \<Rightarrow> unit res \<times> fs_store" where
  "fs_handle S k (FRegister m) st = RegisterFeeShare S k m st"
| "fs_handle S k (FUpdate m) st = UpdateFeeShare S k m st"
| "fs_handle S k (FCancel m) st = CancelFeeShare S k m st"
| "fs_handle S k (FParamsUpdate a p) st = FSUpdateParams k a p st"

text \<open>A failed message leaves the store as it was.\<close>

definition fs_deliver :: "'w sdk \<Rightarrow> fs_keeper \<Rightarrow> fs_tx \<Rightarrow> fs_store \<Rightarrow> unit res \<times> fs_store" where
  "fs_deliver S k tx st =
     (case fs_handle S k tx st of (Inl e, _) \<Rightarrow> (Inl e, st) | (Inr _, st') \<Rightarrow> (Inr (), st'))"

inductive fs_reach :: "'w sdk \<Rightarrow> fs_keeper \<Rightarrow> fs_store \<Rightarrow> bool"
  for S :: "'w sdk" and k :: fs_keeper where
  fs_init: "fs_reach S k kv_empty"
| fs_step: "fs_reach S k st \<Longrightarrow> fs_deliver S k tx st = (r, st') \<Longrightarrow> fs_reach S k st'"

lemma Register_effect:
  assumes "fs_inv S st" "bech32_laws S" "contract_len k" "RegisterFeeShare S k msg st = (Inr (), st')"
  shows "fs_inv S st' \<and> (\<exists>contract d w. AccAddressFromBech32 S (rf_Contract msg) = Inr contract \<and>
     (\<forall>y. registered st' y = (if y = contract then Some (FShare (NewFeeShare S contract d w)) else registered st y)) \<and>
     (from_factory S k contract \<and> w = contract \<or> controls k contract (rf_Deployer msg)))"
  using assms(4)
proof (rule RegisterFeeShare_ok)
  fix contract deployer withdrawer dstr
  assume a: "AccAddressFromBech32 S (rf_Contract msg) = Inr contract"
    "AccAddressFromBech32 S (rf_Withdrawer msg) = Inr withdrawer"
    "AccAddressFromBech32 S dstr = Inr deployer"
    "fs_GetContractInfo k contract \<noteq> None" "\<not> IsFeeShareRegistered st contract"
    "storeFeeShare S contract deployer withdrawer st = (Inr (), st')"
    "from_factory S k contract \<and> withdrawer = contract \<or> dstr = rf_Deployer msg \<and> controls k contract dstr"
  have "length contract = 32" using a(4) assms(3) by (auto simp: contract_len_def)
  from storeFeeShare_inv [OF assms(1,2) this a(1) a(3) a(2) a(5)] a(6)
  have "fs_inv S st'" "\<forall>y. registered st' y =
      (if y = contract then Some (FShare (NewFeeShare S contract deployer withdrawer)) else registered st y)"
    by auto
  then show ?thesis using a(1,7) by blast
qed

lemma Update_effect:
  assumes inv: "fs_inv S st" and bl: "bech32_laws S" and ok: "UpdateFeeShare S k msg st = (Inr (), st')"
  shows "fs_inv S st' \<and> (\<exists>contract fs. AccAddressFromBech32 S (uf_Contract msg) = Inr contract \<and>
     controls k contract (uf_Deployer msg) \<and>
     (\<forall>y. registered st' y = (if y = contract then Some (FShare fs) else registered st y)))"
  using ok
proof (rule UpdateFeeShare_ok)
  fix contract fs old new
  assume a: "AccAddressFromBech32 S (uf_Contract msg) = Inr contract" "registered st contract = Some (FShare fs)"
    "controls k contract (uf_Deployer msg)" "AccAddressFromBech32 S (WithdrawerAddress fs) = Inr old"
    "AccAddressFromBech32 S (uf_Withdrawer msg) = Inr new"
    "SetFeeShare S (fs\<lparr>WithdrawerAddress := AccAddressString S new\<rparr>)
       (SetWithdrawerMap (Some new) contract (DeleteWithdrawerMap (Some old) contract st)) = (Inr (), st')"
  let ?fs = "fs\<lparr>WithdrawerAddress := AccAddressString S new\<rparr>"
  let ?st1 = "SetWithdrawerMap (Some new) contract (DeleteWithdrawerMap (Some old) contract st)"
  have so: "share_ok S contract fs" using inv a(2) by (auto simp: fs_inv_def)
  have same: "GetContractAddr S ?fs = Some contract" "GetDeployerAddr S ?fs = GetDeployerAddr S fs"
    "GetWithdrawerAddr S ?fs = Some new" "GetWithdrawerAddr S fs = Some old"
    using so a(4,5) bech32_lawsD(4) [OF bl]
    by (simp_all add: share_ok_def GetContractAddr_def GetDeployerAddr_def GetWithdrawerAddr_def addr_or_nil_def)
  have len: "length contract = 32" using so by (simp add: share_ok_def)
  have st': "st' = kv_set (KeyPrefixFeeShare @ contract) (FShare ?fs) ?st1"
    using a(6) same(1) by (simp add: SetFeeShare_def)
  have reg: "registered st' y = (if y = contract then Some (FShare ?fs) else registered st y)" for y
    by (simp add: st' wdr.reg_mark wdr.reg_unmark)
  have dep0: "index_ok IsDeployerMapSet (GetDeployerAddr S) st"
    and wdr0: "index_ok IsWithdrawerMapSet (GetWithdrawerAddr S) st" using inv by (simp_all add: fs_inv_def)
  have "index_ok IsDeployerMapSet (GetDeployerAddr S) ?st1"
    by (rule dep.index_cong [OF _ _ dep0]) (simp_all add: wdr.reg_mark wdr.reg_unmark)
  then have "index_ok IsDeployerMapSet (GetDeployerAddr S) st'"
    unfolding st' by (rule dep.index_same_owner [OF _ _ same(2)]) (simp add: a(2) wdr.reg_mark wdr.reg_unmark)
  moreover have "index_ok IsWithdrawerMapSet (GetWithdrawerAddr S) st'"
    unfolding st' by (rule wdr.index_move [OF wdr0 len a(2) same(4,3)])
  moreover have "share_ok S contract ?fs" using so same by (simp add: share_ok_def)
  ultimately have "fs_inv S st'" using inv unfolding fs_inv_def reg by auto
  then show ?thesis using a(1,3) reg by blast
qed

lemma Cancel_effect:
  assumes inv: "fs_inv S st" and ok: "CancelFeeShare S k msg st = (Inr (), st')"
  shows "fs_inv S st' \<and> (\<exists>contract. AccAddressFromBech32 S (cf_Contract msg) = Inr contract \<and>
     controls k contract (cf_Deployer msg) \<and>
     (\<forall>y. registered st' y = (if y = contract then None else registered st y)))"
  using ok
proof (rule CancelFeeShare_ok)
  fix contract fs st1
  assume a: "AccAddressFromBech32 S (cf_Contract msg) = Inr contract" "registered st contract = Some (FShare fs)"
    "controls k contract (cf_Deployer msg)" "DeleteFeeShare S fs st = (Inr (), st1)"
    "st' = (case GetWithdrawerAddr S fs of
        None \<Rightarrow> DeleteDeployerMap (GetDeployerAddr S fs) contract st1
      | Some w \<Rightarrow> DeleteWithdrawerMap (Some w) contract (DeleteDeployerMap (GetDeployerAddr S fs) contract st1))"
  have so: "share_ok S contract fs" using inv a(2) by (auto simp: fs_inv_def)
  then obtain d w where dw: "GetDeployerAddr S fs = Some d" "GetWithdrawerAddr S fs = Some w"
    by (auto simp: share_ok_def)
  have len: "length contract = 32" using so by (simp add: share_ok_def)
  let ?st1 = "kv_del (KeyPrefixFeeShare @ contract) st"
  have st': "st' = DeleteWithdrawerMap (Some w) contract (DeleteDeployerMap (Some d) contract ?st1)"
    using a(4,5) dw so by (simp add: DeleteFeeShare_def share_ok_def)
  have reg: "registered st' y = (if y = contract then None else registered st y)" for y
    by (simp add: st' wdr.reg_unmark dep.reg_unmark)
  have dep0: "index_ok IsDeployerMapSet (GetDeployerAddr S) st"
    and wdr0: "index_ok IsWithdrawerMapSet (GetWithdrawerAddr S) st" using inv by (simp_all add: fs_inv_def)
  have "index_ok IsDeployerMapSet (GetDeployerAddr S) st'"
    unfolding st' by (rule dep.index_cong [OF _ _ dep.index_cancel [OF dep0 len a(2) dw(1)]])
      (simp_all add: wdr.reg_unmark)
  moreover have "index_ok IsWithdrawerMapSet (GetWithdrawerAddr S) (DeleteWithdrawerMap (Some w) contract ?st1)"
    by (rule wdr.index_cancel [OF wdr0 len a(2) dw(2)])
  then have "index_ok IsWithdrawerMapSet (GetWithdrawerAddr S) st'"
    unfolding st' index_ok_def using len by (simp add: wdr.set_unmark wdr.reg_unmark dep.reg_unmark)
  ultimately have "fs_inv S st'" using inv unfolding fs_inv_def reg by auto
  then show ?thesis using a(1,3) reg by blast
qed

lemma fs_deliver_ok: "fs_deliver S k tx st = (Inr (), st') \<longleftrightarrow> fs_handle S k tx st = (Inr (), st')"
  by (auto simp: fs_deliver_def split: prod.splits sum.splits)

lemma fs_inv_deliver:
  assumes "fs_inv S st" "bech32_laws S" "contract_len k" "fs_deliver S k tx st = (Inr (), st')"
  shows "fs_inv S st'"
proof (cases tx)
  case (FRegister m)
  then show ?thesis using assms Register_effect [OF assms(1-3)] by (simp add: fs_deliver_ok)
next
  case (FUpdate m)
  then show ?thesis using assms Update_effect [OF assms(1,2)] by (simp add: fs_deliver_ok)
next
  case (FCancel m)
  then show ?thesis using assms Cancel_effect [OF assms(1)] by (simp add: fs_deliver_ok)
next
  case (FParamsUpdate a p)
  then show ?thesis
    using assms fs_inv_params by (auto simp: fs_deliver_ok FSUpdateParams_def FSSetParams_def split: if_splits sum.splits)
qed

text \<open>
  C13. After any sequence of register, update, cancel and parameter messages the deployer index
  and the withdrawer index hold exactly the pairs that the registrations name, and every
  registration is stored under its own contract and decodes.
\<close>

theorem fs_reach_inv:
  assumes "bech32_laws S" and "contract_len k" and "fs_reach S k st"
  shows "fs_inv S st"
  using assms(3)
proof (induction rule: fs_reach.induct)
  case fs_init
  show ?case by (rule fs_inv_empty)
next
  case (fs_step st tx r st')
  show ?case
  proof (cases r)
    case (Inl e)
    then have "st' = st" using fs_step.hyps(2) by (auto simp: fs_deliver_def split: prod.splits sum.splits)
    then show ?thesis using fs_step.IH by simp
  next
    case (Inr u)
    then show ?thesis using fs_step fs_inv_deliver [OF _ assms(1,2)] by simp
  qed
qed

text \<open>
  C24. The registration of a contract changes only on a message of the account that controls it,
  its admin or, without an admin, its creator.  The one exception is a contract that a factory
  made: anyone may register it, but only with the contract itself as the withdrawer.
\<close>

theorem fs_change_authorised:
  assumes "bech32_laws S" and "contract_len k" and "fs_inv S st"
    and "fs_deliver S k tx st = (Inr (), st')" and "registered st' c \<noteq> registered st c"
  shows "(\<exists>m. tx = FRegister m \<and> controls k c (rf_Deployer m)) \<or>
         (\<exists>m. tx = FUpdate m \<and> controls k c (uf_Deployer m)) \<or>
         (\<exists>m. tx = FCancel m \<and> controls k c (cf_Deployer m)) \<or>
         (\<exists>m d. tx = FRegister m \<and> from_factory S k c \<and> registered st' c = Some (FShare (NewFeeShare S c d c)))"
proof (cases tx)
  case (FRegister m)
  then show ?thesis
    using assms Register_effect [OF assms(3,1,2), of m st'] by (auto simp: fs_deliver_ok split: if_splits)
next
  case (FUpdate m)
  then show ?thesis
    using assms Update_effect [OF assms(3,1), of k m st'] by (auto simp: fs_deliver_ok split: if_splits)
next
  case (FCancel m)
  then show ?thesis
    using assms Cancel_effect [OF assms(3), of k m st'] by (auto simp: fs_deliver_ok split: if_splits)
next
  case (FParamsUpdate a p)
  then show ?thesis
    using assms by (auto simp: fs_deliver_ok FSUpdateParams_def FSSetParams_def split: if_splits sum.splits)
qed

text \<open>A concrete run: governance enables the module, \<open>alice\<close> registers the contract it created.\<close>

definition fs_ex_contract :: string where "fs_ex_contract = replicate 32 CHR ''c''"

definition fs_ex_keeper :: fs_keeper where
  "fs_ex_keeper = \<lparr>fs_authority = ''gov'',
     fs_GetContractInfo = (\<lambda>c. if c = fs_ex_contract then Some \<lparr>ci_Creator = ''alice'', ci_Admin = []\<rparr> else None),
     fs_HasContractInfo = (\<lambda>a. a = fs_ex_contract), fs_GovAddress = ''gov''\<rparr>"

definition fs_ex_params :: FSParams where
  "fs_ex_params = \<lparr>EnableFeeShare = True, DeveloperShares = Some 500000000000000000, AllowedDenoms = []\<rparr>"

definition fs_ex1 :: fs_store where
  "fs_ex1 = snd (fs_deliver ledger_sdk fs_ex_keeper (FParamsUpdate ''gov'' fs_ex_params) kv_empty)"

definition fs_ex_register :: fs_tx where
  "fs_ex_register = FRegister \<lparr>rf_Contract = fs_ex_contract, rf_Deployer = ''alice'', rf_Withdrawer = ''bob''\<rparr>"

definition fs_ex2 :: fs_store where
  "fs_ex2 = snd (fs_deliver ledger_sdk fs_ex_keeper fs_ex_register fs_ex1)"

lemma fs_ex_runs:
  "fst (fs_deliver ledger_sdk fs_ex_keeper (FParamsUpdate ''gov'' fs_ex_params) kv_empty) = Inr ()"
  "fst (fs_deliver ledger_sdk fs_ex_keeper fs_ex_register fs_ex1) = Inr ()"
  by code_simp+

lemma fs_ex_run1:
  "fs_deliver ledger_sdk fs_ex_keeper (FParamsUpdate ''gov'' fs_ex_params) kv_empty = (Inr (), fs_ex1)"
  using fs_ex_runs(1) by (simp add: fs_ex1_def prod_eq_iff)

lemma fs_ex_run2: "fs_deliver ledger_sdk fs_ex_keeper fs_ex_register fs_ex1 = (Inr (), fs_ex2)"
  using fs_ex_runs(2) by (simp add: fs_ex2_def prod_eq_iff)

lemma fs_ex_len: "contract_len fs_ex_keeper"
  by (simp add: contract_len_def fs_ex_keeper_def fs_ex_contract_def)

lemma fs_ex_registered: "registered fs_ex1 fs_ex_contract = None" "registered fs_ex2 fs_ex_contract \<noteq> None"
  by code_simp+

theorem fs_reach_inv_witness: "fs_inv ledger_sdk fs_ex2 \<and> IsWithdrawerMapSet fs_ex2 ''bob'' fs_ex_contract"
proof
  show "fs_inv ledger_sdk fs_ex2"
    by (rule fs_reach_inv [OF ledger_bech32 fs_ex_len fs_step [OF fs_step [OF fs_init fs_ex_run1] fs_ex_run2]])
  show "IsWithdrawerMapSet fs_ex2 ''bob'' fs_ex_contract" by code_simp
qed

theorem fs_change_authorised_witness:
  "controls fs_ex_keeper fs_ex_contract ''alice'' \<or> from_factory ledger_sdk fs_ex_keeper fs_ex_contract"
  using fs_change_authorised [OF ledger_bech32 fs_ex_len
      fs_inv_deliver [OF fs_inv_empty ledger_bech32 fs_ex_len fs_ex_run1] fs_ex_run2, of fs_ex_contract]
    fs_ex_registered by (auto simp: fs_ex_register_def)

section \<open>How much the payout draws\<close>

definition reward :: "dec_ops \<Rightarrow> dec \<Rightarrow> int \<Rightarrow> int \<Rightarrow> int" where
  "reward D g n a = RoundInt D (QuoInt64 D (MulInt D g a) n)"

lemma reward_zero: "dec_laws D \<Longrightarrow> 0 < n \<Longrightarrow> reward D g n 0 = 0"
proof -
  assume D: "dec_laws D" and n: "0 < n"
  have "2 * \<bar>RoundInt D 0 * dec_one\<bar> \<le> dec_one" using dec_lawsD(3) [OF D, of 0] by simp
  then have "RoundInt D 0 = 0" by (simp add: dec_one_def abs_mult)
  then show ?thesis using dec_lawsD(1,2) [OF D] n by (simp add: reward_def)
qed

lemma reward_bounds:
  assumes "dec_laws D" "0 \<le> g" "0 \<le> a" "0 < n"
  shows "0 \<le> reward D g n a" and "2 * (n * reward D g n a * dec_one) \<le> 2 * (g * a) + n * dec_one"
proof -
  define q where "q = g * a div n"
  have r: "reward D g n a = RoundInt D q"
    using assms dec_lawsD(1,2) [OF assms(1)] by (simp add: reward_def q_def)
  have q0: "0 \<le> q" using assms by (simp add: pos_imp_zdiv_nonneg_iff q_def)
  then show "0 \<le> reward D g n a" using r RoundInt_nonneg [OF assms(1)] by simp
  have "2 * (RoundInt D q * dec_one - q) \<le> dec_one"
    by (rule order_trans [OF mult_left_mono [OF abs_ge_self] dec_lawsD(3) [OF assms(1), of q]]) simp
  then have "2 * (reward D g n a * dec_one) \<le> 2 * q + dec_one" using r by simp
  then have "n * (2 * (reward D g n a * dec_one)) \<le> n * (2 * q + dec_one)"
    using assms(4) by (intro mult_left_mono) auto
  moreover have "n * q \<le> g * a"
    using assms(4) pos_mod_sign [of n "g * a"] mult_div_mod_eq [of n "g * a"] unfolding q_def by linarith
  ultimately show "2 * (n * reward D g n a * dec_one) \<le> 2 * (g * a) + n * dec_one"
    by (simp add: algebra_simps)
qed

lemma FeePayLogic_loop_amount:
  assumes "coin_set_laws A" "FeePayLogic_loop D A g n acc cs = Inr r"
  shows "coins_amount r d = coins_amount acc d +
    sum_list (map (\<lambda>c. if Denom c = d then reward D g n (Amount c) else 0) cs)"
  using assms(2)
proof (induction cs arbitrary: acc)
  case (Cons c cs)
  show ?case
  proof (cases "reward D g n (Amount c) = 0")
    case True
    then have "FeePayLogic_loop D A g n acc cs = Inr r" using Cons.prems by (simp add: reward_def)
    then show ?thesis using Cons.IH True by simp
  next
    case False
    then obtain x where x: "NewCoin A (Denom c) (reward D g n (Amount c)) = Inr x"
      "FeePayLogic_loop D A g n (CoinsAdd A acc [x]) cs = Inr r"
      using Cons.prems by (auto simp: reward_def Let_def split: sum.splits)
    have "Denom x = Denom c" "Amount x = reward D g n (Amount c)"
      using coin_set_lawsD(6) [OF assms(1) x(1)] by auto
    then show ?thesis
      using Cons.IH [OF x(2)] coin_set_lawsD(3) [OF assms(1), of acc "[x]" d] by simp
  qed
qed simp

lemma sum_coin_wf:
  assumes "coin_wf cs" "f (0::int) = (0::int)"
  shows "sum_list (map (\<lambda>c. if Denom c = d then f (Amount c) else 0) cs) = f (coins_amount cs d)"
  using assms(1)
proof (induction cs)
  case (Cons c cs)
  have z: "Denom c = d \<Longrightarrow> coins_amount cs d = 0"
    using Cons.prems by (auto simp: coin_wf_def intro: coins_amount_not_in)
  have "coin_wf cs" using Cons.prems by (simp add: coin_wf_def)
  then show ?case using Cons.IH z assms(2) by auto
qed (simp add: assms(2))

lemma payAll_balances:
  assumes "bank_laws S supply bal modaddr" "payAll S fees toPay w = (Inr (), w')"
  shows "bal w' x d = bal w x d + int (count_list toPay x) * coins_amount fees d
     - (if x = modaddr ''fee_collector'' then int (length toPay) * coins_amount fees d else 0)"
  using assms(2)
proof (induction toPay arbitrary: w)
  case (Cons a toPay)
  obtain w1 where w1: "SendCoinsFromModuleToAccount S ''fee_collector'' a fees w = (Inr (), w1)"
    "payAll S fees toPay w1 = (Inr (), w')"
    using Cons.prems by (auto split: prod.splits sum.splits)
  have "bal w1 x d = bal w x d + (if x = a then coins_amount fees d else 0)
      - (if x = modaddr ''fee_collector'' then coins_amount fees d else 0)"
    using bank_lawsD(6) [OF assms(1) w1(1)] unfolding moved_def by blast
  then show ?case unfolding Cons.IH [OF w1(2)]
    by (cases "x = modaddr ''fee_collector''"; cases "a = x") (simp_all add: algebra_simps)
qed simp

lemma allowed_inner:
  assumes "coin_set_laws A" "coin_wf f" "0 \<le> Amount fee"
  shows "coin_wf (foldl (\<lambda>f allowed. if Denom fee = allowed then CoinsAdd A f [fee] else f) f L) \<and>
    coins_amount (foldl (\<lambda>f allowed. if Denom fee = allowed then CoinsAdd A f [fee] else f) f L) d =
      coins_amount f d + (if Denom fee = d then int (count_list L d) * Amount fee else 0)"
  using assms(2)
proof (induction L arbitrary: f)
  case (Cons a L)
  have "coin_wf (CoinsAdd A f [fee])"
    by (rule coin_set_lawsD(8) [OF assms(1) Cons.prems]) (simp add: coin_wf_def assms(3))
  then show ?case
    using Cons.IH [OF Cons.prems] Cons.IH [of "CoinsAdd A f [fee]"] coin_set_lawsD(3) [OF assms(1), of f "[fee]" d]
    by (auto simp: algebra_simps)
qed simp

lemma allowed_outer:
  assumes "coin_set_laws A" "coin_wf f" "\<forall>fee \<in> set fees. 0 \<le> Amount fee"
  shows "coin_wf (foldl (\<lambda>fees fee. foldl (\<lambda>f allowed. if Denom fee = allowed then CoinsAdd A f [fee] else f) fees L) f fees) \<and>
    coins_amount (foldl (\<lambda>fees fee. foldl (\<lambda>f allowed. if Denom fee = allowed then CoinsAdd A f [fee] else f) fees L) f fees) d =
      coins_amount f d + int (count_list L d) * coins_amount fees d"
  using assms(2,3)
proof (induction fees arbitrary: f)
  case (Cons fee fees)
  have "0 \<le> Amount fee" using Cons.prems by simp
  note inner = allowed_inner [OF assms(1) Cons.prems(1) this, of L]
  show ?case
    using Cons.IH [OF conjunct1 [OF inner]] Cons.prems(2) conjunct2 [OF inner [of d]]
    by (auto simp: algebra_simps)
qed simp

text \<open>How often a fee counts: once without a list of allowed denominations, else as often as listed.\<close>

definition multiplicity :: "string list \<Rightarrow> string \<Rightarrow> int" where
  "multiplicity allowed d = (if allowed = [] then 1 else int (count_list allowed d))"

lemma allowedFees_amount:
  assumes "coin_set_laws A" "coin_wf tot"
  shows "coin_wf (allowedFees A L tot)"
    and "coins_amount (allowedFees A L tot) d = multiplicity L d * coins_amount tot d"
proof -
  have n: "\<forall>fee \<in> set (CoinsSort A tot). 0 \<le> Amount fee"
    using coin_set_lawsD(7) [OF assms] by (simp add: coin_wf_def)
  have e: "coin_wf []" by (simp add: coin_wf_def)
  show "coin_wf (allowedFees A L tot)"
    "coins_amount (allowedFees A L tot) d = multiplicity L d * coins_amount tot d"
    using allowed_outer [OF assms(1) e n, of L d] assms(2) coin_set_lawsD(2) [OF assms(1)]
    by (auto simp: allowedFees_def multiplicity_def)
qed

lemma FeePayLogic_amount:
  assumes "coin_set_laws A" "dec_laws D" "coin_wf fees" "0 < n" "FeePayLogic D A fees g n = Inr r"
  shows "coins_amount r d = reward D g (int n) (coins_amount fees d)"
proof -
  have "coins_amount r d = sum_list (map (\<lambda>c. if Denom c = d then reward D g (int n) (Amount c) else 0) (CoinsSort A fees))"
    using FeePayLogic_loop_amount [OF assms(1), of D g "int n" "[]" "CoinsSort A fees" r d] assms(5)
    by (simp add: FeePayLogic_def)
  also have "\<dots> = reward D g (int n) (coins_amount (CoinsSort A fees) d)"
    by (rule sum_coin_wf [OF coin_set_lawsD(7) [OF assms(1,3)]]) (simp add: reward_zero assms)
  finally show ?thesis using coin_set_lawsD(2) [OF assms(1)] by simp
qed

lemma payees_length: "payees S st msgs = Inr toPay \<Longrightarrow> length toPay \<le> length msgs"
proof (induction msgs arbitrary: toPay)
  case (Cons m msgs)
  then show ?case by (cases m) (auto simp: Let_def intro: le_SucI split: sum.splits if_splits)
qed simp


text \<open>
  C19. The payout of a transaction that succeeds draws from the fee collector, for every
  denomination, at most the developer share of the allowed fee, plus half a base unit per message
  (every recipient's part is rounded to the nearest unit).  A denomination listed several times
  among the allowed ones counts that often.
\<close>

theorem fs_payout_bound:
  assumes "bank_laws S supply bal modaddr" "dec_laws D" "coin_set_laws A"
    and "FSGetParams st = Inr p" "FSParamsValidate p = Inr ()" "DeveloperShares p = Some g"
    and "coin_wf totalFees" "FeeSharePayout S D A st totalFees msgs w = (Inr (), w')"
  shows "2 * dec_one * (bal w (modaddr ''fee_collector'') d - bal w' (modaddr ''fee_collector'') d)
    \<le> 2 * g * (multiplicity (AllowedDenoms p) d * coins_amount totalFees d) + int (length msgs) * dec_one"
proof -
  let ?fc = "modaddr ''fee_collector''"
  define a where "a = multiplicity (AllowedDenoms p) d * coins_amount totalFees d"
  have g: "0 \<le> g" using assms(5,6) by (auto simp: FSParamsValidate_def validateShares_def split: if_splits)
  have a: "0 \<le> a" using coin_wf_nonneg [OF assms(7), of d] by (simp add: a_def multiplicity_def)
  have ga: "0 \<le> g * a" using g a by simp
  consider "w' = w" | toPay fees where "payees S st msgs = Inr toPay" "toPay \<noteq> []"
    "FeePayLogic D A (allowedFees A (AllowedDenoms p) totalFees) g (length toPay) = Inr fees"
    "payAll S fees toPay w = (Inr (), w')"
    using assms(4,6,8) by (auto simp: FeeSharePayout_def split: sum.splits if_splits)
  then have "2 * dec_one * (bal w ?fc d - bal w' ?fc d) \<le> 2 * (g * a) + int (length msgs) * dec_one"
  proof cases
    case 1
    then show ?thesis using ga by (simp add: dec_one_def)
  next
    case 2
    define n where "n = int (length toPay)"
    have n: "0 < n" "n \<le> int (length msgs)" using 2(2) payees_length [OF 2(1)] by (auto simp: n_def)
    have r: "coins_amount fees d = reward D g n a"
      using FeePayLogic_amount [OF assms(3,2) allowedFees_amount(1) [OF assms(3,7)] _ 2(3)]
        allowedFees_amount(2) [OF assms(3,7)] 2(2) by (simp add: n_def a_def)
    note b = reward_bounds [OF assms(2) g a n(1)]
    have "bal w ?fc d - bal w' ?fc d \<le> n * reward D g n a"
      using payAll_balances [OF assms(1) 2(4), of ?fc d] b(1) by (simp add: r n_def)
    then have "2 * dec_one * (bal w ?fc d - bal w' ?fc d) \<le> 2 * dec_one * (n * reward D g n a)"
      by (intro mult_left_mono) (simp_all add: dec_one_def)
    also have "\<dots> \<le> 2 * (g * a) + n * dec_one" using b(2) by (simp add: algebra_simps)
    also have "\<dots> \<le> 2 * (g * a) + int (length msgs) * dec_one" using n(2) by (simp add: dec_one_def)
    finally show ?thesis .
  qed
  then show ?thesis by (simp add: a_def algebra_simps)
qed

definition fs_ex_world :: ledger where
  "fs_ex_world = credit ''fee_collector'' [\<lparr>Denom = ''uterp'', Amount = 101\<rparr>] ledger0"

definition fs_ex_fees :: Coins where "fs_ex_fees = [\<lparr>Denom = ''uterp'', Amount = 101\<rparr>]"

definition fs_ex_payout :: "unit res \<times> ledger" where
  "fs_ex_payout = FeeSharePayout ledger_sdk ref_dec ref_coins fs_ex2 fs_ex_fees [MsgExecuteContract fs_ex_contract] fs_ex_world"

lemma fs_ex_payout_ok: "fst fs_ex_payout = Inr ()"
  by code_simp

lemma fs_ex_params_in_force: "FSGetParams fs_ex2 = Inr fs_ex_params" "FSParamsValidate fs_ex_params = Inr ()"
  by code_simp+

lemma fs_ex_payout_paid: "balances (snd fs_ex_payout) ''bob'' ''uterp'' = 50"
  by code_simp

theorem fs_payout_bound_witness:
  "2 * dec_one * (101 - balances (snd fs_ex_payout) ''fee_collector'' ''uterp'') \<le> 2 * dec_one * 51"
proof -
  have g: "DeveloperShares fs_ex_params = Some 500000000000000000" by (simp add: fs_ex_params_def)
  have f: "coin_wf fs_ex_fees" by (simp add: coin_wf_def fs_ex_fees_def)
  have "FeeSharePayout ledger_sdk ref_dec ref_coins fs_ex2 fs_ex_fees [MsgExecuteContract fs_ex_contract] fs_ex_world
      = (Inr (), snd fs_ex_payout)"
    using fs_ex_payout_ok by (simp add: fs_ex_payout_def prod_eq_iff)
  from fs_payout_bound [OF ledger_bank ref_dec_laws ref_coin_set_laws fs_ex_params_in_force g f this, of "''uterp''"]
  show ?thesis
    by (simp add: fs_ex_world_def credit_def ledger0_def fs_ex_params_def multiplicity_def fs_ex_fees_def dec_one_def)
qed

definition fs_ex_dup_params :: FSParams where
  "fs_ex_dup_params = \<lparr>EnableFeeShare = True, DeveloperShares = Some dec_one, AllowedDenoms = [''uterp'', ''uterp'']\<rparr>"

text \<open>
  Nothing rejects an allowed denomination that is listed twice, and such a list makes the
  payout double: with a share of one, a fee of 101 pays 202 out of the fee collector.
\<close>

theorem fs_duplicate_denoms_overpay:
  "FSParamsValidate fs_ex_dup_params = Inr () \<and>
   balances (snd (FeeSharePayout ledger_sdk ref_dec ref_coins (snd (FSSetParams fs_ex_dup_params fs_ex2))
      fs_ex_fees [MsgExecuteContract fs_ex_contract] (credit ''fee_collector'' fs_ex_fees fs_ex_world)))
     ''bob'' ''uterp'' = 2 * coins_amount fs_ex_fees ''uterp''"
  by code_simp

end
