(* ===== verification/GlobalFee.thy ===== *)
theory GlobalFee
  imports SdkMath ParamsServer
begin

text \<open>
  Module \<open>x/globalfee\<close>: minimum gas prices set by governance, and the ante decorator that checks
  the fee of a transaction in \<open>CheckTx\<close> against them and against the node's own minimum gas prices.
  The module's store holds its parameters only.  \<open>next\<close>, the rest of the ante chain, is an argument
  of the decorator.
\<close>

section \<open>Parameters\<close>

record DecCoin =
  dc_Denom :: string
  dc_Amount :: dec

type_synonym DecCoins = "DecCoin list"

record GFParams =
  MinimumGasPrices :: DecCoins

definition GFDefaultParams :: GFParams where
  "GFDefaultParams = \<lparr>MinimumGasPrices = []\<rparr>"

text \<open>The loop, with the last denomination (none before the first coin) and those seen.\<close>

fun DecCoinsValidate_loop :: "'w sdk \<Rightarrow> string option \<Rightarrow> string list \<Rightarrow> DecCoins \<Rightarrow> unit res" where
  "DecCoinsValidate_loop S lowDenom seenDenoms [] = Inr ()"
| "DecCoinsValidate_loop S lowDenom seenDenoms (coin # coins) =
     (if dc_Denom coin \<in> set seenDenoms then Inl (Plain ''duplicate denomination'')
      else case ValidateDenom S (dc_Denom coin) of
             Inl e \<Rightarrow> Inl e
           | Inr _ \<Rightarrow>
               if (case lowDenom of None \<Rightarrow> False | Some low \<Rightarrow> dc_Denom coin \<le> low)
               then Inl (Plain ''denomination is not sorted'')
               else if dc_Amount coin < 0 then Inl (Plain ''coin amount is negative'')
               else DecCoinsValidate_loop S (Some (dc_Denom coin)) (dc_Denom coin # seenDenoms) coins)"

definition DecCoinsValidate :: "'w sdk \<Rightarrow> DecCoins \<Rightarrow> unit res" where
  "DecCoinsValidate S coins = (if coins = [] then Inr () else DecCoinsValidate_loop S None [] coins)"

definition GFParamsValidate :: "'w sdk \<Rightarrow> GFParams \<Rightarrow> unit res" where
  "GFParamsValidate S p = DecCoinsValidate S (MinimumGasPrices p)"

section \<open>Keeper\<close>

type_synonym gf_state = "GFParams option"

definition GFGetParams :: "gf_state \<Rightarrow> GFParams" where
  "GFGetParams st = (case st of None \<Rightarrow> \<lparr>MinimumGasPrices = []\<rparr> | Some p \<Rightarrow> p)"

definition GFSetParams :: "'w sdk \<Rightarrow> GFParams \<Rightarrow> gf_state \<Rightarrow> unit res \<times> gf_state" where
  "GFSetParams S p st =
     (case GFParamsValidate S p of Inl e \<Rightarrow> (Inl e, st) | Inr _ \<Rightarrow> (Inr (), Some p))"

text \<open>The keeper's authority, and the staking keeper's bond denomination with its error.\<close>

record gf_keeper =
  gf_authority :: string
  gf_BondDenom :: "string \<times> error option"

definition GFUpdateParams ::
  "'w sdk \<Rightarrow> gf_keeper \<Rightarrow> string \<Rightarrow> GFParams \<Rightarrow> gf_state \<Rightarrow> unit res \<times> gf_state" where
  "GFUpdateParams S k authority params st =
     (if gf_authority k \<noteq> authority then (Inl ErrGovInvalidSigner, st) else GFSetParams S params st)"

definition GFExportGenesis :: "gf_state \<Rightarrow> GFParams" where
  "GFExportGenesis st = GFGetParams st"

definition GFValidateGenesis :: "'w sdk \<Rightarrow> GFParams \<Rightarrow> unit res" where
  "GFValidateGenesis S data = GFParamsValidate S data"

text \<open>
  The constructor and the zero test of decimal coins are library code: the constructor panics on
  a denomination that does not validate and on a negative amount.
\<close>

record dec_coin_ops =
  NewDecCoinFromDec :: "string \<Rightarrow> dec \<Rightarrow> DecCoin res"
  DecCoinsIsZero :: "DecCoins \<Rightarrow> bool"

definition dec_coin_laws :: "dec_coin_ops \<Rightarrow> bool" where
  "dec_coin_laws C \<longleftrightarrow>
     (\<forall>d x c. NewDecCoinFromDec C d x = Inr c \<longrightarrow> c = \<lparr>dc_Denom = d, dc_Amount = x\<rparr>) \<and>
     (\<forall>cs. DecCoinsIsZero C cs \<longleftrightarrow> (\<forall>c \<in> set cs. dc_Amount c = 0))"

definition ref_dec_coins :: dec_coin_ops where
  "ref_dec_coins = \<lparr>
     NewDecCoinFromDec = (\<lambda>d x. if d = [] \<or> x < 0 then Inl (Panicked ''dec coin'')
                                else Inr \<lparr>dc_Denom = d, dc_Amount = x\<rparr>),
     DecCoinsIsZero = list_all (\<lambda>c. dc_Amount c = 0)\<rparr>"

lemma ref_dec_coin_laws: "dec_coin_laws ref_dec_coins"
  by (auto simp: dec_coin_laws_def ref_dec_coins_def list_all_iff split: if_splits)

definition GFMigrate :: "'w sdk \<Rightarrow> dec_coin_ops \<Rightarrow> string \<Rightarrow> gf_state \<Rightarrow> unit res \<times> gf_state" where
  "GFMigrate S C bondDenom st =
     (case NewDecCoinFromDec C bondDenom 75000000000000000 of
        Inl e \<Rightarrow> (Inl e, st)
      | Inr c \<Rightarrow>
          let currParams = \<lparr>MinimumGasPrices = [c]\<rparr> in
          (case GFParamsValidate S currParams of
             Inl e \<Rightarrow> (Inl e, st)
           | Inr _ \<Rightarrow> (Inr (), Some currParams)))"

section \<open>Fee helpers\<close>

definition ContainZeroCoins :: "Coins \<Rightarrow> bool" where
  "ContainZeroCoins coins = (coins = [] \<or> list_ex (\<lambda>coin. Amount coin = 0) coins)"

text \<open>Binary search; the zero coin of a failed search is dropped.\<close>

function Find :: "Coins \<Rightarrow> string \<Rightarrow> Coin option" where
  "Find coins denom =
     (case coins of
        [] \<Rightarrow> None
      | [coin] \<Rightarrow> if Denom coin = denom then Some coin else None
      | _ \<Rightarrow>
          let midIdx = length coins div 2; coin = coins ! midIdx in
          if denom < Denom coin then Find (take midIdx coins) denom
          else if denom = Denom coin then Some coin
          else Find (drop (midIdx + 1) coins) denom)"
  by pat_completeness auto
termination
  by (relation "measure (\<lambda>(cs, d). length cs)") auto

declare Find.simps [simp del]

definition CombinedFeeRequirement :: "coin_ops \<Rightarrow> Coins \<Rightarrow> Coins \<Rightarrow> Coins" where
  "CombinedFeeRequirement A globalFees minGasPrices =
     (if minGasPrices = [] then globalFees
      else if globalFees = [] then []
      else CoinsSort A (map (\<lambda>fee. case Find minGasPrices (Denom fee) of
                                     Some c \<Rightarrow> if Amount fee < Amount c then c else fee
                                   | None \<Rightarrow> fee) globalFees))"

definition splitCoinsByDenoms :: "coin_ops \<Rightarrow> Coins \<Rightarrow> string list \<Rightarrow> Coins \<times> Coins" where
  "splitCoinsByDenoms A feeCoins denomMap =
     (CoinsSort A (filter (\<lambda>fc. Denom fc \<notin> set denomMap) feeCoins),
      CoinsSort A (filter (\<lambda>fc. Denom fc \<in> set denomMap) feeCoins))"

definition getNonZeroFees :: "coin_ops \<Rightarrow> Coins \<Rightarrow> Coins \<times> string list" where
  "getNonZeroFees A fees =
     (CoinsSort A (filter (\<lambda>gf. Amount gf \<noteq> 0) fees), map Denom (filter (\<lambda>gf. Amount gf = 0) fees))"

section \<open>The decorator\<close>

definition LegacyNewDec :: "int \<Rightarrow> dec" where
  "LegacyNewDec i = i * dec_one"

text \<open>\<open>ceil (price * gas)\<close> for every price; \<open>NewCoin\<close> panics on a negative amount.\<close>

fun requiredFees_loop :: "dec_ops \<Rightarrow> coin_ops \<Rightarrow> dec \<Rightarrow> DecCoins \<Rightarrow> Coins res" where
  "requiredFees_loop D A glDec [] = Inr []"
| "requiredFees_loop D A glDec (gp # gps) =
     (let fee = DecMul D (dc_Amount gp) glDec in
      case NewCoin A (dc_Denom gp) (CeilInt D fee) of
        Inl e \<Rightarrow> Inl e
      | Inr c \<Rightarrow> (case requiredFees_loop D A glDec gps of Inl e \<Rightarrow> Inl e | Inr cs \<Rightarrow> Inr (c # cs)))"

definition DefaultZeroGlobalFee :: "dec_coin_ops \<Rightarrow> gf_keeper \<Rightarrow> DecCoins res" where
  "DefaultZeroGlobalFee C k =
     (let bondDenom = fst (gf_BondDenom k) in
      if bondDenom = [] then Inl (Plain ''empty staking bond denomination'')
      else case NewDecCoinFromDec C bondDenom (LegacyNewDec 0) of Inl e \<Rightarrow> Inl e | Inr c \<Rightarrow> Inr [c])"

text \<open>The conversion \<open>int64(gas)\<close> wraps.\<close>

definition GetGlobalFee ::
  "dec_ops \<Rightarrow> coin_ops \<Rightarrow> dec_coin_ops \<Rightarrow> gf_keeper \<Rightarrow> gf_state \<Rightarrow> u64 \<Rightarrow> Coins res" where
  "GetGlobalFee D A C k st gas =
     (let prices = MinimumGasPrices (GFGetParams st) in
      case (if prices = [] then DefaultZeroGlobalFee C k else Inr prices) of
        Inl e \<Rightarrow> Inl e
      | Inr globalMinGasPrices \<Rightarrow>
          (case requiredFees_loop D A (LegacyNewDec (sint gas)) globalMinGasPrices of
             Inl e \<Rightarrow> Inl e
           | Inr requiredGlobalFees \<Rightarrow> Inr (CoinsSort A requiredGlobalFees)))"

text \<open>\<open>Int64()\<close> panics for a value outside of the range.\<close>

definition GetMinGasPrice ::
  "dec_ops \<Rightarrow> coin_ops \<Rightarrow> dec_coin_ops \<Rightarrow> DecCoins \<Rightarrow> u64 \<Rightarrow> Coins res" where
  "GetMinGasPrice D A C minGasPrices gasLimit =
     (if DecCoinsIsZero C minGasPrices then Inr []
      else if 9223372036854775808 \<le> uint gasLimit then Inl (Panicked ''Int64() out of bound'')
      else case requiredFees_loop D A (LegacyNewDec (uint gasLimit)) minGasPrices of
             Inl e \<Rightarrow> Inl e
           | Inr requiredFees \<Rightarrow> Inr (CoinsSort A requiredFees))"

definition ContainsOnlyBypassMinFeeMsgs :: "string list \<Rightarrow> string list \<Rightarrow> bool" where
  "ContainsOnlyBypassMinFeeMsgs bypassTypes msgs = list_all (\<lambda>msg. msg \<in> set bypassTypes) msgs"

record fee_tx =
  tx_Fee :: Coins
  tx_Gas :: u64
  tx_MsgTypes :: "string list"

record fee_decorator =
  BypassMinFeeMsgTypes :: "string list"
  GlobalFeeKeeper :: gf_keeper
  MaxTotalBypassMinFeeMsgGasUsage :: u64

record check_ctx =
  IsCheckTx :: bool
  MinGasPrices :: DecCoins

definition FeeAnteHandle ::
  "dec_ops \<Rightarrow> coin_ops \<Rightarrow> dec_coin_ops \<Rightarrow> fee_decorator \<Rightarrow> gf_state \<Rightarrow> check_ctx \<Rightarrow> fee_tx option \<Rightarrow> bool \<Rightarrow>
   'r res \<Rightarrow> 'r res" where
  "FeeAnteHandle D A C mfd st ctx tx simulate next =
     (case tx of
        None \<Rightarrow> Inl ErrTxDecode
      | Some feeTx \<Rightarrow>
      if \<not> IsCheckTx ctx \<or> simulate then next
      else
        let feeCoins = CoinsSort A (tx_Fee feeTx) in
        (case GetGlobalFee D A C (GlobalFeeKeeper mfd) st (tx_Gas feeTx) of
           Inl e \<Rightarrow> Inl e
         | Inr requiredGlobalFees \<Rightarrow>
        (case GetMinGasPrice D A C (MinGasPrices ctx) (tx_Gas feeTx) of
           Inl e \<Rightarrow> Inl e
         | Inr localFees \<Rightarrow>
        (let combined = CombinedFeeRequirement A requiredGlobalFees localFees in
         if combined = [] then Inl ErrNotFound
         else
        (let (nonZeroCoinFeesReq, zeroCoinFeesDenomReq) = getNonZeroFees A combined;
             (feeCoinsNonZeroDenom, feeCoinsZeroDenom) = splitCoinsByDenoms A feeCoins zeroCoinFeesDenomReq in
         if \<not> DenomsSubsetOf A feeCoinsNonZeroDenom nonZeroCoinFeesReq then Inl ErrInsufficientFee
         else
        (let doesNotExceedMaxGasUsage = (tx_Gas feeTx \<le> MaxTotalBypassMinFeeMsgGasUsage mfd);
             allowedToBypassMinFee =
               (ContainsOnlyBypassMinFeeMsgs (BypassMinFeeMsgTypes mfd) (tx_MsgTypes feeTx) \<and> doesNotExceedMaxGasUsage) in
         if \<not> allowedToBypassMinFee \<and> feeCoinsZeroDenom = [] then
           if feeCoins = [] \<and> zeroCoinFeesDenomReq \<noteq> [] then next
           else if \<not> IsAnyGTE A feeCoinsNonZeroDenom nonZeroCoinFeesReq then Inl ErrInsufficientFee
           else next
         else next))))))"

section \<open>Parameters validate\<close>

lemma DecCoinsValidate_loop_ok:
  "DecCoinsValidate_loop S low seen cs = Inr () \<longleftrightarrow>
     (\<forall>c \<in> set cs. is_ok (ValidateDenom S (dc_Denom c)) \<and> 0 \<le> dc_Amount c \<and> dc_Denom c \<notin> set seen) \<and>
     sorted_wrt (<) (case low of None \<Rightarrow> map dc_Denom cs | Some l \<Rightarrow> l # map dc_Denom cs)"
  if "\<forall>l. low = Some l \<longrightarrow> l \<in> set seen" for low
  using that
proof (induction S low seen cs rule: DecCoinsValidate_loop.induct)
  case (2 S low seen c cs)
  have IH: "ValidateDenom S (dc_Denom c) = Inr u \<Longrightarrow> dc_Denom c \<notin> set seen \<Longrightarrow>
     \<not> (case low of None \<Rightarrow> False | Some l \<Rightarrow> dc_Denom c \<le> l) \<Longrightarrow> 0 \<le> dc_Amount c \<Longrightarrow>
     DecCoinsValidate_loop S (Some (dc_Denom c)) (dc_Denom c # seen) cs = Inr () \<longleftrightarrow>
     (\<forall>e \<in> set cs. is_ok (ValidateDenom S (dc_Denom e)) \<and> 0 \<le> dc_Amount e \<and> dc_Denom e \<notin> set (dc_Denom c # seen)) \<and>
     sorted_wrt (<) (dc_Denom c # map dc_Denom cs)" for u
    using "2.IH" by simp
  show ?case
    using IH
    by (cases low; cases "ValidateDenom S (dc_Denom c)") (auto simp: not_le)
qed (auto split: option.splits)

text \<open>
  Gas prices validate exactly when every denomination is valid, the denominations are
  strictly ascending and no price is negative.
\<close>

theorem gf_params_valid_iff:
  "GFParamsValidate S p = Inr () \<longleftrightarrow>
     list_all (\<lambda>c. is_ok (ValidateDenom S (dc_Denom c)) \<and> 0 \<le> dc_Amount c) (MinimumGasPrices p) \<and>
     sorted_wrt (<) (map dc_Denom (MinimumGasPrices p))"
  using DecCoinsValidate_loop_ok [of None "[]" S "MinimumGasPrices p"]
  by (auto simp: GFParamsValidate_def DecCoinsValidate_def list_all_iff)

interpretation gf_server: params_server "GFUpdateParams S" gf_authority "GFParamsValidate S"
  "\<lambda>st. Inr (GFGetParams st)" "\<lambda>p. p" for S :: "'w sdk"
  by unfold_locales (auto simp: GFUpdateParams_def GFSetParams_def GFGetParams_def split: sum.splits)

section \<open>Binary search\<close>

lemma Find_lookup:
  "sorted_wrt (<) (map Denom cs) \<Longrightarrow> Find cs d = Some c \<longleftrightarrow> c \<in> set cs \<and> Denom c = d"
proof (induction cs d rule: Find.induct)
  case (1 cs d)
  show ?case
  proof (cases "length cs < 2")
    case True
    then show ?thesis by (auto simp: Find.simps [of cs d] split: list.splits)
  next
    case False
    define m where "m = length cs div 2"
    have m: "m < length cs" using False by (auto simp: m_def)
    obtain a b rest where cs: "cs = a # b # rest" using False by (cases cs; cases "tl cs") auto
    have split: "cs = take m cs @ cs ! m # drop (m + 1) cs" using id_take_nth_drop [OF m] by simp
    have s: "sorted_wrt (<) (map Denom (take m cs) @ Denom (cs ! m) # map Denom (drop (m + 1) cs))"
      using "1.prems" by (subst (asm) split) simp
    have before: "\<forall>c \<in> set (take m cs). Denom c < Denom (cs ! m)"
      and after: "\<forall>c \<in> set (drop (m + 1) cs). Denom (cs ! m) < Denom c"
      using s by (auto simp: sorted_wrt_append)
    have unf: "Find cs d = (if d < Denom (cs ! m) then Find (take m cs) d
        else if d = Denom (cs ! m) then Some (cs ! m) else Find (drop (m + 1) cs) d)"
      by (subst Find.simps) (simp add: cs m_def Let_def)
    have mem: "c \<in> set cs \<longleftrightarrow> c \<in> set (take m cs) \<or> c = cs ! m \<or> c \<in> set (drop (m + 1) cs)"
      by (subst split) auto
    have IH1: "d < Denom (cs ! m) \<Longrightarrow> Find (take m cs) d = Some c \<longleftrightarrow> c \<in> set (take m cs) \<and> Denom c = d"
      using "1.IH"(1) [of a "b # rest" b rest m "cs ! m"] s cs by (simp add: m_def sorted_wrt_append)
    have IH2: "\<not> d < Denom (cs ! m) \<Longrightarrow> d \<noteq> Denom (cs ! m) \<Longrightarrow>
        Find (drop (m + 1) cs) d = Some c \<longleftrightarrow> c \<in> set (drop (m + 1) cs) \<and> Denom c = d"
      using "1.IH"(2) [of a "b # rest" b rest m "cs ! m"] s cs by (simp add: m_def sorted_wrt_append)
    show ?thesis
      unfolding unf mem using IH1 IH2 before after by (auto dest: less_asym)
  qed
qed

section \<open>Combined requirement\<close>

lemma coin_wf_strict: "coin_wf cs \<Longrightarrow> sorted (map Denom cs) \<Longrightarrow> sorted_wrt (<) (map Denom cs)"
  by (simp add: coin_wf_def strict_sorted_iff)

definition larger :: "Coins \<Rightarrow> Coin \<Rightarrow> Coin" where
  "larger L fee = (case Find L (Denom fee) of Some c \<Rightarrow> if Amount fee < Amount c then c else fee | None \<Rightarrow> fee)"

lemma larger_spec:
  assumes "coin_wf L" "sorted (map Denom L)" "0 \<le> Amount fee"
  shows "Denom (larger L fee) = Denom fee \<and> Amount (larger L fee) = max (Amount fee) (coins_amount L (Denom fee))"
proof (cases "Find L (Denom fee)")
  case None
  have "Denom c \<noteq> Denom fee" if "c \<in> set L" for c
    using Find_lookup [OF coin_wf_strict [OF assms(1,2)], of "Denom fee" c] None that by simp
  then have "Denom fee \<notin> Denom ` set L" by (metis imageE)
  then show ?thesis using None assms(3) by (simp add: larger_def coins_amount_not_in)
next
  case (Some c)
  then have c: "c \<in> set L" "Denom c = Denom fee"
    using Find_lookup [OF coin_wf_strict [OF assms(1,2)], of "Denom fee" c] by simp_all
  then show ?thesis using Some coin_wf_amount [OF assms(1) c(1)] by (simp add: larger_def)
qed

lemma combined_set:
  assumes "coin_set_laws A" "coin_wf G" "sorted (map Denom G)" "coin_wf L" "sorted (map Denom L)"
  shows "coin_wf (CombinedFeeRequirement A G L)"
    and "sorted (map Denom (CombinedFeeRequirement A G L))"
    and "set (CombinedFeeRequirement A G L) = larger L ` set G"
proof -
  have l: "map Denom (map (larger L) G) = map Denom G"
    using larger_spec [OF assms(4,5)] assms(2) by (auto simp: coin_wf_def)
  have "0 \<le> Amount (larger L c)" if "c \<in> set G" for c
    using larger_spec [OF assms(4,5), of c] assms(2) that by (auto simp: coin_wf_def)
  then have wf: "coin_wf (map (larger L) G)" using assms(2) unfolding coin_wf_def l by auto
  have e: "L = [] \<Longrightarrow> larger L = (\<lambda>c. c)" by (auto simp: larger_def Find.simps)
  have c: "CombinedFeeRequirement A G L = (if L = [] then G else if G = [] then [] else CoinsSort A (map (larger L) G))"
    by (simp add: CombinedFeeRequirement_def larger_def [abs_def])
  show "coin_wf (CombinedFeeRequirement A G L)" "sorted (map Denom (CombinedFeeRequirement A G L))"
    "set (CombinedFeeRequirement A G L) = larger L ` set G"
    using wf assms(2,3) coin_set_lawsD(1,7,9) [OF assms(1)] e unfolding c by auto
qed

text \<open>
  The combined requirement asks, in exactly the denominations of the global fee, for the
  larger one of the global fee and the node's own fee.
\<close>

theorem gf_combined_max:
  assumes "coin_set_laws A" "coin_wf G" "sorted (map Denom G)" "coin_wf L" "sorted (map Denom L)"
  shows "coins_amount (CombinedFeeRequirement A G L) d =
    (if d \<in> Denom ` set G then max (coins_amount G d) (coins_amount L d) else 0)"
proof (cases "d \<in> Denom ` set G")
  case True
  then obtain c where c: "c \<in> set G" "Denom c = d" by auto
  have "0 \<le> Amount c" using assms(2) c by (simp add: coin_wf_def)
  note s = larger_spec [OF assms(4,5) this]
  have "larger L c \<in> set (CombinedFeeRequirement A G L)" using combined_set(3) [OF assms] c by blast
  from coin_wf_amount [OF combined_set(1) [OF assms] this] show ?thesis
    using c s coin_wf_amount [OF assms(2) c(1)] True by simp
next
  case False
  have "Denom (larger L c) = Denom c" if "c \<in> set G" for c
    using larger_spec [OF assms(4,5), of c] assms(2) that by (simp add: coin_wf_def)
  then have "d \<notin> Denom ` set (CombinedFeeRequirement A G L)"
    using False unfolding combined_set(3) [OF assms] image_image by (auto cong: image_cong_simp)
  then show ?thesis using False by (simp add: coins_amount_not_in)
qed

theorem gf_combined_max_witness:
  "coins_amount (CombinedFeeRequirement ref_coins
      [\<lparr>Denom = ''uatom'', Amount = 5\<rparr>, \<lparr>Denom = ''uterp'', Amount = 7\<rparr>] [\<lparr>Denom = ''uterp'', Amount = 9\<rparr>]) ''uterp'' = 9"
  by (subst gf_combined_max [OF ref_coin_set_laws]) (simp_all add: coin_wf_def less_eq_char_def)

section \<open>The fee check\<close>

fun dec_price :: "DecCoins \<Rightarrow> string \<Rightarrow> dec" where
  "dec_price [] d = 0"
| "dec_price (gp # gps) d = (if dc_Denom gp = d then dc_Amount gp else 0) + dec_price gps d"

lemma dec_price_not_in: "d \<notin> dc_Denom ` set ps \<Longrightarrow> dec_price ps d = 0"
  by (induction ps) auto

lemma CeilInt_zero: "dec_laws D \<Longrightarrow> CeilInt D 0 = 0"
proof -
  assume "dec_laws D"
  then have "0 \<le> CeilInt D 0 * dec_one" "CeilInt D 0 * dec_one < dec_one"
    using dec_lawsD(4,5) [of D 0] by simp_all
  then show ?thesis by (simp add: dec_one_def)
qed

lemma requiredFees_loop_ok:
  assumes "dec_laws D" "coin_set_laws A" "requiredFees_loop D A (LegacyNewDec g) ps = Inr cs"
  shows "cs = map (\<lambda>p. \<lparr>Denom = dc_Denom p, Amount = CeilInt D (dc_Amount p * g)\<rparr>) ps \<and>
    (\<forall>c \<in> set cs. 0 \<le> Amount c)"
  using assms(3)
proof (induction ps arbitrary: cs)
  case (Cons p ps)
  from Cons.prems obtain c cs' where c: "NewCoin A (dc_Denom p) (CeilInt D (dc_Amount p * g)) = Inr c"
    "requiredFees_loop D A (LegacyNewDec g) ps = Inr cs'" "cs = c # cs'"
    by (auto simp: LegacyNewDec_def dec_lawsD(6) [OF assms(1)] split: sum.splits)
  then show ?case
    using Cons.IH [OF c(2)] coin_set_lawsD(6) [OF assms(2) c(1)] coin_set_lawsD(10) [OF assms(2) c(1)] by simp
qed simp

lemma required_amount:
  assumes "dec_laws D" "distinct (map dc_Denom ps)"
  shows "coins_amount (map (\<lambda>p. \<lparr>Denom = dc_Denom p, Amount = CeilInt D (dc_Amount p * g)\<rparr>) ps) d =
    CeilInt D (dec_price ps d * g)"
  using assms(2)
proof (induction ps)
  case (Cons p ps)
  have "dc_Denom p = d \<Longrightarrow> dec_price ps d = 0" using Cons.prems by (auto intro: dec_price_not_in)
  then show ?case using Cons CeilInt_zero [OF assms(1)] by auto
qed (simp add: CeilInt_zero [OF assms(1)])

lemma required_sorted:
  assumes "dec_laws D" "coin_set_laws A" "requiredFees_loop D A (LegacyNewDec g) ps = Inr cs"
    and "distinct (map dc_Denom ps)"
  shows "coin_wf (CoinsSort A cs)" and "sorted (map Denom (CoinsSort A cs))"
    and "Denom ` set (CoinsSort A cs) = dc_Denom ` set ps"
    and "coins_amount (CoinsSort A cs) d = CeilInt D (dec_price ps d * g)"
proof -
  note cs = requiredFees_loop_ok [OF assms(1-3)]
  have "coin_wf cs" using cs assms(4) by (simp add: coin_wf_def comp_def)
  then show "coin_wf (CoinsSort A cs)" "sorted (map Denom (CoinsSort A cs))"
    using coin_set_lawsD(7,9) [OF assms(2)] by auto
  show "Denom ` set (CoinsSort A cs) = dc_Denom ` set ps"
    unfolding coin_set_lawsD(1) [OF assms(2)] using cs by (simp add: image_image)
  show "coins_amount (CoinsSort A cs) d = CeilInt D (dec_price ps d * g)"
    unfolding coin_set_lawsD(2) [OF assms(2)] using cs required_amount [OF assms(1,4)] by simp
qed

lemma sint_small: "uint (gas :: u64) < 9223372036854775808 \<Longrightarrow> sint gas = uint gas"
proof -
  assume "uint gas < 9223372036854775808"
  then have "- (2 ^ 63) \<le> uint gas" "uint gas < 2 ^ 63" by (simp_all add: order_trans [OF _ uint_ge_0])
  from signed_take_bit_int_eq_self [OF this] show ?thesis by (simp add: sint_uint)
qed

lemma CeilInt_nonneg: "dec_laws D \<Longrightarrow> 0 \<le> x \<Longrightarrow> 0 \<le> CeilInt D x"
proof -
  assume D: "dec_laws D" and x: "0 \<le> x"
  then have "0 \<le> CeilInt D x * dec_one" using dec_lawsD(4) [OF D, of x] by simp
  then show ?thesis by (simp add: dec_one_def zero_le_mult_iff)
qed

lemma globalFee_facts:
  assumes "dec_laws D" "coin_set_laws A" "GFGetParams st = p" "MinimumGasPrices p \<noteq> []"
    and "distinct (map dc_Denom (MinimumGasPrices p))" "uint gas < 9223372036854775808"
    and "GetGlobalFee D A C k st gas = Inr G"
  shows "coin_wf G" and "sorted (map Denom G)" and "Denom ` set G = dc_Denom ` set (MinimumGasPrices p)"
    and "coins_amount G d = CeilInt D (dec_price (MinimumGasPrices p) d * uint gas)"
proof -
  obtain cs where cs: "requiredFees_loop D A (LegacyNewDec (uint gas)) (MinimumGasPrices p) = Inr cs" "G = CoinsSort A cs"
    using assms(3,4,7) by (auto simp: GetGlobalFee_def sint_small [OF assms(6)] split: sum.splits if_splits)
  show "coin_wf G" "sorted (map Denom G)" "Denom ` set G = dc_Denom ` set (MinimumGasPrices p)"
    "coins_amount G d = CeilInt D (dec_price (MinimumGasPrices p) d * uint gas)"
    using required_sorted [OF assms(1,2) cs(1) assms(5)] unfolding cs(2) by simp_all
qed

lemma minGasPrice_facts:
  assumes "dec_laws D" "coin_set_laws A" "dec_coin_laws C" "distinct (map dc_Denom lp)"
    and "GetMinGasPrice D A C lp gas = Inr L"
  shows "coin_wf L" and "sorted (map Denom L)" and "coins_amount L d = CeilInt D (dec_price lp d * uint gas)"
proof -
  have z: "DecCoinsIsZero C lp \<longleftrightarrow> (\<forall>c \<in> set lp. dc_Amount c = 0)"
    using assms(3) by (simp add: dec_coin_laws_def)
  have "(\<forall>c \<in> set lp. dc_Amount c = 0) \<Longrightarrow> dec_price lp d = 0" by (induction lp) auto
  then consider "L = []" "dec_price lp d = 0"
    | cs where "requiredFees_loop D A (LegacyNewDec (uint gas)) lp = Inr cs" "L = CoinsSort A cs"
    using assms(5) z by (auto simp: GetMinGasPrice_def split: sum.splits if_splits)
  then have "coin_wf L \<and> sorted (map Denom L) \<and> coins_amount L d = CeilInt D (dec_price lp d * uint gas)"
    by cases (use required_sorted [OF assms(1,2) _ assms(4)] CeilInt_zero [OF assms(1)] in \<open>auto simp: coin_wf_def\<close>)
  then show "coin_wf L" "sorted (map Denom L)" "coins_amount L d = CeilInt D (dec_price lp d * uint gas)" by auto
qed

text \<open>The fee one denomination asks for: the larger price times the gas, rounded up.\<close>

definition required_fee :: "dec_ops \<Rightarrow> DecCoins \<Rightarrow> DecCoins \<Rightarrow> u64 \<Rightarrow> string \<Rightarrow> int" where
  "required_fee D ps lp gas d = max (CeilInt D (dec_price ps d * uint gas)) (CeilInt D (dec_price lp d * uint gas))"

lemma check_steps:
  assumes "coin_set_laws A" "coin_wf R" "sorted (map Denom R)" "R \<noteq> []" "coin_wf F"
    and "\<forall>e \<in> set R. Amount e = req (Denom e)"
  shows "(\<not> (DenomsSubsetOf A (fst (splitCoinsByDenoms A F (snd (getNonZeroFees A R)))) (fst (getNonZeroFees A R))) \<or>
      \<not> bypass \<and> snd (splitCoinsByDenoms A F (snd (getNonZeroFees A R))) = [] \<and>
      \<not> (F = [] \<and> snd (getNonZeroFees A R) \<noteq> []) \<and>
      \<not> IsAnyGTE A (fst (splitCoinsByDenoms A F (snd (getNonZeroFees A R)))) (fst (getNonZeroFees A R))) \<longleftrightarrow>
    \<not> (Denom ` set F \<subseteq> Denom ` set R \<and>
      (bypass \<or> (\<exists>c \<in> set F. req (Denom c) \<le> Amount c) \<or> F = [] \<and> (\<exists>e \<in> set R. req (Denom e) = 0)))"
proof -
  let ?nz = "fst (getNonZeroFees A R)" and ?zd = "snd (getNonZeroFees A R)"
  let ?fn = "fst (splitCoinsByDenoms A F ?zd)" and ?fz = "snd (splitCoinsByDenoms A F ?zd)"
  note S = coin_set_lawsD(1) [OF assms(1)]
  have nz: "set ?nz = {e \<in> set R. req (Denom e) \<noteq> 0}" using assms(6) by (auto simp: getNonZeroFees_def S)
  have zd: "set ?zd = Denom ` {e \<in> set R. req (Denom e) = 0}" using assms(6) by (auto simp: getNonZeroFees_def)
  have fn: "set ?fn = {c \<in> set F. Denom c \<notin> set ?zd}" and fz: "set ?fz = {c \<in> set F. Denom c \<in> set ?zd}"
    by (auto simp: splitCoinsByDenoms_def S)
  have "coin_wf (filter P cs)" if "coin_wf cs" for P cs
    using that by (auto simp: coin_wf_def distinct_map_filter)
  then have wf: "coin_wf ?fn" "coin_wf ?nz"
    using coin_set_lawsD(7) [OF assms(1)] assms(2,5) by (simp_all add: splitCoinsByDenoms_def getNonZeroFees_def)
  have rs: "required_set ?nz"
    using wf(2) coin_set_lawsD(9) [OF assms(1)] nz assms(6)
    by (simp add: required_set_def) (simp add: getNonZeroFees_def)
  have pos: "\<And>c. c \<in> set F \<Longrightarrow> 0 \<le> Amount c" using assms(5) by (simp add: coin_wf_def)
  have sub: "DenomsSubsetOf A ?fn ?nz \<longleftrightarrow> Denom ` set F \<subseteq> Denom ` set R"
    unfolding coin_set_lawsD(11) [OF assms(1) wf(1) rs] fn nz zd by (auto simp: image_iff subset_iff)
  have fz0: "?fz = [] \<longleftrightarrow> (\<forall>c \<in> set F. Denom c \<in> Denom ` set R \<longrightarrow> req (Denom c) \<noteq> 0)"
    unfolding set_empty [symmetric] fz zd by (auto simp: image_iff)
  have any: "IsAnyGTE A ?fn ?nz \<longleftrightarrow>
      (\<exists>c \<in> set F. Denom c \<in> Denom ` set R \<and> req (Denom c) \<noteq> 0 \<and> req (Denom c) \<le> Amount c)"
    unfolding coin_set_lawsD(12) [OF assms(1) wf(1) rs] fn nz zd using assms(6) by (auto simp: image_iff) metis+
  have zd0: "?zd \<noteq> [] \<longleftrightarrow> (\<exists>e \<in> set R. req (Denom e) = 0)"
    using arg_cong [OF zd, of "\<lambda>s. s = {}"] by auto
  have pay: "Denom ` set F \<subseteq> Denom ` set R \<Longrightarrow> (\<exists>c \<in> set F. req (Denom c) \<le> Amount c) \<longleftrightarrow> ?fz \<noteq> [] \<or> IsAnyGTE A ?fn ?nz"
    unfolding fz0 any using pos by (metis image_subset_iff)
  show ?thesis unfolding sub zd0 using pay by argo
qed


definition gf_ex_params :: GFParams where
  "gf_ex_params = \<lparr>MinimumGasPrices = [\<lparr>dc_Denom = ''uterp'', dc_Amount = 75000000000000000\<rparr>]\<rparr>"

definition gf_ex_decorator :: fee_decorator where
  "gf_ex_decorator = \<lparr>BypassMinFeeMsgTypes = [], GlobalFeeKeeper = \<lparr>gf_authority = ''gov'', gf_BondDenom = (''uterp'', None)\<rparr>,
     MaxTotalBypassMinFeeMsgGasUsage = 0\<rparr>"

definition gf_ex_ctx :: check_ctx where
  "gf_ex_ctx = \<lparr>IsCheckTx = True, MinGasPrices = []\<rparr>"

definition gf_ex_tx :: "int \<Rightarrow> fee_tx" where
  "gf_ex_tx n = \<lparr>tx_Fee = [\<lparr>Denom = ''uterp'', Amount = n\<rparr>], tx_Gas = 1001, tx_MsgTypes = [''send'']\<rparr>"

lemma gf_ex_fees:
  "GetGlobalFee ref_dec ref_coins ref_dec_coins (GlobalFeeKeeper gf_ex_decorator) (Some gf_ex_params) 1001
     = Inr [\<lparr>Denom = ''uterp'', Amount = 76\<rparr>]"
  "GetMinGasPrice ref_dec ref_coins ref_dec_coins [] 1001 = Inr []"
  by code_simp+


lemma gf_ex_required:
  "required_fee ref_dec (MinimumGasPrices gf_ex_params) (MinGasPrices gf_ex_ctx) 1001 ''uterp'' = 76"
  by code_simp


end
