(* ===== verification/WasmAccess.thy ===== *)
theory WasmAccess
  imports Sdk
begin

text \<open>
  Access control of \<open>x/wasm\<close>: access configurations (\<open>types/params.go\<close>, \<open>types/types.go\<close>), the
  wasm parameters that hold them, and the authorization policies of the keeper
  (\<open>keeper/authz_policy.go\<close>).  The Go interface \<open>AuthorizationPolicy\<close> is a datatype with the three
  implementations as constructors; its methods dispatch on it.
\<close>

section \<open>Access configurations\<close>

abbreviation ErrEmpty :: error where "ErrEmpty \<equiv> Registered ''wasm'' 12"
abbreviation ErrLimit :: error where "ErrLimit \<equiv> Registered ''wasm'' 13"
abbreviation ErrInvalid :: error where "ErrInvalid \<equiv> Registered ''wasm'' 14"
abbreviation ErrDuplicate :: error where "ErrDuplicate \<equiv> Registered ''wasm'' 15"

text \<open>The enumeration is an \<open>int32\<close> on the wire: \<open>AccessTypeOther\<close> is a value without a name.\<close>

datatype AccessType =
    AccessTypeUnspecified
  | AccessTypeNobody
  | AccessTypeEverybody
  | AccessTypeAnyOfAddresses
  | AccessTypeOther int

record AccessConfig =
  Permission :: AccessType
  Addresses :: "string list"

definition AllowEverybody :: AccessConfig where
  "AllowEverybody = \<lparr>Permission = AccessTypeEverybody, Addresses = []\<rparr>"

definition AllowNobody :: AccessConfig where
  "AllowNobody = \<lparr>Permission = AccessTypeNobody, Addresses = []\<rparr>"

definition MaxAddressCount :: nat where "MaxAddressCount = 50"

text \<open>\<open>strings.ToUpper\<close> on the ASCII characters a decodable address consists of.\<close>

definition to_upper :: "char \<Rightarrow> char" where
  "to_upper c = (if CHR ''a'' \<le> c \<and> c \<le> CHR ''z'' then char_of (of_char c - 32 :: nat) else c)"

fun bech32_loop :: "'w sdk \<Rightarrow> string list \<Rightarrow> string list \<Rightarrow> unit res" where
  "bech32_loop S index [] = Inr ()"
| "bech32_loop S index (addr # addrs) =
     (case AccAddressFromBech32 S addr of
        Inl e \<Rightarrow> Inl e
      | Inr _ \<Rightarrow>
          if map to_upper addr \<in> set index then Inl ErrDuplicate
          else bech32_loop S (map to_upper addr # index) addrs)"

definition validateBech32Addresses :: "'w sdk \<Rightarrow> string list \<Rightarrow> unit res" where
  "validateBech32Addresses S addresses =
     (if addresses = [] then Inl ErrEmpty
      else if MaxAddressCount < length addresses then Inl ErrInvalidRequest
      else bech32_loop S [] addresses)"

definition AccessType_With :: "'w sdk \<Rightarrow> AccessType \<Rightarrow> string list \<Rightarrow> AccessConfig res" where
  "AccessType_With S a addrs =
     (case a of
        AccessTypeNobody \<Rightarrow> Inr AllowNobody
      | AccessTypeEverybody \<Rightarrow> Inr AllowEverybody
      | AccessTypeAnyOfAddresses \<Rightarrow>
          let bech32Addrs = map (AccAddressString S) addrs in
          (case validateBech32Addresses S bech32Addrs of
             Inl e \<Rightarrow> Inl (Panicked ''addresses'')
           | Inr _ \<Rightarrow> Inr \<lparr>Permission = AccessTypeAnyOfAddresses, Addresses = bech32Addrs\<rparr>)
      | _ \<Rightarrow> Inl (Panicked ''unsupported access type''))"

primrec AccessType_String :: "AccessType \<Rightarrow> string" where
  "AccessType_String AccessTypeNobody = ''Nobody''"
| "AccessType_String AccessTypeEverybody = ''Everybody''"
| "AccessType_String AccessTypeAnyOfAddresses = ''AnyOfAddresses''"
| "AccessType_String AccessTypeUnspecified = ''Unspecified''"
| "AccessType_String (AccessTypeOther n) = ''Unspecified''"

definition AllAccessTypes :: "AccessType list" where
  "AllAccessTypes = [AccessTypeNobody, AccessTypeAnyOfAddresses, AccessTypeEverybody]"

definition AccessType_UnmarshalText :: "string \<Rightarrow> AccessType" where
  "AccessType_UnmarshalText text =
     (case find (\<lambda>v. AccessType_String v = text) AllAccessTypes of
        Some v \<Rightarrow> v
      | None \<Rightarrow> AccessTypeUnspecified)"

definition AccessConfig_Equals :: "AccessConfig \<Rightarrow> AccessConfig \<Rightarrow> bool" where
  "AccessConfig_Equals a b = (Permission a = Permission b)"

definition validateAccessType :: "AccessType \<Rightarrow> unit res" where
  "validateAccessType a =
     (if a = AccessTypeUnspecified then Inl ErrEmpty
      else if a \<in> set AllAccessTypes then Inr ()
      else Inl ErrInvalid)"

definition AccessConfig_ValidateBasic :: "'w sdk \<Rightarrow> AccessConfig \<Rightarrow> unit res" where
  "AccessConfig_ValidateBasic S a =
     (case Permission a of
        AccessTypeUnspecified \<Rightarrow> Inl ErrEmpty
      | AccessTypeNobody \<Rightarrow> Inr ()
      | AccessTypeEverybody \<Rightarrow> Inr ()
      | AccessTypeAnyOfAddresses \<Rightarrow> validateBech32Addresses S (Addresses a)
      | AccessTypeOther _ \<Rightarrow> Inl ErrInvalid)"

definition Allowed :: "'w sdk \<Rightarrow> AccessConfig \<Rightarrow> string \<Rightarrow> bool res" where
  "Allowed S a actor =
     (case Permission a of
        AccessTypeNobody \<Rightarrow> Inr False
      | AccessTypeEverybody \<Rightarrow> Inr True
      | AccessTypeAnyOfAddresses \<Rightarrow> Inr (AccAddressString S actor \<in> set (Addresses a))
      | _ \<Rightarrow> Inl (Panicked ''unknown type''))"

definition AccessType_IsSubset :: "AccessType \<Rightarrow> AccessType \<Rightarrow> bool" where
  "AccessType_IsSubset a superSet =
     (case superSet of
        AccessTypeEverybody \<Rightarrow> a \<noteq> AccessTypeUnspecified
      | AccessTypeNobody \<Rightarrow> a = AccessTypeNobody
      | AccessTypeAnyOfAddresses \<Rightarrow> a = AccessTypeNobody \<or> a = AccessTypeAnyOfAddresses
      | _ \<Rightarrow> False)"

text \<open>The loop counts the members of \<open>sub\<close> that occur in \<open>super\<close>.\<close>

definition isSubset :: "string list \<Rightarrow> string list \<Rightarrow> bool" where
  "isSubset super sub =
     (if sub = [] then True
      else foldl (\<lambda>matches v. if v \<in> set super then matches + 1 else matches) 0 sub = length sub)"

definition IsSubset :: "AccessConfig \<Rightarrow> AccessConfig \<Rightarrow> bool" where
  "IsSubset a superSet =
     (case Permission superSet of
        AccessTypeAnyOfAddresses \<Rightarrow>
          Permission a = AccessTypeNobody \<or>
          Permission a = AccessTypeAnyOfAddresses \<and> isSubset (Addresses superSet) (Addresses a)
      | AccessTypeUnspecified \<Rightarrow> False
      | _ \<Rightarrow> AccessType_IsSubset (Permission a) (Permission superSet))"

definition AllAuthorizedAddresses :: "AccessConfig \<Rightarrow> string list" where
  "AllAuthorizedAddresses a = (if Permission a = AccessTypeAnyOfAddresses then Addresses a else [])"

section \<open>Parameters\<close>

record WasmParams =
  CodeUploadAccess :: AccessConfig
  InstantiateDefaultPermission :: AccessType
  CircuitUploadAccess :: AccessConfig
  CircuitDevDestination :: string

definition WasmDefaultParams :: WasmParams where
  "WasmDefaultParams =
     \<lparr>CodeUploadAccess = AllowEverybody, InstantiateDefaultPermission = AccessTypeEverybody,
      CircuitUploadAccess = AllowEverybody, CircuitDevDestination = []\<rparr>"

definition WasmParams_ValidateBasic :: "'w sdk \<Rightarrow> WasmParams \<Rightarrow> unit res" where
  "WasmParams_ValidateBasic S p =
     (case validateAccessType (InstantiateDefaultPermission p) of
        Inl e \<Rightarrow> Inl e
      | Inr _ \<Rightarrow>
     (case AccessConfig_ValidateBasic S (CircuitUploadAccess p) of
        Inl e \<Rightarrow> Inl e
      | Inr _ \<Rightarrow>
     (case AccessConfig_ValidateBasic S (CodeUploadAccess p) of
        Inl e \<Rightarrow> Inl e
      | Inr _ \<Rightarrow>
          if CircuitDevDestination p \<noteq> []
          then (case AccAddressFromBech32 S (CircuitDevDestination p) of Inl e \<Rightarrow> Inl e | Inr _ \<Rightarrow> Inr ())
          else Inr ())))"

section \<open>Authorization policies\<close>

datatype AuthorizationPolicyAction = AuthZActionInstantiate | AuthZActionMigrateContract | AuthZActionOther u64

record ChainAccessConfigs =
  Upload :: AccessConfig
  Instantiate :: AccessConfig

datatype AuthorizationPolicy =
    DefaultAuthorizationPolicy
  | GovAuthorizationPolicy "AuthorizationPolicyAction list"
  | PartialGovAuthorizationPolicy AuthorizationPolicyAction AuthorizationPolicy

text \<open>A nil address is \<open>None\<close>.\<close>

primrec CanCreateCode ::
  "'w sdk \<Rightarrow> AuthorizationPolicy \<Rightarrow> ChainAccessConfigs \<Rightarrow> string \<Rightarrow> AccessConfig \<Rightarrow> bool res" where
  "CanCreateCode S DefaultAuthorizationPolicy chainConfigs actor contractConfig =
     (case Allowed S (Upload chainConfigs) actor of
        Inl e \<Rightarrow> Inl e
      | Inr b \<Rightarrow> Inr (b \<and> IsSubset contractConfig (Instantiate chainConfigs)))"
| "CanCreateCode S (GovAuthorizationPolicy propagate) chainConfigs actor contractConfig = Inr True"
| "CanCreateCode S (PartialGovAuthorizationPolicy action defaultPolicy) chainConfigs actor contractConfig =
     CanCreateCode S defaultPolicy chainConfigs actor contractConfig"

primrec CanInstantiateContract :: "'w sdk \<Rightarrow> AuthorizationPolicy \<Rightarrow> AccessConfig \<Rightarrow> string \<Rightarrow> bool res" where
  "CanInstantiateContract S DefaultAuthorizationPolicy config actor = Allowed S config actor"
| "CanInstantiateContract S (GovAuthorizationPolicy propagate) config actor = Inr True"
| "CanInstantiateContract S (PartialGovAuthorizationPolicy action defaultPolicy) config actor =
     (if action = AuthZActionInstantiate then Inr True
      else CanInstantiateContract S defaultPolicy config actor)"

primrec CanModifyContract :: "AuthorizationPolicy \<Rightarrow> string option \<Rightarrow> string \<Rightarrow> bool" where
  "CanModifyContract DefaultAuthorizationPolicy admin actor = (admin = Some actor)"
| "CanModifyContract (GovAuthorizationPolicy propagate) admin actor = True"
| "CanModifyContract (PartialGovAuthorizationPolicy action defaultPolicy) admin actor =
     (if action = AuthZActionMigrateContract then True else CanModifyContract defaultPolicy admin actor)"

primrec CanModifyCodeAccessConfig :: "AuthorizationPolicy \<Rightarrow> string option \<Rightarrow> string \<Rightarrow> bool \<Rightarrow> bool" where
  "CanModifyCodeAccessConfig DefaultAuthorizationPolicy creator actor isSub = (creator = Some actor \<and> isSub)"
| "CanModifyCodeAccessConfig (GovAuthorizationPolicy propagate) creator actor isSub = True"
| "CanModifyCodeAccessConfig (PartialGovAuthorizationPolicy action defaultPolicy) creator actor isSub =
     CanModifyCodeAccessConfig defaultPolicy creator actor isSub"

definition NewPartialGovAuthorizationPolicy ::
  "AuthorizationPolicy \<Rightarrow> AuthorizationPolicyAction \<Rightarrow> AuthorizationPolicy" where
  "NewPartialGovAuthorizationPolicy defaultPolicy entrypoint = PartialGovAuthorizationPolicy entrypoint defaultPolicy"

fun SubMessageAuthorizationPolicy :: "AuthorizationPolicy \<Rightarrow> AuthorizationPolicyAction \<Rightarrow> AuthorizationPolicy" where
  "SubMessageAuthorizationPolicy DefaultAuthorizationPolicy action = DefaultAuthorizationPolicy"
| "SubMessageAuthorizationPolicy (GovAuthorizationPolicy propagate) action =
     (if propagate \<noteq> [] \<and> action \<in> set propagate
      then NewPartialGovAuthorizationPolicy DefaultAuthorizationPolicy action
      else DefaultAuthorizationPolicy)"
| "SubMessageAuthorizationPolicy (PartialGovAuthorizationPolicy a p) action = PartialGovAuthorizationPolicy a p"

section \<open>Subsets\<close>

lemma isSubset_iff: "isSubset super sub \<longleftrightarrow> set sub \<subseteq> set super"
proof -
  have "foldl (\<lambda>m v. if v \<in> set super then m + 1 else m) n xs = n + length (filter (\<lambda>v. v \<in> set super) xs)"
    for n :: nat and xs by (induction xs arbitrary: n) auto
  then have "isSubset super sub \<longleftrightarrow> length (filter (\<lambda>v. v \<in> set super) sub) = length sub"
    by (simp add: isSubset_def)
  also have "\<dots> \<longleftrightarrow> set sub \<subseteq> set super"
    by (metis filter_True length_filter_less less_irrefl subset_code(1))
  finally show ?thesis .
qed

lemma validateBech32_nonempty: "validateBech32Addresses S as = Inr () \<Longrightarrow> as \<noteq> []"
  by (auto simp: validateBech32Addresses_def)

text \<open>
  For two valid configurations, with canonical addresses and some address outside of the
  list of the larger one, \<open>IsSubset\<close> decides whether everyone the first allows is allowed by the second.
\<close>

theorem wasm_subset_iff:
  assumes "AccessConfig_ValidateBasic S a = Inr ()" "AccessConfig_ValidateBasic S s = Inr ()"
    and "\<forall>x \<in> set (Addresses a). \<exists>b. AccAddressString S b = x"
    and "AccAddressString S other \<notin> set (Addresses s)"
  shows "IsSubset a s \<longleftrightarrow> (\<forall>actor. Allowed S a actor = Inr True \<longrightarrow> Allowed S s actor = Inr True)"
proof -
  have ne: "Permission a = AccessTypeAnyOfAddresses \<Longrightarrow> Addresses a \<noteq> []"
    using assms(1) by (simp add: AccessConfig_ValidateBasic_def validateBech32_nonempty)
  have some: "Addresses a \<noteq> [] \<Longrightarrow> \<exists>b. AccAddressString S b \<in> set (Addresses a)"
    using assms(3) by (metis list.set_intros(1) list.exhaust)
  have inc: "set (Addresses a) \<subseteq> X \<longleftrightarrow> (\<forall>b. AccAddressString S b \<in> set (Addresses a) \<longrightarrow> AccAddressString S b \<in> X)" for X
    using assms(3) by (metis subset_eq)
  show ?thesis
    using assms(1,2,4) ne some
    by (cases "Permission a"; cases "Permission s")
      (auto simp: IsSubset_def AccessType_IsSubset_def Allowed_def AccessConfig_ValidateBasic_def isSubset_iff inc)
qed

theorem wasm_subset_iff_witness:
  "IsSubset \<lparr>Permission = AccessTypeAnyOfAddresses, Addresses = [''terp1a'']\<rparr>
     \<lparr>Permission = AccessTypeAnyOfAddresses, Addresses = [''terp1b'', ''terp1a'']\<rparr>"
  by (subst wasm_subset_iff [of ledger_sdk _ _ "''terp1c''"])
    (auto simp: AccessConfig_ValidateBasic_def validateBech32Addresses_def MaxAddressCount_def ledger_sdk_def
      addr_char_def less_eq_char_def to_upper_def Allowed_def)

section \<open>Policies only get weaker\<close>

text \<open>
  The contract of a policy that is handed down to the messages a contract emits: the policy
  for a sub-message grants nothing its origin does not grant.
\<close>

locale attenuating =
  fixes sub :: "'p \<Rightarrow> 'a \<Rightarrow> 'p" and grants :: "'p \<Rightarrow> 'q \<Rightarrow> bool"
  assumes weaker: "grants (sub p a) q \<Longrightarrow> grants p q"
begin

lemma chain_weaker: "grants (foldl sub p as) q \<Longrightarrow> grants p q"
  by (induction as arbitrary: p) (auto dest: weaker)

end

datatype policy_request =
    CreateCode ChainAccessConfigs string AccessConfig
  | InstantiateContract AccessConfig string
  | ModifyContract "string option" string
  | ModifyCodeAccess "string option" string bool

primrec policy_grants :: "'w sdk \<Rightarrow> AuthorizationPolicy \<Rightarrow> policy_request \<Rightarrow> bool" where
  "policy_grants S p (CreateCode cc actor c) = (CanCreateCode S p cc actor c = Inr True)"
| "policy_grants S p (InstantiateContract c actor) = (CanInstantiateContract S p c actor = Inr True)"
| "policy_grants S p (ModifyContract admin actor) = CanModifyContract p admin actor"
| "policy_grants S p (ModifyCodeAccess creator actor isSub) = CanModifyCodeAccessConfig p creator actor isSub"

interpretation policy: attenuating SubMessageAuthorizationPolicy "policy_grants S" for S :: "'w sdk"
proof
  fix p a q
  assume "policy_grants S (SubMessageAuthorizationPolicy p a) q"
  then show "policy_grants S p q" by (cases p; cases q) auto
qed



text \<open>
  A message that governance sends keeps, for the messages its contract emits, only the one
  privilege that is propagated for its action: besides what everyone may do, contracts may be
  instantiated when the action is an instantiation, and modified when it is a migration.
\<close>

theorem wasm_gov_submessage_iff:
  "policy_grants S (SubMessageAuthorizationPolicy (GovAuthorizationPolicy propagate) action) q \<longleftrightarrow>
     policy_grants S DefaultAuthorizationPolicy q \<or>
     action \<in> set propagate \<and>
       (case q of InstantiateContract c actor \<Rightarrow> action = AuthZActionInstantiate
        | ModifyContract admin actor \<Rightarrow> action = AuthZActionMigrateContract
        | _ \<Rightarrow> False)"
  by (cases q) (auto simp: NewPartialGovAuthorizationPolicy_def)

end
