(* ===== verification/WasmMsgs.thy ===== *)
theory WasmMsgs
  imports WasmAccess
begin

text \<open>
  The stateless checks of \<open>x/wasm\<close>: \<open>types/validation.go\<close> and the \<open>ValidateBasic\<close> method of every
  message of \<open>types/tx.go\<close>.  The functions of the Go standard library that rest on the Unicode
  tables or on a JSON decoder are the fields of \<open>text_ops\<close>; no law about them is assumed.
\<close>

record text_ops =
  JsonValid :: "string \<Rightarrow> bool"
  JsonTopLevelKeys :: "string \<Rightarrow> string list option"
  TrimSpace :: "string \<Rightarrow> string"
  PrintableOnly :: "string \<Rightarrow> string"
  ToLower :: "string \<Rightarrow> string"
  SameFold :: "nat \<Rightarrow> nat \<Rightarrow> bool"
  ParseRequestURI :: "string \<Rightarrow> unit res"
  ParseDockerRef :: "string \<Rightarrow> unit res"

section \<open>Validation helpers\<close>

definition MaxSaltSize :: nat where "MaxSaltSize = 64"
definition MaxLabelSize :: nat where "MaxLabelSize = 128"
definition MaxWasmSize :: int where "MaxWasmSize = 800 * 1024 * 2"
definition maxCodeIDCount :: nat where "maxCodeIDCount = 50"

text \<open>\<open>strconv.ParseInt(s, 10, 64)\<close>: an optional sign, decimal digits, no overflow.\<close>

definition digit :: "char \<Rightarrow> int" where
  "digit c = int (of_char c) - 48"

definition parse_int64 :: "string \<Rightarrow> int option" where
  "parse_int64 s =
     (let (neg, ds) = (case s of c # cs \<Rightarrow> if c = CHR ''-'' then (True, cs) else if c = CHR ''+'' then (False, cs) else (False, s)
                      | [] \<Rightarrow> (False, [])) in
      if ds = [] \<or> \<not> list_all (\<lambda>c. 0 \<le> digit c \<and> digit c \<le> 9) ds then None
      else let v = foldl (\<lambda>a c. 10 * a + digit c) 0 ds; r = (if neg then - v else v) in
           if - (2 ^ 63) \<le> r \<and> r < 2 ^ 63 then Some r else None)"

text \<open>The circuit size limit of a process whose environment has the given variable.\<close>

definition MaxCircuitSize :: "string \<Rightarrow> int" where
  "MaxCircuitSize env =
     (case (if env \<noteq> [] then parse_int64 env else None) of
        Some val \<Rightarrow> if 0 < val then val else 32 * 1024 * 1024
      | None \<Rightarrow> 32 * 1024 * 1024)"

definition validateWasmCode :: "string \<Rightarrow> int \<Rightarrow> unit res" where
  "validateWasmCode s maxSize =
     (if s = [] then Inl ErrEmpty else if maxSize < int (length s) then Inl ErrLimit else Inr ())"

definition validateCircuitCode :: "string \<Rightarrow> int \<Rightarrow> unit res" where
  "validateCircuitCode s maxSize =
     (if s = [] then Inl ErrEmpty
      else if maxSize < int (length s) then Inl ErrLimit
      else if length s < 10 then Inl ErrLimit
      else Inr ())"

definition ValidateLabel :: "text_ops \<Rightarrow> string \<Rightarrow> unit res" where
  "ValidateLabel J label =
     (if label = [] then Inl ErrEmpty
      else if MaxLabelSize < length label then Inl ErrLimit
      else if label \<noteq> TrimSpace J label then Inl ErrInvalid
      else if label \<noteq> PrintableOnly J label then Inl ErrInvalid
      else Inr ())"

definition ValidateSalt :: "string \<Rightarrow> unit res" where
  "ValidateSalt salt =
     (if salt = [] then Inl ErrEmpty else if MaxSaltSize < length salt then Inl ErrLimit else Inr ())"

text \<open>A nil hash and an empty one are told apart only by the last check.\<close>

definition ValidateVerificationInfo :: "text_ops \<Rightarrow> string \<Rightarrow> string \<Rightarrow> string option \<Rightarrow> unit res" where
  "ValidateVerificationInfo J source builder codeHash =
     (if source \<noteq> [] \<or> builder \<noteq> [] \<or> (case codeHash of None \<Rightarrow> False | Some h \<Rightarrow> h \<noteq> []) then
        first_error [check (Plain ''source is required'') (source \<noteq> []),
          ParseRequestURI J source,
          check (Plain ''builder is required'') (builder \<noteq> []),
          ParseDockerRef J builder,
          check (Plain ''code hash is required'') (codeHash \<noteq> None)]
      else Inr ())"

fun hasDuplicates_loop :: "'a list \<Rightarrow> 'a list \<Rightarrow> bool" where
  "hasDuplicates_loop index [] = False"
| "hasDuplicates_loop index (v # vs) = (if v \<in> set index then True else hasDuplicates_loop (v # index) vs)"

definition hasDuplicates :: "'a list \<Rightarrow> bool" where
  "hasDuplicates s = hasDuplicates_loop [] s"

definition validateCodeIDs :: "u64 list \<Rightarrow> unit res" where
  "validateCodeIDs codeIDs =
     (if codeIDs = [] then Inl ErrInvalidRequest
      else if maxCodeIDCount < length codeIDs then Inl ErrInvalidRequest
      else if hasDuplicates codeIDs then Inl ErrInvalidRequest
      else Inr ())"

section \<open>Raw contract messages\<close>

text \<open>A byte slice that may be nil; \<open>json.Valid\<close> reads nil as the empty slice.\<close>

type_synonym RawContractMessage = "string option"

definition raw_bytes :: "RawContractMessage \<Rightarrow> string" where
  "raw_bytes r = (case r of None \<Rightarrow> [] | Some b \<Rightarrow> b)"

definition RawContractMessage_ValidateBasic :: "text_ops \<Rightarrow> RawContractMessage \<Rightarrow> unit res" where
  "RawContractMessage_ValidateBasic J r = (if \<not> JsonValid J (raw_bytes r) then Inl ErrInvalid else Inr ())"

definition RawContractMessage_Equal :: "RawContractMessage \<Rightarrow> RawContractMessage \<Rightarrow> bool" where
  "RawContractMessage_Equal r r' = (raw_bytes r = raw_bytes r')"

definition isJSONObjectWithTopLevelKey :: "text_ops \<Rightarrow> RawContractMessage \<Rightarrow> string list \<Rightarrow> bool res" where
  "isJSONObjectWithTopLevelKey J jsonBytes allowedKeys =
     (case RawContractMessage_ValidateBasic J jsonBytes of
        Inl e \<Rightarrow> Inl e
      | Inr _ \<Rightarrow>
          (case JsonTopLevelKeys J (raw_bytes jsonBytes) of
             None \<Rightarrow> Inr False
           | Some document \<Rightarrow>
               (case remdups document of
                  [topLevelKey] \<Rightarrow> Inr (topLevelKey \<in> set allowedKeys)
                | _ \<Rightarrow> Inr False)))"

section \<open>Messages\<close>

definition valid_addr :: "'w sdk \<Rightarrow> string \<Rightarrow> unit res" where
  "valid_addr S a = no_value (AccAddressFromBech32 S a)"

definition opt_addr :: "'w sdk \<Rightarrow> string \<Rightarrow> unit res" where
  "opt_addr S a = (if a \<noteq> [] then valid_addr S a else Inr ())"

definition opt_permission :: "'w sdk \<Rightarrow> AccessConfig option \<Rightarrow> unit res" where
  "opt_permission S p = (case p of None \<Rightarrow> Inr () | Some c \<Rightarrow> AccessConfig_ValidateBasic S c)"

record MsgStoreCode =
  sc_Sender :: string
  sc_WASMByteCode :: string
  sc_InstantiatePermission :: "AccessConfig option"

definition MsgStoreCode_ValidateBasic :: "'w sdk \<Rightarrow> MsgStoreCode \<Rightarrow> unit res" where
  "MsgStoreCode_ValidateBasic S msg =
     first_error [valid_addr S (sc_Sender msg),
       as_error ErrInvalidRequest (validateWasmCode (sc_WASMByteCode msg) MaxWasmSize),
       opt_permission S (sc_InstantiatePermission msg)]"

record MsgStoreCircuit =
  cir_Sender :: string
  CircuitParamKey :: u64
  CircuitBinaryFile :: string
  cir_InstantiatePermission :: "AccessConfig option"

definition MsgStoreCircuit_ValidateBasic :: "'w sdk \<Rightarrow> string \<Rightarrow> MsgStoreCircuit \<Rightarrow> unit res" where
  "MsgStoreCircuit_ValidateBasic S env msg =
     first_error [valid_addr S (cir_Sender msg),
       check ErrInvalidRequest (CircuitParamKey msg \<noteq> 0),
       as_error ErrInvalidRequest (validateCircuitCode (CircuitBinaryFile msg) (MaxCircuitSize env)),
       opt_permission S (cir_InstantiatePermission msg)]"

text \<open>The parameter authorization is a pointer; its field \<open>K\<close> is read only behind the nil check.\<close>

record MsgStoreVkParam =
  vkp_Sender :: string
  vkp_K :: "u64 option"
  CsParam :: string

definition MsgStoreVkParam_ValidateBasic :: "'w sdk \<Rightarrow> string \<Rightarrow> MsgStoreVkParam \<Rightarrow> unit res" where
  "MsgStoreVkParam_ValidateBasic S env msg =
     first_error [valid_addr S (vkp_Sender msg),
       check ErrInvalidRequest (vkp_K msg \<noteq> None),
       check ErrInvalidRequest (vkp_K msg \<noteq> Some 0),
       as_error ErrInvalidRequest (validateCircuitCode (CsParam msg) (MaxCircuitSize env))]"

record MsgStoreFullCircuit =
  fc_Sender :: string
  fc_K :: "u64 option"
  CircuitParamBinaryFile :: string
  CircuitVkBinaryFile :: string

definition MsgStoreFullCircuit_ValidateBasic :: "'w sdk \<Rightarrow> string \<Rightarrow> MsgStoreFullCircuit \<Rightarrow> unit res" where
  "MsgStoreFullCircuit_ValidateBasic S env msg =
     first_error [valid_addr S (fc_Sender msg),
       check ErrInvalidRequest (fc_K msg \<noteq> None),
       check ErrInvalidRequest (fc_K msg \<noteq> Some 0),
       as_error ErrInvalidRequest (validateCircuitCode (CircuitParamBinaryFile msg) (MaxCircuitSize env)),
       as_error ErrInvalidRequest (validateCircuitCode (CircuitVkBinaryFile msg) (MaxCircuitSize env))]"

record MsgInstantiateContract =
  ic_Sender :: string
  ic_Admin :: string
  ic_CodeID :: u64
  ic_Label :: string
  ic_Msg :: RawContractMessage
  ic_Funds :: Coins

definition MsgInstantiateContract_ValidateBasic :: "'w sdk \<Rightarrow> text_ops \<Rightarrow> MsgInstantiateContract \<Rightarrow> unit res" where
  "MsgInstantiateContract_ValidateBasic S J msg =
     first_error [valid_addr S (ic_Sender msg),
       check ErrInvalidRequest (ic_CodeID msg \<noteq> 0),
       ValidateLabel J (ic_Label msg),
       CoinsValidate S (ic_Funds msg),
       opt_addr S (ic_Admin msg),
       RawContractMessage_ValidateBasic J (ic_Msg msg)]"

text \<open>The second form of the message adds a salt.\<close>

definition MsgInstantiateContract2_ValidateBasic ::
  "'w sdk \<Rightarrow> text_ops \<Rightarrow> MsgInstantiateContract \<Rightarrow> string \<Rightarrow> unit res" where
  "MsgInstantiateContract2_ValidateBasic S J msg salt =
     first_error [valid_addr S (ic_Sender msg),
       check ErrInvalidRequest (ic_CodeID msg \<noteq> 0),
       ValidateLabel J (ic_Label msg),
       CoinsValidate S (ic_Funds msg),
       opt_addr S (ic_Admin msg),
       RawContractMessage_ValidateBasic J (ic_Msg msg),
       ValidateSalt salt]"

record MsgExecuteContract =
  ec_Sender :: string
  ec_Contract :: string
  ec_Msg :: RawContractMessage
  ec_Funds :: Coins

definition MsgExecuteContract_ValidateBasic :: "'w sdk \<Rightarrow> text_ops \<Rightarrow> MsgExecuteContract \<Rightarrow> unit res" where
  "MsgExecuteContract_ValidateBasic S J msg =
     first_error [valid_addr S (ec_Sender msg),
       valid_addr S (ec_Contract msg),
       CoinsValidate S (ec_Funds msg),
       RawContractMessage_ValidateBasic J (ec_Msg msg)]"

record MsgMigrateContract =
  mc_Sender :: string
  mc_Contract :: string
  mc_CodeID :: u64
  mc_Msg :: RawContractMessage

definition MsgMigrateContract_ValidateBasic :: "'w sdk \<Rightarrow> text_ops \<Rightarrow> MsgMigrateContract \<Rightarrow> unit res" where
  "MsgMigrateContract_ValidateBasic S J msg =
     first_error [check ErrInvalidRequest (mc_CodeID msg \<noteq> 0),
       valid_addr S (mc_Sender msg),
       valid_addr S (mc_Contract msg),
       RawContractMessage_ValidateBasic J (mc_Msg msg)]"

text \<open>
  \<open>strings.EqualFold\<close> of two decodable, hence ASCII, addresses compares them up to case; the
  comparison comes after the address checks.
\<close>

definition MsgUpdateAdmin_ValidateBasic :: "'w sdk \<Rightarrow> string \<Rightarrow> string \<Rightarrow> string \<Rightarrow> unit res" where
  "MsgUpdateAdmin_ValidateBasic S sender contract newAdmin =
     first_error [valid_addr S sender, valid_addr S contract, valid_addr S newAdmin,
       check ErrInvalid (map to_upper sender \<noteq> map to_upper newAdmin)]"

definition MsgClearAdmin_ValidateBasic :: "'w sdk \<Rightarrow> string \<Rightarrow> string \<Rightarrow> unit res" where
  "MsgClearAdmin_ValidateBasic S sender contract = first_error [valid_addr S sender, valid_addr S contract]"

definition MsgUpdateInstantiateConfig_ValidateBasic ::
  "'w sdk \<Rightarrow> string \<Rightarrow> u64 \<Rightarrow> AccessConfig option \<Rightarrow> unit res" where
  "MsgUpdateInstantiateConfig_ValidateBasic S sender codeID newPermission =
     first_error [valid_addr S sender,
       check ErrInvalidRequest (codeID \<noteq> 0),
       check ErrInvalidRequest (newPermission \<noteq> None),
       opt_permission S newPermission]"

definition WasmMsgUpdateParams_ValidateBasic :: "'w sdk \<Rightarrow> string \<Rightarrow> WasmParams \<Rightarrow> unit res" where
  "WasmMsgUpdateParams_ValidateBasic S authority params =
     first_error [valid_addr S authority, WasmParams_ValidateBasic S params]"

text \<open>Pin and unpin, of codes and of circuits, check alike.\<close>

definition MsgPinCodes_ValidateBasic :: "'w sdk \<Rightarrow> string \<Rightarrow> u64 list \<Rightarrow> unit res" where
  "MsgPinCodes_ValidateBasic S authority codeIDs = first_error [valid_addr S authority, validateCodeIDs codeIDs]"

definition MsgPinCircuits_ValidateBasic :: "'w sdk \<Rightarrow> string \<Rightarrow> u64 list \<Rightarrow> unit res" where
  "MsgPinCircuits_ValidateBasic S authority zkIDs = first_error [valid_addr S authority, validateCodeIDs zkIDs]"

definition MsgUnpinCodes_ValidateBasic :: "'w sdk \<Rightarrow> string \<Rightarrow> u64 list \<Rightarrow> unit res" where
  "MsgUnpinCodes_ValidateBasic S authority codeIDs = first_error [valid_addr S authority, validateCodeIDs codeIDs]"

definition MsgUnpinCircuits_ValidateBasic :: "'w sdk \<Rightarrow> string \<Rightarrow> u64 list \<Rightarrow> unit res" where
  "MsgUnpinCircuits_ValidateBasic S authority zkIDs = first_error [valid_addr S authority, validateCodeIDs zkIDs]"

definition MsgSudoContract_ValidateBasic :: "'w sdk \<Rightarrow> text_ops \<Rightarrow> string \<Rightarrow> string \<Rightarrow> RawContractMessage \<Rightarrow> unit res" where
  "MsgSudoContract_ValidateBasic S J authority contract msg =
     first_error [valid_addr S authority, valid_addr S contract, RawContractMessage_ValidateBasic J msg]"

record MsgStoreAndInstantiateContract =
  si_Authority :: string
  si_WASMByteCode :: string
  si_InstantiatePermission :: "AccessConfig option"
  si_Admin :: string
  si_Label :: string
  si_Msg :: RawContractMessage
  si_Funds :: Coins
  si_Source :: string
  si_Builder :: string
  si_CodeHash :: "string option"

definition MsgStoreAndInstantiateContract_ValidateBasic ::
  "'w sdk \<Rightarrow> text_ops \<Rightarrow> MsgStoreAndInstantiateContract \<Rightarrow> unit res" where
  "MsgStoreAndInstantiateContract_ValidateBasic S J msg =
     first_error [valid_addr S (si_Authority msg),
       ValidateLabel J (si_Label msg),
       CoinsValidate S (si_Funds msg),
       opt_addr S (si_Admin msg),
       ValidateVerificationInfo J (si_Source msg) (si_Builder msg) (si_CodeHash msg),
       RawContractMessage_ValidateBasic J (si_Msg msg),
       as_error ErrInvalidRequest (validateWasmCode (si_WASMByteCode msg) MaxWasmSize),
       opt_permission S (si_InstantiatePermission msg)]"

definition MsgAddCodeUploadParamsAddresses_ValidateBasic :: "'w sdk \<Rightarrow> string \<Rightarrow> string list \<Rightarrow> unit res" where
  "MsgAddCodeUploadParamsAddresses_ValidateBasic S authority addresses =
     first_error [valid_addr S authority, validateBech32Addresses S addresses]"

definition MsgRemoveCodeUploadParamsAddresses_ValidateBasic :: "'w sdk \<Rightarrow> string \<Rightarrow> string list \<Rightarrow> unit res" where
  "MsgRemoveCodeUploadParamsAddresses_ValidateBasic S authority addresses =
     first_error [valid_addr S authority, validateBech32Addresses S addresses]"

definition MsgAddCircuitUploadParamsAddresses_ValidateBasic :: "'w sdk \<Rightarrow> string \<Rightarrow> string list \<Rightarrow> unit res" where
  "MsgAddCircuitUploadParamsAddresses_ValidateBasic S authority addresses =
     first_error [valid_addr S authority, validateBech32Addresses S addresses]"

definition MsgRemoveCircuitUploadParamsAddresses_ValidateBasic :: "'w sdk \<Rightarrow> string \<Rightarrow> string list \<Rightarrow> unit res" where
  "MsgRemoveCircuitUploadParamsAddresses_ValidateBasic S authority addresses =
     first_error [valid_addr S authority, validateBech32Addresses S addresses]"

definition MsgStoreAndMigrateContract_ValidateBasic ::
  "'w sdk \<Rightarrow> text_ops \<Rightarrow> string \<Rightarrow> string \<Rightarrow> RawContractMessage \<Rightarrow> string \<Rightarrow> AccessConfig option \<Rightarrow> unit res" where
  "MsgStoreAndMigrateContract_ValidateBasic S J authority contract msg code permission =
     first_error [valid_addr S authority, valid_addr S contract,
       RawContractMessage_ValidateBasic J msg,
       as_error ErrInvalidRequest (validateWasmCode code MaxWasmSize),
       opt_permission S permission]"

definition MsgUpdateContractLabel_ValidateBasic :: "'w sdk \<Rightarrow> text_ops \<Rightarrow> string \<Rightarrow> string \<Rightarrow> string \<Rightarrow> unit res" where
  "MsgUpdateContractLabel_ValidateBasic S J sender newLabel contract =
     first_error [valid_addr S sender, ValidateLabel J newLabel, valid_addr S contract]"

section \<open>Properties\<close>

lemma hasDuplicates_loop_iff: "hasDuplicates_loop index vs \<longleftrightarrow> \<not> distinct vs \<or> set vs \<inter> set index \<noteq> {}"
  by (induction index vs rule: hasDuplicates_loop.induct) auto

text \<open>
  A list of code ids passes exactly when it has between one and fifty ids, all distinct.
\<close>

theorem wasm_code_ids_valid_iff:
  "validateCodeIDs ids = Inr () \<longleftrightarrow> 1 \<le> length ids \<and> length ids \<le> 50 \<and> distinct ids"
  by (cases ids)
    (auto simp: validateCodeIDs_def maxCodeIDCount_def hasDuplicates_def hasDuplicates_loop_iff)

end
