(* ===== verification/Budget.thy ===== *)
theory Budget
  imports Prelude
begin

text \<open>
  The contract of a state that is spent by steps: a step costs no more than what the budget loses
  by it.  Then no run costs more than the budget it starts with.
\<close>

inductive run_of :: "('l \<Rightarrow> 'm \<Rightarrow> 'l \<Rightarrow> bool) \<Rightarrow> 'l \<Rightarrow> 'm list \<Rightarrow> 'l \<Rightarrow> bool" for step where
  run_done: "run_of step l [] l"
| run_step: "step l m l' \<Longrightarrow> run_of step l' ms l'' \<Longrightarrow> run_of step l (m # ms) l''"

inductive_cases run_nilE: "run_of step l [] l'"
inductive_cases run_consE: "run_of step l (m # ms) l'"

locale budget =
  fixes step :: "'l \<Rightarrow> 'm \<Rightarrow> 'l \<Rightarrow> bool" and ok :: "'l \<Rightarrow> bool" and room :: "'l \<Rightarrow> int" and cost :: "'m \<Rightarrow> int"
  assumes pay: "ok l \<Longrightarrow> step l m l' \<Longrightarrow> cost m + room l' \<le> room l"
    and keep: "ok l \<Longrightarrow> step l m l' \<Longrightarrow> ok l'"
begin

lemma run_bounded: "run_of step l ms l' \<Longrightarrow> ok l \<Longrightarrow> sum_list (map cost ms) + room l' \<le> room l"
proof (induction rule: run_of.induct)
  case (run_step l m l' ms l'')
  then show ?case using pay [OF run_step.prems run_step.hyps(1)] keep [OF run_step.prems run_step.hyps(1)] by simp
qed simp

end

end
