(* ===== verification/WasmAuthz.thy ===== *)
theory WasmAuthz
  imports WasmMsgs SdkMath Budget
begin

text \<open>
  The grants of \<open>x/wasm\<close> for the authz module (\<open>types/authz.go\<close>): code-upload grants, and contract
  grants with a limit that is spent as messages are accepted and a filter on the message.  A packed
  limit or filter is the value the codec has unpacked; \<open>None\<close> is a missing one, or one of another
  type.  The gas meter is part of the chain state.
\<close>

section \<open>Case folding of code hashes\<close>

text \<open>
  \<open>utf8.DecodeRune\<close>: the first rune and the rest; an ill-formed sequence is the rune \<open>U+FFFD\<close>, one
  byte wide.
\<close>

definition cont :: "char \<Rightarrow> bool" where
  "cont c = (128 \<le> (of_char c :: nat) \<and> (of_char c :: nat) < 192)"

fun DecodeRune :: "string \<Rightarrow> nat \<times> string" where
  "DecodeRune [] = (65533, [])"
| "DecodeRune (a # s) =
     (let x = of_char a in
      if x < 128 then (x, s)
      else case s of
        b # s1 \<Rightarrow>
          if 194 \<le> x \<and> x < 224 \<and> cont b then ((x - 192) * 64 + (of_char b - 128), s1)
          else (case s1 of
            c # s2 \<Rightarrow>
              if 224 \<le> x \<and> x < 240 \<and> cont b \<and> cont c \<and> (x = 224 \<longrightarrow> 160 \<le> (of_char b :: nat)) \<and> (x = 237 \<longrightarrow> (of_char b :: nat) < 160)
              then ((x - 224) * 4096 + (of_char b - 128) * 64 + (of_char c - 128), s2)
              else (case s2 of
                d # s3 \<Rightarrow>
                  if 240 \<le> x \<and> x < 245 \<and> cont b \<and> cont c \<and> cont d \<and> (x = 240 \<longrightarrow> 144 \<le> (of_char b :: nat)) \<and> (x = 244 \<longrightarrow> (of_char b :: nat) < 144)
                  then ((x - 240) * 262144 + (of_char b - 128) * 4096 + (of_char c - 128) * 64 + (of_char d - 128), s3)
                  else (65533, s)
              | [] \<Rightarrow> (65533, s))
          | [] \<Rightarrow> (65533, s))
      | [] \<Rightarrow> (65533, s))"

lemma DecodeRune_shorter: "s \<noteq> [] \<Longrightarrow> length (snd (DecodeRune s)) < length s"
  by (cases s) (auto simp: Let_def split: list.splits)

text \<open>Two runes that \<open>EqualFold\<close> takes for the same.\<close>

definition same_rune :: "text_ops \<Rightarrow> nat \<Rightarrow> nat \<Rightarrow> bool" where
  "same_rune J sr tr =
     (if sr = tr then True
      else let lo = min sr tr; hi = max sr tr in
           if hi < 128 then 65 \<le> lo \<and> lo \<le> 90 \<and> hi = lo + 32 else SameFold J lo hi)"

function EqualFold :: "text_ops \<Rightarrow> string \<Rightarrow> string \<Rightarrow> bool" where
  "EqualFold J s t =
     (if s = [] \<or> t = [] then length s = length t
      else same_rune J (fst (DecodeRune s)) (fst (DecodeRune t)) \<and> EqualFold J (snd (DecodeRune s)) (snd (DecodeRune t)))"
  by pat_completeness auto
termination
  by (relation "measure (\<lambda>(J, s, t). length s)") (auto simp: DecodeRune_shorter)

declare EqualFold.simps [simp del]

section \<open>Code grants\<close>

definition CodehashWildcard :: string where "CodehashWildcard = ''*''"

record CodeGrant =
  CodeHash :: string
  cg_InstantiatePermission :: "AccessConfig option"

definition CodeGrant_ValidateBasic :: "'w sdk \<Rightarrow> CodeGrant \<Rightarrow> unit res" where
  "CodeGrant_ValidateBasic S g =
     (if CodeHash g = [] then Inl ErrEmpty else opt_permission S (cg_InstantiatePermission g))"

text \<open>\<open>IsSubset\<close> on a nil permission dereferences it.\<close>

definition CodeGrant_Accept :: "text_ops \<Rightarrow> CodeGrant \<Rightarrow> string \<Rightarrow> AccessConfig option \<Rightarrow> bool res" where
  "CodeGrant_Accept J g checksum permission =
     (if \<not> EqualFold J (CodeHash g) CodehashWildcard \<and> \<not> EqualFold J (CodeHash g) checksum then Inr False
      else case cg_InstantiatePermission g of
             None \<Rightarrow> Inr True
           | Some p \<Rightarrow> (case permission of
                          None \<Rightarrow> Inl (Panicked ''nil permission'')
                        | Some q \<Rightarrow> Inr (IsSubset q p)))"

text \<open>
  What uploading needs from outside: the gzip test and decompressor, the gas register of the
  context with its cost of decompression, and the checksum of the virtual machine.
\<close>

record code_ops =
  IsGzip :: "string \<Rightarrow> bool"
  Uncompress :: "string \<Rightarrow> int \<Rightarrow> string res"
  UncompressGas :: "(nat \<Rightarrow> u64) option"
  CreateChecksum :: "string \<Rightarrow> string res"

fun acceptGrants :: "text_ops \<Rightarrow> CodeGrant list \<Rightarrow> string \<Rightarrow> AccessConfig option \<Rightarrow> bool res" where
  "acceptGrants J [] checksum permission = Inr False"
| "acceptGrants J (grant # grants) checksum permission =
     (case CodeGrant_Accept J grant checksum permission of
        Inl e \<Rightarrow> Inl e
      | Inr b \<Rightarrow> if b then Inr True else acceptGrants J grants checksum permission)"

definition unpackCode :: "'w sdk \<Rightarrow> code_ops \<Rightarrow> string \<Rightarrow> 'w \<Rightarrow> string res \<times> 'w" where
  "unpackCode S C code w =
     (if IsGzip C code then
        (case UncompressGas C of
           None \<Rightarrow> (Inl ErrInvalidRequest, w)
         | Some cost \<Rightarrow>
             (case ConsumeGas S (cost (length code)) w of
                (Inl e, w1) \<Rightarrow> (Inl e, w1)
              | (Inr _, w1) \<Rightarrow>
                  (case Uncompress C code MaxWasmSize of
                     Inl e \<Rightarrow> (Inl ErrInvalidRequest, w1)
                   | Inr wasmCode \<Rightarrow> (Inr wasmCode, w1))))
      else (Inr code, w))"

definition StoreCodeAuthorization_Accept ::
  "'w sdk \<Rightarrow> text_ops \<Rightarrow> code_ops \<Rightarrow> CodeGrant list \<Rightarrow> MsgStoreCode option \<Rightarrow> 'w \<Rightarrow> bool res \<times> 'w" where
  "StoreCodeAuthorization_Accept S J C grants msg w =
     (case msg of
        None \<Rightarrow> (Inl ErrInvalidRequest, w)
      | Some storeMsg \<Rightarrow>
     (case unpackCode S C (sc_WASMByteCode storeMsg) w of
        (Inl e, w1) \<Rightarrow> (Inl e, w1)
      | (Inr code, w1) \<Rightarrow>
     (case CreateChecksum C code of
        Inl e \<Rightarrow> (Inl ErrInvalidRequest, w1)
      | Inr checksum \<Rightarrow> (acceptGrants J grants checksum (sc_InstantiatePermission storeMsg), w1))))"

fun storeGrants_loop :: "'w sdk \<Rightarrow> text_ops \<Rightarrow> CodeGrant list \<Rightarrow> unit res" where
  "storeGrants_loop S J [] = Inr ()"
| "storeGrants_loop S J (grant # grants) =
     (if EqualFold J (CodeHash grant) CodehashWildcard then Inl ErrInvalidRequest
      else case CodeGrant_ValidateBasic S grant of
             Inl e \<Rightarrow> Inl e
           | Inr _ \<Rightarrow> storeGrants_loop S J grants)"

definition StoreCodeAuthorization_ValidateBasic :: "'w sdk \<Rightarrow> text_ops \<Rightarrow> CodeGrant list \<Rightarrow> unit res" where
  "StoreCodeAuthorization_ValidateBasic S J grants =
     (case grants of
        [] \<Rightarrow> Inl ErrEmpty
      | [g] \<Rightarrow> CodeGrant_ValidateBasic S g
      | _ \<Rightarrow>
          (case storeGrants_loop S J grants of
             Inl e \<Rightarrow> Inl e
           | Inr _ \<Rightarrow>
               if card (set (map (\<lambda>g. ToLower J (CodeHash g)) grants)) \<noteq> length grants
               then Inl ErrInvalidRequest else Inr ()))"

section \<open>Limits\<close>

text \<open>The messages contract grants are for, behind one interface.\<close>

datatype authz_msg = ExecuteMsg MsgExecuteContract | MigrateMsg MsgMigrateContract | ForeignMsg

datatype authz_kind = ContractExecution | ContractMigration

primrec GetFunds :: "authz_msg \<Rightarrow> Coins" where
  "GetFunds (ExecuteMsg m) = ec_Funds m"
| "GetFunds (MigrateMsg m) = []"
| "GetFunds ForeignMsg = []"

primrec GetMsg :: "authz_msg \<Rightarrow> RawContractMessage" where
  "GetMsg (ExecuteMsg m) = ec_Msg m"
| "GetMsg (MigrateMsg m) = mc_Msg m"
| "GetMsg ForeignMsg = None"

primrec GetContract :: "authz_msg \<Rightarrow> string" where
  "GetContract (ExecuteMsg m) = ec_Contract m"
| "GetContract (MigrateMsg m) = mc_Contract m"
| "GetContract ForeignMsg = []"

primrec authz_msg_ValidateBasic :: "'w sdk \<Rightarrow> text_ops \<Rightarrow> authz_msg \<Rightarrow> unit res" where
  "authz_msg_ValidateBasic S J (ExecuteMsg m) = MsgExecuteContract_ValidateBasic S J m"
| "authz_msg_ValidateBasic S J (MigrateMsg m) = MsgMigrateContract_ValidateBasic S J m"
| "authz_msg_ValidateBasic S J ForeignMsg = Inl ErrInvalidType"

primrec of_kind :: "authz_kind \<Rightarrow> authz_msg \<Rightarrow> bool" where
  "of_kind k (ExecuteMsg m) = (k = ContractExecution)"
| "of_kind k (MigrateMsg m) = (k = ContractMigration)"
| "of_kind k ForeignMsg = False"

datatype AuthzLimit =
    UndefinedLimit
  | MaxCallsLimit u64
  | MaxFundsLimit Coins
  | CombinedLimit u64 Coins

record LimitResult =
  Accepted :: bool
  DeleteLimit :: bool
  UpdateLimit :: "AuthzLimit option"

abbreviation limit_rejected :: LimitResult where
  "limit_rejected \<equiv> \<lparr>Accepted = False, DeleteLimit = False, UpdateLimit = None\<rparr>"
abbreviation limit_used_up :: LimitResult where
  "limit_used_up \<equiv> \<lparr>Accepted = True, DeleteLimit = True, UpdateLimit = None\<rparr>"
abbreviation limit_updated :: "AuthzLimit \<Rightarrow> LimitResult" where
  "limit_updated l \<equiv> \<lparr>Accepted = True, DeleteLimit = False, UpdateLimit = Some l\<rparr>"
abbreviation limit_kept :: LimitResult where
  "limit_kept \<equiv> \<lparr>Accepted = True, DeleteLimit = False, UpdateLimit = None\<rparr>"

definition MaxCallsLimit_Accept :: "u64 \<Rightarrow> Coins \<Rightarrow> LimitResult res" where
  "MaxCallsLimit_Accept n funds =
     (if funds \<noteq> [] then Inr limit_rejected
      else if n = 0 then Inl ErrUnauthorized
      else if n = 1 then Inr limit_used_up
      else Inr (limit_updated (MaxCallsLimit (n - 1))))"

definition MaxFundsLimit_Accept :: "coin_ops \<Rightarrow> Coins \<Rightarrow> Coins \<Rightarrow> LimitResult res" where
  "MaxFundsLimit_Accept A amounts funds =
     (if funds = [] then Inr limit_kept
      else if \<not> CoinsIsAllLTE A funds amounts then Inr limit_rejected
      else case CoinsSub A amounts funds of
             Inl e \<Rightarrow> Inl e
           | Inr newAmounts \<Rightarrow>
               if CoinsIsZero A newAmounts then Inr limit_used_up
               else Inr (limit_updated (MaxFundsLimit newAmounts)))"

definition NewCombinedLimit :: "'w sdk \<Rightarrow> u64 \<Rightarrow> Coins \<Rightarrow> AuthzLimit res" where
  "NewCombinedLimit S maxCalls maxAmounts =
     (case NewCoins S maxAmounts of Inl e \<Rightarrow> Inl e | Inr cs \<Rightarrow> Inr (CombinedLimit maxCalls cs))"

definition CombinedLimit_Accept :: "'w sdk \<Rightarrow> coin_ops \<Rightarrow> u64 \<Rightarrow> Coins \<Rightarrow> Coins \<Rightarrow> LimitResult res" where
  "CombinedLimit_Accept S A n amounts transferFunds =
     (if \<not> CoinsIsAllLTE A transferFunds amounts then Inr limit_rejected
      else if n = 0 then Inl ErrUnauthorized
      else if n = 1 then Inr limit_used_up
      else case CoinsSub A amounts transferFunds of
             Inl e \<Rightarrow> Inl e
           | Inr remainingAmounts \<Rightarrow>
               if CoinsIsZero A remainingAmounts then Inr limit_used_up
               else (case NewCombinedLimit S (n - 1) remainingAmounts of
                       Inl e \<Rightarrow> Inl e
                     | Inr l \<Rightarrow> Inr (limit_updated l)))"

primrec AuthzLimit_Accept :: "'w sdk \<Rightarrow> coin_ops \<Rightarrow> AuthzLimit \<Rightarrow> Coins \<Rightarrow> LimitResult res" where
  "AuthzLimit_Accept S A UndefinedLimit funds = Inl ErrNotFound"
| "AuthzLimit_Accept S A (MaxCallsLimit n) funds = MaxCallsLimit_Accept n funds"
| "AuthzLimit_Accept S A (MaxFundsLimit amounts) funds = MaxFundsLimit_Accept A amounts funds"
| "AuthzLimit_Accept S A (CombinedLimit n amounts) funds = CombinedLimit_Accept S A n amounts funds"

primrec AuthzLimit_ValidateBasic :: "'w sdk \<Rightarrow> coin_ops \<Rightarrow> AuthzLimit \<Rightarrow> unit res" where
  "AuthzLimit_ValidateBasic S A UndefinedLimit = Inl ErrInvalidType"
| "AuthzLimit_ValidateBasic S A (MaxCallsLimit n) = check ErrEmpty (n \<noteq> 0)"
| "AuthzLimit_ValidateBasic S A (MaxFundsLimit amounts) =
     first_error [CoinsValidate S amounts, check ErrEmpty (\<not> CoinsIsZero A amounts)]"
| "AuthzLimit_ValidateBasic S A (CombinedLimit n amounts) =
     first_error [check ErrEmpty (n \<noteq> 0), check ErrEmpty (\<not> CoinsIsZero A amounts), CoinsValidate S amounts]"

section \<open>Filters\<close>

datatype AuthzFilter =
    UndefinedFilter
  | AllowAllMessagesFilter
  | AcceptedMessageKeysFilter "string list"
  | AcceptedMessagesFilter "RawContractMessage list"

primrec AuthzFilter_Accept :: "'w sdk \<Rightarrow> text_ops \<Rightarrow> AuthzFilter \<Rightarrow> RawContractMessage \<Rightarrow> 'w \<Rightarrow> bool res \<times> 'w" where
  "AuthzFilter_Accept S J UndefinedFilter msg w = (Inl ErrNotFound, w)"
| "AuthzFilter_Accept S J AllowAllMessagesFilter msg w =
     (case RawContractMessage_ValidateBasic J msg of Inl e \<Rightarrow> (Inl e, w) | Inr _ \<Rightarrow> (Inr True, w))"
| "AuthzFilter_Accept S J (AcceptedMessageKeysFilter keys) msg w =
     (case ConsumeGas S (of_nat (length (raw_bytes msg))) w of
        (Inl e, w1) \<Rightarrow> (Inl e, w1)
      | (Inr _, w1) \<Rightarrow>
          (case isJSONObjectWithTopLevelKey J msg keys of
             Inl e \<Rightarrow> (Inl ErrUnauthorized, w1)
           | Inr ok \<Rightarrow> (Inr ok, w1)))"
| "AuthzFilter_Accept S J (AcceptedMessagesFilter msgs) msg w =
     (Inr (list_ex (\<lambda>v. RawContractMessage_Equal v msg) msgs), w)"

fun validateKeys_loop :: "text_ops \<Rightarrow> string list \<Rightarrow> string list \<Rightarrow> unit res" where
  "validateKeys_loop J idx [] = Inr ()"
| "validateKeys_loop J idx (m # ms) =
     (if m = [] then Inl ErrEmpty
      else if m \<noteq> TrimSpace J m then Inl ErrInvalid
      else if m \<in> set idx then Inl ErrDuplicate
      else validateKeys_loop J (m # idx) ms)"

fun validateMessages_loop :: "text_ops \<Rightarrow> string list \<Rightarrow> RawContractMessage list \<Rightarrow> unit res" where
  "validateMessages_loop J idx [] = Inr ()"
| "validateMessages_loop J idx (m # ms) =
     (if raw_bytes m = [] then Inl ErrEmpty
      else case RawContractMessage_ValidateBasic J m of
             Inl e \<Rightarrow> Inl e
           | Inr _ \<Rightarrow>
               if raw_bytes m \<in> set idx then Inl ErrDuplicate
               else validateMessages_loop J (raw_bytes m # idx) ms)"

primrec AuthzFilter_ValidateBasic :: "text_ops \<Rightarrow> AuthzFilter \<Rightarrow> unit res" where
  "AuthzFilter_ValidateBasic J UndefinedFilter = Inl ErrInvalidType"
| "AuthzFilter_ValidateBasic J AllowAllMessagesFilter = Inr ()"
| "AuthzFilter_ValidateBasic J (AcceptedMessageKeysFilter keys) =
     (if keys = [] then Inl ErrEmpty else validateKeys_loop J [] keys)"
| "AuthzFilter_ValidateBasic J (AcceptedMessagesFilter msgs) =
     (if msgs = [] then Inl ErrEmpty else validateMessages_loop J [] msgs)"

section \<open>Contract grants\<close>

record ContractGrant =
  g_Contract :: string
  g_Limit :: "AuthzLimit option"
  g_Filter :: "AuthzFilter option"

definition GetLimit :: "ContractGrant \<Rightarrow> AuthzLimit" where
  "GetLimit g = (case g_Limit g of None \<Rightarrow> UndefinedLimit | Some l \<Rightarrow> l)"

definition GetFilter :: "ContractGrant \<Rightarrow> AuthzFilter" where
  "GetFilter g = (case g_Filter g of None \<Rightarrow> UndefinedFilter | Some f \<Rightarrow> f)"

text \<open>The undefined limit is the only one that is not a protobuf message.\<close>

definition WithNewLimits :: "(AuthzLimit \<Rightarrow> unit res) \<Rightarrow> ContractGrant \<Rightarrow> AuthzLimit \<Rightarrow> ContractGrant res" where
  "WithNewLimits NewAnyWithValue g limit =
     (if limit = UndefinedLimit then Inl ErrInvalidType
      else case NewAnyWithValue limit of
             Inl e \<Rightarrow> Inl e
           | Inr _ \<Rightarrow> Inr (g\<lparr>g_Limit := Some limit\<rparr>))"

definition ContractGrant_ValidateBasic :: "'w sdk \<Rightarrow> text_ops \<Rightarrow> coin_ops \<Rightarrow> ContractGrant \<Rightarrow> unit res" where
  "ContractGrant_ValidateBasic S J A g =
     first_error [valid_addr S (g_Contract g), AuthzLimit_ValidateBasic S A (GetLimit g),
       AuthzFilter_ValidateBasic J (GetFilter g)]"

definition validateGrants :: "'w sdk \<Rightarrow> text_ops \<Rightarrow> coin_ops \<Rightarrow> ContractGrant list \<Rightarrow> unit res" where
  "validateGrants S J A g =
     (if g = [] then Inl ErrEmpty else first_error (map (ContractGrant_ValidateBasic S J A) g))"

text \<open>
  The answer of an authorization: refused, accepted without a change, accepted for the last
  time, or accepted with new grants.
\<close>

datatype AcceptResponse = Refuse | AcceptSame | AcceptDelete | AcceptUpdated "ContractGrant list"

text \<open>
  The loop over the grants, with those before the current one.  The slices the code appends to
  share their array with the old grants, which are not read again.
\<close>

fun acceptGrants_loop ::
  "'w sdk \<Rightarrow> text_ops \<Rightarrow> coin_ops \<Rightarrow> (AuthzLimit \<Rightarrow> unit res) \<Rightarrow> ContractGrant list \<Rightarrow> ContractGrant list \<Rightarrow>
   authz_msg \<Rightarrow> 'w \<Rightarrow> AcceptResponse res \<times> 'w" where
  "acceptGrants_loop S J A P before [] exec w = (Inr Refuse, w)"
| "acceptGrants_loop S J A P before (g # grants) exec w =
     (if g_Contract g \<noteq> GetContract exec then acceptGrants_loop S J A P (before @ [g]) grants exec w
      else case AuthzLimit_Accept S A (GetLimit g) (GetFunds exec) of
        Inl e \<Rightarrow> (Inl e, w)
      | Inr result \<Rightarrow>
          if \<not> Accepted result then acceptGrants_loop S J A P (before @ [g]) grants exec w
          else case AuthzFilter_Accept S J (GetFilter g) (GetMsg exec) w of
            (Inl e, w1) \<Rightarrow> (Inl e, w1)
          | (Inr ok, w1) \<Rightarrow>
              if \<not> ok then acceptGrants_loop S J A P (before @ [g]) grants exec w1
              else if DeleteLimit result then
                let updatedGrants = before @ grants in
                if updatedGrants = [] then (Inr AcceptDelete, w1)
                else (case validateGrants S J A updatedGrants of
                        Inl e \<Rightarrow> (Inl ErrInvalid, w1)
                      | Inr _ \<Rightarrow> (Inr (AcceptUpdated updatedGrants), w1))
              else (case UpdateLimit result of
                      None \<Rightarrow> (Inr AcceptSame, w1)
                    | Some l \<Rightarrow>
                        (case WithNewLimits P g l of
                           Inl e \<Rightarrow> (Inl e, w1)
                         | Inr obj \<Rightarrow>
                             (case validateGrants S J A (before @ [obj] @ grants) of
                                Inl e \<Rightarrow> (Inl ErrInvalid, w1)
                              | Inr _ \<Rightarrow> (Inr (AcceptUpdated (before @ [obj] @ grants)), w1)))))"

definition AcceptGrantedMessage ::
  "'w sdk \<Rightarrow> text_ops \<Rightarrow> coin_ops \<Rightarrow> (AuthzLimit \<Rightarrow> unit res) \<Rightarrow> authz_kind \<Rightarrow> ContractGrant list \<Rightarrow>
   authz_msg \<Rightarrow> 'w \<Rightarrow> AcceptResponse res \<times> 'w" where
  "AcceptGrantedMessage S J A P kind grants msg w =
     (if \<not> of_kind kind msg then (Inl ErrInvalidType, w)
      else if GetMsg msg = None then (Inl ErrInvalidType, w)
      else case authz_msg_ValidateBasic S J msg of
             Inl e \<Rightarrow> (Inl e, w)
           | Inr _ \<Rightarrow> acceptGrants_loop S J A P [] grants msg w)"

section \<open>One accepted message\<close>

definition new_grants :: "ContractGrant list \<Rightarrow> ContractGrant \<Rightarrow> ContractGrant list \<Rightarrow> LimitResult \<Rightarrow> ContractGrant list" where
  "new_grants pre g post result =
     (if DeleteLimit result then pre @ post
      else case UpdateLimit result of None \<Rightarrow> pre @ g # post | Some l \<Rightarrow> pre @ g\<lparr>g_Limit := Some l\<rparr> # post)"

definition grants_after :: "ContractGrant list \<Rightarrow> AcceptResponse \<Rightarrow> ContractGrant list" where
  "grants_after gs r = (case r of AcceptUpdated gs' \<Rightarrow> gs' | AcceptDelete \<Rightarrow> [] | _ \<Rightarrow> gs)"

lemma acceptGrants_loop_ok:
  assumes "acceptGrants_loop S J A P before gs m w = (Inr r, w')" "r \<noteq> Refuse"
  shows "\<exists>pre g post result w1 w2. before @ gs = pre @ g # post \<and> g_Contract g = GetContract m \<and>
    AuthzLimit_Accept S A (GetLimit g) (GetFunds m) = Inr result \<and> Accepted result \<and>
    AuthzFilter_Accept S J (GetFilter g) (GetMsg m) w1 = (Inr True, w2) \<and>
    grants_after (before @ gs) r = new_grants pre g post result"
  using assms
proof (induction gs arbitrary: before w)
  case (Cons g gs)
  show ?case
  proof (cases "g_Contract g = GetContract m")
    case False
    then show ?thesis using Cons.IH [of "before @ [g]" w] Cons.prems by simp
  next
    case c: True
    then obtain result where result: "AuthzLimit_Accept S A (GetLimit g) (GetFunds m) = Inr result"
      using Cons.prems by (auto split: sum.splits)
    show ?thesis
    proof (cases "Accepted result")
      case False
      then show ?thesis using Cons.IH [of "before @ [g]" w] Cons.prems c result by simp
    next
      case acc: True
      then obtain ok w1 where f: "AuthzFilter_Accept S J (GetFilter g) (GetMsg m) w = (Inr ok, w1)"
        using Cons.prems c result by (auto split: sum.splits prod.splits)
      show ?thesis
      proof (cases ok)
        case False
        then show ?thesis using Cons.IH [of "before @ [g]" w1] Cons.prems c result acc f by simp
      next
        case True
        have "grants_after (before @ g # gs) r = new_grants before g gs result"
        proof (cases "DeleteLimit result")
          case d: True
          then have "before @ gs = [] \<and> r = AcceptDelete \<or> r = AcceptUpdated (before @ gs)"
            using Cons.prems(1) c result acc f True by (simp add: Let_def split: if_splits sum.splits)
          then show ?thesis using d by (auto simp: grants_after_def new_grants_def)
        next
          case d: False
          show ?thesis
          proof (cases "UpdateLimit result")
            case None
            then have "r = AcceptSame" using Cons.prems(1) c result acc f True d by simp
            then show ?thesis using None d by (simp add: grants_after_def new_grants_def)
          next
            case (Some l)
            then have "r = AcceptUpdated (before @ [g\<lparr>g_Limit := Some l\<rparr>] @ gs)"
              using Cons.prems(1) c result acc f True d by (simp add: WithNewLimits_def split: if_splits sum.splits)
            then show ?thesis using Some d by (simp add: grants_after_def new_grants_def)
          qed
        qed
        then show ?thesis
          by (intro exI [of _ before] exI [of _ g] exI [of _ gs] exI [of _ result] exI [of _ w] exI [of _ w1])
            (use c result acc f True in simp)
      qed
    qed
  qed
qed simp

lemma AcceptGrantedMessage_ok:
  assumes "AcceptGrantedMessage S J A P kind gs m w = (Inr r, w')" "r \<noteq> Refuse"
  shows "of_kind kind m" "GetMsg m \<noteq> None" "authz_msg_ValidateBasic S J m = Inr ()"
    "\<exists>pre g post result w1 w2. gs = pre @ g # post \<and> g_Contract g = GetContract m \<and>
      AuthzLimit_Accept S A (GetLimit g) (GetFunds m) = Inr result \<and> Accepted result \<and>
      AuthzFilter_Accept S J (GetFilter g) (GetMsg m) w1 = (Inr True, w2) \<and>
      grants_after gs r = new_grants pre g post result"
proof -
  have l: "acceptGrants_loop S J A P [] gs m w = (Inr r, w')"
    and "of_kind kind m" "GetMsg m \<noteq> None" "authz_msg_ValidateBasic S J m = Inr ()"
    using assms(1) by (auto simp: AcceptGrantedMessage_def split: if_splits sum.splits)
  then show "of_kind kind m" "GetMsg m \<noteq> None" "authz_msg_ValidateBasic S J m = Inr ()" by auto
  show "\<exists>pre g post result w1 w2. gs = pre @ g # post \<and> g_Contract g = GetContract m \<and>
      AuthzLimit_Accept S A (GetLimit g) (GetFunds m) = Inr result \<and> Accepted result \<and>
      AuthzFilter_Accept S J (GetFilter g) (GetMsg m) w1 = (Inr True, w2) \<and>
      grants_after gs r = new_grants pre g post result"
    using acceptGrants_loop_ok [OF l assms(2)] by simp
qed

section \<open>What a limit still allows\<close>

primrec limit_room :: "AuthzLimit \<Rightarrow> string \<Rightarrow> int" where
  "limit_room UndefinedLimit d = 0"
| "limit_room (MaxCallsLimit n) d = 0"
| "limit_room (MaxFundsLimit amounts) d = coins_amount amounts d"
| "limit_room (CombinedLimit n amounts) d = coins_amount amounts d"

primrec limit_calls :: "AuthzLimit \<Rightarrow> int" where
  "limit_calls UndefinedLimit = 0"
| "limit_calls (MaxCallsLimit n) = uint n"
| "limit_calls (MaxFundsLimit amounts) = 0"
| "limit_calls (CombinedLimit n amounts) = uint n"

definition room_after :: "AuthzLimit \<Rightarrow> LimitResult \<Rightarrow> string \<Rightarrow> int" where
  "room_after l r d = (if DeleteLimit r then 0 else case UpdateLimit r of None \<Rightarrow> limit_room l d | Some l' \<Rightarrow> limit_room l' d)"

definition calls_after :: "AuthzLimit \<Rightarrow> LimitResult \<Rightarrow> int" where
  "calls_after l r = (if DeleteLimit r then 0 else case UpdateLimit r of None \<Rightarrow> limit_calls l | Some l' \<Rightarrow> limit_calls l')"

lemma limit_pays:
  assumes "coin_set_laws A" "coins_laws S" "AuthzLimit_Accept S A l funds = Inr r" "Accepted r" "0 \<le> limit_room l d"
  shows "coins_amount funds d + room_after l r d \<le> limit_room l d \<and> 0 \<le> room_after l r d"
proof (cases l)
  case UndefinedLimit
  then show ?thesis using assms by simp
next
  case (MaxCallsLimit n)
  then show ?thesis using assms by (auto simp: MaxCallsLimit_Accept_def room_after_def split: if_splits)
next
  case (MaxFundsLimit amounts)
  consider "funds = []" "r = limit_kept"
    | rest where "CoinsIsAllLTE A funds amounts" "CoinsSub A amounts funds = Inr rest"
      "r = limit_used_up \<or> r = limit_updated (MaxFundsLimit rest)"
    using assms(3,4) MaxFundsLimit by (auto simp: MaxFundsLimit_Accept_def split: if_splits sum.splits)
  then show ?thesis
  proof cases
    case 1
    then show ?thesis using assms(5) by (simp add: room_after_def)
  next
    case 2
    have "coins_amount funds d \<le> coins_amount amounts d" using coin_set_lawsD(4) [OF assms(1)] 2(1) by simp
    then show ?thesis
      using 2(3) MaxFundsLimit coin_set_lawsD(5) [OF assms(1) 2(2), of d] CoinsSub_nonneg [OF assms(1) 2(2), of d]
      by (auto simp: room_after_def)
  qed
next
  case (CombinedLimit n amounts)
  have le: "coins_amount funds d \<le> coins_amount amounts d"
    using assms(3,4) CombinedLimit coin_set_lawsD(4) [OF assms(1)] by (auto simp: CombinedLimit_Accept_def split: if_splits)
  consider "r = limit_used_up"
    | rest cs where "CoinsSub A amounts funds = Inr rest" "NewCoins S rest = Inr cs" "r = limit_updated (CombinedLimit (n - 1) cs)"
    using assms(3,4) CombinedLimit
    by (auto simp: CombinedLimit_Accept_def NewCombinedLimit_def split: if_splits sum.splits)
  then show ?thesis
  proof cases
    case 1
    then show ?thesis using le CombinedLimit by (simp add: room_after_def)
  next
    case 2
    have "coins_amount cs d = coins_amount rest d" by (rule NewCoins_amount [OF assms(2) 2(2)])
    then show ?thesis
      using 2(3) CombinedLimit coin_set_lawsD(5) [OF assms(1) 2(1), of d] CoinsSub_nonneg [OF assms(1) 2(1), of d]
      by (simp add: room_after_def)
  qed
qed

lemma uint_pred: "n \<noteq> 0 \<Longrightarrow> uint (n - 1 :: u64) = uint n - 1"
proof -
  assume "n \<noteq> 0"
  then have "1 \<le> n" by (metis linorder_not_less word_less_1)
  then show ?thesis by (simp add: uint_minus_simple_alt)
qed

lemma limit_counts:
  assumes "AuthzLimit_Accept S A l funds = Inr r" "Accepted r" "\<nexists>cs. l = MaxFundsLimit cs"
  shows "1 + calls_after l r \<le> limit_calls l"
    and "\<not> DeleteLimit r \<Longrightarrow> \<exists>l'. UpdateLimit r = Some l' \<and> (\<nexists>cs. l' = MaxFundsLimit cs)"
proof -
  have pos: "1 \<le> uint n" if "n \<noteq> 0" for n :: u64
    using uint_pred [OF that] uint_ge_0 [of "n - 1"] by linarith
  consider n where "l = MaxCallsLimit n" "n \<noteq> 0" "r = limit_used_up \<or> r = limit_updated (MaxCallsLimit (n - 1))"
    | n cs ds where "l = CombinedLimit n cs" "n \<noteq> 0" "r = limit_used_up \<or> r = limit_updated (CombinedLimit (n - 1) ds)"
    using assms
    by (cases l) (auto simp: MaxCallsLimit_Accept_def CombinedLimit_Accept_def NewCombinedLimit_def split: if_splits sum.splits)
  then have "1 + calls_after l r \<le> limit_calls l \<and>
      (\<not> DeleteLimit r \<longrightarrow> (\<exists>l'. UpdateLimit r = Some l' \<and> (\<nexists>cs. l' = MaxFundsLimit cs)))"
  proof cases
    case 1
    from 1(3) show ?thesis
      by (rule disjE) (simp_all add: 1(1) calls_after_def uint_pred [OF 1(2)] pos [OF 1(2)])
  next
    case 2
    from 2(3) show ?thesis
      by (rule disjE) (simp_all add: 2(1) calls_after_def uint_pred [OF 2(2)] pos [OF 2(2)])
  qed
  then show "1 + calls_after l r \<le> limit_calls l" "\<not> DeleteLimit r \<Longrightarrow> \<exists>l'. UpdateLimit r = Some l' \<and> (\<nexists>cs. l' = MaxFundsLimit cs)"
    by auto
qed

section \<open>Runs of accepted messages\<close>

definition grants_room :: "string \<Rightarrow> string \<Rightarrow> ContractGrant list \<Rightarrow> int" where
  "grants_room c d gs = (\<Sum>g \<leftarrow> gs. if g_Contract g = c then limit_room (GetLimit g) d else 0)"

definition grants_calls :: "string \<Rightarrow> ContractGrant list \<Rightarrow> int" where
  "grants_calls c gs = (\<Sum>g \<leftarrow> gs. if g_Contract g = c then limit_calls (GetLimit g) else 0)"

definition grants_solvent :: "ContractGrant list \<Rightarrow> bool" where
  "grants_solvent gs \<longleftrightarrow> (\<forall>g \<in> set gs. \<forall>d. 0 \<le> limit_room (GetLimit g) d)"

definition counted :: "string \<Rightarrow> ContractGrant list \<Rightarrow> bool" where
  "counted c gs \<longleftrightarrow> (\<forall>g \<in> set gs. g_Contract g = c \<longrightarrow> (\<nexists>cs. GetLimit g = MaxFundsLimit cs))"

definition accepted_step ::
  "'w sdk \<Rightarrow> text_ops \<Rightarrow> coin_ops \<Rightarrow> (AuthzLimit \<Rightarrow> unit res) \<Rightarrow> authz_kind \<Rightarrow> ContractGrant list \<Rightarrow> authz_msg \<Rightarrow>
   ContractGrant list \<Rightarrow> bool" where
  "accepted_step S J A P kind gs m gs' \<longleftrightarrow>
     (\<exists>w w' r. AcceptGrantedMessage S J A P kind gs m w = (Inr r, w') \<and> r \<noteq> Refuse \<and> gs' = grants_after gs r)"

lemma accepted_stepD:
  assumes "accepted_step S J A P kind gs m gs'"
  obtains pre g post r where "gs = pre @ g # post" "g_Contract g = GetContract m"
    "AuthzLimit_Accept S A (GetLimit g) (GetFunds m) = Inr r" "Accepted r" "gs' = new_grants pre g post r"
  using assms AcceptGrantedMessage_ok(4) unfolding accepted_step_def by (metis (no_types, lifting))

lemma GetLimit_update [simp]: "GetLimit (g\<lparr>g_Limit := Some l\<rparr>) = l"
  by (simp add: GetLimit_def)

lemma grants_room_new:
  "grants_room c d (new_grants pre g post r) =
     grants_room c d pre + (if g_Contract g = c then room_after (GetLimit g) r d else 0) + grants_room c d post"
  by (simp add: new_grants_def grants_room_def room_after_def split: option.splits)

lemma grants_calls_new:
  "grants_calls c (new_grants pre g post r) =
     grants_calls c pre + (if g_Contract g = c then calls_after (GetLimit g) r else 0) + grants_calls c post"
  by (simp add: new_grants_def grants_calls_def calls_after_def split: option.splits)

lemma room_step:
  assumes "coin_set_laws A" "coins_laws S" "grants_solvent gs" "accepted_step S J A P kind gs m gs'"
  shows "(if GetContract m = c then coins_amount (GetFunds m) d else 0) + grants_room c d gs' \<le> grants_room c d gs"
    and "grants_solvent gs'"
proof -
  from assms(4) obtain pre g post r where g: "gs = pre @ g # post" "g_Contract g = GetContract m"
    "AuthzLimit_Accept S A (GetLimit g) (GetFunds m) = Inr r" "Accepted r" "gs' = new_grants pre g post r"
    by (rule accepted_stepD)
  have p: "coins_amount (GetFunds m) e + room_after (GetLimit g) r e \<le> limit_room (GetLimit g) e \<and>
      0 \<le> room_after (GetLimit g) r e" for e
    using limit_pays [OF assms(1,2) g(3,4)] assms(3) g(1) by (simp add: grants_solvent_def)
  have "grants_room c d gs = grants_room c d pre + (if GetContract m = c then limit_room (GetLimit g) d else 0) + grants_room c d post"
    using g(1,2) by (simp add: grants_room_def)
  then show "(if GetContract m = c then coins_amount (GetFunds m) d else 0) + grants_room c d gs' \<le> grants_room c d gs"
    using p [of d] by (simp add: g(2,5) grants_room_new)
  have "\<forall>h \<in> set (new_grants pre g post r). h \<in> set pre \<union> set post \<or> (\<forall>e. limit_room (GetLimit h) e = room_after (GetLimit g) r e)"
    by (auto simp: new_grants_def room_after_def split: option.splits if_splits)
  then show "grants_solvent gs'" using assms(3) p g(1,5) by (auto simp: grants_solvent_def)
qed

lemma calls_step:
  assumes "counted c gs" "accepted_step S J A P kind gs m gs'"
  shows "(if GetContract m = c then 1 else 0) + grants_calls c gs' \<le> grants_calls c gs" and "counted c gs'"
proof -
  from assms(2) obtain pre g post r where g: "gs = pre @ g # post" "g_Contract g = GetContract m"
    "AuthzLimit_Accept S A (GetLimit g) (GetFunds m) = Inr r" "Accepted r" "gs' = new_grants pre g post r"
    by (rule accepted_stepD)
  have e: "grants_calls c gs = grants_calls c pre + (if GetContract m = c then limit_calls (GetLimit g) else 0) + grants_calls c post"
    using g(1,2) by (simp add: grants_calls_def)
  have "(if GetContract m = c then 1 else 0) + grants_calls c gs' \<le> grants_calls c gs \<and> counted c gs'"
  proof (cases "GetContract m = c")
    case True
    have n: "\<nexists>cs. GetLimit g = MaxFundsLimit cs" using assms(1) g(1,2) True by (auto simp: counted_def)
    note l = limit_counts [OF g(3,4) n]
    have "counted c gs'"
      using assms(1) l(2) g(1,5) unfolding counted_def new_grants_def by (auto split: if_splits)
    then show ?thesis using e True l(1) by (simp add: g(2,5) grants_calls_new)
  next
    case False
    have "counted c gs'"
      using assms(1) g(1,2,5) False unfolding counted_def new_grants_def by (auto split: if_splits option.splits)
    then show ?thesis using e False by (simp add: g(2,5) grants_calls_new)
  qed
  then show "(if GetContract m = c then 1 else 0) + grants_calls c gs' \<le> grants_calls c gs" "counted c gs'" by auto
qed

interpretation funds: budget "accepted_step S J A P kind" "\<lambda>gs. coin_set_laws A \<and> coins_laws S \<and> grants_solvent gs"
  "grants_room c d" "\<lambda>m. if GetContract m = c then coins_amount (GetFunds m) d else 0"
  for S :: "'w sdk" and J A P kind c d
  by unfold_locales (use room_step in blast)+

interpretation calls: budget "accepted_step S J A P kind" "counted c" "grants_calls c"
  "\<lambda>m. if GetContract m = c then 1 else 0"
  for S :: "'w sdk" and J A P kind c
  by unfold_locales (use calls_step in blast)+

text \<open>
  A sequence of messages that an authorization accepts one after the other, with the grants the
  authz module stores in between; an authorization that is deleted has no grants.
\<close>

fun authz_run ::
  "'w sdk \<Rightarrow> text_ops \<Rightarrow> coin_ops \<Rightarrow> (AuthzLimit \<Rightarrow> unit res) \<Rightarrow> authz_kind \<Rightarrow> ContractGrant list \<Rightarrow> authz_msg list \<Rightarrow> 'w \<Rightarrow>
   (ContractGrant list \<times> 'w) option" where
  "authz_run S J A P kind gs [] w = Some (gs, w)"
| "authz_run S J A P kind gs (m # ms) w =
     (case AcceptGrantedMessage S J A P kind gs m w of
        (Inr r, w1) \<Rightarrow> if r = Refuse then None else authz_run S J A P kind (grants_after gs r) ms w1
      | (Inl e, w1) \<Rightarrow> None)"

lemma authz_run_funds: "authz_run S J A P kind gs ms w = Some (gs', w') \<Longrightarrow> run_of (accepted_step S J A P kind) gs ms gs'"
proof (induction ms arbitrary: gs w)
  case (Cons m ms)
  then obtain r w1 where r: "AcceptGrantedMessage S J A P kind gs m w = (Inr r, w1)" "r \<noteq> Refuse"
    "authz_run S J A P kind (grants_after gs r) ms w1 = Some (gs', w')"
    by (auto split: prod.splits sum.splits if_splits)
  then have "accepted_step S J A P kind gs m (grants_after gs r)" by (auto simp: accepted_step_def)
  then show ?case using Cons.IH [OF r(3)] by (rule run_step)
qed (simp add: run_done)

text \<open>
  C10. Whatever messages an authorization accepts, together they send to a contract no more of
  any denomination than the limits of the grants for that contract allowed at the start, and
  the grants that are left allow at most the difference.
\<close>

theorem wasm_authz_spend_bounded:
  assumes "coin_set_laws A" "coins_laws S" "grants_solvent gs"
    and "authz_run S J A P kind gs ms w = Some (gs', w')"
  shows "(\<Sum>m \<leftarrow> ms. if GetContract m = c then coins_amount (GetFunds m) d else 0) + grants_room c d gs'
    \<le> grants_room c d gs"
  using funds.run_bounded [OF authz_run_funds [OF assms(4)]] assms(1-3) by blast

text \<open>
  When no grant for a contract is limited by funds alone, the messages to that contract that
  an authorization accepts are no more than the calls its grants allowed at the start.
\<close>

theorem wasm_authz_calls_bounded:
  assumes "counted c gs" "authz_run S J A P kind gs ms w = Some (gs', w')"
  shows "(\<Sum>m \<leftarrow> ms. if GetContract m = c then 1 else 0) + grants_calls c gs' \<le> grants_calls c gs"
  using calls.run_bounded [OF authz_run_funds [OF assms(2)]] assms(1) by blast

text \<open>
  C25. A message is accepted only when it is of the authorization's kind, validates, and some grant
  for its contract accepts it with its limit and with its filter.
\<close>

theorem wasm_authz_accept_sound:
  assumes "AcceptGrantedMessage S J A P kind gs m w = (Inr r, w')" "r \<noteq> Refuse"
  shows "of_kind kind m \<and> authz_msg_ValidateBasic S J m = Inr () \<and>
    (\<exists>g \<in> set gs. g_Contract g = GetContract m \<and>
      (\<exists>result. AuthzLimit_Accept S A (GetLimit g) (GetFunds m) = Inr result \<and> Accepted result) \<and>
      (\<exists>w1 w2. AuthzFilter_Accept S J (GetFilter g) (GetMsg m) w1 = (Inr True, w2)))"
proof -
  note k = AcceptGrantedMessage_ok [OF assms]
  then obtain pre g post result w1 w2 where g: "gs = pre @ g # post" "g_Contract g = GetContract m"
      "AuthzLimit_Accept S A (GetLimit g) (GetFunds m) = Inr result" "Accepted result"
      "AuthzFilter_Accept S J (GetFilter g) (GetMsg m) w1 = (Inr True, w2)"
    by blast
  then show ?thesis using k(1,3) by auto
qed

definition wa_ex_text :: text_ops where
  "wa_ex_text = \<lparr>JsonValid = (\<lambda>s. s \<noteq> []), JsonTopLevelKeys = (\<lambda>s. Some [s]), TrimSpace = (\<lambda>s. s),
     PrintableOnly = (\<lambda>s. s), ToLower = (\<lambda>s. s), SameFold = (\<lambda>a b. False),
     ParseRequestURI = (\<lambda>s. Inr ()), ParseDockerRef = (\<lambda>s. Inr ())\<rparr>"

definition wa_ex_grants :: "ContractGrant list" where
  "wa_ex_grants = [\<lparr>g_Contract = ''terp1c'', g_Limit = Some (CombinedLimit 3 [\<lparr>Denom = ''uterp'', Amount = 10\<rparr>]),
     g_Filter = Some AllowAllMessagesFilter\<rparr>]"

definition wa_ex_msg :: "int \<Rightarrow> authz_msg" where
  "wa_ex_msg n = ExecuteMsg \<lparr>ec_Sender = ''alice'', ec_Contract = ''terp1c'', ec_Msg = Some ''do'',
     ec_Funds = [\<lparr>Denom = ''uterp'', Amount = n\<rparr>]\<rparr>"

definition wa_ex_end :: "(ContractGrant list \<times> ledger) option" where
  "wa_ex_end = authz_run ledger_sdk wa_ex_text ref_coins (\<lambda>l. Inr ()) ContractExecution wa_ex_grants
     [wa_ex_msg 4, wa_ex_msg 5] ledger0"

lemma wa_ex_runs: "wa_ex_end \<noteq> None"
  by code_simp

lemma wa_ex_run:
  "authz_run ledger_sdk wa_ex_text ref_coins (\<lambda>l. Inr ()) ContractExecution wa_ex_grants
     [wa_ex_msg 4, wa_ex_msg 5] ledger0 = Some (fst (the wa_ex_end), snd (the wa_ex_end))"
  using wa_ex_runs by (auto simp: wa_ex_end_def)

lemma wa_ex_solvent: "grants_solvent wa_ex_grants" "counted ''terp1c'' wa_ex_grants"
  by (auto simp: grants_solvent_def counted_def wa_ex_grants_def GetLimit_def)

theorem wasm_authz_spend_bounded_witness:
  "9 + grants_room ''terp1c'' ''uterp'' (fst (the wa_ex_end)) \<le> 10"
  using wasm_authz_spend_bounded [OF ref_coin_set_laws ledger_coins wa_ex_solvent(1) wa_ex_run, of "''terp1c''" "''uterp''"]
  by (simp add: wa_ex_msg_def) (simp add: wa_ex_grants_def grants_room_def GetLimit_def)

theorem wasm_authz_calls_bounded_witness:
  "2 + grants_calls ''terp1c'' (fst (the wa_ex_end)) \<le> 3"
  using wasm_authz_calls_bounded [OF wa_ex_solvent(2) wa_ex_run]
  by (simp add: wa_ex_msg_def) (simp add: wa_ex_grants_def grants_calls_def GetLimit_def)

definition wa_ex_accept :: "AcceptResponse res \<times> ledger" where
  "wa_ex_accept = AcceptGrantedMessage ledger_sdk wa_ex_text ref_coins (\<lambda>l. Inr ()) ContractExecution wa_ex_grants (wa_ex_msg 10) ledger0"

lemma wa_ex_accepted: "fst wa_ex_accept = Inr AcceptDelete"
  by code_simp

theorem wasm_authz_accept_sound_witness: "\<exists>g \<in> set wa_ex_grants. g_Contract g = ''terp1c''"
proof -
  have "AcceptGrantedMessage ledger_sdk wa_ex_text ref_coins (\<lambda>l. Inr ()) ContractExecution wa_ex_grants (wa_ex_msg 10) ledger0
      = (Inr AcceptDelete, snd wa_ex_accept)"
    using wa_ex_accepted by (simp add: wa_ex_accept_def prod_eq_iff)
  from wasm_authz_accept_sound [OF this] show ?thesis by (auto simp: wa_ex_msg_def)
qed

section \<open>Code grants\<close>

lemma EqualFold_refl: "EqualFold J s s"
proof (induction "length s" arbitrary: s rule: less_induct)
  case less
  show ?case
  proof (cases "s = []")
    case False
    then have "EqualFold J (snd (DecodeRune s)) (snd (DecodeRune s))" using less DecodeRune_shorter by blast
    then show ?thesis by (subst EqualFold.simps) (simp add: same_rune_def)
  qed (simp add: EqualFold.simps)
qed

lemma acceptGrants_iff:
  "acceptGrants J gs checksum p = Inr True \<Longrightarrow> \<exists>g \<in> set gs. CodeGrant_Accept J g checksum p = Inr True"
  by (induction gs) (auto split: sum.splits if_splits)

text \<open>
  C26. A code upload is accepted only for a code whose checksum a grant names, up to the case
  folding of the comparison, or under the wildcard, and only with an instantiate permission no
  wider than the one of that grant.
\<close>

theorem wasm_store_code_accept_sound:
  assumes "StoreCodeAuthorization_Accept S J C grants (Some msg) w = (Inr True, w')"
  shows "\<exists>code checksum. unpackCode S C (sc_WASMByteCode msg) w = (Inr code, w') \<and> CreateChecksum C code = Inr checksum \<and>
    (\<exists>g \<in> set grants. (EqualFold J (CodeHash g) ''*'' \<or> EqualFold J (CodeHash g) checksum) \<and>
      (\<forall>p. cg_InstantiatePermission g = Some p \<longrightarrow>
         (\<exists>q. sc_InstantiatePermission msg = Some q \<and> IsSubset q p)))"
proof -
  obtain code checksum where c: "CreateChecksum C code = Inr checksum"
    "acceptGrants J grants checksum (sc_InstantiatePermission msg) = Inr True"
    "unpackCode S C (sc_WASMByteCode msg) w = (Inr code, w')"
    using assms by (auto simp: StoreCodeAuthorization_Accept_def split: prod.splits sum.splits)
  from acceptGrants_iff [OF c(2)] obtain g where "g \<in> set grants"
    "CodeGrant_Accept J g checksum (sc_InstantiatePermission msg) = Inr True" ..
  then have "\<exists>g \<in> set grants. (EqualFold J (CodeHash g) ''*'' \<or> EqualFold J (CodeHash g) checksum) \<and>
      (\<forall>p. cg_InstantiatePermission g = Some p \<longrightarrow> (\<exists>q. sc_InstantiatePermission msg = Some q \<and> IsSubset q p))"
    by (auto simp: CodeGrant_Accept_def CodehashWildcard_def split: if_splits option.splits)
  then show ?thesis using c(1,3) by blast
qed

text \<open>
  The comparison of a granted code hash with a checksum folds the raw bytes as if they were
  text: bytes that are no UTF-8 all compare equal, so a grant for one checksum also accepts
  another one.
\<close>

theorem wasm_code_hash_fold_collision:
  "CodeGrant_Accept J \<lparr>CodeHash = replicate 32 CHR 0xFF, cg_InstantiatePermission = None\<rparr> (replicate 32 CHR 0xFE) p
     = Inr True"
proof -
  have "EqualFold J (replicate n CHR 0xFF) (replicate n CHR 0xFE)" for n
  proof (induction n)
    case (Suc n)
    have d: "DecodeRune (replicate (Suc n) CHR 0xFF) = (65533, replicate n CHR 0xFF)"
      "DecodeRune (replicate (Suc n) CHR 0xFE) = (65533, replicate n CHR 0xFE)"
      by (auto split: list.splits)
    show ?case by (subst EqualFold.simps) (simp only: d, simp add: Suc same_rune_def)
  qed (simp add: EqualFold.simps)
  then show ?thesis by (simp add: CodeGrant_Accept_def)
qed

text \<open>
  A grant that restricts the instantiate permission panics, instead of refusing, on an upload
  without one.
\<close>

theorem wasm_store_code_nil_permission_panics:
  "is_panic (CodeGrant_Accept J \<lparr>CodeHash = checksum, cg_InstantiatePermission = Some p\<rparr> checksum None)"
  by (simp add: CodeGrant_Accept_def EqualFold_refl)

definition wa_ex_code :: code_ops where
  "wa_ex_code = \<lparr>IsGzip = (\<lambda>c. False), Uncompress = (\<lambda>c n. Inr c), UncompressGas = None, CreateChecksum = (\<lambda>c. Inr c)\<rparr>"

theorem wasm_store_code_accept_sound_witness:
  "\<exists>code checksum. CreateChecksum wa_ex_code code = Inr checksum \<and> EqualFold wa_ex_text ''abc'' checksum"
proof -
  have "fst (StoreCodeAuthorization_Accept ledger_sdk wa_ex_text wa_ex_code
      [\<lparr>CodeHash = ''abc'', cg_InstantiatePermission = None\<rparr>]
      (Some \<lparr>sc_Sender = ''alice'', sc_WASMByteCode = ''ABC'', sc_InstantiatePermission = None\<rparr>) ledger0) = Inr True"
    by code_simp
  then have "StoreCodeAuthorization_Accept ledger_sdk wa_ex_text wa_ex_code
      [\<lparr>CodeHash = ''abc'', cg_InstantiatePermission = None\<rparr>]
      (Some \<lparr>sc_Sender = ''alice'', sc_WASMByteCode = ''ABC'', sc_InstantiatePermission = None\<rparr>) ledger0 = (Inr True, 
      snd (StoreCodeAuthorization_Accept ledger_sdk wa_ex_text wa_ex_code
      [\<lparr>CodeHash = ''abc'', cg_InstantiatePermission = None\<rparr>]
      (Some \<lparr>sc_Sender = ''alice'', sc_WASMByteCode = ''ABC'', sc_InstantiatePermission = None\<rparr>) ledger0))"
    by (simp add: prod_eq_iff)
  from wasm_store_code_accept_sound [OF this] have
    "\<exists>code checksum. CreateChecksum wa_ex_code code = Inr checksum \<and> (EqualFold wa_ex_text ''abc'' ''*'' \<or> EqualFold wa_ex_text ''abc'' checksum)"
    by auto
  moreover have "\<not> EqualFold wa_ex_text ''abc'' ''*''" by code_simp
  ultimately show ?thesis by simp
qed

end
