(* ===== verification/Gas.thy ===== *)
theory Gas
  imports Prelude
begin

text \<open>
  Execution contexts of the SDK, as the modules that call contracts use them: a store, a gas meter
  and an event manager.  The gas meter is library code, so it is a record of functions with its
  documented behaviour as \<open>gas_laws\<close>; an exceeded limit is a panic with the value \<open>OutOfGas\<close>.
\<close>

record EventAttribute =
  ea_Key :: string
  ea_Value :: string
  ea_Index :: bool

record Event =
  ev_Type :: string
  ev_Attributes :: "EventAttribute list"

record ('s, 'g) gctx =
  gstore :: 's
  meter :: 'g
  evs :: "Event list"

definition NewEvent :: "string \<Rightarrow> (string \<times> string) list \<Rightarrow> Event" where
  "NewEvent ty attrs = \<lparr>ev_Type = ty, ev_Attributes = map (\<lambda>(k, v). \<lparr>ea_Key = k, ea_Value = v, ea_Index = False\<rparr>) attrs\<rparr>"

definition EmitEvents :: "Event list \<Rightarrow> ('s, 'g) gctx \<Rightarrow> ('s, 'g) gctx" where
  "EmitEvents es ctx = ctx\<lparr>evs := evs ctx @ es\<rparr>"

abbreviation OutOfGas :: error where "OutOfGas \<equiv> Panicked ''out of gas''"

record 'g gas_ops =
  NewGasMeter :: "u64 \<Rightarrow> 'g"
  MeterConsume :: "u64 \<Rightarrow> 'g \<Rightarrow> unit res \<times> 'g"
  GasConsumed :: "'g \<Rightarrow> u64"
  MeterLimit :: "'g \<Rightarrow> u64"

text \<open>
  A new meter has consumed nothing; consuming without a panic adds exactly the amount, and keeps
  the limit; a panic is the only other outcome; a meter past its limit stays past it;
  and an amount that fits below the limit can be consumed.
\<close>

definition gas_laws :: "'g gas_ops \<Rightarrow> bool" where
  "gas_laws G \<longleftrightarrow>
     (\<forall>n. GasConsumed G (NewGasMeter G n) = 0 \<and> MeterLimit G (NewGasMeter G n) = n) \<and>
     (\<forall>n m m'. MeterConsume G n m = (Inr (), m') \<longrightarrow>
        uint (GasConsumed G m') = uint (GasConsumed G m) + uint n \<and> MeterLimit G m' = MeterLimit G m) \<and>
     (\<forall>n m e m'. MeterConsume G n m = (Inl e, m') \<longrightarrow> is_panic (Inl e :: unit res)) \<and>
     (\<forall>n m m' k. MeterConsume G n m = (Inl OutOfGas, m') \<longrightarrow> \<not> is_ok (fst (MeterConsume G k m'))) \<and>
     (\<forall>n m. uint (GasConsumed G m) + uint n \<le> uint (MeterLimit G m) \<longrightarrow> is_ok (fst (MeterConsume G n m)))"

lemma gas_lawsD:
  assumes "gas_laws G"
  shows "GasConsumed G (NewGasMeter G n) = 0" and "MeterLimit G (NewGasMeter G n) = n"
    and "MeterConsume G n m = (Inr (), m') \<Longrightarrow> uint (GasConsumed G m') = uint (GasConsumed G m) + uint n"
    and "MeterConsume G n m = (Inr (), m') \<Longrightarrow> MeterLimit G m' = MeterLimit G m"
    and "MeterConsume G n m = (Inl e, m') \<Longrightarrow> is_panic (Inl e :: unit res)"
    and "MeterConsume G n m = (Inl OutOfGas, m') \<Longrightarrow> \<not> is_ok (fst (MeterConsume G k m'))"
    and "uint (GasConsumed G m) + uint n \<le> uint (MeterLimit G m) \<Longrightarrow> is_ok (fst (MeterConsume G n m))"
  using assms unfolding gas_laws_def by blast+

text \<open>An instance: the limit and what is consumed; the sum saturates.\<close>

definition ref_consume :: "u64 \<Rightarrow> u64 \<times> u64 \<Rightarrow> unit res \<times> (u64 \<times> u64)" where
  "ref_consume n m =
     (if 18446744073709551615 < uint (snd m) + uint n then (Inl (Panicked ''gas overflow''), (fst m, - 1))
      else if uint (fst m) < uint (snd m) + uint n then (Inl OutOfGas, (fst m, snd m + n))
      else (Inr (), (fst m, snd m + n)))"

definition ref_gas :: "(u64 \<times> u64) gas_ops" where
  "ref_gas = \<lparr>NewGasMeter = (\<lambda>n. (n, 0)), MeterConsume = ref_consume, GasConsumed = snd, MeterLimit = fst\<rparr>"

lemma u64_add_no_wrap: "\<not> 18446744073709551615 < uint a + uint b \<Longrightarrow> uint (a + b :: u64) = uint a + uint b"
  by (simp add: uint_word_ariths)

lemma ref_consume_ok: "ref_consume n m = (Inr (), m') \<Longrightarrow> uint (snd m') = uint (snd m) + uint n \<and> fst m' = fst m"
  by (auto simp: ref_consume_def u64_add_no_wrap split: if_splits)

lemma ref_consume_panic: "ref_consume n m = (Inl e, m') \<Longrightarrow> is_panic (Inl e :: unit res)"
  by (auto simp: ref_consume_def split: if_splits)

lemma ref_consume_past:
  assumes "ref_consume n m = (Inl OutOfGas, m')"
  shows "\<not> is_ok (fst (ref_consume k m'))"
proof -
  have *: "uint (fst m') < uint (snd m')"
    using assms by (auto simp: ref_consume_def u64_add_no_wrap split: if_splits)
  have "0 \<le> uint k" by simp
  with * have "uint (fst m') < uint (snd m') + uint k" by linarith
  then show ?thesis by (simp add: ref_consume_def)
qed

lemma ref_consume_fits:
  assumes "uint (snd m) + uint n \<le> uint (fst m)"
  shows "is_ok (fst (ref_consume n m))"
proof -
  have "uint (fst m) \<le> 18446744073709551615" using uint_lt2p [of "fst m"] by simp
  with assms show ?thesis by (simp add: ref_consume_def)
qed

lemma ref_gas_laws: "gas_laws ref_gas"
  unfolding gas_laws_def
  by (simp add: ref_gas_def ref_consume_ok ref_consume_panic ref_consume_past ref_consume_fits)

end
