(* ===== verification/Dispatcher.thy ===== *)
theory Dispatcher
  imports Gas Budget "HOL-Library.Char_ord" "HOL-Library.List_Lexorder"
begin

text \<open>
  The message dispatcher of \<open>x/wasm\<close> (\<open>keeper/msg_dispatcher.go\<close>): the sandbox in which the messages
  a contract returns are executed, with its gas limit, its events and the reply to the contract.
  The messenger and the reply entry point of the keeper are parameters, as they are in the code.
\<close>

section \<open>Messages and results\<close>

datatype 'm CosmosMsg = WasmMsg 'm | NativeMsg 'm

fun Wasm_set :: "'m CosmosMsg \<Rightarrow> bool" where
  "Wasm_set (WasmMsg m) = True"
| "Wasm_set (NativeMsg m) = False"

datatype ReplyOn = ReplySuccess | ReplyError | ReplyAlways | ReplyNever | ReplyOther string

record 'm SubMsg =
  sm_ID :: u64
  sm_Payload :: string
  sm_Msg :: "'m CosmosMsg"
  sm_GasLimit :: "u64 option"
  sm_ReplyOn :: ReplyOn

record MsgResponse =
  mr_TypeURL :: string
  mr_Value :: string

type_synonym WasmEvent = "string \<times> (string \<times> string) list"

datatype SubMsgResult =
  SubOk (so_Events: "WasmEvent list") (so_Data: "string option") (so_MsgResponses: "MsgResponse list")
| SubErr string

record Reply =
  rp_ID :: u64
  rp_Result :: SubMsgResult
  rp_Payload :: string

type_synonym dispatched = "Event list \<times> string list \<times> MsgResponse list list"

type_synonym ('s, 'g, 'm) messenger =
  "string \<Rightarrow> string \<Rightarrow> 'm CosmosMsg \<Rightarrow> ('s, 'g) gctx \<Rightarrow> dispatched res \<times> ('s, 'g) gctx"

type_synonym ('s, 'g) replyer =
  "string \<Rightarrow> Reply \<Rightarrow> ('s, 'g) gctx \<Rightarrow> string option res \<times> ('s, 'g) gctx"

text \<open>What the code asks of an error value; the printing of errors is library code.\<close>

record error_ops =
  IsSystemError :: "error \<Rightarrow> bool"
  IsDeterministicError :: "error \<Rightarrow> bool"
  ErrorText :: "error \<Rightarrow> string"
  RedactedText :: "string \<Rightarrow> nat \<Rightarrow> string"

fun ABCIInfo :: "error \<Rightarrow> string \<times> nat" where
  "ABCIInfo (Registered cs n) = (cs, n)"
| "ABCIInfo e = (''undefined'', 1)"

abbreviation DispErrInvalid :: error where "DispErrInvalid \<equiv> Registered ''wasm'' 14"

section \<open>Events and errors\<close>

definition redactError :: "error_ops \<Rightarrow> error \<Rightarrow> string" where
  "redactError E e =
     (if IsSystemError E e then ErrorText E e
      else if IsDeterministicError E e then ErrorText E e
      else (let (codespace, code) = ABCIInfo e in RedactedText E codespace code))"

fun filterEvents :: "Event list \<Rightarrow> Event list" where
  "filterEvents [] = []"
| "filterEvents (e # es) = (if ev_Type e \<noteq> ''message'' then e # filterEvents es else filterEvents es)"

definition sdkAttributesToWasmVMAttributes :: "EventAttribute list \<Rightarrow> (string \<times> string) list" where
  "sdkAttributesToWasmVMAttributes attrs = map (\<lambda>a. (ea_Key a, ea_Value a)) attrs"

definition sdkEventsToWasmVMEvents :: "Event list \<Rightarrow> WasmEvent list" where
  "sdkEventsToWasmVMEvents es = map (\<lambda>e. (ev_Type e, sdkAttributesToWasmVMAttributes (ev_Attributes e))) es"

text \<open>
  The attributes are sorted in place, by key and stably.  The events that were emitted share their
  attribute slices with the reply, so the emitted events are the sorted ones too.
\<close>

definition sortAttributes :: "Event \<Rightarrow> Event" where
  "sortAttributes e = e\<lparr>ev_Attributes := sort_key ea_Key (ev_Attributes e)\<rparr>"

section \<open>Dispatching\<close>

fun DispatchMessages ::
  "('s, 'g, 'm) messenger \<Rightarrow> string \<Rightarrow> string \<Rightarrow> 'm CosmosMsg list \<Rightarrow> ('s, 'g) gctx \<Rightarrow> unit res \<times> ('s, 'g) gctx" where
  "DispatchMessages D addr port [] ctx = (Inr (), ctx)"
| "DispatchMessages D addr port (msg # msgs) ctx =
     (case D addr port msg ctx of
        (Inl e, ctx') \<Rightarrow> (Inl e, ctx')
      | (Inr (events, _, _), ctx') \<Rightarrow> DispatchMessages D addr port msgs (ctx'\<lparr>evs := evs ctx' @ events\<rparr>))"

text \<open>
  The deferred function: \<open>p\<close> is the recovered panic, \<open>spent\<close> what the limited meter counted and \<open>m\<close>
  the meter of the caller.
\<close>

definition gas_recover :: "'g gas_ops \<Rightarrow> u64 \<Rightarrow> error \<Rightarrow> u64 \<Rightarrow> 'g \<Rightarrow> error \<times> 'g" where
  "gas_recover G gasLimit p spent m =
     (if p = OutOfGas
      then (case MeterConsume G gasLimit m of (Inl e, m') \<Rightarrow> (e, m') | (Inr _, m') \<Rightarrow> (ErrOutOfGas, m'))
      else (case MeterConsume G spent m of (Inl e, m') \<Rightarrow> (e, m') | (Inr _, m') \<Rightarrow> (p, m')))"

definition dispatchMsgWithGasLimit ::
  "'g gas_ops \<Rightarrow> ('s, 'g, 'm) messenger \<Rightarrow> string \<Rightarrow> string \<Rightarrow> 'm CosmosMsg \<Rightarrow> u64 \<Rightarrow> ('s, 'g) gctx \<Rightarrow>
     dispatched res \<times> ('s, 'g) gctx" where
  "dispatchMsgWithGasLimit G D addr port msg gasLimit ctx =
     (let (r, sub) = D addr port msg (ctx\<lparr>meter := NewGasMeter G gasLimit\<rparr>);
          spent = GasConsumed G (meter sub)
      in case r of
           Inl (Panicked p) \<Rightarrow>
             (let (e, m) = gas_recover G gasLimit (Panicked p) spent (meter ctx) in (Inl e, sub\<lparr>meter := m\<rparr>))
         | _ \<Rightarrow>
             (case MeterConsume G spent (meter ctx) of
                (Inl p, m) \<Rightarrow> (let (e, m') = gas_recover G gasLimit p spent m in (Inl e, sub\<lparr>meter := m'\<rparr>))
              | (Inr _, m) \<Rightarrow> (r, sub\<lparr>meter := m\<rparr>)))"

text \<open>One message of the loop: the choice of the meter, the sandbox, then the whole body.\<close>

definition submsg_execute ::
  "'g gas_ops \<Rightarrow> ('s, 'g, 'm) messenger \<Rightarrow> string \<Rightarrow> string \<Rightarrow> 'm SubMsg \<Rightarrow> ('s, 'g) gctx \<Rightarrow>
     dispatched res \<times> ('s, 'g) gctx" where
  "submsg_execute G D addr port msg subCtx =
     (let gasRemaining = MeterLimit G (meter subCtx) - GasConsumed G (meter subCtx)
      in case sm_GasLimit msg of
           Some l \<Rightarrow> if l < gasRemaining then dispatchMsgWithGasLimit G D addr port (sm_Msg msg) l subCtx
                     else D addr port (sm_Msg msg) subCtx
         | None \<Rightarrow> D addr port (sm_Msg msg) subCtx)"

definition submsg_sandbox ::
  "'g gas_ops \<Rightarrow> ('s, 'g, 'm) messenger \<Rightarrow> string \<Rightarrow> string \<Rightarrow> 'm SubMsg \<Rightarrow> ('s, 'g) gctx \<Rightarrow>
     dispatched res \<times> ('s, 'g) gctx" where
  "submsg_sandbox G D addr port msg ctx =
     (let (r, sub) = submsg_execute G D addr port msg (ctx\<lparr>evs := []\<rparr>)
      in case r of
           Inl e \<Rightarrow> (Inl e, ctx\<lparr>meter := meter sub\<rparr>)
         | Inr (events, data, resps) \<Rightarrow>
             (let filtered = filterEvents (evs sub @ events);
                  final = (if Wasm_set (sm_Msg msg) then map sortAttributes filtered else filtered)
              in (Inr (if Wasm_set (sm_Msg msg) then final else [], data, resps),
                  \<lparr>gstore = gstore sub, meter = meter sub, evs = evs ctx @ final\<rparr>)))"

definition submsg_result :: "error_ops \<Rightarrow> dispatched res \<Rightarrow> SubMsgResult" where
  "submsg_result E r =
     (case r of
        Inr (events, data, resps) \<Rightarrow>
          SubOk (sdkEventsToWasmVMEvents events) (case data of [] \<Rightarrow> None | d # _ \<Rightarrow> Some d) (concat resps)
      | Inl e \<Rightarrow> SubErr (redactError E e))"

definition dispatch_one ::
  "'g gas_ops \<Rightarrow> error_ops \<Rightarrow> ('s, 'g, 'm) messenger \<Rightarrow> ('s, 'g) replyer \<Rightarrow> string \<Rightarrow> string \<Rightarrow> 'm SubMsg \<Rightarrow>
     ('s, 'g) gctx \<Rightarrow> string option res \<times> ('s, 'g) gctx" where
  "dispatch_one G E D R addr port msg ctx =
     (if sm_ReplyOn msg \<notin> {ReplySuccess, ReplyError, ReplyAlways, ReplyNever} then (Inl DispErrInvalid, ctx)
      else let (r, ctx1) = submsg_sandbox G D addr port msg ctx in
        if is_panic r then (map_sum id (\<lambda>_. None) r, ctx1)
        else if sm_ReplyOn msg \<in> {ReplySuccess, ReplyNever} \<and> \<not> is_ok r then (map_sum id (\<lambda>_. None) r, ctx1)
        else if sm_ReplyOn msg = ReplyNever \<or> sm_ReplyOn msg = ReplyError \<and> is_ok r then (Inr None, ctx1)
        else R addr \<lparr>rp_ID = sm_ID msg, rp_Result = submsg_result E r, rp_Payload = sm_Payload msg\<rparr> ctx1)"

fun dispatch_loop ::
  "'g gas_ops \<Rightarrow> error_ops \<Rightarrow> ('s, 'g, 'm) messenger \<Rightarrow> ('s, 'g) replyer \<Rightarrow> string \<Rightarrow> string \<Rightarrow> 'm SubMsg list \<Rightarrow>
     string option \<Rightarrow> ('s, 'g) gctx \<Rightarrow> string option res \<times> ('s, 'g) gctx" where
  "dispatch_loop G E D R addr port [] rsp ctx = (Inr rsp, ctx)"
| "dispatch_loop G E D R addr port (msg # msgs) rsp ctx =
     (case dispatch_one G E D R addr port msg ctx of
        (Inl e, ctx') \<Rightarrow> (Inl e, ctx')
      | (Inr None, ctx') \<Rightarrow> dispatch_loop G E D R addr port msgs rsp ctx'
      | (Inr (Some d), ctx') \<Rightarrow> dispatch_loop G E D R addr port msgs (Some d) ctx')"

definition DispatchSubmessages ::
  "'g gas_ops \<Rightarrow> error_ops \<Rightarrow> ('s, 'g, 'm) messenger \<Rightarrow> ('s, 'g) replyer \<Rightarrow> string \<Rightarrow> string \<Rightarrow> 'm SubMsg list \<Rightarrow>
     ('s, 'g) gctx \<Rightarrow> string option res \<times> ('s, 'g) gctx" where
  "DispatchSubmessages G E D R addr port msgs ctx = dispatch_loop G E D R addr port msgs None ctx"


section \<open>Correctness\<close>

text \<open>
  What the sandbox does with a message, seen from the store: the messenger runs on the store of the
  caller, with a fresh event manager and some meter; success keeps its store, failure drops it.
\<close>

lemma limited_ok:
  assumes "dispatchMsgWithGasLimit G D addr port msg l ctx = (Inr x, ctx')"
  shows "\<exists>c'. D addr port msg (ctx\<lparr>meter := NewGasMeter G l\<rparr>) = (Inr x, c') \<and> gstore ctx' = gstore c'"
  using assms unfolding dispatchMsgWithGasLimit_def
  by (cases "D addr port msg (ctx\<lparr>meter := NewGasMeter G l\<rparr>)")
     (auto simp: Let_def split: sum.splits error.splits prod.splits)

lemma consume_cases:
  assumes "gas_laws G"
  obtains (ok) m' where "MeterConsume G n m = (Inr (), m')"
  | (panic) q m' where "MeterConsume G n m = (Inl (Panicked q), m')"
proof -
  obtain r m' where C: "MeterConsume G n m = (r, m')" by fastforce
  show thesis
  proof (cases r)
    case (Inl e)
    with gas_lawsD(5) [OF assms C [unfolded Inl]] C panic show thesis by (cases e) auto
  next
    case (Inr u)
    with C ok show thesis by simp
  qed
qed

lemma gas_recover_panic:
  assumes "gas_laws G" and C: "MeterConsume G n m0 = (Inl p, m)"
  shows "\<exists>q. fst (gas_recover G l p k m) = Panicked q"
proof (cases "p = OutOfGas")
  case True
  have "\<not> is_ok (fst (MeterConsume G l m))" by (rule gas_lawsD(6) [OF assms(1) C [unfolded True]])
  then show ?thesis
    using True by (cases rule: consume_cases [OF assms(1), of l m]) (simp_all add: gas_recover_def)
next
  case False
  obtain q where "p = Panicked q"
    using gas_lawsD(5) [OF assms] by (cases p) auto
  with False show ?thesis
    by (cases rule: consume_cases [OF assms(1), of k m]) (simp_all add: gas_recover_def)
qed

lemma limited_fails:
  assumes L: "gas_laws G" and lim: "dispatchMsgWithGasLimit G D addr port msg l ctx = (Inl e, ctx')"
    and np: "\<not> is_panic (Inl e :: unit res)"
  shows "\<exists>e' c'. D addr port msg (ctx\<lparr>meter := NewGasMeter G l\<rparr>) = (Inl e', c')"
proof (rule ccontr)
  assume "\<not> ?thesis"
  then obtain y c' where D: "D addr port msg (ctx\<lparr>meter := NewGasMeter G l\<rparr>) = (Inr y, c')"
    by (metis old.sum.exhaust surj_pair)
  obtain r m where C: "MeterConsume G (GasConsumed G (meter c')) (meter ctx) = (r, m)" by fastforce
  show False
  proof (cases r)
    case (Inl p)
    then have "e = fst (gas_recover G l p (GasConsumed G (meter c')) m)"
      using lim C by (simp add: dispatchMsgWithGasLimit_def D Let_def split_beta)
    with gas_recover_panic [OF L C [unfolded Inl], of l "GasConsumed G (meter c')"] np show False by auto
  next
    case (Inr u)
    with lim C show False by (simp add: dispatchMsgWithGasLimit_def D Let_def split_beta)
  qed
qed

text \<open>What the sandbox does with a message is a run of the messenger on the caller's store.\<close>

lemma sandbox_runs:
  assumes L: "gas_laws G" and sb: "submsg_sandbox G D addr port msg ctx = (r, ctx')" and np: "\<not> is_panic r"
  shows "\<exists>m r' c'. D addr port (sm_Msg msg) \<lparr>gstore = gstore ctx, meter = m, evs = []\<rparr> = (r', c') \<and>
           (is_ok r' \<longleftrightarrow> is_ok r) \<and> gstore ctx' = (if is_ok r then gstore c' else gstore ctx)"
proof -
  let ?sub = "ctx\<lparr>evs := []\<rparr>"
  have upd: "?sub\<lparr>meter := m\<rparr> = \<lparr>gstore = gstore ctx, meter = m, evs = []\<rparr>"
            "?sub = \<lparr>gstore = gstore ctx, meter = meter ctx, evs = []\<rparr>" for m
    by (cases ctx; simp)+
  obtain r1 sub where rs: "submsg_execute G D addr port msg ?sub = (r1, sub)" by fastforce
  have r1: "is_ok r1 = is_ok r" "gstore ctx' = (if is_ok r then gstore sub else gstore ctx)" "\<not> is_panic r1"
    using sb rs np by (auto simp: submsg_sandbox_def Let_def is_panic_def split: sum.splits)
  consider (direct) "D addr port (sm_Msg msg) ?sub = (r1, sub)"
    | (limited) l where "dispatchMsgWithGasLimit G D addr port (sm_Msg msg) l ?sub = (r1, sub)"
    using rs by (auto simp: submsg_execute_def Let_def split: option.splits if_splits)
  then show ?thesis
  proof cases
    case direct
    from direct [unfolded upd(2)] r1(1,2) show ?thesis by (intro exI conjI)
  next
    case limited
    show ?thesis
    proof (cases r1)
      case (Inr y)
      from limited_ok [OF limited [unfolded Inr]] obtain c' where
        "D addr port (sm_Msg msg) \<lparr>gstore = gstore ctx, meter = NewGasMeter G l, evs = []\<rparr> = (Inr y, c')"
        "gstore sub = gstore c'"
        unfolding upd(1) by (elim exE conjE)
      moreover from r1(1,2) \<open>gstore sub = gstore c'\<close> Inr
      have "is_ok (Inr y :: dispatched res) = is_ok r" "gstore ctx' = (if is_ok r then gstore c' else gstore ctx)" by simp_all
      ultimately show ?thesis by (intro exI conjI)
    next
      case (Inl e)
      have "\<not> is_panic (Inl e :: unit res)" using r1(3) Inl by (cases e) auto
      from limited_fails [OF L limited [unfolded Inl] this] obtain e' c' where
        "D addr port (sm_Msg msg) \<lparr>gstore = gstore ctx, meter = NewGasMeter G l, evs = []\<rparr> = (Inl e', c')"
        unfolding upd(1) by (elim exE)
      moreover from r1(1,2) Inl
      have "is_ok (Inl e' :: dispatched res) = is_ok r" "gstore ctx' = (if is_ok r then gstore c' else gstore ctx)" by simp_all
      ultimately show ?thesis by (intro exI conjI)
    qed
  qed
qed

text \<open>
  The abstract machine of sub-messages: transactions on the store.  A message commits or is undone;
  a failure is survived only by a message that asks for a reply on errors; and a reply runs on the
  store as the commit or the undoing left it.
\<close>

inductive submsg_tx ::
  "('s, 'g, 'm) messenger \<Rightarrow> ('s, 'g) replyer \<Rightarrow> string \<Rightarrow> string \<Rightarrow> 's \<Rightarrow> 'm SubMsg \<Rightarrow> 's \<Rightarrow> bool"
  for D R addr port where
  tx_commit: "D addr port (sm_Msg msg) \<lparr>gstore = s, meter = m, evs = []\<rparr> = (Inr y, c') \<Longrightarrow>
     sm_ReplyOn msg \<in> {ReplyNever, ReplyError} \<Longrightarrow> submsg_tx D R addr port s msg (gstore c')"
| tx_commit_reply: "D addr port (sm_Msg msg) \<lparr>gstore = s, meter = m, evs = []\<rparr> = (Inr y, c') \<Longrightarrow>
     sm_ReplyOn msg \<in> {ReplySuccess, ReplyAlways} \<Longrightarrow>
     gstore c1 = gstore c' \<Longrightarrow> rp_ID rep = sm_ID msg \<Longrightarrow> rp_Payload rep = sm_Payload msg \<Longrightarrow>
     rp_Result rep = SubOk es d rs \<Longrightarrow> R addr rep c1 = (Inr x, c2) \<Longrightarrow> submsg_tx D R addr port s msg (gstore c2)"
| tx_undo_reply: "D addr port (sm_Msg msg) \<lparr>gstore = s, meter = m, evs = []\<rparr> = (Inl e, c') \<Longrightarrow>
     sm_ReplyOn msg \<in> {ReplyError, ReplyAlways} \<Longrightarrow>
     gstore c1 = s \<Longrightarrow> rp_ID rep = sm_ID msg \<Longrightarrow> rp_Payload rep = sm_Payload msg \<Longrightarrow>
     rp_Result rep = SubErr t \<Longrightarrow> R addr rep c1 = (Inr x, c2) \<Longrightarrow> submsg_tx D R addr port s msg (gstore c2)"

lemma dispatch_one_tx:
  assumes L: "gas_laws G" and one: "dispatch_one G E D R addr port msg ctx = (Inr x, ctx')"
  shows "submsg_tx D R addr port (gstore ctx) msg (gstore ctx')"
proof -
  obtain r c1 where sb: "submsg_sandbox G D addr port msg ctx = (r, c1)" by fastforce
  define rep where "rep = \<lparr>rp_ID = sm_ID msg, rp_Result = submsg_result E r, rp_Payload = sm_Payload msg\<rparr>"
  have valid: "sm_ReplyOn msg \<in> {ReplySuccess, ReplyError, ReplyAlways, ReplyNever}"
  proof (rule ccontr)
    assume "\<not> ?thesis"
    then have "dispatch_one G E D R addr port msg ctx = (Inl DispErrInvalid, ctx)"
      unfolding dispatch_one_def by (rule if_P)
    with one show False by simp
  qed
  have eq: "(if is_panic r then (map_sum id (\<lambda>_. None) r, c1)
        else if sm_ReplyOn msg \<in> {ReplySuccess, ReplyNever} \<and> \<not> is_ok r then (map_sum id (\<lambda>_. None) r, c1)
        else if sm_ReplyOn msg = ReplyNever \<or> sm_ReplyOn msg = ReplyError \<and> is_ok r then (Inr None, c1)
        else R addr rep c1) = (Inr x, ctx')"
    using one unfolding dispatch_one_def sb rep_def if_not_P [OF not_not [THEN iffD2, OF valid]]
    by (simp only: Let_def prod.case)
  then have np: "\<not> is_panic r" by (cases r) auto
  obtain m r' c' where D: "D addr port (sm_Msg msg) \<lparr>gstore = gstore ctx, meter = m, evs = []\<rparr> = (r', c')"
    and r': "is_ok r' \<longleftrightarrow> is_ok r" and c1: "gstore c1 = (if is_ok r then gstore c' else gstore ctx)"
    using sandbox_runs [OF L sb np] by (elim exE conjE)
  show ?thesis
  proof (cases r)
    case (Inl e)
    obtain e' where e': "r' = Inl e'" using r' Inl by (cases r') auto
    have ea: "sm_ReplyOn msg \<in> {ReplyError, ReplyAlways}" and R: "R addr rep c1 = (Inr x, ctx')"
      using eq valid Inl by (auto split: if_splits)
    have rr: "rp_Result rep = SubErr (redactError E e)"
      by (simp add: rep_def submsg_result_def Inl)
    show ?thesis
      by (rule tx_undo_reply [where R = R and D = D and addr = addr and port = port, OF D [unfolded e'] ea _ _ _ rr R])
         (simp_all add: rep_def c1 Inl)
  next
    case (Inr y)
    obtain z where z: "r' = Inr z" using r' Inr by (cases r') auto
    have c': "gstore c1 = gstore c'" using c1 by (simp add: Inr)
    show ?thesis
    proof (cases "sm_ReplyOn msg \<in> {ReplyNever, ReplyError}")
      case True
      then have "ctx' = c1" using eq Inr by (auto split: if_splits)
      then show ?thesis
        using tx_commit [where D = D and addr = addr and port = port, OF D [unfolded z] True] c' by simp
    next
      case False
      then have sa: "sm_ReplyOn msg \<in> {ReplySuccess, ReplyAlways}" using valid by blast
      have R: "R addr rep c1 = (Inr x, ctx')" using eq Inr False by (auto split: if_splits)
      obtain es d rs where rr: "rp_Result rep = SubOk es d rs"
        by (cases y) (auto simp: rep_def submsg_result_def Inr)
      show ?thesis
        by (rule tx_commit_reply [where R = R and D = D and addr = addr and port = port, OF D [unfolded z] sa c' _ _ rr R])
           (simp_all add: rep_def)
    qed
  qed
qed

lemma dispatch_loop_run:
  "gas_laws G \<Longrightarrow> dispatch_loop G E D R addr port msgs rsp ctx = (Inr rsp', ctx') \<Longrightarrow>
   run_of (submsg_tx D R addr port) (gstore ctx) msgs (gstore ctx')"
proof (induction msgs arbitrary: rsp ctx)
  case Nil
  then show ?case by (simp add: run_done)
next
  case (Cons msg msgs)
  obtain r c1 where one: "dispatch_one G E D R addr port msg ctx = (r, c1)" by fastforce
  with Cons.prems(2) obtain x where r: "r = Inr x" by (cases r) auto
  have "\<exists>rsp1. dispatch_loop G E D R addr port msgs rsp1 c1 = (Inr rsp', ctx')"
    using Cons.prems(2) one r by (cases x) auto
  then obtain rsp1 where "dispatch_loop G E D R addr port msgs rsp1 c1 = (Inr rsp', ctx')" ..
  from run_step [OF dispatch_one_tx [OF Cons.prems(1) one [unfolded r]] Cons.IH [OF Cons.prems(1) this]] show ?case .
qed


text \<open>
  A computation that respects its meter: when it returns, the meter is not past its limit, and the
  limit is the one it was given.
\<close>

definition within_limit :: "'g gas_ops \<Rightarrow> ('s, 'g) gctx \<Rightarrow> bool" where
  "within_limit G c \<longleftrightarrow> GasConsumed G (meter c) \<le> MeterLimit G (meter c)"

definition respects_meter :: "'g gas_ops \<Rightarrow> (('s, 'g) gctx \<Rightarrow> 'a res \<times> ('s, 'g) gctx) \<Rightarrow> bool" where
  "respects_meter G f \<longleftrightarrow>
     (\<forall>c r c'. within_limit G c \<longrightarrow> f c = (r, c') \<longrightarrow> \<not> is_panic r \<longrightarrow>
        within_limit G c' \<and> MeterLimit G (meter c') = MeterLimit G (meter c))"

lemma respects_meterD:
  assumes "respects_meter G f" and "f c = (r, c')" and "\<not> is_panic r" and "within_limit G c"
  shows "within_limit G c'" and "MeterLimit G (meter c') = MeterLimit G (meter c)"
  using assms unfolding respects_meter_def by blast+

definition charges_at_most :: "'g gas_ops \<Rightarrow> int \<Rightarrow> (('s, 'g) gctx \<Rightarrow> 'a res \<times> ('s, 'g) gctx) \<Rightarrow> bool" where
  "charges_at_most G k f \<longleftrightarrow>
     (\<forall>c x c'. f c = (Inr x, c') \<longrightarrow> uint (GasConsumed G (meter c')) \<le> uint (GasConsumed G (meter c)) + k)"

lemma limited_charge:
  assumes L: "gas_laws G" and D: "respects_meter G (D addr port msg)"
    and lim: "dispatchMsgWithGasLimit G D addr port msg l ctx = (r, ctx')" and np: "\<not> is_panic r"
  shows "uint (GasConsumed G (meter ctx')) \<le> uint (GasConsumed G (meter ctx)) + uint l \<and>
         MeterLimit G (meter ctx') = MeterLimit G (meter ctx)"
proof -
  let ?c0 = "ctx\<lparr>meter := NewGasMeter G l\<rparr>"
  obtain r0 sub where run: "D addr port msg ?c0 = (r0, sub)" by fastforce
  have w0: "within_limit G ?c0" by (simp add: within_limit_def gas_lawsD(1,2) [OF L])
  show ?thesis
  proof (cases "is_panic r0")
    case True
    then obtain p where r0: "r0 = Inl (Panicked p)" by (auto simp: is_panic_def split: sum.splits error.splits)
    define spent where "spent = GasConsumed G (meter sub)"
    have eqs: "r = Inl (fst (gas_recover G l (Panicked p) spent (meter ctx)))"
              "meter ctx' = snd (gas_recover G l (Panicked p) spent (meter ctx))"
      using lim by (auto simp: dispatchMsgWithGasLimit_def run r0 Let_def spent_def split_beta)
    have oog: "Panicked p = OutOfGas"
    proof (rule ccontr)
      assume "Panicked p \<noteq> OutOfGas"
      then have "is_panic r"
        by (cases rule: consume_cases [OF L, of spent "meter ctx"]) (simp_all add: eqs(1) gas_recover_def)
      with np show False ..
    qed
    show ?thesis
    proof (cases rule: consume_cases [OF L, of l "meter ctx", case_names ok panic])
      case (ok m')
      with eqs(2) oog have "meter ctx' = m'" by (simp add: gas_recover_def)
      with gas_lawsD(3,4) [OF L ok] show ?thesis by simp
    next
      case (panic q m')
      with eqs(1) oog np show ?thesis by (simp add: gas_recover_def)
    qed
  next
    case False
    define spent where "spent = GasConsumed G (meter sub)"
    have "within_limit G sub" "MeterLimit G (meter sub) = l"
      using respects_meterD [OF D run False w0] by (simp_all add: gas_lawsD(2) [OF L])
    then have spent: "uint spent \<le> uint l" by (simp add: within_limit_def spent_def word_le_def)
    have step: "(r, ctx') = (case MeterConsume G spent (meter ctx) of
                (Inl p, m) \<Rightarrow> (let (e, m') = gas_recover G l p spent m in (Inl e, sub\<lparr>meter := m'\<rparr>))
              | (Inr _, m) \<Rightarrow> (r0, sub\<lparr>meter := m\<rparr>))"
      unfolding spent_def lim [symmetric] dispatchMsgWithGasLimit_def run
      using False by (cases r0) (auto simp: Let_def split: error.splits)
    show ?thesis
    proof (cases rule: consume_cases [OF L, of spent "meter ctx", case_names ok panic])
      case (ok m')
      with step have "meter ctx' = m'" by simp
      with gas_lawsD(3,4) [OF L ok] spent show ?thesis by simp
    next
      case (panic q m')
      from gas_recover_panic [OF L panic] obtain q' where "fst (gas_recover G l (Panicked q) spent m') = Panicked q'" by blast
      with step panic np show ?thesis by (simp add: split_beta)
    qed
  qed
qed

text \<open>
  A message that has a gas limit never costs its caller more than the limit, also when the limit is
  not below what the caller has left and no meter of its own is made for it.
\<close>

lemma sandbox_charge:
  assumes L: "gas_laws G" and D: "respects_meter G (D addr port (sm_Msg msg))" and w: "within_limit G ctx"
    and lim: "sm_GasLimit msg = Some l"
    and sb: "submsg_sandbox G D addr port msg ctx = (r, ctx')" and np: "\<not> is_panic r"
  shows "uint (GasConsumed G (meter ctx')) \<le> uint (GasConsumed G (meter ctx)) + uint l"
    and "within_limit G ctx'" and "MeterLimit G (meter ctx') = MeterLimit G (meter ctx)"
proof -
  let ?sub = "ctx\<lparr>evs := []\<rparr>" and ?rem = "MeterLimit G (meter ctx) - GasConsumed G (meter ctx)"
  have rem: "uint ?rem = uint (MeterLimit G (meter ctx)) - uint (GasConsumed G (meter ctx))"
    using w by (simp add: within_limit_def uint_minus_simple_alt [symmetric] word_le_def uint_sub_if')
  obtain r1 sub where ex: "submsg_execute G D addr port msg ?sub = (r1, sub)" by fastforce
  then have rs: "(if l < ?rem then dispatchMsgWithGasLimit G D addr port (sm_Msg msg) l ?sub
                            else D addr port (sm_Msg msg) ?sub) = (r1, sub)" by (simp add: submsg_execute_def Let_def lim)
  have m: "meter ctx' = meter sub" and np1: "\<not> is_panic r1"
    using sb ex np by (auto simp: submsg_sandbox_def Let_def is_panic_def split: sum.splits)
  have "uint (GasConsumed G (meter sub)) \<le> uint (GasConsumed G (meter ctx)) + uint l \<and> within_limit G sub \<and>
        MeterLimit G (meter sub) = MeterLimit G (meter ctx)"
  proof (cases "l < ?rem")
    case True
    with rs have "dispatchMsgWithGasLimit G D addr port (sm_Msg msg) l ?sub = (r1, sub)" by simp
    from limited_charge [OF L D this np1]
    have *: "uint (GasConsumed G (meter sub)) \<le> uint (GasConsumed G (meter ctx)) + uint l"
        "MeterLimit G (meter sub) = MeterLimit G (meter ctx)" by simp_all
    from True have "uint l < uint ?rem" by (simp add: word_less_def)
    with * rem show ?thesis by (simp add: within_limit_def word_le_def)
  next
    case False
    with rs have run: "D addr port (sm_Msg msg) ?sub = (r1, sub)" by simp
    have "within_limit G ?sub" using w by (simp add: within_limit_def)
    note * = respects_meterD [OF D run np1 this]
    from False have "uint ?rem \<le> uint l" by (simp add: word_less_def)
    with * rem show ?thesis by (simp add: within_limit_def word_le_def)
  qed
  then show "uint (GasConsumed G (meter ctx')) \<le> uint (GasConsumed G (meter ctx)) + uint l"
    and "within_limit G ctx'" and "MeterLimit G (meter ctx') = MeterLimit G (meter ctx)"
    unfolding within_limit_def m by blast+
qed

lemma dispatch_one_charge:
  assumes L: "gas_laws G" and D: "respects_meter G (D addr port (sm_Msg msg))"
    and R: "\<And>rep. respects_meter G (R addr rep)"
    and cost: "\<And>rep. charges_at_most G k (R addr rep)"
    and k: "0 \<le> k" and w: "within_limit G ctx" and lim: "sm_GasLimit msg = Some l"
    and one: "dispatch_one G E D R addr port msg ctx = (Inr x, ctx')"
  shows "uint (GasConsumed G (meter ctx')) \<le> uint (GasConsumed G (meter ctx)) + uint l + k \<and> within_limit G ctx'"
proof -
  obtain r c1 where sb: "submsg_sandbox G D addr port msg ctx = (r, c1)" by fastforce
  have cases: "\<not> is_panic r \<and> (ctx' = c1 \<or> (\<exists>rep. R addr rep c1 = (Inr x, ctx')))"
    using one unfolding dispatch_one_def sb by (cases r) (auto simp: Let_def split: if_splits)
  note c1 = sandbox_charge [OF L D w lim sb conjunct1 [OF cases]]
  from conjunct2 [OF cases] show ?thesis
  proof
    assume "ctx' = c1"
    with c1 k show ?thesis by simp
  next
    assume "\<exists>rep. R addr rep c1 = (Inr x, ctx')"
    then obtain rep where run: "R addr rep c1 = (Inr x, ctx')" ..
    from cost [of rep] run c1(1) have "uint (GasConsumed G (meter ctx')) \<le> uint (GasConsumed G (meter ctx)) + uint l + k"
      unfolding charges_at_most_def by fastforce
    moreover have "within_limit G ctx'" by (rule respects_meterD(1) [OF R run _ c1(2)]) simp
    ultimately show ?thesis ..
  qed
qed

lemma dispatch_loop_charge:
  assumes L: "gas_laws G" and D: "\<And>m. respects_meter G (D addr port m)"
    and R: "\<And>rep. respects_meter G (R addr rep)"
    and cost: "\<And>rep. charges_at_most G k (R addr rep)"
    and k: "0 \<le> k"
  shows "within_limit G ctx \<Longrightarrow> list_all (\<lambda>m. sm_GasLimit m \<noteq> None) msgs \<Longrightarrow>
    dispatch_loop G E D R addr port msgs rsp ctx = (Inr rsp', ctx') \<Longrightarrow>
    uint (GasConsumed G (meter ctx')) \<le> uint (GasConsumed G (meter ctx)) + sum_list (map (\<lambda>m. uint (the (sm_GasLimit m)) + k) msgs)"
proof (induction msgs arbitrary: rsp ctx)
  case Nil
  then show ?case by simp
next
  case (Cons msg msgs)
  obtain r c1 where one: "dispatch_one G E D R addr port msg ctx = (r, c1)" by fastforce
  with Cons.prems(3) obtain x where r: "r = Inr x" by (cases r) auto
  obtain l where l: "sm_GasLimit msg = Some l" using Cons.prems(2) by auto
  note c1 = dispatch_one_charge [where D = D and R = R and addr = addr and port = port, OF L D R cost k Cons.prems(1) l one [unfolded r]]
  have "\<exists>rsp1. dispatch_loop G E D R addr port msgs rsp1 c1 = (Inr rsp', ctx')"
    using Cons.prems(3) one r by (cases x) auto
  then obtain rsp1 where "dispatch_loop G E D R addr port msgs rsp1 c1 = (Inr rsp', ctx')" ..
  from Cons.IH [OF _ _ this] c1 Cons.prems(2) l show ?case by simp
qed

text \<open>Reports of a failure that the redaction makes equal.\<close>

definition redactable :: "error_ops \<Rightarrow> error \<Rightarrow> bool" where
  "redactable E e \<longleftrightarrow> \<not> IsSystemError E e \<and> \<not> IsDeterministicError E e \<and> \<not> is_panic (Inl e :: unit res)"

definition same_report :: "error_ops \<Rightarrow> 'a res \<Rightarrow> 'a res \<Rightarrow> bool" where
  "same_report E r1 r2 \<longleftrightarrow>
     (case (r1, r2) of
        (Inl e1, Inl e2) \<Rightarrow> e1 = e2 \<or> redactable E e1 \<and> redactable E e2 \<and> ABCIInfo e1 = ABCIInfo e2
      | _ \<Rightarrow> r1 = r2)"

lemma same_report_refl [simp]: "same_report E r r"
  by (cases r) (simp_all add: same_report_def)

lemma same_report_ok [simp]: "same_report E (Inr x) r \<longleftrightarrow> r = Inr x" "same_report E r (Inr x) \<longleftrightarrow> r = Inr x"
  by (cases r; auto simp: same_report_def)+

lemma same_report_panic: "same_report E r1 r2 \<Longrightarrow> is_panic r1 \<or> is_panic r2 \<Longrightarrow> r1 = r2"
  by (cases r1; cases r2) (auto simp: same_report_def redactable_def is_panic_def split: error.splits)

lemma same_report_is_ok: "same_report E r1 r2 \<Longrightarrow> is_ok r1 = is_ok r2"
  by (cases r1; cases r2) (auto simp: same_report_def)

lemma same_report_result: "same_report E r1 r2 \<Longrightarrow> submsg_result E r1 = submsg_result E r2"
  by (cases r1; cases r2) (auto simp: same_report_def submsg_result_def redactError_def redactable_def)

lemma same_report_map: "same_report E r1 r2 \<Longrightarrow> same_report E (map_sum id f r1) (map_sum id f r2)"
  by (cases r1; cases r2) (auto simp: same_report_def)

definition same_run :: "error_ops \<Rightarrow> 'a res \<times> 'c \<Rightarrow> 'a res \<times> 'c \<Rightarrow> bool" where
  "same_run E p q \<longleftrightarrow> same_report E (fst p) (fst q) \<and> snd p = snd q"

lemma limited_same:
  assumes "\<And>c. same_run E (D1 addr port m c) (D2 addr port m c)"
  shows "same_run E (dispatchMsgWithGasLimit G D1 addr port m l ctx) (dispatchMsgWithGasLimit G D2 addr port m l ctx)"
proof -
  let ?c = "ctx\<lparr>meter := NewGasMeter G l\<rparr>"
  obtain r1 s where 1: "D1 addr port m ?c = (r1, s)" by fastforce
  obtain r2 where 2: "D2 addr port m ?c = (r2, s)" and sr: "same_report E r1 r2"
    using assms [of ?c] 1 by (cases "D2 addr port m ?c") (simp add: same_run_def)
  show ?thesis
  proof (cases "is_panic r1 \<or> is_panic r2")
    case True
    with same_report_panic [OF sr] 1 2 show ?thesis by (simp add: dispatchMsgWithGasLimit_def same_run_def)
  next
    case False
    have nonpanic: "dispatchMsgWithGasLimit G D addr port m l ctx =
        (case MeterConsume G (GasConsumed G (meter s)) (meter ctx) of
                (Inl p, m) \<Rightarrow> (let (e, m') = gas_recover G l p (GasConsumed G (meter s)) m in (Inl e, s\<lparr>meter := m'\<rparr>))
              | (Inr _, m) \<Rightarrow> (r, s\<lparr>meter := m\<rparr>))"
      if "D addr port m ?c = (r, s)" and "\<not> is_panic r" for D r
      unfolding dispatchMsgWithGasLimit_def that(1) using that(2) by (cases r) (auto simp: Let_def split: error.splits)
    from False sr show ?thesis
      by (simp add: nonpanic [of D1, OF 1] nonpanic [of D2, OF 2] same_run_def split: sum.split prod.split)
  qed
qed

lemma sandbox_same:
  assumes "\<And>c. same_run E (D1 addr port (sm_Msg msg) c) (D2 addr port (sm_Msg msg) c)"
  shows "same_run E (submsg_sandbox G D1 addr port msg ctx) (submsg_sandbox G D2 addr port msg ctx)"
proof -
  let ?f = "\<lambda>D. submsg_execute G D addr port msg (ctx\<lparr>evs := []\<rparr>)"
  have "same_run E (?f D1) (?f D2)"
    using assms limited_same [of E D1 addr port "sm_Msg msg" D2, OF assms]
    by (simp add: submsg_execute_def Let_def split: option.split)
  then obtain r1 r2 s where f: "?f D1 = (r1, s)" "?f D2 = (r2, s)" and sr: "same_report E r1 r2"
    by (cases "?f D1"; cases "?f D2") (simp add: same_run_def)
  show ?thesis
  proof (cases r1)
    case (Inl e1)
    then obtain e2 where "r2 = Inl e2" using same_report_is_ok [OF sr] by (cases r2) auto
    with Inl sr f show ?thesis
      by (simp add: submsg_sandbox_def same_run_def same_report_def)
  next
    case (Inr y)
    with sr f show ?thesis by (simp add: submsg_sandbox_def same_run_def)
  qed
qed


lemma dispatch_one_same:
  assumes "\<And>c. same_run E (D1 addr port (sm_Msg msg) c) (D2 addr port (sm_Msg msg) c)"
  shows "same_run E (dispatch_one G E D1 R addr port msg ctx) (dispatch_one G E D2 R addr port msg ctx)"
proof -
  obtain r1 r2 s where sb: "submsg_sandbox G D1 addr port msg ctx = (r1, s)" "submsg_sandbox G D2 addr port msg ctx = (r2, s)"
    and sr: "same_report E r1 r2"
    using sandbox_same [where E = E and ?D1.0 = D1 and ?D2.0 = D2 and addr = addr and port = port and G = G and msg = msg and ctx = ctx, OF assms]
    by (cases "submsg_sandbox G D1 addr port msg ctx"; cases "submsg_sandbox G D2 addr port msg ctx") (simp add: same_run_def)
  have pan: "is_panic r1 = is_panic r2" using same_report_panic [OF sr] by blast
  show ?thesis
    unfolding dispatch_one_def sb Let_def prod.case pan same_report_is_ok [OF sr] same_report_result [OF sr]
    using same_report_map [OF sr, of "\<lambda>_. None :: string option"] by (simp add: same_run_def)
qed

lemma dispatch_loop_same:
  assumes "\<And>m c. same_run E (D1 addr port m c) (D2 addr port m c)"
  shows "same_run E (dispatch_loop G E D1 R addr port msgs rsp ctx) (dispatch_loop G E D2 R addr port msgs rsp ctx)"
proof (induction msgs arbitrary: rsp ctx)
  case Nil
  then show ?case by (simp add: same_run_def)
next
  case (Cons msg msgs)
  obtain r1 r2 s where one: "dispatch_one G E D1 R addr port msg ctx = (r1, s)" "dispatch_one G E D2 R addr port msg ctx = (r2, s)"
    and sr: "same_report E r1 r2"
    using dispatch_one_same [where E = E and ?D1.0 = D1 and ?D2.0 = D2 and R = R and addr = addr and port = port and G = G and msg = msg and ctx = ctx, OF assms]
    by (cases "dispatch_one G E D1 R addr port msg ctx"; cases "dispatch_one G E D2 R addr port msg ctx") (simp add: same_run_def)
  show ?case
  proof (cases r1)
    case (Inl e1)
    then obtain e2 where "r2 = Inl e2" using same_report_is_ok [OF sr] by (cases r2) auto
    with Inl sr one show ?thesis by (simp add: same_run_def same_report_def)
  next
    case (Inr y)
    with sr one Cons.IH show ?thesis by (cases y) simp_all
  qed
qed


section \<open>The properties\<close>

text \<open>
  C4. Sub-messages are transactions: when dispatching a list of them succeeds, the store went
  through one transaction per message, in order, where a message that failed left no trace in the
  store, was one that asks for a reply on errors, and had its reply executed on the store it found.
\<close>

theorem disp_refines_transactions:
  assumes "gas_laws G"
    and "DispatchSubmessages G E D R addr port msgs ctx = (Inr rsp, ctx')"
  shows "run_of (submsg_tx D R addr port) (gstore ctx) msgs (gstore ctx')"
  by (rule dispatch_loop_run [where E = E, OF assms(1) assms(2) [unfolded DispatchSubmessages_def]])

text \<open>
  C16. Dispatching sub-messages that all carry a gas limit costs the caller at most the sum of the
  limits and of what the replies cost, provided the messages and replies respect the meter they are
  given; this also covers messages that run out of gas and are answered by a reply.
\<close>

theorem disp_gas_bounded:
  assumes "gas_laws G" and "\<And>m. respects_meter G (D addr port m)" and "\<And>rep. respects_meter G (R addr rep)"
    and "\<And>rep. charges_at_most G k (R addr rep)" and "0 \<le> k"
    and "GasConsumed G (meter ctx) \<le> MeterLimit G (meter ctx)" and "list_all (\<lambda>m. sm_GasLimit m \<noteq> None) msgs"
    and "DispatchSubmessages G E D R addr port msgs ctx = (Inr rsp, ctx')"
  shows "uint (GasConsumed G (meter ctx')) \<le>
         uint (GasConsumed G (meter ctx)) + sum_list (map (\<lambda>m. uint (the (sm_GasLimit m)) + k) msgs)"
proof -
  have "within_limit G ctx" using assms(6) by (simp add: within_limit_def)
  from dispatch_loop_charge [where D = D and R = R and addr = addr and port = port, OF assms(1-5) this assms(7)
    assms(8) [unfolded DispatchSubmessages_def]]
  show ?thesis .
qed

text \<open>
  The text of an error that is neither a system error nor marked deterministic has no influence:
  two messengers that differ only in such texts, with the same codespace and code, lead to the same
  store, events and gas, and to results that differ at most in such a text.
\<close>

theorem disp_error_text_irrelevant:
  assumes "\<And>m c. same_report E (fst (D1 addr port m c)) (fst (D2 addr port m c))"
    and "\<And>m c. snd (D1 addr port m c) = snd (D2 addr port m c)"
  shows "same_report E (fst (DispatchSubmessages G E D1 R addr port msgs ctx)) (fst (DispatchSubmessages G E D2 R addr port msgs ctx)) \<and>
         snd (DispatchSubmessages G E D1 R addr port msgs ctx) = snd (DispatchSubmessages G E D2 R addr port msgs ctx)"
proof -
  have "same_run E (D1 addr port m c) (D2 addr port m c)" for m c
    using assms [of m c] by (simp add: same_run_def)
  from dispatch_loop_same [where ?D1.0 = D1 and ?D2.0 = D2 and E = E and addr = addr and port = port, OF this]
  show ?thesis by (simp add: DispatchSubmessages_def same_run_def)
qed

section \<open>A run\<close>

text \<open>
  A store that is a number, a messenger that adds to it and burns as much gas, and fails on zero
  after having written; a reply that multiplies.
\<close>

definition ex_messenger :: "string \<Rightarrow> (int, u64 \<times> u64, u64) messenger" where
  "ex_messenger txt addr port msg ctx =
     (let n = (case msg of WasmMsg n \<Rightarrow> n | NativeMsg n \<Rightarrow> n)
      in case MeterConsume ref_gas n (meter ctx) of
           (Inl p, m) \<Rightarrow> (Inl p, ctx\<lparr>meter := m\<rparr>)
         | (Inr _, m) \<Rightarrow>
             if n = 0 then (Inl (Plain txt), ctx\<lparr>gstore := gstore ctx + 100, meter := m\<rparr>)
             else (Inr ([\<lparr>ev_Type = ''transfer'', ev_Attributes = []\<rparr>], [], []),
                   ctx\<lparr>gstore := gstore ctx + uint n, meter := m\<rparr>))"

definition ex_reply :: "(int, u64 \<times> u64) replyer" where
  "ex_reply addr rep ctx =
     (case MeterConsume ref_gas 3 (meter ctx) of
        (Inl p, m) \<Rightarrow> (Inl p, ctx\<lparr>meter := m\<rparr>)
      | (Inr _, m) \<Rightarrow> (Inr (Some ''done''), ctx\<lparr>gstore := 10 * gstore ctx, meter := m\<rparr>))"

definition ex_errors :: error_ops where
  "ex_errors = \<lparr>IsSystemError = (\<lambda>_. False), IsDeterministicError = (\<lambda>_. False),
     ErrorText = (\<lambda>_. ''''), RedactedText = (\<lambda>cs n. cs)\<rparr>"

definition ex_submsgs :: "u64 SubMsg list" where
  "ex_submsgs =
     [\<lparr>sm_ID = 1, sm_Payload = '''', sm_Msg = WasmMsg 5, sm_GasLimit = Some 10, sm_ReplyOn = ReplyNever\<rparr>,
      \<lparr>sm_ID = 2, sm_Payload = '''', sm_Msg = NativeMsg 0, sm_GasLimit = Some 10, sm_ReplyOn = ReplyError\<rparr>,
      \<lparr>sm_ID = 3, sm_Payload = '''', sm_Msg = WasmMsg 40, sm_GasLimit = Some 20, sm_ReplyOn = ReplyAlways\<rparr>]"

definition ex_disp_ctx :: "(int, u64 \<times> u64) gctx" where
  "ex_disp_ctx = \<lparr>gstore = 1, meter = (1000, 7), evs = []\<rparr>"

abbreviation ex_disp :: "string \<Rightarrow> string option res \<times> (int, u64 \<times> u64) gctx" where
  "ex_disp txt \<equiv> DispatchSubmessages ref_gas ex_errors (ex_messenger txt) ex_reply ''a'' ''p'' ex_submsgs ex_disp_ctx"

lemma ref_within: "ref_consume n m = (Inr (), m') \<Longrightarrow> snd m' \<le> fst m \<and> fst m' = fst m"
  by (auto simp: ref_consume_def word_le_def u64_add_no_wrap split: if_splits)

lemma ref_panics: "ref_consume n m = (Inl p, m') \<Longrightarrow> \<exists>q. p = Panicked q"
  by (auto simp: ref_consume_def split: if_splits)

lemma ex_messenger_meter: "respects_meter ref_gas (ex_messenger txt addr port msg)"
  unfolding respects_meter_def
proof (intro allI impI)
  fix c r c'
  assume run: "ex_messenger txt addr port msg c = (r, c')" and np: "\<not> is_panic r"
  define n where "n = (case msg of WasmMsg n \<Rightarrow> n | NativeMsg n \<Rightarrow> n)"
  obtain x m where C: "ref_consume n (meter c) = (x, m)" by (cases "ref_consume n (meter c)")
  show "within_limit ref_gas c' \<and> MeterLimit ref_gas (meter c') = MeterLimit ref_gas (meter c)"
  proof (cases x)
    case (Inl p)
    then have "r = Inl p" using run C by (simp add: ex_messenger_def n_def ref_gas_def)
    with ref_panics [OF C [unfolded Inl]] np show ?thesis by auto
  next
    case (Inr u)
    then have "meter c' = m" using run C by (auto simp: ex_messenger_def n_def ref_gas_def Let_def split: if_splits)
    moreover have "ref_consume n (meter c) = (Inr (), m)" using C Inr by simp
    note ref_within [OF this]
    ultimately show ?thesis unfolding within_limit_def ref_gas_def by simp
  qed
qed

lemma ex_reply_meter: "respects_meter ref_gas (ex_reply addr rep)"
  unfolding respects_meter_def
proof (intro allI impI)
  fix c r c'
  assume run: "ex_reply addr rep c = (r, c')" and np: "\<not> is_panic r"
  obtain x m where C: "ref_consume 3 (meter c) = (x, m)" by (cases "ref_consume 3 (meter c)")
  show "within_limit ref_gas c' \<and> MeterLimit ref_gas (meter c') = MeterLimit ref_gas (meter c)"
  proof (cases x)
    case (Inl p)
    then have "r = Inl p" using run C by (simp add: ex_reply_def ref_gas_def)
    with ref_panics [OF C [unfolded Inl]] np show ?thesis by auto
  next
    case (Inr u)
    then have "meter c' = m" using run C by (auto simp: ex_reply_def ref_gas_def)
    moreover have "ref_consume 3 (meter c) = (Inr (), m)" using C Inr by simp
    note ref_within [OF this]
    ultimately show ?thesis unfolding within_limit_def ref_gas_def by simp
  qed
qed

lemma ex_reply_cost: "charges_at_most ref_gas 3 (ex_reply addr rep)"
  unfolding charges_at_most_def
proof (intro allI impI)
  fix c x c'
  assume run: "ex_reply addr rep c = (Inr x, c')"
  obtain y m where C: "ref_consume 3 (meter c) = (y, m)" by (cases "ref_consume 3 (meter c)")
  then obtain "y = Inr ()" "meter c' = m"
    using run by (cases y) (auto simp: ex_reply_def ref_gas_def)
  with ref_consume_ok [of 3 "meter c" m] C
  show "uint (GasConsumed ref_gas (meter c')) \<le> uint (GasConsumed ref_gas (meter c)) + 3"
    by (simp add: ref_gas_def)
qed

lemma ex_disp_run: "ex_disp txt = (Inr (Some ''done''), snd (ex_disp txt))"
proof -
  have "fst (ex_disp txt) = Inr (Some ''done'')" by code_simp
  then show ?thesis by (simp add: prod_eq_iff)
qed

theorem disp_refines_transactions_witness:
  "run_of (submsg_tx (ex_messenger ''x'') ex_reply ''a'' ''p'') 1 ex_submsgs (gstore (snd (ex_disp ''x''))) \<and>
   gstore (snd (ex_disp ''x'')) = 600"
proof -
  have "gstore (snd (ex_disp ''x'')) = 600" by code_simp
  with disp_refines_transactions [OF ref_gas_laws ex_disp_run [of "''x''"]] show ?thesis
    by (simp add: ex_disp_ctx_def)
qed

theorem disp_gas_bounded_witness:
  "uint (GasConsumed ref_gas (meter (snd (ex_disp ''x'')))) \<le> 56 \<and>
   uint (GasConsumed ref_gas (meter (snd (ex_disp ''x'')))) = 38"
proof -
  have "uint (GasConsumed ref_gas (meter (snd (ex_disp ''x'')))) = 38" by code_simp
  moreover have "uint (GasConsumed ref_gas (meter (snd (ex_disp ''x'')))) \<le>
     uint (GasConsumed ref_gas (meter ex_disp_ctx)) + sum_list (map (\<lambda>m. uint (the (sm_GasLimit m)) + 3) ex_submsgs)"
    by (rule disp_gas_bounded [OF ref_gas_laws ex_messenger_meter ex_reply_meter ex_reply_cost _ _ _ ex_disp_run])
       (simp_all add: ex_disp_ctx_def ref_gas_def ex_submsgs_def)
  ultimately show ?thesis by (simp add: ex_submsgs_def ex_disp_ctx_def ref_gas_def)
qed

theorem disp_error_text_irrelevant_witness:
  "snd (ex_disp ''node 1'') = snd (ex_disp ''node 2'') \<and> ''node 1'' \<noteq> ''node 2''"
proof -
  have "same_report ex_errors (fst (ex_messenger t1 a p m c)) (fst (ex_messenger t2 a p m c))" for t1 t2 a p m c
    by (auto simp: ex_messenger_def Let_def same_report_def redactable_def ex_errors_def split: prod.split sum.split)
  moreover have "snd (ex_messenger t1 a p m c) = snd (ex_messenger t2 a p m c)" for t1 t2 a p m c
    by (auto simp: ex_messenger_def Let_def split: prod.split sum.split)
  ultimately show ?thesis
    using disp_error_text_irrelevant [of ex_errors "ex_messenger ''node 1''" "''a''" "''p''" "ex_messenger ''node 2''"] by simp
qed

end
