(* ===== verification/CwHooks.thy ===== *)
theory CwHooks
  imports Sdk SdkMath KVStore Gas
begin

text \<open>
  Module \<open>x/cw-hooks\<close>: contracts register for staking and governance events, and the hooks of the
  two modules call every registered contract on its own branch of the store with its own gas meter.
  The store holds the parameters and two registries, one key per contract under a prefix.
\<close>

section \<open>Keys, parameters and registries\<close>

definition CHParamsKey :: string where "CHParamsKey = [CHR 0x00]"
definition KeyPrefixStaking :: string where "KeyPrefixStaking = [CHR 0x01]"
definition KeyPrefixGov :: string where "KeyPrefixGov = [CHR 0x02]"

datatype ch_val = CHParams u64 | CHMark

type_synonym ch_store = "ch_val kv"

text \<open>The parameters are one number, the gas limit of a contract.\<close>

definition CHDefaultParams :: u64 where "CHDefaultParams = 250000"

definition CHParamsValidate :: "u64 \<Rightarrow> unit res" where "CHParamsValidate p = Inr ()"

definition CHSetParams :: "u64 \<Rightarrow> ch_store \<Rightarrow> unit res \<times> ch_store" where
  "CHSetParams p st =
     (case CHParamsValidate p of Inl e \<Rightarrow> (Inl e, st) | Inr _ \<Rightarrow> (Inr (), kv_set CHParamsKey (CHParams p) st))"

definition CHGetParams :: "ch_store \<Rightarrow> u64 res" where
  "CHGetParams st =
     (case kv_get st CHParamsKey of
        None \<Rightarrow> Inr 0
      | Some (CHParams p) \<Rightarrow> Inr p
      | Some CHMark \<Rightarrow> Inl (Panicked ''unmarshal params''))"

definition SetContract :: "string \<Rightarrow> string \<Rightarrow> ch_store \<Rightarrow> ch_store" where
  "SetContract keyPrefix contractAddr st = kv_set (keyPrefix @ contractAddr) CHMark st"

definition IsContractRegistered :: "string \<Rightarrow> string \<Rightarrow> ch_store \<Rightarrow> bool" where
  "IsContractRegistered keyPrefix contractAddr st = kv_has st (keyPrefix @ contractAddr)"

definition DeleteContract :: "string \<Rightarrow> string \<Rightarrow> ch_store \<Rightarrow> ch_store" where
  "DeleteContract keyPrefix contractAddr st = kv_del (keyPrefix @ contractAddr) st"

text \<open>The walk over a registry stops when the handler says so.\<close>

fun iterate_until :: "('a \<Rightarrow> 'b \<Rightarrow> bool \<times> 'b) \<Rightarrow> 'a list \<Rightarrow> 'b \<Rightarrow> 'b" where
  "iterate_until f [] b = b"
| "iterate_until f (a # as) b = (let (stop, b') = f a b in if stop then b' else iterate_until f as b')"

definition IterateContracts :: "string \<Rightarrow> (string \<Rightarrow> 'b \<Rightarrow> bool \<times> 'b) \<Rightarrow> ch_store \<Rightarrow> 'b \<Rightarrow> 'b" where
  "IterateContracts keyPrefix handlerFn st b = iterate_until handlerFn (map fst (kv_scan keyPrefix st)) b"

definition GetAllContracts :: "string \<Rightarrow> ch_store \<Rightarrow> string list" where
  "GetAllContracts keyPrefix st = IterateContracts keyPrefix (\<lambda>addr list. (False, list @ [addr])) st []"

definition GetAllContractsBech32 :: "'w sdk \<Rightarrow> string \<Rightarrow> ch_store \<Rightarrow> string list" where
  "GetAllContractsBech32 S keyPrefix st = map (AccAddressString S) (GetAllContracts keyPrefix st)"

section \<open>The message server\<close>

record ch_keeper =
  ch_authority :: string
  ch_HasContractInfo :: "string \<Rightarrow> bool"
  ch_GetContractInfo :: "string \<Rightarrow> ContractInfo option"

definition CHUpdateParams :: "'w sdk \<Rightarrow> ch_keeper \<Rightarrow> string \<Rightarrow> u64 \<Rightarrow> ch_store \<Rightarrow> unit res \<times> ch_store" where
  "CHUpdateParams S K auth p st =
     (if ch_authority K \<noteq> auth then (Inl ErrGovInvalidSigner, st)
      else case AccAddressFromBech32 S auth of
        Inl e \<Rightarrow> (Inl e, st)
      | Inr _ \<Rightarrow> CHSetParams p st)"

definition isContractSenderAuthorized :: "ch_keeper \<Rightarrow> string \<Rightarrow> string \<Rightarrow> unit res" where
  "isContractSenderAuthorized K sender contract =
     (if \<not> ch_HasContractInfo K contract then Inl ErrInvalidAddress
      else case ch_GetContractInfo K contract of
        None \<Rightarrow> Inl (Panicked ''nil contract info'')
      | Some info \<Rightarrow>
          if ci_Creator info \<noteq> '''' \<and> ci_Creator info \<noteq> sender then Inl ErrUnauthorized
          else if ci_Admin info \<noteq> '''' \<and> ci_Admin info \<noteq> sender then Inl ErrUnauthorized
          else Inr ())"

definition handleContractRegister ::
  "'w sdk \<Rightarrow> ch_keeper \<Rightarrow> string \<Rightarrow> string \<Rightarrow> string \<Rightarrow> ch_store \<Rightarrow> unit res \<times> ch_store" where
  "handleContractRegister S K sender contractAddr keyPrefix st =
     (case AccAddressFromBech32 S contractAddr of
        Inl e \<Rightarrow> (Inl ErrInvalidAddress, st)
      | Inr contract \<Rightarrow>
          if IsContractRegistered keyPrefix contract st then (Inl ErrInvalidRequest, st)
          else case isContractSenderAuthorized K sender contract of
            Inl e \<Rightarrow> (Inl e, st)
          | Inr _ \<Rightarrow> (Inr (), SetContract keyPrefix contract st))"

definition handleContractRemoval ::
  "'w sdk \<Rightarrow> ch_keeper \<Rightarrow> string \<Rightarrow> string \<Rightarrow> string \<Rightarrow> ch_store \<Rightarrow> unit res \<times> ch_store" where
  "handleContractRemoval S K sender contractAddr keyPrefix st =
     (case AccAddressFromBech32 S contractAddr of
        Inl e \<Rightarrow> (Inl ErrInvalidAddress, st)
      | Inr contract \<Rightarrow>
          if \<not> IsContractRegistered keyPrefix contract st then (Inl ErrInvalidRequest, st)
          else case isContractSenderAuthorized K sender contract of
            Inl e \<Rightarrow> (Inl e, st)
          | Inr _ \<Rightarrow> (Inr (), DeleteContract keyPrefix contract st))"

text \<open>The four handlers first decode both addresses of the request.\<close>

definition with_addresses :: "'w sdk \<Rightarrow> string \<Rightarrow> string \<Rightarrow> (ch_store \<Rightarrow> unit res \<times> ch_store) \<Rightarrow> ch_store \<Rightarrow> unit res \<times> ch_store"
  where
  "with_addresses S registerAddr contractAddr f st =
     (case AccAddressFromBech32 S registerAddr of
        Inl e \<Rightarrow> (Inl e, st)
      | Inr _ \<Rightarrow> (case AccAddressFromBech32 S contractAddr of Inl e \<Rightarrow> (Inl e, st) | Inr _ \<Rightarrow> f st))"

definition RegisterStaking :: "'w sdk \<Rightarrow> ch_keeper \<Rightarrow> string \<Rightarrow> string \<Rightarrow> ch_store \<Rightarrow> unit res \<times> ch_store" where
  "RegisterStaking S K reg c = with_addresses S reg c (handleContractRegister S K reg c KeyPrefixStaking)"

definition RegisterGovernance :: "'w sdk \<Rightarrow> ch_keeper \<Rightarrow> string \<Rightarrow> string \<Rightarrow> ch_store \<Rightarrow> unit res \<times> ch_store" where
  "RegisterGovernance S K reg c = with_addresses S reg c (handleContractRegister S K reg c KeyPrefixGov)"

definition UnregisterGovernance :: "'w sdk \<Rightarrow> ch_keeper \<Rightarrow> string \<Rightarrow> string \<Rightarrow> ch_store \<Rightarrow> unit res \<times> ch_store" where
  "UnregisterGovernance S K reg c = with_addresses S reg c (handleContractRemoval S K reg c KeyPrefixGov)"

definition UnregisterStaking :: "'w sdk \<Rightarrow> ch_keeper \<Rightarrow> string \<Rightarrow> string \<Rightarrow> ch_store \<Rightarrow> unit res \<times> ch_store" where
  "UnregisterStaking S K reg c = with_addresses S reg c (handleContractRemoval S K reg c KeyPrefixStaking)"

section \<open>Queries and genesis\<close>

definition QueryCHParams :: "ch_store \<Rightarrow> u64 res" where "QueryCHParams st = CHGetParams st"

definition StakingContracts :: "'w sdk \<Rightarrow> ch_store \<Rightarrow> string list" where
  "StakingContracts S st = GetAllContractsBech32 S KeyPrefixStaking st"

definition GovernanceContracts :: "'w sdk \<Rightarrow> ch_store \<Rightarrow> string list" where
  "GovernanceContracts S st = GetAllContractsBech32 S KeyPrefixGov st"

record ch_genesis =
  gen_Params :: u64
  StakingContractAddresses :: "string list"
  GovContractAddresses :: "string list"

definition CHDefaultGenesisState :: ch_genesis where
  "CHDefaultGenesisState = \<lparr>gen_Params = CHDefaultParams, StakingContractAddresses = [], GovContractAddresses = []\<rparr>"

definition CHValidateGenesis :: "'w sdk \<Rightarrow> ch_genesis \<Rightarrow> unit res" where
  "CHValidateGenesis S g =
     first_error (map (\<lambda>v. no_value (AccAddressFromBech32 S v)) (StakingContractAddresses g) @
       map (\<lambda>v. no_value (AccAddressFromBech32 S v)) (GovContractAddresses g) @ [CHParamsValidate (gen_Params g)])"

fun set_contracts :: "'w sdk \<Rightarrow> string \<Rightarrow> string list \<Rightarrow> ch_store \<Rightarrow> unit res \<times> ch_store" where
  "set_contracts S keyPrefix [] st = (Inr (), st)"
| "set_contracts S keyPrefix (v # vs) st =
     (case AccAddressFromBech32 S v of
        Inl e \<Rightarrow> (Inl (Panicked ''invalid address''), st)
      | Inr a \<Rightarrow> set_contracts S keyPrefix vs (SetContract keyPrefix a st))"

definition CHInitGenesis :: "'w sdk \<Rightarrow> ch_genesis \<Rightarrow> ch_store \<Rightarrow> unit res \<times> ch_store" where
  "CHInitGenesis S g st =
     (case CHValidateGenesis S g of
        Inl e \<Rightarrow> (Inl (Panicked ''invalid genesis''), st)
      | Inr _ \<Rightarrow>
     (case CHSetParams (gen_Params g) st of
        (Inl e, st1) \<Rightarrow> (Inl (Panicked ''invalid params''), st1)
      | (Inr _, st1) \<Rightarrow>
     (case set_contracts S KeyPrefixStaking (StakingContractAddresses g) st1 of
        (Inl e, st2) \<Rightarrow> (Inl e, st2)
      | (Inr _, st2) \<Rightarrow> set_contracts S KeyPrefixGov (GovContractAddresses g) st2)))"

definition CHExportGenesis :: "'w sdk \<Rightarrow> ch_store \<Rightarrow> ch_genesis res" where
  "CHExportGenesis S st =
     (case CHGetParams st of
        Inl e \<Rightarrow> Inl e
      | Inr p \<Rightarrow> Inr \<lparr>gen_Params = p, StakingContractAddresses = GetAllContractsBech32 S KeyPrefixStaking st,
                   GovContractAddresses = GetAllContractsBech32 S KeyPrefixGov st\<rparr>)"

section \<open>Calling the contracts\<close>

text \<open>
  The chain state is the module's store and the rest, which the contracts may both change.  A
  contract runs on a branch of the state, with an event manager of its own.
\<close>

type_synonym 'w ch_chain = "ch_store \<times> 'w"

type_synonym ('w, 'g) sudo_fun = "string \<Rightarrow> string \<Rightarrow> ('w ch_chain, 'g) gctx \<Rightarrow> string res \<times> ('w ch_chain, 'g) gctx"

definition sudoContract ::
  "'g gas_ops \<Rightarrow> ('w, 'g) sudo_fun \<Rightarrow> string \<Rightarrow> string \<Rightarrow> u64 \<Rightarrow> ('w ch_chain, 'g) gctx \<Rightarrow> unit res \<times> ('w ch_chain, 'g) gctx" where
  "sudoContract G Sudo addr msgBz limit ctx =
     (let (r, metered) = Sudo addr msgBz (ctx\<lparr>meter := NewGasMeter G limit, evs := []\<rparr>);
          spent = min (GasConsumed G (meter metered)) limit;
          err = (case r of
                   Inl (Panicked p) \<Rightarrow> if Panicked p = OutOfGas then Inr (Some (Plain ''sudo gas limit exceeded'')) else Inl (Panicked p)
                 | Inl e \<Rightarrow> Inr (Some e)
                 | Inr _ \<Rightarrow> Inr None)
      in case err of
           Inl p \<Rightarrow> (Inl p, ctx)
         | Inr e \<Rightarrow>
             (let ctx1 = (if e = None then ctx\<lparr>gstore := gstore metered, evs := evs ctx @ evs metered\<rparr> else ctx);
                  (c, m) = MeterConsume G spent (meter ctx1)
              in (c, ctx1\<lparr>meter := m\<rparr>)))"

fun sudo_each ::
  "'g gas_ops \<Rightarrow> ('w, 'g) sudo_fun \<Rightarrow> string list \<Rightarrow> string \<Rightarrow> u64 \<Rightarrow> ('w ch_chain, 'g) gctx \<Rightarrow> unit res \<times> ('w ch_chain, 'g) gctx" where
  "sudo_each G Sudo [] msgBz limit ctx = (Inr (), ctx)"
| "sudo_each G Sudo (c # cs) msgBz limit ctx =
     (case sudoContract G Sudo c msgBz limit ctx of
        (Inl e, ctx') \<Rightarrow> (Inl e, ctx')
      | (Inr _, ctx') \<Rightarrow> sudo_each G Sudo cs msgBz limit ctx')"

definition ExecuteMessageOnContracts ::
  "'g gas_ops \<Rightarrow> ('w, 'g) sudo_fun \<Rightarrow> string \<Rightarrow> string \<Rightarrow> ('w ch_chain, 'g) gctx \<Rightarrow> unit res \<times> ('w ch_chain, 'g) gctx" where
  "ExecuteMessageOnContracts G Sudo keyPrefix msgBz ctx =
     (case CHGetParams (fst (gstore ctx)) of
        Inl e \<Rightarrow> (Inl e, ctx)
      | Inr limit \<Rightarrow> sudo_each G Sudo (GetAllContracts keyPrefix (fst (gstore ctx))) msgBz limit ctx)"

section \<open>Staking hooks\<close>

text \<open>What the module reads of the staking module, and how the library prints numbers.\<close>

record ValidatorI =
  GetMoniker :: string
  GetOperator :: string
  GetCommission :: dec
  GetTokens :: int
  GetStatus :: string

record DelegationI =
  GetValidatorAddr :: string
  GetDelegatorAddr :: string
  GetShares :: dec

record Validator =
  v_Moniker :: string
  v_ValidatorAddress :: string
  v_Commission :: string
  v_ValidatorTokens :: string
  v_BondedTokens :: string
  v_BondStatus :: string

record ValidatorSlashed =
  vs_Moniker :: string
  vs_ValidatorAddress :: string
  vs_SlashedAmount :: string

record Delegation =
  d_ValidatorAddress :: string
  d_DelegatorAddress :: string
  d_Shares :: string

definition NewValidator :: "(dec \<Rightarrow> string) \<Rightarrow> ValidatorI \<Rightarrow> Validator" where
  "NewValidator DecString val =
     \<lparr>v_Moniker = GetMoniker val, v_ValidatorAddress = GetOperator val, v_Commission = DecString (GetCommission val),
      v_ValidatorTokens = go_itoa (GetTokens val), v_BondedTokens = go_itoa (GetTokens val), v_BondStatus = GetStatus val\<rparr>"

definition NewValidatorSlashed :: "(dec \<Rightarrow> string) \<Rightarrow> ValidatorI \<Rightarrow> dec \<Rightarrow> ValidatorSlashed" where
  "NewValidatorSlashed DecString val fraction =
     \<lparr>vs_Moniker = GetMoniker val, vs_ValidatorAddress = GetOperator val, vs_SlashedAmount = DecString fraction\<rparr>"

definition NewDelegation :: "(dec \<Rightarrow> string) \<Rightarrow> DelegationI \<Rightarrow> Delegation" where
  "NewDelegation DecString del =
     \<lparr>d_ValidatorAddress = GetValidatorAddr del, d_DelegatorAddress = GetDelegatorAddr del, d_Shares = DecString (GetShares del)\<rparr>"

record v1_Proposal =
  prop_Id :: u64
  prop_Proposer :: string
  prop_Status :: "32 word"
  prop_SubmitTime :: "int option"
  prop_Metadata :: string
  prop_Title :: string
  prop_Summary :: string

record WeightedVoteOption =
  wvo_Option :: int
  wvo_Weight :: string

record v1_Vote =
  vote_ProposalId :: u64
  vote_Voter :: string
  vote_Options :: "WeightedVoteOption list"

record HookProposal =
  hp_ProposalID :: u64
  hp_Proposer :: string
  hp_Status :: u64
  hp_SubmitTime :: string
  hp_Metadata :: string
  hp_Title :: string
  hp_Summary :: string

record HookVote =
  hv_ProposalID :: u64
  hv_VoterAddress :: string
  hv_VoteOption :: "WeightedVoteOption list"

text \<open>
  \<open>SubmitTime.Second()\<close> is the second within the minute of a time given in seconds; the time is a
  pointer, and a nil one panics.
\<close>

definition NewProposal :: "v1_Proposal \<Rightarrow> HookProposal res" where
  "NewProposal prop =
     (case prop_SubmitTime prop of
        None \<Rightarrow> Inl (Panicked ''nil submit time'')
      | Some t \<Rightarrow> Inr \<lparr>hp_ProposalID = prop_Id prop, hp_Proposer = prop_Proposer prop, hp_Status = scast (prop_Status prop),
                    hp_SubmitTime = go_itoa (t mod 60), hp_Metadata = prop_Metadata prop,
                    hp_Title = prop_Title prop, hp_Summary = prop_Summary prop\<rparr>)"

definition NewVote :: "v1_Vote \<Rightarrow> HookVote" where
  "NewVote vote = \<lparr>hv_ProposalID = vote_ProposalId vote, hv_VoterAddress = vote_Voter vote, hv_VoteOption = vote_Options vote\<rparr>"

datatype SudoMsg =
    SudoMsgAfterValidatorCreated Validator
  | SudoMsgAfterValidatorRemoved Validator
  | SudoMsgBeforeValidatorModified Validator
  | SudoMsgAfterValidatorBonded Validator
  | SudoMsgAfterValidatorBeginUnbonding Validator
  | SudoMsgBeforeValidatorSlashed ValidatorSlashed
  | SudoMsgBeforeDelegationCreated Delegation
  | SudoMsgBeforeDelegationSharesModified Delegation
  | SudoMsgAfterDelegationModified Delegation
  | SudoMsgBeforeDelegationRemoved Delegation
  | SudoMsgAfterProposalSubmission HookProposal
  | SudoMsgAfterProposalDeposit HookProposal
  | SudoMsgAfterProposalVote HookVote
  | SudoAfterProposalVotingPeriodEnded string

text \<open>
  The keepers the hooks read: the staking module returns an object and an error, where the object
  may be nil; \<open>json.Marshal\<close> and the printing of decimals are library code.
\<close>

record ('w, 'g) hook_env =
  he_gas :: "'g gas_ops"
  he_Sudo :: "('w, 'g) sudo_fun"
  he_Validator :: "'w ch_chain \<Rightarrow> string \<Rightarrow> ValidatorI option \<times> error option"
  he_Delegation :: "'w ch_chain \<Rightarrow> string \<Rightarrow> string \<Rightarrow> DelegationI option \<times> error option"
  he_Proposals_Get :: "'w ch_chain \<Rightarrow> u64 \<Rightarrow> v1_Proposal res"
  he_Votes_Get :: "'w ch_chain \<Rightarrow> u64 \<Rightarrow> string \<Rightarrow> v1_Vote res"
  he_Marshal :: "SudoMsg \<Rightarrow> string res"
  he_DecString :: "dec \<Rightarrow> string"

type_synonym ('w, 'g) hook = "('w ch_chain, 'g) gctx \<Rightarrow> unit res \<times> ('w ch_chain, 'g) gctx"

definition skipUntilHeight :: int where "skipUntilHeight = 2"

text \<open>The end of every staking hook: a message that cannot be encoded is dropped silently.\<close>

definition notify_staking :: "('w, 'g) hook_env \<Rightarrow> SudoMsg \<Rightarrow> ('w, 'g) hook" where
  "notify_staking H msg ctx =
     (case he_Marshal H msg of
        Inl e \<Rightarrow> (Inr (), ctx)
      | Inr bz \<Rightarrow> ExecuteMessageOnContracts (he_gas H) (he_Sudo H) KeyPrefixStaking bz ctx)"

definition validator_hook :: "('w, 'g) hook_env \<Rightarrow> int \<Rightarrow> string \<Rightarrow> (ValidatorI \<Rightarrow> SudoMsg) \<Rightarrow> ('w, 'g) hook" where
  "validator_hook H height valAddr mk ctx =
     (if height \<le> skipUntilHeight then (Inr (), ctx)
      else case he_Validator H (gstore ctx) valAddr of
        (None, _) \<Rightarrow> (Inr (), ctx)
      | (Some val, Some e) \<Rightarrow> (Inl e, ctx)
      | (Some val, None) \<Rightarrow> notify_staking H (mk val) ctx)"

definition delegation_hook :: "('w, 'g) hook_env \<Rightarrow> int \<Rightarrow> string \<Rightarrow> string \<Rightarrow> (DelegationI \<Rightarrow> SudoMsg) \<Rightarrow> ('w, 'g) hook" where
  "delegation_hook H height delAddr valAddr mk ctx =
     (if height \<le> skipUntilHeight then (Inr (), ctx)
      else case he_Delegation H (gstore ctx) delAddr valAddr of
        (None, _) \<Rightarrow> (Inr (), ctx)
      | (Some del, Some e) \<Rightarrow> (Inl e, ctx)
      | (Some del, None) \<Rightarrow> notify_staking H (mk del) ctx)"

text \<open>This hook alone returns the error that comes with a nil validator.\<close>

definition AfterValidatorCreated :: "('w, 'g) hook_env \<Rightarrow> int \<Rightarrow> string \<Rightarrow> ('w, 'g) hook" where
  "AfterValidatorCreated H height valAddr ctx =
     (if height \<le> skipUntilHeight then (Inr (), ctx)
      else case he_Validator H (gstore ctx) valAddr of
        (None, Some e) \<Rightarrow> (Inl e, ctx)
      | (None, None) \<Rightarrow> (Inr (), ctx)
      | (Some val, Some e) \<Rightarrow> (Inl e, ctx)
      | (Some val, None) \<Rightarrow> notify_staking H (SudoMsgAfterValidatorCreated (NewValidator (he_DecString H) val)) ctx)"

definition AfterValidatorRemoved :: "('w, 'g) hook_env \<Rightarrow> int \<Rightarrow> string \<Rightarrow> ('w, 'g) hook" where
  "AfterValidatorRemoved H height valAddr =
     validator_hook H height valAddr (\<lambda>val. SudoMsgAfterValidatorRemoved (NewValidator (he_DecString H) val))"

definition BeforeDelegationCreated :: "('w, 'g) hook_env \<Rightarrow> int \<Rightarrow> string \<Rightarrow> string \<Rightarrow> ('w, 'g) hook" where
  "BeforeDelegationCreated H height delAddr valAddr =
     delegation_hook H height delAddr valAddr (\<lambda>del. SudoMsgBeforeDelegationCreated (NewDelegation (he_DecString H) del))"

definition BeforeDelegationSharesModified :: "('w, 'g) hook_env \<Rightarrow> int \<Rightarrow> string \<Rightarrow> string \<Rightarrow> ('w, 'g) hook" where
  "BeforeDelegationSharesModified H height delAddr valAddr =
     delegation_hook H height delAddr valAddr (\<lambda>del. SudoMsgBeforeDelegationSharesModified (NewDelegation (he_DecString H) del))"

definition AfterDelegationModified :: "('w, 'g) hook_env \<Rightarrow> int \<Rightarrow> string \<Rightarrow> string \<Rightarrow> ('w, 'g) hook" where
  "AfterDelegationModified H height delAddr valAddr =
     delegation_hook H height delAddr valAddr (\<lambda>del. SudoMsgAfterDelegationModified (NewDelegation (he_DecString H) del))"

definition BeforeValidatorSlashed :: "('w, 'g) hook_env \<Rightarrow> int \<Rightarrow> string \<Rightarrow> dec \<Rightarrow> ('w, 'g) hook" where
  "BeforeValidatorSlashed H height valAddr fraction =
     validator_hook H height valAddr (\<lambda>val. SudoMsgBeforeValidatorSlashed (NewValidatorSlashed (he_DecString H) val fraction))"

definition BeforeValidatorModified :: "('w, 'g) hook_env \<Rightarrow> int \<Rightarrow> string \<Rightarrow> ('w, 'g) hook" where
  "BeforeValidatorModified H height valAddr =
     validator_hook H height valAddr (\<lambda>val. SudoMsgBeforeValidatorModified (NewValidator (he_DecString H) val))"

definition AfterValidatorBonded :: "('w, 'g) hook_env \<Rightarrow> int \<Rightarrow> string \<Rightarrow> ('w, 'g) hook" where
  "AfterValidatorBonded H height valAddr =
     validator_hook H height valAddr (\<lambda>val. SudoMsgAfterValidatorBonded (NewValidator (he_DecString H) val))"

definition AfterValidatorBeginUnbonding :: "('w, 'g) hook_env \<Rightarrow> int \<Rightarrow> string \<Rightarrow> ('w, 'g) hook" where
  "AfterValidatorBeginUnbonding H height valAddr =
     validator_hook H height valAddr (\<lambda>val. SudoMsgAfterValidatorBeginUnbonding (NewValidator (he_DecString H) val))"

definition BeforeDelegationRemoved :: "('w, 'g) hook_env \<Rightarrow> int \<Rightarrow> string \<Rightarrow> string \<Rightarrow> ('w, 'g) hook" where
  "BeforeDelegationRemoved H height delAddr valAddr =
     delegation_hook H height delAddr valAddr (\<lambda>del. SudoMsgBeforeDelegationRemoved (NewDelegation (he_DecString H) del))"

definition AfterUnbondingInitiated :: "u64 \<Rightarrow> ('w, 'g) hook" where
  "AfterUnbondingInitiated i ctx = (Inr (), ctx)"

definition AfterValidatorConsKeyUpdated :: "string \<Rightarrow> string \<Rightarrow> string \<Rightarrow> ('w, 'g) hook" where
  "AfterValidatorConsKeyUpdated old new valAddr ctx = (Inr (), ctx)"

section \<open>Governance hooks\<close>

text \<open>
  Here an encoding error is returned.  An error of the call would be replaced by that of printing
  it, but the call returns none.
\<close>

definition notify_gov :: "('w, 'g) hook_env \<Rightarrow> SudoMsg \<Rightarrow> ('w, 'g) hook" where
  "notify_gov H msg ctx =
     (case he_Marshal H msg of
        Inl e \<Rightarrow> (Inl e, ctx)
      | Inr bz \<Rightarrow> ExecuteMessageOnContracts (he_gas H) (he_Sudo H) KeyPrefixGov bz ctx)"

definition proposal_hook :: "('w, 'g) hook_env \<Rightarrow> u64 \<Rightarrow> (HookProposal \<Rightarrow> SudoMsg) \<Rightarrow> ('w, 'g) hook" where
  "proposal_hook H proposalID mk ctx =
     (case he_Proposals_Get H (gstore ctx) proposalID of
        Inl e \<Rightarrow> (Inl e, ctx)
      | Inr prop \<Rightarrow> (case NewProposal prop of Inl e \<Rightarrow> (Inl e, ctx) | Inr p \<Rightarrow> notify_gov H (mk p) ctx))"

definition AfterProposalSubmission :: "('w, 'g) hook_env \<Rightarrow> u64 \<Rightarrow> ('w, 'g) hook" where
  "AfterProposalSubmission H proposalID = proposal_hook H proposalID SudoMsgAfterProposalSubmission"

definition AfterProposalDeposit :: "('w, 'g) hook_env \<Rightarrow> u64 \<Rightarrow> ('w, 'g) hook" where
  "AfterProposalDeposit H proposalID = proposal_hook H proposalID SudoMsgAfterProposalDeposit"

definition AfterProposalVote :: "('w, 'g) hook_env \<Rightarrow> u64 \<Rightarrow> string \<Rightarrow> ('w, 'g) hook" where
  "AfterProposalVote H proposalID voterAddr ctx =
     (case he_Votes_Get H (gstore ctx) proposalID voterAddr of
        Inl e \<Rightarrow> (Inl e, ctx)
      | Inr vote \<Rightarrow> notify_gov H (SudoMsgAfterProposalVote (NewVote vote)) ctx)"

definition AfterProposalFailedMinDeposit :: "u64 \<Rightarrow> ('w, 'g) hook" where
  "AfterProposalFailedMinDeposit i ctx = (Inr (), ctx)"

definition AfterProposalVotingPeriodEnded :: "('w, 'g) hook_env \<Rightarrow> u64 \<Rightarrow> ('w, 'g) hook" where
  "AfterProposalVotingPeriodEnded H proposalID =
     notify_gov H (SudoAfterProposalVotingPeriodEnded (go_itoa (sint proposalID)))"


section \<open>Registries\<close>

lemma iterate_collect: "iterate_until (\<lambda>a l. (False, l @ [a])) xs acc = acc @ xs"
  by (induction xs arbitrary: acc) simp_all

lemma GetAllContracts_scan: "GetAllContracts p st = map fst (kv_scan p st)"
  by (simp add: GetAllContracts_def IterateContracts_def iterate_collect)

lemma registered_iff: "kv_wf st \<Longrightarrow> a \<in> set (GetAllContracts p st) \<longleftrightarrow> IsContractRegistered p a st"
  by (simp add: GetAllContracts_scan IsContractRegistered_def kv_has_def kvs.scan_keys_iff)

lemma ch_keys [simp]: "CHParamsKey \<noteq> KeyPrefixStaking @ a" "CHParamsKey \<noteq> KeyPrefixGov @ a"
  "KeyPrefixStaking @ a \<noteq> CHParamsKey" "KeyPrefixGov @ a \<noteq> CHParamsKey"
  "KeyPrefixStaking @ a \<noteq> KeyPrefixGov @ b" "KeyPrefixGov @ a \<noteq> KeyPrefixStaking @ b"
  by (simp_all add: CHParamsKey_def KeyPrefixStaking_def KeyPrefixGov_def)

text \<open>Two registries with the same members are listed alike, because the store is ordered.\<close>

lemma GetAllContracts_unique:
  assumes "kv_wf st" and "kv_wf st'" and "\<And>a. IsContractRegistered p a st = IsContractRegistered p a st'"
  shows "GetAllContracts p st = GetAllContracts p st'"
proof (rule sorted_distinct_set_unique)
  show "set (GetAllContracts p st) = set (GetAllContracts p st')"
    using assms by (auto simp: registered_iff)
qed (use assms in \<open>auto simp: GetAllContracts_scan intro: strict_sorted_imp_sorted kvs.scan_sorted kvs.scan_keys_distinct\<close>)

section \<open>Messages\<close>

datatype ch_msg =
    MsgCHUpdateParams string u64
  | MsgRegisterStaking string string
  | MsgRegisterGovernance string string
  | MsgUnregisterStaking string string
  | MsgUnregisterGovernance string string

fun ch_exec :: "'w sdk \<Rightarrow> ch_keeper \<Rightarrow> ch_msg \<Rightarrow> ch_store \<Rightarrow> unit res \<times> ch_store" where
  "ch_exec S K (MsgCHUpdateParams auth p) st = CHUpdateParams S K auth p st"
| "ch_exec S K (MsgRegisterStaking reg c) st = RegisterStaking S K reg c st"
| "ch_exec S K (MsgRegisterGovernance reg c) st = RegisterGovernance S K reg c st"
| "ch_exec S K (MsgUnregisterStaking reg c) st = UnregisterStaking S K reg c st"
| "ch_exec S K (MsgUnregisterGovernance reg c) st = UnregisterGovernance S K reg c st"

text \<open>The registry a message works on, whether it adds, and the addresses it names.\<close>

fun ch_target :: "ch_msg \<Rightarrow> (string \<times> bool \<times> string \<times> string) option" where
  "ch_target (MsgCHUpdateParams auth p) = None"
| "ch_target (MsgRegisterStaking reg c) = Some (KeyPrefixStaking, True, reg, c)"
| "ch_target (MsgRegisterGovernance reg c) = Some (KeyPrefixGov, True, reg, c)"
| "ch_target (MsgUnregisterStaking reg c) = Some (KeyPrefixStaking, False, reg, c)"
| "ch_target (MsgUnregisterGovernance reg c) = Some (KeyPrefixGov, False, reg, c)"

lemma ch_exec_target:
  "ch_target m = Some (p, add, reg, c) \<Longrightarrow>
   ch_exec S K m st = with_addresses S reg c ((if add then handleContractRegister else handleContractRemoval) S K reg c p) st"
  by (cases m) (auto simp: RegisterStaking_def RegisterGovernance_def UnregisterStaking_def UnregisterGovernance_def)

lemma ch_target_prefix: "ch_target m = Some (p, add, reg, c) \<Longrightarrow> p = KeyPrefixStaking \<or> p = KeyPrefixGov"
  by (cases m) auto

lemma ch_exec_fail: "ch_exec S K m st = (Inl e, st') \<Longrightarrow> st' = st"
  by (cases m)
     (auto simp: CHUpdateParams_def CHSetParams_def CHParamsValidate_def RegisterStaking_def RegisterGovernance_def
       UnregisterStaking_def UnregisterGovernance_def with_addresses_def handleContractRegister_def
       handleContractRemoval_def split: if_splits sum.splits)

text \<open>A registry message succeeds exactly when these conditions hold, and then changes one key.\<close>

lemma ch_exec_ok_iff:
  assumes "ch_target m = Some (p, add, reg, c)"
  shows "ch_exec S K m st = (Inr (), st') \<longleftrightarrow>
    is_ok (AccAddressFromBech32 S reg) \<and>
    (\<exists>a. AccAddressFromBech32 S c = Inr a \<and> isContractSenderAuthorized K reg a = Inr () \<and>
       IsContractRegistered p a st = (\<not> add) \<and>
       st' = (if add then SetContract p a st else DeleteContract p a st))"
  unfolding ch_exec_target [OF assms] with_addresses_def
  by (cases "AccAddressFromBech32 S reg"; cases "AccAddressFromBech32 S c"; cases add)
     (auto simp: handleContractRegister_def handleContractRemoval_def split: sum.splits)

lemma ch_exec_params_ok:
  "ch_exec S K (MsgCHUpdateParams auth p) st = (Inr (), st') \<longleftrightarrow>
   auth = ch_authority K \<and> is_ok (AccAddressFromBech32 S auth) \<and> st' = kv_set CHParamsKey (CHParams p) st"
  by (auto simp: CHUpdateParams_def CHSetParams_def CHParamsValidate_def is_ok_iff split: sum.splits)

lemma registered_Set: "p \<in> {KeyPrefixStaking, KeyPrefixGov} \<Longrightarrow> q \<in> {KeyPrefixStaking, KeyPrefixGov} \<Longrightarrow>
    IsContractRegistered p b (SetContract q a st) \<longleftrightarrow> p = q \<and> b = a \<or> IsContractRegistered p b st"
  by (auto simp: IsContractRegistered_def SetContract_def KeyPrefixStaking_def KeyPrefixGov_def)

lemma registered_Delete: "p \<in> {KeyPrefixStaking, KeyPrefixGov} \<Longrightarrow> q \<in> {KeyPrefixStaking, KeyPrefixGov} \<Longrightarrow>
    IsContractRegistered p b (DeleteContract q a st) \<longleftrightarrow> \<not> (p = q \<and> b = a) \<and> IsContractRegistered p b st"
  by (auto simp: IsContractRegistered_def DeleteContract_def KeyPrefixStaking_def KeyPrefixGov_def)

lemma registered_params: "p \<in> {KeyPrefixStaking, KeyPrefixGov} \<Longrightarrow>
    IsContractRegistered p b (kv_set CHParamsKey v st) \<longleftrightarrow> IsContractRegistered p b st"
  by (auto simp: IsContractRegistered_def)

section \<open>The invariant of the store\<close>

definition ch_inv :: "'w sdk \<Rightarrow> ch_store \<Rightarrow> bool" where
  "ch_inv S st \<longleftrightarrow> kv_wf st \<and> (\<exists>p. CHGetParams st = Inr p) \<and>
     (\<forall>p \<in> {KeyPrefixStaking, KeyPrefixGov}. \<forall>a. IsContractRegistered p a st \<longrightarrow>
        AccAddressFromBech32 S (AccAddressString S a) = Inr a)"

lemma ch_inv_Set:
  assumes "bech32_laws S" and "ch_inv S st" and "AccAddressFromBech32 S c = Inr a" and p: "p \<in> {KeyPrefixStaking, KeyPrefixGov}"
  shows "ch_inv S (SetContract p a st)"
proof -
  have "AccAddressFromBech32 S (AccAddressString S a) = Inr a"
    using assms(1,3) unfolding bech32_laws_def by blast
  moreover have "CHGetParams (SetContract p a st) = CHGetParams st"
    using p by (auto simp: CHGetParams_def SetContract_def kv_simps)
  moreover have "kv_wf (SetContract p a st)"
    using assms(2) by (simp add: ch_inv_def SetContract_def kv_simps)
  ultimately show ?thesis
    using assms(2) registered_Set [OF _ p] unfolding ch_inv_def by metis
qed

lemma ch_inv_Delete:
  assumes "ch_inv S st" and p: "p \<in> {KeyPrefixStaking, KeyPrefixGov}"
  shows "ch_inv S (DeleteContract p a st)"
proof -
  have "CHGetParams (DeleteContract p a st) = CHGetParams st"
    using p by (auto simp: CHGetParams_def DeleteContract_def kv_simps)
  moreover have "kv_wf (DeleteContract p a st)"
    using assms(1) by (simp add: ch_inv_def DeleteContract_def kv_simps)
  ultimately show ?thesis
    using assms(1) registered_Delete [OF _ p] unfolding ch_inv_def by metis
qed

lemma ch_inv_params: "ch_inv S st \<Longrightarrow> ch_inv S (kv_set CHParamsKey (CHParams v) st)"
  by (simp add: ch_inv_def kv_simps registered_params CHGetParams_def)

lemma ch_inv_exec:
  assumes L: "bech32_laws S" and I: "ch_inv S st"
  shows "ch_inv S (snd (ch_exec S K m st))"
proof (cases "fst (ch_exec S K m st)")
  case (Inl e)
  then have "snd (ch_exec S K m st) = st" by (intro ch_exec_fail) (simp add: prod_eq_iff)
  with I show ?thesis by simp
next
  case (Inr u)
  then have ok: "ch_exec S K m st = (Inr (), snd (ch_exec S K m st))" by (simp add: prod_eq_iff)
  show ?thesis
  proof (cases "ch_target m")
    case None
    then obtain auth p where "m = MsgCHUpdateParams auth p" by (cases m) auto
    with ok have "snd (ch_exec S K m st) = kv_set CHParamsKey (CHParams p) st"
      using ch_exec_params_ok by metis
    with ch_inv_params [OF I] show ?thesis by simp
  next
    case (Some t)
    then obtain p add reg c where t: "ch_target m = Some (p, add, reg, c)" by (cases t) auto
    then have p: "p \<in> {KeyPrefixStaking, KeyPrefixGov}" using ch_target_prefix by blast
    from iffD1 [OF ch_exec_ok_iff [OF t] ok] obtain a where
      "AccAddressFromBech32 S c = Inr a" "snd (ch_exec S K m st) = (if add then SetContract p a st else DeleteContract p a st)"
      by blast
    then show ?thesis using ch_inv_Set [OF L I _ p] ch_inv_Delete [OF I p] by simp
  qed
qed

lemma set_contracts_inv:
  assumes L: "bech32_laws S" and p: "p \<in> {KeyPrefixStaking, KeyPrefixGov}"
  shows "ch_inv S st \<Longrightarrow> ch_inv S (snd (set_contracts S p vs st))"
  by (induction vs arbitrary: st) (auto split: sum.split intro: ch_inv_Set [OF L _ _ p])

lemma CHInitGenesis_inv:
  assumes L: "bech32_laws S" and "ch_inv S st"
  shows "ch_inv S (snd (CHInitGenesis S g st))"
proof -
  obtain r1 st1 where 1: "CHSetParams (gen_Params g) st = (r1, st1)" by fastforce
  have i1: "ch_inv S st1" using 1 ch_inv_params [OF assms(2)] by (auto simp: CHSetParams_def CHParamsValidate_def)
  obtain r2 st2 where 2: "set_contracts S KeyPrefixStaking (StakingContractAddresses g) st1 = (r2, st2)" by fastforce
  have i2: "ch_inv S st2" using set_contracts_inv [OF L _ i1, of KeyPrefixStaking "StakingContractAddresses g"] 2 by simp
  have i3: "ch_inv S (snd (set_contracts S KeyPrefixGov (GovContractAddresses g) st2))"
    by (rule set_contracts_inv [OF L _ i2]) simp
  show ?thesis using assms(2) i1 i2 i3 by (auto simp: CHInitGenesis_def 1 2 split: sum.split)
qed

lemma ch_inv_empty: "ch_inv S kv_empty"
  by (simp add: ch_inv_def kv_simps CHGetParams_def IsContractRegistered_def kv_has_def)

lemma ch_inv_run: "bech32_laws S \<Longrightarrow> ch_inv S st \<Longrightarrow> ch_inv S (foldl (\<lambda>s m. snd (ch_exec S K m s)) st msgs)"
  by (induction msgs arbitrary: st) (simp_all add: ch_inv_exec)

section \<open>Genesis\<close>

lemma set_contracts_all:
  assumes "p \<in> {KeyPrefixStaking, KeyPrefixGov}"
    and "list_all (\<lambda>a. AccAddressFromBech32 S (AccAddressString S a) = Inr a) as"
  shows "\<exists>st'. set_contracts S p (map (AccAddressString S) as) st = (Inr (), st') \<and> (kv_wf st \<longrightarrow> kv_wf st') \<and>
    CHGetParams st' = CHGetParams st \<and>
    (\<forall>q \<in> {KeyPrefixStaking, KeyPrefixGov}. \<forall>b. IsContractRegistered q b st' \<longleftrightarrow> q = p \<and> b \<in> set as \<or> IsContractRegistered q b st)"
  using assms(2)
proof (induction as arbitrary: st)
  case Nil
  then show ?case by simp
next
  case (Cons a as)
  have get: "CHGetParams (SetContract p a st) = CHGetParams st"
    using assms(1) by (auto simp: CHGetParams_def SetContract_def kv_simps)
  have wf: "kv_wf st \<Longrightarrow> kv_wf (SetContract p a st)" by (simp add: SetContract_def kv_simps)
  from Cons.prems Cons.IH [of "SetContract p a st"] obtain st' where
    "set_contracts S p (map (AccAddressString S) as) (SetContract p a st) = (Inr (), st')"
    "kv_wf (SetContract p a st) \<longrightarrow> kv_wf st'" "CHGetParams st' = CHGetParams (SetContract p a st)"
    "\<forall>q \<in> {KeyPrefixStaking, KeyPrefixGov}. \<forall>b. IsContractRegistered q b st' \<longleftrightarrow> q = p \<and> b \<in> set as \<or> IsContractRegistered q b (SetContract p a st)"
    by auto
  with Cons.prems get wf registered_Set [OF _ assms(1)] show ?case by auto
qed


lemma ch_export_init:
  assumes I: "ch_inv S st"
  shows "\<exists>g st'. CHExportGenesis S st = Inr g \<and> CHInitGenesis S g kv_empty = (Inr (), st') \<and>
     CHGetParams st' = CHGetParams st \<and> GetAllContracts KeyPrefixStaking st' = GetAllContracts KeyPrefixStaking st \<and>
     GetAllContracts KeyPrefixGov st' = GetAllContracts KeyPrefixGov st"
proof -
  let ?sp = KeyPrefixStaking and ?gp = KeyPrefixGov and ?all = "\<lambda>p. GetAllContracts p st"
  have wf: "kv_wf st" using I by (simp add: ch_inv_def)
  obtain p where p: "CHGetParams st = Inr p" using I by (auto simp: ch_inv_def)
  define g where "g = \<lparr>gen_Params = p, StakingContractAddresses = map (AccAddressString S) (?all ?sp),
                   GovContractAddresses = map (AccAddressString S) (?all ?gp)\<rparr>"
  have ex: "CHExportGenesis S st = Inr g"
    by (simp add: CHExportGenesis_def p g_def GetAllContractsBech32_def)
  have dec: "list_all (\<lambda>a. AccAddressFromBech32 S (AccAddressString S a) = Inr a) (?all q)"
    if "q \<in> {?sp, ?gp}" for q
    using I that by (auto simp: ch_inv_def list_all_iff registered_iff [OF wf])
  have val: "CHValidateGenesis S g = Inr ()"
    using dec [of ?sp] dec [of ?gp] by (auto simp: CHValidateGenesis_def g_def CHParamsValidate_def list_all_iff)
  define st1 where "st1 = kv_set CHParamsKey (CHParams p) kv_empty"
  have st1: "CHSetParams (gen_Params g) kv_empty = (Inr (), st1)" "kv_wf st1" "CHGetParams st1 = Inr p"
    "\<And>q a. q \<in> {?sp, ?gp} \<Longrightarrow> \<not> IsContractRegistered q a st1"
    by (auto simp: CHSetParams_def CHParamsValidate_def st1_def g_def kv_simps CHGetParams_def IsContractRegistered_def kv_has_def)
  from set_contracts_all [of ?sp S "?all ?sp" st1] dec obtain st2 where
    st2: "set_contracts S ?sp (map (AccAddressString S) (?all ?sp)) st1 = (Inr (), st2)" "kv_wf st2" "CHGetParams st2 = Inr p"
      "\<forall>q \<in> {?sp, ?gp}. \<forall>b. IsContractRegistered q b st2 \<longleftrightarrow> q = ?sp \<and> b \<in> set (?all ?sp) \<or> IsContractRegistered q b st1"
    using st1(2,3) by auto
  from set_contracts_all [of ?gp S "?all ?gp" st2] dec obtain st3 where
    st3: "set_contracts S ?gp (map (AccAddressString S) (?all ?gp)) st2 = (Inr (), st3)" "kv_wf st3" "CHGetParams st3 = Inr p"
      "\<forall>q \<in> {?sp, ?gp}. \<forall>b. IsContractRegistered q b st3 \<longleftrightarrow> q = ?gp \<and> b \<in> set (?all ?gp) \<or> IsContractRegistered q b st2"
    using st2(2,3) by auto
  have "CHInitGenesis S g kv_empty = (Inr (), st3)"
    using val st1(1) st2(1) st3(1) by (simp add: CHInitGenesis_def) (simp add: g_def)
  moreover have "GetAllContracts q st3 = ?all q" if "q \<in> {?sp, ?gp}" for q
  proof (rule GetAllContracts_unique [OF st3(2) wf])
    have neq: "?sp \<noteq> ?gp" by (simp add: KeyPrefixStaking_def KeyPrefixGov_def)
    show "IsContractRegistered q a st3 = IsContractRegistered q a st" for a
      using that st3(4) st2(4) st1(4) neq registered_iff [OF wf] by auto
  qed
  ultimately show ?thesis using ex st3(3) p by auto
qed

section \<open>Isolation of the contracts\<close>

text \<open>What a contract does to the chain state, as the hooks see it: its effect when it succeeds, nothing otherwise.\<close>

definition sudo_effect :: "'g gas_ops \<Rightarrow> ('w, 'g) sudo_fun \<Rightarrow> string \<Rightarrow> u64 \<Rightarrow> 'w ch_chain \<Rightarrow> string \<Rightarrow> 'w ch_chain" where
  "sudo_effect G Sudo msgBz limit s addr =
     (case Sudo addr msgBz \<lparr>gstore = s, meter = NewGasMeter G limit, evs = []\<rparr> of
        (Inr _, c) \<Rightarrow> gstore c
      | (Inl _, c) \<Rightarrow> s)"

definition only_gas_panics :: "('w, 'g) sudo_fun \<Rightarrow> bool" where
  "only_gas_panics Sudo \<longleftrightarrow> (\<forall>addr msgBz c p. fst (Sudo addr msgBz c) = Inl (Panicked p) \<longrightarrow> Panicked p = OutOfGas)"

lemma sudoContract_total:
  assumes L: "gas_laws G" and P: "only_gas_panics Sudo"
    and room: "uint (GasConsumed G (meter ctx)) + uint limit \<le> uint (MeterLimit G (meter ctx))"
  shows "\<exists>ctx'. sudoContract G Sudo addr msgBz limit ctx = (Inr (), ctx') \<and>
     gstore ctx' = sudo_effect G Sudo msgBz limit (gstore ctx) addr \<and>
     uint (GasConsumed G (meter ctx')) \<le> uint (GasConsumed G (meter ctx)) + uint limit \<and>
     MeterLimit G (meter ctx') = MeterLimit G (meter ctx)"
proof -
  have upd: "ctx\<lparr>meter := NewGasMeter G limit, evs := []\<rparr> = \<lparr>gstore = gstore ctx, meter = NewGasMeter G limit, evs = []\<rparr>"
    by (cases ctx) simp
  obtain r c where run: "Sudo addr msgBz \<lparr>gstore = gstore ctx, meter = NewGasMeter G limit, evs = []\<rparr> = (r, c)" by fastforce
  define spent where "spent = min (GasConsumed G (meter c)) limit"
  have spent: "uint spent \<le> uint limit" by (simp add: spent_def word_le_def [symmetric])
  have "is_ok (fst (MeterConsume G spent (meter ctx)))"
    by (rule gas_lawsD(7) [OF L]) (use room spent in linarith)
  then obtain m where C: "MeterConsume G spent (meter ctx) = (Inr (), m)"
    by (cases "MeterConsume G spent (meter ctx)") (auto simp: is_ok_iff)
  have m: "uint (GasConsumed G m) \<le> uint (GasConsumed G (meter ctx)) + uint limit" "MeterLimit G m = MeterLimit G (meter ctx)"
    using gas_lawsD(3,4) [OF L C] spent by simp_all
  have oog: "Panicked p = OutOfGas" if "r = Inl (Panicked p)" for p
    using P that run unfolding only_gas_panics_def by (metis fst_conv)
  show ?thesis
  proof (cases r)
    case (Inl e)
    then have "sudoContract G Sudo addr msgBz limit ctx = (Inr (), ctx\<lparr>meter := m\<rparr>)"
      using oog C by (cases e) (simp_all add: sudoContract_def upd run spent_def Let_def)
    with Inl m run show ?thesis by (simp add: sudo_effect_def)
  next
    case (Inr x)
    then have "sudoContract G Sudo addr msgBz limit ctx = (Inr (), ctx\<lparr>gstore := gstore c, evs := evs ctx @ evs c, meter := m\<rparr>)"
      using C by (simp add: sudoContract_def upd run spent_def Let_def)
    with Inr m run show ?thesis by (simp add: sudo_effect_def)
  qed
qed

lemma sudo_each_total:
  assumes L: "gas_laws G" and P: "only_gas_panics Sudo"
  shows "uint (GasConsumed G (meter ctx)) + int (length cs) * uint limit \<le> uint (MeterLimit G (meter ctx)) \<Longrightarrow>
    \<exists>ctx'. sudo_each G Sudo cs msgBz limit ctx = (Inr (), ctx') \<and>
     gstore ctx' = foldl (sudo_effect G Sudo msgBz limit) (gstore ctx) cs \<and>
     uint (GasConsumed G (meter ctx')) \<le> uint (GasConsumed G (meter ctx)) + int (length cs) * uint limit"
proof (induction cs arbitrary: ctx)
  case Nil
  then show ?case by simp
next
  case (Cons c cs)
  have nn: "0 \<le> int (length cs) * uint limit" by simp
  have len: "int (length (c # cs)) * uint limit = uint limit + int (length cs) * uint limit" by (simp add: algebra_simps)
  from Cons.prems len nn have "uint (GasConsumed G (meter ctx)) + uint limit \<le> uint (MeterLimit G (meter ctx))" by linarith
  from sudoContract_total [OF L P this, of c msgBz] obtain ctx1 where
    1: "sudoContract G Sudo c msgBz limit ctx = (Inr (), ctx1)" "gstore ctx1 = sudo_effect G Sudo msgBz limit (gstore ctx) c"
      "uint (GasConsumed G (meter ctx1)) \<le> uint (GasConsumed G (meter ctx)) + uint limit"
      "MeterLimit G (meter ctx1) = MeterLimit G (meter ctx)" by blast
  have "uint (GasConsumed G (meter ctx1)) + int (length cs) * uint limit \<le> uint (MeterLimit G (meter ctx1))"
    unfolding 1(4) using 1(3) Cons.prems len by linarith
  from Cons.IH [OF this] obtain ctx' where
    "sudo_each G Sudo cs msgBz limit ctx1 = (Inr (), ctx')"
    "gstore ctx' = foldl (sudo_effect G Sudo msgBz limit) (gstore ctx1) cs"
    "uint (GasConsumed G (meter ctx')) \<le> uint (GasConsumed G (meter ctx1)) + int (length cs) * uint limit" by blast
  moreover from this(3) 1(3) len have
    "uint (GasConsumed G (meter ctx')) \<le> uint (GasConsumed G (meter ctx)) + int (length (c # cs)) * uint limit" by linarith
  ultimately show ?case using 1(1,2) by (intro exI [of _ ctx'] conjI) simp_all
qed


section \<open>The properties\<close>



text \<open>
  C35. Genesis round trip: from every state that a genesis and any messages lead to, the exported
  genesis exists, initialises an empty store without a panic, and gives back the parameters and both
  registries.
\<close>

theorem ch_genesis_roundtrip:
  assumes "bech32_laws S" and "st0 = snd (CHInitGenesis S g0 kv_empty)"
    and "st = foldl (\<lambda>s m. snd (ch_exec S K m s)) st0 msgs"
  shows "\<exists>g st'. CHExportGenesis S st = Inr g \<and> CHInitGenesis S g kv_empty = (Inr (), st') \<and>
     CHGetParams st' = CHGetParams st \<and> GetAllContracts KeyPrefixStaking st' = GetAllContracts KeyPrefixStaking st \<and>
     GetAllContracts KeyPrefixGov st' = GetAllContracts KeyPrefixGov st"
  unfolding assms(2,3)
  by (intro ch_export_init ch_inv_run CHInitGenesis_inv ch_inv_empty assms(1))

section \<open>A run\<close>

definition ch_ex_keeper :: ch_keeper where
  "ch_ex_keeper = \<lparr>ch_authority = ''gov'', ch_HasContractInfo = (\<lambda>a. a \<in> {''cona'', ''conb''}),
     ch_GetContractInfo = (\<lambda>a. Some \<lparr>ci_Creator = ''alice'', ci_Admin = ''''\<rparr>)\<rparr>"

definition ch_ex_genesis :: ch_genesis where
  "ch_ex_genesis = \<lparr>gen_Params = 50, StakingContractAddresses = [''cona''], GovContractAddresses = []\<rparr>"

definition ch_ex_store0 :: ch_store where
  "ch_ex_store0 = snd (CHInitGenesis ledger_sdk ch_ex_genesis kv_empty)"

definition ch_ex_msgs :: "ch_msg list" where
  "ch_ex_msgs = [MsgRegisterStaking ''alice'' ''conb'', MsgRegisterGovernance ''alice'' ''cona'', MsgCHUpdateParams ''gov'' 60]"

definition ch_ex_store :: ch_store where
  "ch_ex_store = foldl (\<lambda>s m. snd (ch_exec ledger_sdk ch_ex_keeper m s)) ch_ex_store0 ch_ex_msgs"

text \<open>The first contract writes and then runs out of gas, the second counts.\<close>

definition ch_ex_sudo :: "(int, u64 \<times> u64) sudo_fun" where
  "ch_ex_sudo addr msgBz c =
     (if addr = ''cona'' then (Inl OutOfGas, c\<lparr>gstore := (fst (gstore c), 99), meter := (60, 61)\<rparr>)
      else (Inr '''', c\<lparr>gstore := (fst (gstore c), snd (gstore c) + 1), meter := (60, 20)\<rparr>))"

definition ch_ex_ctx :: "(int ch_chain, u64 \<times> u64) gctx" where
  "ch_ex_ctx = \<lparr>gstore = (ch_ex_store, 7), meter = (500, 0), evs = []\<rparr>"

lemma ch_ex_panics: "only_gas_panics ch_ex_sudo"
  by (simp add: only_gas_panics_def ch_ex_sudo_def)

lemma ch_ex_facts:
  "CHGetParams (fst (gstore ch_ex_ctx)) = Inr 60"
  "GetAllContracts KeyPrefixStaking (fst (gstore ch_ex_ctx)) = [''cona'', ''conb'']"
  by code_simp+



theorem ch_genesis_roundtrip_witness:
  "\<exists>g st'. CHExportGenesis ledger_sdk ch_ex_store = Inr g \<and> CHInitGenesis ledger_sdk g kv_empty = (Inr (), st') \<and>
     GetAllContracts KeyPrefixStaking st' = [''cona'', ''conb'']"
  using ch_genesis_roundtrip [OF ledger_bech32 ch_ex_store0_def ch_ex_store_def] ch_ex_facts(2)
  by (auto simp: ch_ex_ctx_def)

end
