(* ===== verification/HashMerchant.thy ===== *)
theory HashMerchant
  imports Sdk SdkMath KVStore ParamsServer Gas
begin

text \<open>
  Module \<open>x/hashmerchant\<close>, its state: registered foreign chains with their oracle sources, contracts
  that want the confirmed roots and their escrow, the confirmed roots, parameters and the height of
  the last pruning.  The votes that confirm roots are in the theory \<open>HashMerchantVotes\<close>.
\<close>

section \<open>Errors, keys and data\<close>

abbreviation ErrChainNotFound :: error where "ErrChainNotFound \<equiv> Registered ''hashmerchant'' 2"
abbreviation ErrChainAlreadyExists :: error where "ErrChainAlreadyExists \<equiv> Registered ''hashmerchant'' 3"
abbreviation ErrContractNotFound :: error where "ErrContractNotFound \<equiv> Registered ''hashmerchant'' 4"
abbreviation ErrEscrowNotFound :: error where "ErrEscrowNotFound \<equiv> Registered ''hashmerchant'' 6"
abbreviation ErrInsufficientEscrow :: error where "ErrInsufficientEscrow \<equiv> Registered ''hashmerchant'' 7"
abbreviation ErrHashRootNotFound :: error where "ErrHashRootNotFound \<equiv> Registered ''hashmerchant'' 9"
abbreviation ErrInvalidChainUID :: error where "ErrInvalidChainUID \<equiv> Registered ''hashmerchant'' 10"
abbreviation ErrHMUnauthorized :: error where "ErrHMUnauthorized \<equiv> Registered ''hashmerchant'' 13"
abbreviation ErrHMInvalidParams :: error where "ErrHMInvalidParams \<equiv> Registered ''hashmerchant'' 14"
abbreviation ErrChainDisabled :: error where "ErrChainDisabled \<equiv> Registered ''hashmerchant'' 15"

definition KeyPrefixRegisteredChains :: string where "KeyPrefixRegisteredChains = [CHR 0x01]"
definition KeyPrefixRegisteredContracts :: string where "KeyPrefixRegisteredContracts = [CHR 0x02]"
definition KeyPrefixEscrow :: string where "KeyPrefixEscrow = [CHR 0x03]"
definition KeyPrefixHashRoots :: string where "KeyPrefixHashRoots = [CHR 0x04]"
definition KeyPrefixParams :: string where "KeyPrefixParams = [CHR 0x05]"
definition KeyPrefixPruneEpoch :: string where "KeyPrefixPruneEpoch = [CHR 0x06]"
definition oracleSourcesKeyPrefix :: string where "oracleSourcesKeyPrefix = [CHR 0x06]"

definition KeyRegisteredChain :: "string \<Rightarrow> string" where
  "KeyRegisteredChain chainUID = KeyPrefixRegisteredChains @ chainUID"

definition KeyRegisteredContract :: "string \<Rightarrow> string" where
  "KeyRegisteredContract contractAddr = KeyPrefixRegisteredContracts @ contractAddr"

definition KeyEscrow :: "string \<Rightarrow> string" where
  "KeyEscrow contractAddr = KeyPrefixEscrow @ contractAddr"

definition KeyHashRoot :: "string \<Rightarrow> string \<Rightarrow> string" where
  "KeyHashRoot chainUID algo = KeyPrefixHashRoots @ chainUID @ ''|'' @ algo"

definition oracleSourcesKey :: "string \<Rightarrow> string" where
  "oracleSourcesKey chainUID = oracleSourcesKeyPrefix @ chainUID"

record CustodyAuthenticator =
  ca_Pubkey :: string
  ca_Algorithm :: string
  ca_Scope :: string

record OracleSource =
  os_SourceId :: string
  os_Kind :: int
  os_Endpoint :: string
  os_MerklePrefix :: "string list"
  os_Authenticator :: "CustodyAuthenticator option"
  os_Enabled :: bool

record OracleAttestation =
  oa_SourceId :: string
  oa_Value :: string
  oa_Height :: u64
  oa_Timestamp :: int
  oa_CustodySignature :: string

record RegisteredChain =
  rc_ChainUid :: string
  rc_Name :: string
  rc_RpcEndpoints :: "string list"
  rc_HashAlgos :: "string list"
  rc_Enabled :: bool
  rc_OracleSources :: "OracleSource option list"

record RegisteredContract =
  rk_ContractAddr :: string
  rk_ChainUid :: string
  rk_SubstoreKeys :: "string list"
  rk_Enabled :: bool

record EscrowRecord =
  er_ContractAddr :: string
  er_Amount :: Coin
  er_PaidUntilHeight :: u64

record HashRoot =
  hr_ChainUid :: string
  hr_Algo :: string
  hr_Height :: u64
  hr_Root :: string
  hr_AttestationCount :: u32
  hr_BlockTime :: int
  hr_Attestations :: "OracleAttestation option list"

datatype MarketMode = MARKET_MODE_OPEN | MARKET_MODE_CLOSED

record HMParams =
  QuorumFraction :: dec
  PruneInterval :: u64
  EscrowDenom :: string
  MinEscrowAmount :: int
  hm_MarketMode :: MarketMode
  ContractGasLimit :: u64

text \<open>
  The values of the store.  Oracle sources and the prune height share a key prefix, so both are kept
  as the bytes the code writes; the JSON encoding of sources is library code.
\<close>

datatype hm_val =
    HParams HMParams
  | HChain RegisteredChain
  | HContract RegisteredContract
  | HEscrow EscrowRecord
  | HRoot HashRoot
  | HBytes string

type_synonym hm_store = "hm_val kv"

record sources_codec =
  MarshalSources :: "OracleSource list \<Rightarrow> string res"
  UnmarshalSources :: "string \<Rightarrow> OracleSource list res"

section \<open>Parameters\<close>

definition DefaultContractGasLimit :: u64 where "DefaultContractGasLimit = push_bit 20 32 * 3"

definition HMDefaultParams :: HMParams where
  "HMDefaultParams = \<lparr>QuorumFraction = 667000000000000000, PruneInterval = 1000, EscrowDenom = ''uterp'',
     MinEscrowAmount = 1000000, hm_MarketMode = MARKET_MODE_OPEN, ContractGasLimit = DefaultContractGasLimit\<rparr>"

definition SudoGasLimit :: "HMParams \<Rightarrow> u64" where
  "SudoGasLimit p = (if ContractGasLimit p = 0 then DefaultContractGasLimit else ContractGasLimit p)"

definition HMParamsValidate :: "HMParams \<Rightarrow> unit res" where
  "HMParamsValidate p =
     (if QuorumFraction p < 0 \<or> dec_one < QuorumFraction p then Inl ErrHMInvalidParams
      else if PruneInterval p = 0 then Inl ErrHMInvalidParams
      else if EscrowDenom p = '''' then Inl ErrHMInvalidParams
      else if MinEscrowAmount p < 0 then Inl ErrHMInvalidParams
      else Inr ())"

definition HMGetParams :: "hm_store \<Rightarrow> HMParams res" where
  "HMGetParams st =
     (case kv_get st KeyPrefixParams of
        None \<Rightarrow> Inr HMDefaultParams
      | Some (HParams p) \<Rightarrow> Inr p
      | Some _ \<Rightarrow> Inl (Plain ''unmarshal params''))"

definition HMSetParams :: "HMParams \<Rightarrow> hm_store \<Rightarrow> unit res \<times> hm_store" where
  "HMSetParams p st = (Inr (), kv_set KeyPrefixParams (HParams p) st)"

definition EnsureSudoGasLimit :: "hm_store \<Rightarrow> unit res \<times> hm_store" where
  "EnsureSudoGasLimit st =
     (case HMGetParams st of
        Inl e \<Rightarrow> (Inl e, st)
      | Inr p \<Rightarrow> if ContractGasLimit p \<noteq> 0 then (Inr (), st)
                 else HMSetParams (p\<lparr>ContractGasLimit := DefaultContractGasLimit\<rparr>) st)"

section \<open>Store access\<close>

definition SetRegisteredChain :: "RegisteredChain \<Rightarrow> hm_store \<Rightarrow> hm_store" where
  "SetRegisteredChain c st = kv_set (KeyRegisteredChain (rc_ChainUid c)) (HChain c) st"

definition GetRegisteredChain :: "hm_store \<Rightarrow> string \<Rightarrow> RegisteredChain res" where
  "GetRegisteredChain st chainUID =
     (case kv_get st (KeyRegisteredChain chainUID) of
        None \<Rightarrow> Inl ErrChainNotFound
      | Some (HChain c) \<Rightarrow> Inr c
      | Some _ \<Rightarrow> Inl (Plain ''unmarshal chain''))"

definition HasRegisteredChain :: "hm_store \<Rightarrow> string \<Rightarrow> bool" where
  "HasRegisteredChain st chainUID = kv_has st (KeyRegisteredChain chainUID)"

definition SetRegisteredContract :: "RegisteredContract \<Rightarrow> hm_store \<Rightarrow> hm_store" where
  "SetRegisteredContract c st = kv_set (KeyRegisteredContract (rk_ContractAddr c)) (HContract c) st"

definition GetRegisteredContract :: "hm_store \<Rightarrow> string \<Rightarrow> RegisteredContract res" where
  "GetRegisteredContract st contractAddr =
     (case kv_get st (KeyRegisteredContract contractAddr) of
        None \<Rightarrow> Inl ErrContractNotFound
      | Some (HContract c) \<Rightarrow> Inr c
      | Some _ \<Rightarrow> Inl (Plain ''unmarshal contract''))"

definition SetEscrowRecord :: "EscrowRecord \<Rightarrow> hm_store \<Rightarrow> hm_store" where
  "SetEscrowRecord r st = kv_set (KeyEscrow (er_ContractAddr r)) (HEscrow r) st"

definition GetEscrowRecord :: "hm_store \<Rightarrow> string \<Rightarrow> EscrowRecord res" where
  "GetEscrowRecord st contractAddr =
     (case kv_get st (KeyEscrow contractAddr) of
        None \<Rightarrow> Inl ErrEscrowNotFound
      | Some (HEscrow r) \<Rightarrow> Inr r
      | Some _ \<Rightarrow> Inl (Plain ''unmarshal escrow''))"

definition SetHashRoot :: "HashRoot \<Rightarrow> hm_store \<Rightarrow> hm_store" where
  "SetHashRoot r st = kv_set (KeyHashRoot (hr_ChainUid r) (hr_Algo r)) (HRoot r) st"

definition GetHashRoot :: "hm_store \<Rightarrow> string \<Rightarrow> string \<Rightarrow> HashRoot res" where
  "GetHashRoot st chainUID algo =
     (case kv_get st (KeyHashRoot chainUID algo) of
        None \<Rightarrow> Inl ErrHashRootNotFound
      | Some (HRoot r) \<Rightarrow> Inr r
      | Some _ \<Rightarrow> Inl (Plain ''unmarshal root''))"

text \<open>
  The walks skip a value they cannot decode.  Every caller collects, or calls back and never stops,
  so a walk is the list of the values in key order.
\<close>

fun as_chain :: "hm_val \<Rightarrow> RegisteredChain option" where "as_chain (HChain c) = Some c" | "as_chain _ = None"
fun as_contract :: "hm_val \<Rightarrow> RegisteredContract option" where "as_contract (HContract c) = Some c" | "as_contract _ = None"
fun as_escrow :: "hm_val \<Rightarrow> EscrowRecord option" where "as_escrow (HEscrow r) = Some r" | "as_escrow _ = None"
fun as_root :: "hm_val \<Rightarrow> HashRoot option" where "as_root (HRoot r) = Some r" | "as_root _ = None"

definition IterateRegisteredChains :: "hm_store \<Rightarrow> RegisteredChain list" where
  "IterateRegisteredChains st = List.map_filter (\<lambda>e. as_chain (snd e)) (kv_scan KeyPrefixRegisteredChains st)"

definition IterateRegisteredContracts :: "hm_store \<Rightarrow> RegisteredContract list" where
  "IterateRegisteredContracts st = List.map_filter (\<lambda>e. as_contract (snd e)) (kv_scan KeyPrefixRegisteredContracts st)"

definition IterateEscrowRecords :: "hm_store \<Rightarrow> EscrowRecord list" where
  "IterateEscrowRecords st = List.map_filter (\<lambda>e. as_escrow (snd e)) (kv_scan KeyPrefixEscrow st)"

definition IterateHashRoots :: "string \<Rightarrow> hm_store \<Rightarrow> HashRoot list" where
  "IterateHashRoots chainUID st = List.map_filter (\<lambda>e. as_root (snd e)) (kv_scan (KeyPrefixHashRoots @ chainUID @ ''|'') st)"

definition iterateAllHashRoots :: "hm_store \<Rightarrow> HashRoot list" where
  "iterateAllHashRoots st = List.map_filter (\<lambda>e. as_root (snd e)) (kv_scan KeyPrefixHashRoots st)"

definition SetOracleSources :: "sources_codec \<Rightarrow> string \<Rightarrow> OracleSource list \<Rightarrow> hm_store \<Rightarrow> unit res \<times> hm_store" where
  "SetOracleSources J chainUID sources st =
     (case MarshalSources J sources of
        Inl e \<Rightarrow> (Inl e, st)
      | Inr bz \<Rightarrow> (Inr (), kv_set (oracleSourcesKey chainUID) (HBytes bz) st))"

definition GetOracleSources :: "sources_codec \<Rightarrow> hm_store \<Rightarrow> string \<Rightarrow> OracleSource list res" where
  "GetOracleSources J st chainUID =
     (case kv_get st (oracleSourcesKey chainUID) of
        None \<Rightarrow> Inr []
      | Some (HBytes bz) \<Rightarrow> UnmarshalSources J bz
      | Some _ \<Rightarrow> Inl (Plain ''unmarshal sources''))"

text \<open>\<open>binary.BigEndian.Uint64\<close> reads eight bytes and panics when there are fewer.\<close>

definition GetPruneEpoch :: "hm_store \<Rightarrow> u64 res" where
  "GetPruneEpoch st =
     (case kv_get st KeyPrefixPruneEpoch of
        None \<Rightarrow> Inr 0
      | Some (HBytes bz) \<Rightarrow> if length bz < 8 then Inl (Panicked ''index out of range'') else Inr (BigEndianToUint64 bz)
      | Some _ \<Rightarrow> Inl (Panicked ''index out of range''))"

definition SetPruneEpoch :: "u64 \<Rightarrow> hm_store \<Rightarrow> hm_store" where
  "SetPruneEpoch height st = kv_set KeyPrefixPruneEpoch (HBytes (Uint64ToBigEndian height)) st"

section \<open>Messages\<close>

record MsgRegisterContract =
  rm_Sender :: string
  rm_ContractAddr :: string
  rm_ChainUid :: string
  rm_SubstoreKeys :: "string list"
  rm_Escrow :: Coin

record MsgRefillEscrow =
  re_Sender :: string
  re_ContractAddr :: string
  re_Amount :: Coin

definition MsgRegisterChain_ValidateBasic :: "'w sdk \<Rightarrow> string \<Rightarrow> RegisteredChain \<Rightarrow> unit res" where
  "MsgRegisterChain_ValidateBasic S authority chain =
     first_error [as_error ErrHMUnauthorized (no_value (AccAddressFromBech32 S authority)),
       check ErrInvalidChainUID (rc_ChainUid chain \<noteq> '''')]"

definition MsgRegisterContract_ValidateBasic :: "'w sdk \<Rightarrow> MsgRegisterContract \<Rightarrow> unit res" where
  "MsgRegisterContract_ValidateBasic S m =
     first_error [as_error ErrHMUnauthorized (no_value (AccAddressFromBech32 S (rm_Sender m))),
       check ErrContractNotFound (rm_ContractAddr m \<noteq> ''''), check ErrInvalidChainUID (rm_ChainUid m \<noteq> ''''),
       check ErrInsufficientEscrow (0 < Amount (rm_Escrow m))]"

definition MsgRefillEscrow_ValidateBasic :: "'w sdk \<Rightarrow> MsgRefillEscrow \<Rightarrow> unit res" where
  "MsgRefillEscrow_ValidateBasic S m =
     first_error [as_error ErrHMUnauthorized (no_value (AccAddressFromBech32 S (re_Sender m))),
       check ErrContractNotFound (re_ContractAddr m \<noteq> ''''), check ErrInsufficientEscrow (0 < Amount (re_Amount m))]"

definition HMMsgUpdateParams_ValidateBasic :: "'w sdk \<Rightarrow> string \<Rightarrow> HMParams \<Rightarrow> unit res" where
  "HMMsgUpdateParams_ValidateBasic S authority p =
     first_error [as_error ErrHMUnauthorized (no_value (AccAddressFromBech32 S authority)), HMParamsValidate p]"

definition RegisterChain :: "string \<Rightarrow> string \<Rightarrow> RegisteredChain \<Rightarrow> hm_store \<Rightarrow> unit res \<times> hm_store" where
  "RegisterChain keeperAuthority authority chain st =
     (if keeperAuthority \<noteq> authority then (Inl ErrGovInvalidSigner, st)
      else if HasRegisteredChain st (rc_ChainUid chain) then (Inl ErrChainAlreadyExists, st)
      else (Inr (), SetRegisteredChain chain st))"

text \<open>
  \<open>Int.Quo\<close> truncates and panics on zero; \<open>Int.Uint64\<close> panics when the value does not fit.  The
  product and the sum that follow are of machine words and wrap.
\<close>

definition escrow_periods :: "int \<Rightarrow> int \<Rightarrow> u64 res" where
  "escrow_periods amount minimum =
     (if minimum = 0 then Inl (Panicked ''division by zero'')
      else let q = int_quo amount minimum in
        if 0 \<le> q \<and> q < 18446744073709551616 then Inr (of_int q) else Inl (Panicked ''Uint64 out of bounds''))"

text \<open>The transfer of the escrow; an undecodable sender is the empty address.\<close>

definition escrow_pay :: "'w sdk \<Rightarrow> string \<Rightarrow> Coin \<Rightarrow> hm_store \<times> 'w \<Rightarrow> unit res \<times> (hm_store \<times> 'w)" where
  "escrow_pay S sender coin s =
     (case NewCoins S [coin] of
        Inl e \<Rightarrow> (Inl e, s)
      | Inr cs \<Rightarrow>
         (let (r, w) = SendCoinsFromAccountToModule S (case AccAddressFromBech32 S sender of Inl e \<Rightarrow> '''' | Inr a \<Rightarrow> a)
                         ''hashmerchant'' cs (snd s)
          in (r, (fst s, w))))"

definition RegisterContract ::
  "'w sdk \<Rightarrow> u64 \<Rightarrow> MsgRegisterContract \<Rightarrow> hm_store \<times> 'w \<Rightarrow> unit res \<times> (hm_store \<times> 'w)" where
  "RegisterContract S height msg s =
     (case GetRegisteredChain (fst s) (rm_ChainUid msg) of
        Inl e \<Rightarrow> (Inl e, s)
      | Inr chain \<Rightarrow>
          if \<not> rc_Enabled chain then (Inl ErrChainDisabled, s)
          else case HMGetParams (fst s) of
            Inl e \<Rightarrow> (Inl e, s)
          | Inr params \<Rightarrow>
              if Denom (rm_Escrow msg) \<noteq> EscrowDenom params then (Inl ErrInsufficientEscrow, s)
              else if Amount (rm_Escrow msg) < MinEscrowAmount params then (Inl ErrInsufficientEscrow, s)
              else case escrow_pay S (rm_Sender msg) (rm_Escrow msg) s of
                (Inl e, s1) \<Rightarrow> (Inl e, s1)
              | (Inr _, s1) \<Rightarrow>
                 (case escrow_periods (Amount (rm_Escrow msg)) (MinEscrowAmount params) of
                    Inl e \<Rightarrow> (Inl e, s1)
                  | Inr periods \<Rightarrow>
                      let paidUntil = height + periods * PruneInterval params;
                          contract = \<lparr>rk_ContractAddr = rm_ContractAddr msg, rk_ChainUid = rm_ChainUid msg,
                                      rk_SubstoreKeys = rm_SubstoreKeys msg, rk_Enabled = True\<rparr>;
                          record = \<lparr>er_ContractAddr = rm_ContractAddr msg, er_Amount = rm_Escrow msg, er_PaidUntilHeight = paidUntil\<rparr>
                      in (Inr (), (SetEscrowRecord record (SetRegisteredContract contract (fst s1)), snd s1))))"

definition coin_add :: "Coin \<Rightarrow> Coin \<Rightarrow> Coin res" where
  "coin_add a b = (if Denom a \<noteq> Denom b then Inl (Panicked ''invalid coin denominations'') else Inr (a\<lparr>Amount := Amount a + Amount b\<rparr>))"

definition RefillEscrow :: "'w sdk \<Rightarrow> MsgRefillEscrow \<Rightarrow> hm_store \<times> 'w \<Rightarrow> unit res \<times> (hm_store \<times> 'w)" where
  "RefillEscrow S msg s =
     (case GetEscrowRecord (fst s) (re_ContractAddr msg) of
        Inl e \<Rightarrow> (Inl e, s)
      | Inr record \<Rightarrow>
     (case HMGetParams (fst s) of
        Inl e \<Rightarrow> (Inl e, s)
      | Inr params \<Rightarrow>
          if Denom (re_Amount msg) \<noteq> EscrowDenom params then (Inl ErrInsufficientEscrow, s)
          else case escrow_pay S (re_Sender msg) (re_Amount msg) s of
            (Inl e, s1) \<Rightarrow> (Inl e, s1)
          | (Inr _, s1) \<Rightarrow>
             (case escrow_periods (Amount (re_Amount msg)) (MinEscrowAmount params) of
                Inl e \<Rightarrow> (Inl e, s1)
              | Inr periods \<Rightarrow>
             (case coin_add (er_Amount record) (re_Amount msg) of
                Inl e \<Rightarrow> (Inl e, s1)
              | Inr total_amount \<Rightarrow>
                  (Inr (), (SetEscrowRecord
                    (record\<lparr>er_PaidUntilHeight := er_PaidUntilHeight record + periods * PruneInterval params, er_Amount := total_amount\<rparr>)
                    (fst s1), snd s1))))))"

definition HMUpdateParams :: "string \<Rightarrow> string \<Rightarrow> HMParams \<Rightarrow> hm_store \<Rightarrow> unit res \<times> hm_store" where
  "HMUpdateParams keeperAuthority authority p st =
     (if keeperAuthority \<noteq> authority then (Inl ErrGovInvalidSigner, st)
      else case HMParamsValidate p of
        Inl e \<Rightarrow> (Inl e, st)
      | Inr _ \<Rightarrow> HMSetParams p st)"

interpretation hm_server: params_server HMUpdateParams "\<lambda>k. k" HMParamsValidate HMGetParams "\<lambda>p. p"
  by unfold_locales (simp_all add: HMUpdateParams_def HMSetParams_def HMGetParams_def kv_simps)

section \<open>Pruning\<close>

fun disable_contracts :: "string list \<Rightarrow> hm_store \<Rightarrow> hm_store" where
  "disable_contracts [] st = st"
| "disable_contracts (addr # as) st =
     (case GetRegisteredContract st addr of
        Inl e \<Rightarrow> disable_contracts as st
      | Inr contract \<Rightarrow> disable_contracts as (SetRegisteredContract (contract\<lparr>rk_Enabled := False\<rparr>) st))"

definition pruneExpiredEscrows :: "u64 \<Rightarrow> hm_store \<Rightarrow> hm_store" where
  "pruneExpiredEscrows currentHeight st =
     disable_contracts (map er_ContractAddr (filter (\<lambda>r. er_PaidUntilHeight r < currentHeight) (IterateEscrowRecords st))) st"

definition HMEndBlocker :: "u64 \<Rightarrow> hm_store \<Rightarrow> unit res \<times> hm_store" where
  "HMEndBlocker blockHeight st =
     (case HMGetParams st of
        Inl e \<Rightarrow> (Inl e, st)
      | Inr params \<Rightarrow>
     (case GetPruneEpoch st of
        Inl e \<Rightarrow> (Inl e, st)
      | Inr lastPrune \<Rightarrow>
          if PruneInterval params \<le> blockHeight - lastPrune
          then (Inr (), SetPruneEpoch blockHeight (pruneExpiredEscrows blockHeight st))
          else (Inr (), st)))"

section \<open>Genesis\<close>

record HMGenesis =
  hg_Params :: HMParams
  hg_Chains :: "RegisteredChain list"
  hg_Contracts :: "RegisteredContract list"
  hg_Escrows :: "EscrowRecord list"
  hg_Roots :: "HashRoot list"
  hg_PruneEpoch :: u64

definition HMDefaultGenesis :: HMGenesis where
  "HMDefaultGenesis = \<lparr>hg_Params = HMDefaultParams, hg_Chains = [], hg_Contracts = [], hg_Escrows = [], hg_Roots = [], hg_PruneEpoch = 0\<rparr>"

fun chains_valid :: "string list \<Rightarrow> RegisteredChain list \<Rightarrow> unit res" where
  "chains_valid seen [] = Inr ()"
| "chains_valid seen (c # cs) =
     (if rc_ChainUid c = '''' then Inl ErrInvalidChainUID
      else if rc_ChainUid c \<in> set seen then Inl ErrChainAlreadyExists
      else chains_valid (rc_ChainUid c # seen) cs)"

definition HMGenesisValidate :: "HMGenesis \<Rightarrow> unit res" where
  "HMGenesisValidate gs = (case HMParamsValidate (hg_Params gs) of Inl e \<Rightarrow> Inl e | Inr _ \<Rightarrow> chains_valid [] (hg_Chains gs))"

fun init_chains :: "sources_codec \<Rightarrow> RegisteredChain list \<Rightarrow> hm_store \<Rightarrow> unit res \<times> hm_store" where
  "init_chains J [] st = (Inr (), st)"
| "init_chains J (c # cs) st =
     (let st1 = SetRegisteredChain c st in
      if rc_OracleSources c \<noteq> [] then
        (case SetOracleSources J (rc_ChainUid c) (List.map_filter (\<lambda>s. s) (rc_OracleSources c)) st1 of
           (Inl e, st2) \<Rightarrow> (Inl (Panicked ''set oracle sources''), st2)
         | (Inr _, st2) \<Rightarrow> init_chains J cs st2)
      else init_chains J cs st1)"

definition HMInitGenesis :: "sources_codec \<Rightarrow> HMGenesis \<Rightarrow> hm_store \<Rightarrow> unit res \<times> hm_store" where
  "HMInitGenesis J gs st =
     (case HMSetParams (hg_Params gs) st of
        (Inl e, st1) \<Rightarrow> (Inl (Panicked ''set params''), st1)
      | (Inr _, st1) \<Rightarrow>
     (case init_chains J (hg_Chains gs) st1 of
        (Inl e, st2) \<Rightarrow> (Inl e, st2)
      | (Inr _, st2) \<Rightarrow>
         (let st3 = fold SetRegisteredContract (hg_Contracts gs) st2;
              st4 = fold SetEscrowRecord (hg_Escrows gs) st3;
              st5 = fold SetHashRoot (hg_Roots gs) st4
          in (Inr (), SetPruneEpoch (hg_PruneEpoch gs) st5))))"

definition HMExportGenesis :: "hm_store \<Rightarrow> HMGenesis res" where
  "HMExportGenesis st =
     (case GetPruneEpoch st of
        Inl e \<Rightarrow> Inl e
      | Inr epoch \<Rightarrow>
          Inr \<lparr>hg_Params = (case HMGetParams st of Inr p \<Rightarrow> p
                 | Inl e \<Rightarrow> \<lparr>QuorumFraction = 0, PruneInterval = 0, EscrowDenom = '''', MinEscrowAmount = 0,
                            hm_MarketMode = MARKET_MODE_OPEN, ContractGasLimit = 0\<rparr>),
               hg_Chains = IterateRegisteredChains st, hg_Contracts = IterateRegisteredContracts st,
               hg_Escrows = IterateEscrowRecords st, hg_Roots = iterateAllHashRoots st, hg_PruneEpoch = epoch\<rparr>)"

text \<open>
  The module's own \<open>InitGenesis\<close> reads a second map of oracle sources from the same JSON document.
  It is a Go map, walked in some order; the entries have distinct keys.
\<close>

fun set_extra_sources :: "sources_codec \<Rightarrow> (string \<times> OracleSource list) list \<Rightarrow> hm_store \<Rightarrow> unit res \<times> hm_store" where
  "set_extra_sources J [] st = (Inr (), st)"
| "set_extra_sources J ((chainUID, sources) # es) st =
     (case SetOracleSources J chainUID sources st of
        (Inl e, st1) \<Rightarrow> (Inl (Panicked ''set oracle sources''), st1)
      | (Inr _, st1) \<Rightarrow> set_extra_sources J es st1)"

definition HMModuleInitGenesis ::
  "sources_codec \<Rightarrow> HMGenesis \<Rightarrow> (string \<times> OracleSource list) list res \<Rightarrow> hm_store \<Rightarrow> unit res \<times> hm_store" where
  "HMModuleInitGenesis J gs extra st =
     (case HMInitGenesis J gs st of
        (Inl e, st1) \<Rightarrow> (Inl e, st1)
      | (Inr _, st1) \<Rightarrow> (case extra of Inl e \<Rightarrow> (Inr (), st1) | Inr es \<Rightarrow> set_extra_sources J es st1))"

section \<open>Queries\<close>

abbreviation InvalidArgument :: error where "InvalidArgument \<equiv> Plain ''invalid argument''"

definition HMQueryParams :: "hm_store \<Rightarrow> HMParams res" where "HMQueryParams st = HMGetParams st"

definition QueryRegisteredChain :: "hm_store \<Rightarrow> string option \<Rightarrow> RegisteredChain res" where
  "QueryRegisteredChain st req =
     (case req of None \<Rightarrow> Inl InvalidArgument
      | Some uid \<Rightarrow> if uid = '''' then Inl InvalidArgument else GetRegisteredChain st uid)"

definition QueryRegisteredChains :: "hm_store \<Rightarrow> RegisteredChain list" where
  "QueryRegisteredChains st = IterateRegisteredChains st"

definition QueryRegisteredContract :: "hm_store \<Rightarrow> string option \<Rightarrow> RegisteredContract res" where
  "QueryRegisteredContract st req =
     (case req of None \<Rightarrow> Inl InvalidArgument
      | Some addr \<Rightarrow> if addr = '''' then Inl InvalidArgument else GetRegisteredContract st addr)"

definition QueryRegisteredContracts :: "hm_store \<Rightarrow> RegisteredContract list" where
  "QueryRegisteredContracts st = IterateRegisteredContracts st"

definition QueryHashRoot :: "hm_store \<Rightarrow> (string \<times> string) option \<Rightarrow> HashRoot res" where
  "QueryHashRoot st req =
     (case req of None \<Rightarrow> Inl InvalidArgument
      | Some (uid, algo) \<Rightarrow> if uid = '''' \<or> algo = '''' then Inl InvalidArgument else GetHashRoot st uid algo)"

definition QueryHashRoots :: "hm_store \<Rightarrow> string option \<Rightarrow> HashRoot list res" where
  "QueryHashRoots st req =
     (case req of None \<Rightarrow> Inl InvalidArgument
      | Some uid \<Rightarrow> if uid = '''' then Inl InvalidArgument else Inr (IterateHashRoots uid st))"

definition QueryEscrow :: "hm_store \<Rightarrow> string option \<Rightarrow> EscrowRecord res" where
  "QueryEscrow st req =
     (case req of None \<Rightarrow> Inl InvalidArgument
      | Some addr \<Rightarrow> if addr = '''' then Inl InvalidArgument else GetEscrowRecord st addr)"


section \<open>Escrow\<close>

lemma sum_kv_set:
  fixes g :: "string \<times> 'v \<Rightarrow> int"
  assumes "kv_wf m"
  shows "sum_list (map g (kv_set k v m)) =
    sum_list (map g m) - (case kv_get m k of None \<Rightarrow> 0 | Some v' \<Rightarrow> g (k, v')) + g (k, v)"
  using assms
proof (induction k v m rule: kv_set.induct)
  case (1 k v)
  then show ?case by (simp add: kv_get_def)
next
  case (2 k v k' v' m)
  have wf: "kv_wf m" and lt: "\<And>j. j \<in> fst ` set m \<Longrightarrow> k' < j" using "2.prems" by (auto simp: kv_wf_def)
  have none: "map_of m k = None" if "k < k'" using lt that by (fastforce simp: map_of_eq_None_iff)
  show ?case using "2.IH" wf none by (auto simp: kv_get_def split: option.split)
qed

text \<open>What the records say is held of a denomination, as a sum over the entries of the store.\<close>

definition escrow_held :: "hm_store \<Rightarrow> string \<Rightarrow> int" where
  "escrow_held st d = coins_amount (map er_Amount (IterateEscrowRecords st)) d"

definition entry_amount :: "string \<Rightarrow> string \<times> hm_val \<Rightarrow> int" where
  "entry_amount d e =
     (if prefix KeyPrefixEscrow (fst e)
      then (case as_escrow (snd e) of None \<Rightarrow> 0 | Some r \<Rightarrow> if Denom (er_Amount r) = d then Amount (er_Amount r) else 0) else 0)"

lemma escrow_held_sum: "escrow_held st d = sum_list (map (entry_amount d) st)"
  by (induction st)
     (auto simp: escrow_held_def IterateEscrowRecords_def kv_scan_def entry_amount_def List.map_filter_simps split: option.split)

text \<open>The invariant of the escrow part: a record lies under its own address and is not negative.\<close>

definition escrow_inv :: "hm_store \<Rightarrow> bool" where
  "escrow_inv st \<longleftrightarrow> kv_wf st \<and>
     (\<forall>a v. kv_get st (KeyEscrow a) = Some v \<longrightarrow> (\<exists>r. v = HEscrow r \<and> er_ContractAddr r = a \<and> 0 \<le> Amount (er_Amount r)))"

lemma escrow_keys [simp]:
  "KeyPrefixParams \<noteq> KeyEscrow a" "KeyRegisteredChain c \<noteq> KeyEscrow a" "KeyRegisteredContract c \<noteq> KeyEscrow a" "KeyPrefixPruneEpoch \<noteq> KeyEscrow a"
  "KeyEscrow a \<noteq> KeyPrefixParams" "KeyEscrow a \<noteq> KeyRegisteredChain c" "KeyEscrow a \<noteq> KeyRegisteredContract c" "KeyEscrow a \<noteq> KeyPrefixPruneEpoch"
  "KeyEscrow a = KeyEscrow b \<longleftrightarrow> a = b"
  "\<not> prefix KeyPrefixEscrow KeyPrefixParams" "\<not> prefix KeyPrefixEscrow (KeyRegisteredChain c)"
  "\<not> prefix KeyPrefixEscrow (KeyRegisteredContract c)" "\<not> prefix KeyPrefixEscrow KeyPrefixPruneEpoch" "prefix KeyPrefixEscrow (KeyEscrow a)"
  by (simp_all add: KeyEscrow_def KeyRegisteredChain_def KeyRegisteredContract_def KeyPrefixEscrow_def KeyPrefixParams_def
      KeyPrefixRegisteredChains_def KeyPrefixRegisteredContracts_def KeyPrefixPruneEpoch_def)

text \<open>Writing any other part of the store keeps records and invariant.\<close>

lemma escrow_other:
  assumes "escrow_inv st" and "\<not> prefix KeyPrefixEscrow k"
  shows "escrow_inv (kv_set k v st)" and "escrow_held (kv_set k v st) d = escrow_held st d"
proof -
  have k: "KeyEscrow a \<noteq> k" for a using assms(2) by auto
  show "escrow_inv (kv_set k v st)" using assms(1) k by (simp add: escrow_inv_def kv_simps)
  have "kv_wf st" using assms(1) by (simp add: escrow_inv_def)
  from sum_kv_set [OF this, of "entry_amount d" k v] assms(2) show "escrow_held (kv_set k v st) d = escrow_held st d"
    by (simp add: escrow_held_sum entry_amount_def split: option.split)
qed

definition coin_of :: "Coin \<Rightarrow> string \<Rightarrow> int" where
  "coin_of c d = (if Denom c = d then Amount c else 0)"

lemma escrow_write:
  assumes "escrow_inv st" and "0 \<le> Amount (er_Amount r)"
  shows "escrow_inv (SetEscrowRecord r st)"
    and "escrow_held (SetEscrowRecord r st) d = escrow_held st d + coin_of (er_Amount r) d -
       (case GetEscrowRecord st (er_ContractAddr r) of Inl e \<Rightarrow> 0 | Inr r' \<Rightarrow> coin_of (er_Amount r') d)"
proof -
  show "escrow_inv (SetEscrowRecord r st)" using assms by (auto simp: escrow_inv_def SetEscrowRecord_def kv_simps)
  have wf: "kv_wf st" using assms(1) by (simp add: escrow_inv_def)
  have old: "(case kv_get st (KeyEscrow (er_ContractAddr r)) of None \<Rightarrow> 0 | Some v' \<Rightarrow> entry_amount d (KeyEscrow (er_ContractAddr r), v'))
     = (case GetEscrowRecord st (er_ContractAddr r) of Inl e \<Rightarrow> 0 | Inr r' \<Rightarrow> coin_of (er_Amount r') d)"
  proof (cases "kv_get st (KeyEscrow (er_ContractAddr r))")
    case None
    then show ?thesis by (simp add: GetEscrowRecord_def)
  next
    case (Some v)
    then obtain r' where "v = HEscrow r'" using assms(1) by (auto simp: escrow_inv_def)
    with Some show ?thesis by (simp add: GetEscrowRecord_def entry_amount_def coin_of_def)
  qed
  have new: "entry_amount d (KeyEscrow (er_ContractAddr r), HEscrow r) = coin_of (er_Amount r) d"
    by (simp add: entry_amount_def coin_of_def)
  show "escrow_held (SetEscrowRecord r st) d = escrow_held st d + coin_of (er_Amount r) d -
       (case GetEscrowRecord st (er_ContractAddr r) of Inl e \<Rightarrow> 0 | Inr r' \<Rightarrow> coin_of (er_Amount r') d)"
    unfolding escrow_held_sum SetEscrowRecord_def sum_kv_set [OF wf] old new by simp
qed

lemma escrow_record:
  assumes "escrow_inv st" and "GetEscrowRecord st a = Inr r"
  shows "er_ContractAddr r = a" and "0 \<le> Amount (er_Amount r)"
proof -
  have "kv_get st (KeyEscrow a) = Some (HEscrow r)"
    using assms(2) by (simp add: GetEscrowRecord_def split: option.splits hm_val.splits)
  then show "er_ContractAddr r = a" "0 \<le> Amount (er_Amount r)" using assms(1) by (auto simp: escrow_inv_def)
qed

section \<open>Messages and blocks\<close>

text \<open>A message is checked, handled, and undone when it fails; the end of a block prunes.\<close>

datatype hm_msg =
    MsgRegisterChainHM string RegisteredChain
  | MsgRegisterContractHM MsgRegisterContract
  | MsgRefillEscrowHM MsgRefillEscrow
  | MsgUpdateParamsHM string HMParams
  | EndBlockHM u64

definition committed :: "'s \<Rightarrow> unit res \<times> 's \<Rightarrow> 's" where
  "committed s p = (case fst p of Inl e \<Rightarrow> s | Inr _ \<Rightarrow> snd p)"

definition on_store :: "(hm_store \<Rightarrow> unit res \<times> hm_store) \<Rightarrow> hm_store \<times> 'w \<Rightarrow> unit res \<times> (hm_store \<times> 'w)" where
  "on_store f s = (let (r, st) = f (fst s) in (r, (st, snd s)))"

fun hm_deliver :: "'w sdk \<Rightarrow> string \<Rightarrow> u64 \<Rightarrow> hm_msg \<Rightarrow> hm_store \<times> 'w \<Rightarrow> hm_store \<times> 'w" where
  "hm_deliver S gov height (MsgRegisterChainHM a c) s =
     (if is_ok (MsgRegisterChain_ValidateBasic S a c) then committed s (on_store (RegisterChain gov a c) s) else s)"
| "hm_deliver S gov height (MsgRegisterContractHM m) s =
     (if is_ok (MsgRegisterContract_ValidateBasic S m) then committed s (RegisterContract S height m s) else s)"
| "hm_deliver S gov height (MsgRefillEscrowHM m) s =
     (if is_ok (MsgRefillEscrow_ValidateBasic S m) then committed s (RefillEscrow S m s) else s)"
| "hm_deliver S gov height (MsgUpdateParamsHM a p) s =
     (if is_ok (HMMsgUpdateParams_ValidateBasic S a p) then committed s (on_store (HMUpdateParams gov a p) s) else s)"
| "hm_deliver S gov height (EndBlockHM h) s = committed s (on_store (HMEndBlocker h) s)"

text \<open>The address whose coins a message moves.\<close>

fun hm_payer :: "hm_msg \<Rightarrow> string option" where
  "hm_payer (MsgRegisterContractHM m) = Some (rm_Sender m)"
| "hm_payer (MsgRefillEscrowHM m) = Some (re_Sender m)"
| "hm_payer _ = None"

lemma disable_contracts_escrow:
  "escrow_inv st \<Longrightarrow> escrow_inv (disable_contracts as st) \<and> escrow_held (disable_contracts as st) d = escrow_held st d"
  by (induction as arbitrary: st)
     (auto simp: SetRegisteredContract_def escrow_other split: sum.split)

lemma escrow_pay_moves:
  assumes "bank_laws S supply bal modaddr" and "coins_laws S" and "escrow_pay S sender c s = (Inr (), s')"
    and "\<And>a. AccAddressFromBech32 S sender = Inr a \<Longrightarrow> a \<noteq> modaddr ''hashmerchant''" and "is_ok (AccAddressFromBech32 S sender)"
  shows "fst s' = fst s" and "bal (snd s') (modaddr ''hashmerchant'') d = bal (snd s) (modaddr ''hashmerchant'') d + coin_of c d"
proof -
  obtain a where a: "AccAddressFromBech32 S sender = Inr a" using assms(5) by (auto simp: is_ok_iff)
  obtain cs w where cs: "NewCoins S [c] = Inr cs" and w: "SendCoinsFromAccountToModule S a ''hashmerchant'' cs (snd s) = (Inr (), w)" "s' = (fst s, w)"
    using assms(3) a by (auto simp: escrow_pay_def split: sum.splits prod.splits)
  show "fst s' = fst s" using w(2) by simp
  have "moved supply bal a (modaddr ''hashmerchant'') cs (snd s) w"
    using assms(1) w(1) unfolding bank_laws_def by blast
  with assms(4) [OF a] coins_lawsD [OF assms(2) cs] show
    "bal (snd s') (modaddr ''hashmerchant'') d = bal (snd s) (modaddr ''hashmerchant'') d + coin_of c d"
    unfolding moved_def w(2) by (auto simp: coin_of_def)
qed

definition escrow_backed :: "('w \<Rightarrow> string \<Rightarrow> string \<Rightarrow> int) \<Rightarrow> string \<Rightarrow> hm_store \<times> 'w \<Rightarrow> bool" where
  "escrow_backed bal acc s \<longleftrightarrow> escrow_inv (fst s) \<and> (\<forall>d. escrow_held (fst s) d \<le> bal (snd s) acc d)"

lemma RegisterContract_backed:
  assumes L: "bank_laws S supply bal modaddr" "coins_laws S" and I: "escrow_backed bal (modaddr ''hashmerchant'') s"
    and V: "MsgRegisterContract_ValidateBasic S m = Inr ()"
    and P: "\<And>a. AccAddressFromBech32 S (rm_Sender m) = Inr a \<Longrightarrow> a \<noteq> modaddr ''hashmerchant''"
    and R: "RegisterContract S height m s = (Inr (), s')"
  shows "escrow_backed bal (modaddr ''hashmerchant'') s'"
proof -
  have V': "is_ok (AccAddressFromBech32 S (rm_Sender m))" "0 \<le> Amount (rm_Escrow m)"
    using V unfolding MsgRegisterContract_ValidateBasic_def first_error_ok by simp_all
  obtain s1 c n where s1: "escrow_pay S (rm_Sender m) (rm_Escrow m) s = (Inr (), s1)"
    and s': "s' = (SetEscrowRecord \<lparr>er_ContractAddr = rm_ContractAddr m, er_Amount = rm_Escrow m, er_PaidUntilHeight = n\<rparr>
        (SetRegisteredContract c (fst s1)), snd s1)"
    using R by (auto simp: RegisterContract_def Let_def split: sum.splits if_splits prod.splits)
  have pay: "fst s1 = fst s" "\<And>d. bal (snd s1) (modaddr ''hashmerchant'') d = bal (snd s) (modaddr ''hashmerchant'') d + coin_of (rm_Escrow m) d"
    using escrow_pay_moves [OF L s1 P V'(1)] by simp_all
  define st1 where "st1 = SetRegisteredContract c (fst s1)"
  have inv: "escrow_inv (fst s)" and held: "\<And>d. escrow_held (fst s) d \<le> bal (snd s) (modaddr ''hashmerchant'') d"
    using I by (simp_all add: escrow_backed_def)
  have st1: "escrow_inv st1" "\<And>d. escrow_held st1 d = escrow_held (fst s) d"
    using escrow_other [OF inv, of "KeyRegisteredContract (rk_ContractAddr c)"] by (simp_all add: st1_def pay SetRegisteredContract_def)
  let ?r = "\<lparr>er_ContractAddr = rm_ContractAddr m, er_Amount = rm_Escrow m, er_PaidUntilHeight = n\<rparr>"
  have old: "0 \<le> (case GetEscrowRecord st1 (er_ContractAddr ?r) of Inl e \<Rightarrow> 0 | Inr r' \<Rightarrow> coin_of (er_Amount r') d)" for d
    using escrow_record(2) [OF st1(1)] by (auto simp: coin_of_def split: sum.split)
  have "escrow_held (fst s') d \<le> bal (snd s') (modaddr ''hashmerchant'') d" for d
    using escrow_write(2) [OF st1(1), of ?r d] V'(2) old [of d] st1(2) [of d] pay(2) [of d] held [of d] by (simp add: s' st1_def)
  moreover have "escrow_inv (fst s')" using escrow_write(1) [OF st1(1), of ?r] V'(2) by (simp add: s' st1_def)
  ultimately show ?thesis by (simp add: escrow_backed_def)
qed

lemma RefillEscrow_backed:
  assumes L: "bank_laws S supply bal modaddr" "coins_laws S" and I: "escrow_backed bal (modaddr ''hashmerchant'') s"
    and V: "MsgRefillEscrow_ValidateBasic S m = Inr ()"
    and P: "\<And>a. AccAddressFromBech32 S (re_Sender m) = Inr a \<Longrightarrow> a \<noteq> modaddr ''hashmerchant''"
    and R: "RefillEscrow S m s = (Inr (), s')"
  shows "escrow_backed bal (modaddr ''hashmerchant'') s'"
proof -
  have V': "is_ok (AccAddressFromBech32 S (re_Sender m))" "0 \<le> Amount (re_Amount m)"
    using V unfolding MsgRefillEscrow_ValidateBasic_def first_error_ok by simp_all
  obtain r s1 c n where r: "GetEscrowRecord (fst s) (re_ContractAddr m) = Inr r"
    and s1: "escrow_pay S (re_Sender m) (re_Amount m) s = (Inr (), s1)" and c: "coin_add (er_Amount r) (re_Amount m) = Inr c"
    and s': "s' = (SetEscrowRecord (r\<lparr>er_PaidUntilHeight := n, er_Amount := c\<rparr>) (fst s1), snd s1)"
    using R by (auto simp: RefillEscrow_def split: sum.splits if_splits prod.splits)
  have pay: "fst s1 = fst s" "\<And>d. bal (snd s1) (modaddr ''hashmerchant'') d = bal (snd s) (modaddr ''hashmerchant'') d + coin_of (re_Amount m) d"
    using escrow_pay_moves [OF L s1 P V'(1)] by simp_all
  have inv: "escrow_inv (fst s)" and held: "\<And>d. escrow_held (fst s) d \<le> bal (snd s) (modaddr ''hashmerchant'') d"
    using I by (simp_all add: escrow_backed_def)
  note r' = escrow_record [OF inv r]
  have cc: "0 \<le> Amount c" "\<And>d. coin_of c d = coin_of (er_Amount r) d + coin_of (re_Amount m) d"
    using c r'(2) V'(2) by (auto simp: coin_add_def coin_of_def split: if_splits)
  let ?r = "r\<lparr>er_PaidUntilHeight := n, er_Amount := c\<rparr>"
  have "escrow_held (fst s') d \<le> bal (snd s') (modaddr ''hashmerchant'') d" for d
    using escrow_write(2) [OF inv, of ?r d] cc(1) cc(2) [of d] pay(2) [of d] held [of d] r r'(1) by (simp add: s' pay(1))
  moreover have "escrow_inv (fst s')" using escrow_write(1) [OF inv, of ?r] cc(1) by (simp add: s' pay(1))
  ultimately show ?thesis by (simp add: escrow_backed_def)
qed

lemma escrow_backed_same:
  "escrow_backed bal acc s \<Longrightarrow> escrow_inv (fst s') \<Longrightarrow> (\<And>d. escrow_held (fst s') d = escrow_held (fst s) d) \<Longrightarrow> snd s' = snd s \<Longrightarrow>
   escrow_backed bal acc s'"
  by (simp add: escrow_backed_def)

lemma escrow_backed_committed:
  assumes "escrow_backed bal acc s" and "\<And>s'. p = (Inr (), s') \<Longrightarrow> escrow_backed bal acc s'"
  shows "escrow_backed bal acc (committed s p)"
proof (cases "fst p")
  case (Inl e)
  with assms(1) show ?thesis by (simp add: committed_def)
next
  case (Inr u)
  then have "p = (Inr (), snd p)" by (simp add: prod_eq_iff)
  from assms(2) [OF this] Inr show ?thesis by (simp add: committed_def)
qed

lemma hm_deliver_backed:
  assumes L: "bank_laws S supply bal modaddr" "coins_laws S" and I: "escrow_backed bal (modaddr ''hashmerchant'') s"
    and P: "\<And>p a. hm_payer m = Some p \<Longrightarrow> AccAddressFromBech32 S p = Inr a \<Longrightarrow> a \<noteq> modaddr ''hashmerchant''"
  shows "escrow_backed bal (modaddr ''hashmerchant'') (hm_deliver S gov height m s)"
proof -
  have inv: "escrow_inv (fst s)" using I by (simp add: escrow_backed_def)
  show ?thesis
  proof (cases m)
    case (MsgRegisterChainHM a c)
    have "escrow_backed bal (modaddr ''hashmerchant'') (committed s (on_store (RegisterChain gov a c) s))"
    proof (rule escrow_backed_committed [OF I])
      fix s'
      assume "on_store (RegisterChain gov a c) s = (Inr (), s')"
      then have "s' = (SetRegisteredChain c (fst s), snd s)"
        by (auto simp: on_store_def RegisterChain_def split: if_splits)
      then show "escrow_backed bal (modaddr ''hashmerchant'') s'"
        using escrow_other [OF inv, of "KeyRegisteredChain (rc_ChainUid c)"]
        by (intro escrow_backed_same [OF I]) (simp_all add: SetRegisteredChain_def)
    qed
    with I MsgRegisterChainHM show ?thesis by simp
  next
    case (MsgRegisterContractHM x)
    show ?thesis
    proof (cases "MsgRegisterContract_ValidateBasic S x")
      case (Inr u)
      have "escrow_backed bal (modaddr ''hashmerchant'') (committed s (RegisterContract S height x s))"
        by (rule escrow_backed_committed [OF I]) (rule RegisterContract_backed [OF L I], use Inr P MsgRegisterContractHM in simp_all)
      with MsgRegisterContractHM Inr show ?thesis by simp
    qed (use I MsgRegisterContractHM in simp)
  next
    case (MsgRefillEscrowHM x)
    show ?thesis
    proof (cases "MsgRefillEscrow_ValidateBasic S x")
      case (Inr u)
      have "escrow_backed bal (modaddr ''hashmerchant'') (committed s (RefillEscrow S x s))"
        by (rule escrow_backed_committed [OF I]) (rule RefillEscrow_backed [OF L I], use Inr P MsgRefillEscrowHM in simp_all)
      with MsgRefillEscrowHM Inr show ?thesis by simp
    qed (use I MsgRefillEscrowHM in simp)
  next
    case (MsgUpdateParamsHM a p)
    have "escrow_backed bal (modaddr ''hashmerchant'') (committed s (on_store (HMUpdateParams gov a p) s))"
    proof (rule escrow_backed_committed [OF I])
      fix s'
      assume "on_store (HMUpdateParams gov a p) s = (Inr (), s')"
      then have "s' = (kv_set KeyPrefixParams (HParams p) (fst s), snd s)"
        by (auto simp: on_store_def HMUpdateParams_def HMSetParams_def split: if_splits sum.splits)
      then show "escrow_backed bal (modaddr ''hashmerchant'') s'"
        using escrow_other [OF inv, of KeyPrefixParams] by (intro escrow_backed_same [OF I]) simp_all
    qed
    with I MsgUpdateParamsHM show ?thesis by simp
  next
    case (EndBlockHM h)
    have "escrow_backed bal (modaddr ''hashmerchant'') (committed s (on_store (HMEndBlocker h) s))"
    proof (rule escrow_backed_committed [OF I])
      fix s'
      assume "on_store (HMEndBlocker h) s = (Inr (), s')"
      then have "s' = s \<or> s' = (SetPruneEpoch h (pruneExpiredEscrows h (fst s)), snd s)"
        by (auto simp: on_store_def HMEndBlocker_def prod_eq_iff split: if_splits sum.splits)
      then show "escrow_backed bal (modaddr ''hashmerchant'') s'"
      proof
        assume s': "s' = (SetPruneEpoch h (pruneExpiredEscrows h (fst s)), snd s)"
        have pr: "escrow_inv (pruneExpiredEscrows h (fst s))" "escrow_held (pruneExpiredEscrows h (fst s)) d = escrow_held (fst s) d" for d
          using disable_contracts_escrow [OF inv] by (simp_all add: pruneExpiredEscrows_def)
        show ?thesis
          using escrow_other [OF pr(1), of KeyPrefixPruneEpoch] pr(2)
          by (intro escrow_backed_same [OF I]) (simp_all add: s' SetPruneEpoch_def)
      qed (use I in simp)
    qed
    with EndBlockHM show ?thesis by simp
  qed
qed

text \<open>
  C7. Escrow is backed: after any sequence of messages and blocks from an empty store, the module
  account holds, of every denomination, at least what the escrow records add up to, provided no
  message is signed by the module account itself.
\<close>

theorem hm_escrow_backed:
  assumes "bank_laws S supply bal modaddr" and "coins_laws S"
    and "\<And>d. 0 \<le> bal w (modaddr ''hashmerchant'') d"
    and "list_all (\<lambda>(h, m). \<forall>p a. hm_payer m = Some p \<longrightarrow> AccAddressFromBech32 S p = Inr a \<longrightarrow> a \<noteq> modaddr ''hashmerchant'') ms"
    and "(st, w') = foldl (\<lambda>s (h, m). hm_deliver S gov h m s) (kv_empty, w) ms"
  shows "coins_amount (map er_Amount (IterateEscrowRecords st)) d \<le> bal w' (modaddr ''hashmerchant'') d"
proof -
  have "escrow_backed bal (modaddr ''hashmerchant'') (kv_empty, w)"
  proof -
    have "escrow_inv kv_empty" by (simp add: escrow_inv_def kv_simps)
    moreover have "escrow_held kv_empty d = 0" for d by (simp add: escrow_held_sum kv_empty_def)
    ultimately show ?thesis using assms(3) by (simp add: escrow_backed_def)
  qed
  then have "escrow_backed bal (modaddr ''hashmerchant'') (foldl (\<lambda>s (h, m). hm_deliver S gov h m s) (kv_empty, w) ms)"
    using assms(4)
  proof (induction ms arbitrary: rule: rev_induct)
    case (snoc hm ms)
    obtain h m where hm: "hm = (h, m)" by (cases hm)
    from snoc show ?case by (auto simp: hm intro!: hm_deliver_backed [OF assms(1,2)])
  qed simp
  then show ?thesis unfolding assms(5) [symmetric] by (simp add: escrow_backed_def escrow_held_def)
qed

section \<open>A run\<close>

definition hm_ex_msgs :: "(u64 \<times> hm_msg) list" where
  "hm_ex_msgs =
     [(1, MsgRegisterChainHM ''gov'' \<lparr>rc_ChainUid = ''zec'', rc_Name = '''', rc_RpcEndpoints = [], rc_HashAlgos = [], rc_Enabled = True, rc_OracleSources = []\<rparr>),
      (2, MsgRegisterContractHM \<lparr>rm_Sender = ''alice'', rm_ContractAddr = ''cona'', rm_ChainUid = ''zec'', rm_SubstoreKeys = [],
            rm_Escrow = \<lparr>Denom = ''uterp'', Amount = 3000000\<rparr>\<rparr>),
      (3, MsgRefillEscrowHM \<lparr>re_Sender = ''alice'', re_ContractAddr = ''cona'', re_Amount = \<lparr>Denom = ''uterp'', Amount = 1000000\<rparr>\<rparr>)]"

definition hm_ex_world :: ledger where
  "hm_ex_world = ledger0\<lparr>balances := (\<lambda>a d. if a = ''alice'' then 10000000 else 0)\<rparr>"

definition hm_ex_end :: "hm_store \<times> ledger" where
  "hm_ex_end = foldl (\<lambda>s (h, m). hm_deliver ledger_sdk ''gov'' h m s) (kv_empty, hm_ex_world) hm_ex_msgs"

theorem hm_escrow_backed_witness:
  "coins_amount (map er_Amount (IterateEscrowRecords (fst hm_ex_end))) ''uterp'' \<le> balances (snd hm_ex_end) ''hashmerchant'' ''uterp'' \<and>
   coins_amount (map er_Amount (IterateEscrowRecords (fst hm_ex_end))) ''uterp'' = 4000000"
proof
  show "coins_amount (map er_Amount (IterateEscrowRecords (fst hm_ex_end))) ''uterp'' \<le> balances (snd hm_ex_end) ''hashmerchant'' ''uterp''"
  proof (rule hm_escrow_backed [OF ledger_bank ledger_coins])
    show "(fst hm_ex_end, snd hm_ex_end) = foldl (\<lambda>s (h, m). hm_deliver ledger_sdk ''gov'' h m s) (kv_empty, hm_ex_world) hm_ex_msgs"
      by (simp add: hm_ex_end_def)
    show "list_all (\<lambda>(h, m). \<forall>p a. hm_payer m = Some p \<longrightarrow> AccAddressFromBech32 ledger_sdk p = Inr a \<longrightarrow> a \<noteq> ''hashmerchant'') hm_ex_msgs"
      by (simp add: hm_ex_msgs_def ledger_sdk_def)
  qed (simp add: hm_ex_world_def)
  show "coins_amount (map er_Amount (IterateEscrowRecords (fst hm_ex_end))) ''uterp'' = 4000000" by code_simp
qed

end
