(* ===== verification/HashMerchantVotes.thy ===== *)
theory HashMerchantVotes
  imports HashMerchant "HOL-Library.Product_Lexorder" "HOL-Library.Multiset"
begin

text \<open>
  Module \<open>x/hashmerchant\<close>, its votes: validators attach the root of a foreign chain to their votes,
  peers verify the attestations behind it, and the commit of a block confirms a root that enough
  voting power stands behind.  Confirmed roots are stored and passed to the registered contracts.
  Hashing, signatures, encodings and the HTTP call are parameters.
\<close>

section \<open>Hexadecimal text\<close>

definition hex_value :: "char \<Rightarrow> nat option" where
  "hex_value c =
     (let n = of_char c :: nat in
      if 48 \<le> n \<and> n \<le> 57 then Some (n - 48)
      else if 97 \<le> n \<and> n \<le> 102 then Some (n - 87)
      else if 65 \<le> n \<and> n \<le> 70 then Some (n - 55)
      else None)"

fun hex_decode :: "string \<Rightarrow> string res" where
  "hex_decode [] = Inr []"
| "hex_decode [c] = Inl (Plain ''hex'')"
| "hex_decode (c # d # s) =
     (case (hex_value c, hex_value d) of
        (Some a, Some b) \<Rightarrow> (case hex_decode s of Inl e \<Rightarrow> Inl e | Inr r \<Rightarrow> Inr (char_of (16 * a + b) # r))
      | _ \<Rightarrow> Inl (Plain ''hex''))"

section \<open>Votes and libraries\<close>

record VoteExtensionHashData =
  ve_RuntimeId :: string
  ve_ChainUid :: string
  ve_Algo :: string
  ve_Root :: string
  ve_ForeignHeight :: u64
  ve_ForeignBlockTime :: int
  ve_Ics23Proof :: string
  ve_Attestations :: "OracleAttestation option list"

record ExtendedVoteInfo =
  vi_Power :: int
  vi_VoteExtension :: string

type_synonym ExtendedCommitInfo = "ExtendedVoteInfo list"

record sidecarAttestation =
  sa_SourceID :: string
  sa_Value :: string
  sa_Height :: u64
  sa_Timestamp :: int
  sa_CustodySignature :: string

record sidecarResponse =
  sr_RuntimeID :: string
  sr_ChainUID :: string
  sr_Algo :: string
  sr_Root :: string
  sr_ForeignHeight :: u64
  sr_ForeignBlockTime :: int
  sr_Attestations :: "sidecarAttestation list"

record SudoOracleAttestation =
  so_SourceID :: string
  so_Value :: string
  so_Height :: u64

record HashMerchantSudoPayload =
  sp_ChainUID :: string
  sp_Algo :: string
  sp_Height :: u64
  sp_Root :: string
  sp_AttestationCount :: u32
  sp_BlockTime :: int
  sp_OracleSources :: "SudoOracleAttestation list"

text \<open>
  The libraries.  \<open>SortAttestations\<close> is \<open>sort.Slice\<close> with the comparison below: it returns a sorted
  permutation, and which one is not specified when two attestations compare equal.
\<close>

record hm_lib =
  hl_Sources :: sources_codec
  UnmarshalVote :: "string \<Rightarrow> VoteExtensionHashData res"
  MarshalVote :: "VoteExtensionHashData \<Rightarrow> string res"
  UnmarshalCommit :: "string \<Rightarrow> ExtendedCommitInfo res"
  MarshalCommit :: "ExtendedCommitInfo \<Rightarrow> string res"
  MarshalBundle :: "OracleAttestation list \<Rightarrow> string res"
  UnmarshalBundle :: "string \<Rightarrow> OracleAttestation list res"
  MarshalSudo :: "HashMerchantSudoPayload \<Rightarrow> string res"
  Sha256 :: "string \<Rightarrow> string"
  Ed25519Verify :: "string \<Rightarrow> string \<Rightarrow> string \<Rightarrow> bool"
  SortAttestations :: "OracleAttestation list \<Rightarrow> OracleAttestation list"
  MulInt64 :: "dec \<Rightarrow> int \<Rightarrow> dec"
  TruncateInt :: "dec \<Rightarrow> int"

section \<open>Attestations\<close>

text \<open>The eight bytes of a word, least significant first.\<close>

definition le_bytes :: "u64 \<Rightarrow> string" where
  "le_bytes w = map (\<lambda>i. char_of (unat (take_bit 8 (drop_bit (8 * i) w)))) [0 ..< 8]"

definition custodyDomain :: "hm_lib \<Rightarrow> string \<Rightarrow> string \<Rightarrow> string" where
  "custodyDomain L scope sourceID = Sha256 L (''hashmerchant/custody/'' @ scope @ ''/'' @ sourceID)"

definition custodyPayload :: "hm_lib \<Rightarrow> string \<Rightarrow> string \<Rightarrow> string \<Rightarrow> u64 \<Rightarrow> int \<Rightarrow> string" where
  "custodyPayload L scope sourceID value height timestamp =
     custodyDomain L scope sourceID @ value @ le_bytes height @ le_bytes (of_int timestamp)"

fun findOracleSource :: "OracleSource list \<Rightarrow> string \<Rightarrow> OracleSource option" where
  "findOracleSource [] sourceID = None"
| "findOracleSource (src # srcs) sourceID =
     (if os_SourceId src = sourceID \<and> os_Enabled src then Some src else findOracleSource srcs sourceID)"

definition verify_attestation :: "hm_lib \<Rightarrow> OracleSource list \<Rightarrow> OracleAttestation \<Rightarrow> unit res" where
  "verify_attestation L sources att =
     (case findOracleSource sources (oa_SourceId att) of
        None \<Rightarrow> Inl (Plain ''unregistered oracle source'')
      | Some src \<Rightarrow>
     (case os_Authenticator src of
        None \<Rightarrow> Inl (Plain ''missing custody authenticator'')
      | Some auth \<Rightarrow>
          if ca_Algorithm auth \<noteq> ''ed25519'' then Inl (Plain ''unsupported custody algorithm'')
          else if length (ca_Pubkey auth) \<noteq> 32 then Inl (Plain ''invalid custody pubkey length'')
          else if \<not> Ed25519Verify L (ca_Pubkey auth)
                    (custodyPayload L (ca_Scope auth) (oa_SourceId att) (oa_Value att) (oa_Height att) (oa_Timestamp att))
                    (oa_CustodySignature att)
            then Inl (Plain ''custody signature verification failed'')
          else Inr ()))"

definition verifyOracleAttestations :: "hm_lib \<Rightarrow> hm_store \<Rightarrow> string \<Rightarrow> OracleAttestation list \<Rightarrow> unit res" where
  "verifyOracleAttestations L st chainUID attestations =
     (if attestations = [] then Inr ()
      else case GetOracleSources (hl_Sources L) st chainUID of
        Inl e \<Rightarrow> Inl e
      | Inr sources \<Rightarrow>
          (case HMGetParams st of Inl e \<Rightarrow> Inl e | Inr params \<Rightarrow> first_error (map (verify_attestation L sources) attestations)))"

definition att_key :: "OracleAttestation \<Rightarrow> string \<times> string \<times> u64 \<times> int" where
  "att_key a = (oa_SourceId a, oa_Value a, oa_Height a, oa_Timestamp a)"

definition sortOracleAttestations :: "hm_lib \<Rightarrow> OracleAttestation list \<Rightarrow> OracleAttestation list" where
  "sortOracleAttestations L attestations = SortAttestations L attestations"

fun dedupe_loop :: "string list \<Rightarrow> OracleAttestation list \<Rightarrow> OracleAttestation list" where
  "dedupe_loop seen [] = []"
| "dedupe_loop seen (att # atts) =
     (if oa_SourceId att \<in> set seen then dedupe_loop seen atts
      else att # dedupe_loop (oa_SourceId att # seen) atts)"

definition dedupeOracleAttestationsBySourceID :: "OracleAttestation list \<Rightarrow> OracleAttestation list" where
  "dedupeOracleAttestationsBySourceID attestations = dedupe_loop [] attestations"

text \<open>The hash of nothing is not taken: the result is then the nil slice.\<close>

definition aggregateAttestationRoot :: "hm_lib \<Rightarrow> OracleAttestation list \<Rightarrow> string" where
  "aggregateAttestationRoot L attestations =
     (if attestations = [] then []
      else let sorted = dedupeOracleAttestationsBySourceID (sortOracleAttestations L attestations)
           in Sha256 L (concat (map (\<lambda>att. oa_SourceId att @ oa_Value att @ le_bytes (oa_Height att)) sorted)))"

definition oracleBundleMagic :: string where "oracleBundleMagic = ''HMOR''"

definition packOracleBundle :: "hm_lib \<Rightarrow> OracleAttestation list \<Rightarrow> string res" where
  "packOracleBundle L attestations =
     (if attestations = [] then Inr []
      else case MarshalBundle L attestations of Inl e \<Rightarrow> Inl e | Inr bz \<Rightarrow> Inr (oracleBundleMagic @ bz))"

definition unpackOracleBundle :: "hm_lib \<Rightarrow> string \<Rightarrow> OracleAttestation list res" where
  "unpackOracleBundle L bz =
     (if length bz < length oracleBundleMagic then Inr []
      else if take (length oracleBundleMagic) bz \<noteq> oracleBundleMagic then Inr []
      else case UnmarshalBundle L (drop (length oracleBundleMagic) bz) of Inl e \<Rightarrow> Inl e | Inr as \<Rightarrow> Inr as)"

definition voteExtensionAttestations :: "hm_lib \<Rightarrow> VoteExtensionHashData \<Rightarrow> OracleAttestation list" where
  "voteExtensionAttestations L data =
     (if ve_Attestations data \<noteq> [] then List.map_filter (\<lambda>a. a) (ve_Attestations data)
      else case unpackOracleBundle L (ve_Ics23Proof data) of Inl e \<Rightarrow> [] | Inr as \<Rightarrow> as)"

section \<open>Extending and verifying votes\<close>

fun decode_attestations :: "sidecarAttestation list \<Rightarrow> OracleAttestation list res" where
  "decode_attestations [] = Inr []"
| "decode_attestations (a # as) =
     (case hex_decode (sa_Value a) of
        Inl e \<Rightarrow> Inl e
      | Inr valueBytes \<Rightarrow>
     (case hex_decode (sa_CustodySignature a) of
        Inl e \<Rightarrow> Inl e
      | Inr sigBytes \<Rightarrow>
     (case decode_attestations as of
        Inl e \<Rightarrow> Inl e
      | Inr rest \<Rightarrow>
          Inr (\<lparr>oa_SourceId = sa_SourceID a, oa_Value = valueBytes, oa_Height = sa_Height a,
                oa_Timestamp = sa_Timestamp a, oa_CustodySignature = sigBytes\<rparr> # rest))))"

text \<open>\<open>reply\<close> is what the HTTP request to the sidecar yields: an error, or the decoded JSON body.\<close>

definition fetchSidecar :: "hm_lib \<Rightarrow> sidecarResponse res \<Rightarrow> VoteExtensionHashData res" where
  "fetchSidecar L reply =
     (case reply of
        Inl e \<Rightarrow> Inl e
      | Inr sr \<Rightarrow>
     (case hex_decode (sr_Root sr) of
        Inl e \<Rightarrow> Inl e
      | Inr rootBytes \<Rightarrow>
     (case decode_attestations (sr_Attestations sr) of
        Inl e \<Rightarrow> Inl e
      | Inr attestations \<Rightarrow>
          if attestations = [] then Inl (Plain ''sidecar returned no attestations'')
          else let root = aggregateAttestationRoot L attestations in
            if rootBytes \<noteq> [] \<and> rootBytes \<noteq> root then Inl (Plain ''sidecar root does not match sorted aggregate'')
            else Inr \<lparr>ve_RuntimeId = sr_RuntimeID sr, ve_ChainUid = sr_ChainUID sr, ve_Algo = sr_Algo sr, ve_Root = root,
                      ve_ForeignHeight = sr_ForeignHeight sr, ve_ForeignBlockTime = sr_ForeignBlockTime sr,
                      ve_Ics23Proof = [], ve_Attestations = map Some attestations\<rparr>)))"

definition ExtendVoteHandler :: "hm_lib \<Rightarrow> string \<Rightarrow> sidecarResponse res \<Rightarrow> string" where
  "ExtendVoteHandler L sidecarURL reply =
     (if sidecarURL = '''' then []
      else case fetchSidecar L reply of
        Inl e \<Rightarrow> []
      | Inr data \<Rightarrow> (case MarshalVote L data of Inl e \<Rightarrow> [] | Inr bz \<Rightarrow> bz))"

text \<open>The result is whether the extension is accepted.\<close>

definition VerifyVoteExtensionHandler :: "hm_lib \<Rightarrow> hm_store \<Rightarrow> string \<Rightarrow> bool" where
  "VerifyVoteExtensionHandler L st ext =
     (if ext = [] then True
      else case UnmarshalVote L ext of
        Inl e \<Rightarrow> False
      | Inr data \<Rightarrow>
     (case GetRegisteredChain st (ve_ChainUid data) of
        Inl e \<Rightarrow> False
      | Inr chain \<Rightarrow>
          if \<not> rc_Enabled chain then False
          else let attestations = voteExtensionAttestations L data in
            case verifyOracleAttestations L st (ve_ChainUid data) attestations of
              Inl e \<Rightarrow> False
            | Inr _ \<Rightarrow>
                if attestations \<noteq> [] \<and> ve_Root data \<noteq> [] then ve_Root data = aggregateAttestationRoot L attestations
                else True))"

section \<open>Proposals\<close>

definition InjectedVoteExtensionPrefix :: string where "InjectedVoteExtensionPrefix = ''HMVE''"

definition PrepareProposalHandler :: "hm_lib \<Rightarrow> ExtendedCommitInfo \<Rightarrow> string list \<Rightarrow> string list" where
  "PrepareProposalHandler L commit txs =
     (if \<not> list_ex (\<lambda>v. vi_VoteExtension v \<noteq> []) commit then txs
      else case MarshalCommit L commit of
        Inl e \<Rightarrow> txs
      | Inr bz \<Rightarrow> (InjectedVoteExtensionPrefix @ bz) # txs)"

definition ProcessProposalHandler :: "hm_lib \<Rightarrow> string list \<Rightarrow> bool" where
  "ProcessProposalHandler L txs =
     (case txs of
        [] \<Rightarrow> True
      | tx # _ \<Rightarrow>
          if prefix InjectedVoteExtensionPrefix tx
          then is_ok (UnmarshalCommit L (drop (length InjectedVoteExtensionPrefix) tx))
          else True)"

section \<open>Counting votes\<close>

text \<open>Additions of \<open>int64\<close> wrap.\<close>

definition i64_add :: "int \<Rightarrow> int \<Rightarrow> int" where
  "i64_add a b = (a + b + 9223372036854775808) mod 18446744073709551616 - 9223372036854775808"

record rootVote =
  rv_root :: string
  rv_height :: u64
  rv_blockTime :: int
  rv_votingPower :: int
  rv_attestations :: "OracleAttestation list"

type_synonym tallyKey = "string \<times> string"
type_synonym rootMap = "(string \<times> rootVote list) list"
type_synonym tally_map = "(tallyKey \<times> rootMap) list"

text \<open>
  The tally is a map of maps.  Here it is an association list in the order of first insertion; the
  order in which the code walks a map is not specified, and is a parameter of the walk.
\<close>

fun tally_append :: "string \<Rightarrow> rootVote \<Rightarrow> rootMap \<Rightarrow> rootMap" where
  "tally_append h v [] = [(h, [v])]"
| "tally_append h v ((h', vs) # m) = (if h' = h then (h', vs @ [v]) # m else (h', vs) # tally_append h v m)"

fun tally_insert :: "tallyKey \<Rightarrow> string \<Rightarrow> rootVote \<Rightarrow> tally_map \<Rightarrow> tally_map" where
  "tally_insert k h v [] = [(k, [(h, [v])])]"
| "tally_insert k h v ((k', m) # t) = (if k' = k then (k', tally_append h v m) # t else (k', m) # tally_insert k h v t)"

fun tally_votes :: "hm_lib \<Rightarrow> ExtendedCommitInfo \<Rightarrow> tally_map \<Rightarrow> int \<Rightarrow> tally_map \<times> int" where
  "tally_votes L [] t totalPower = (t, totalPower)"
| "tally_votes L (vote # votes) t totalPower =
     (let totalPower' = i64_add totalPower (vi_Power vote) in
      if vi_VoteExtension vote = [] then tally_votes L votes t totalPower'
      else case UnmarshalVote L (vi_VoteExtension vote) of
        Inl e \<Rightarrow> tally_votes L votes t totalPower'
      | Inr data \<Rightarrow>
          tally_votes L votes
            (tally_insert (ve_ChainUid data, ve_Algo data) (hex_encode (ve_Root data))
               \<lparr>rv_root = ve_Root data, rv_height = ve_ForeignHeight data, rv_blockTime = ve_ForeignBlockTime data,
                rv_votingPower = vi_Power vote, rv_attestations = voteExtensionAttestations L data\<rparr> t)
            totalPower')"

definition votes_power :: "rootVote list \<Rightarrow> int" where
  "votes_power votes = foldl (\<lambda>p v. i64_add p (rv_votingPower v)) 0 votes"

record winner =
  wi_key :: tallyKey
  wi_votes :: "rootVote list"
  wi_power :: int

text \<open>One step of the walk over the roots of a key: the best so far and its hexadecimal root.\<close>

definition best_step :: "tallyKey \<Rightarrow> int \<Rightarrow> string \<times> rootVote list \<Rightarrow> winner \<times> string \<Rightarrow> winner \<times> string" where
  "best_step key quorumThreshold e b =
     (let (rootHex, votes) = e; (best, bestRootHex) = b; power = votes_power votes in
      if power < quorumThreshold then b
      else if wi_power best < power \<or> power = wi_power best \<and> (bestRootHex = '''' \<or> rootHex < bestRootHex)
      then (\<lparr>wi_key = key, wi_votes = votes, wi_power = power\<rparr>, rootHex)
      else b)"

definition best_root :: "tallyKey \<Rightarrow> int \<Rightarrow> rootMap \<Rightarrow> winner" where
  "best_root key quorumThreshold m =
     fst (fold (best_step key quorumThreshold) m (\<lparr>wi_key = ('''', ''''), wi_votes = [], wi_power = - 1\<rparr>, ''''))"

text \<open>The orders of the two walks: over the keys of the tally and over the roots of a key.\<close>

record map_order =
  mo_keys :: "tally_map \<Rightarrow> tally_map"
  mo_roots :: "tallyKey \<Rightarrow> rootMap \<Rightarrow> rootMap"

definition winners_of :: "map_order \<Rightarrow> int \<Rightarrow> tally_map \<Rightarrow> winner list" where
  "winners_of W quorumThreshold t =
     sort_key wi_key
       (filter (\<lambda>w. quorumThreshold \<le> wi_power w)
         (map (\<lambda>(key, rootMap). best_root key quorumThreshold (mo_roots W key rootMap)) (mo_keys W t)))"

section \<open>Callbacks\<close>

type_synonym 'w hm_chain = "hm_store \<times> 'w"
type_synonym ('w, 'g) hm_sudo = "string \<Rightarrow> string \<Rightarrow> ('w hm_chain, 'g) gctx \<Rightarrow> string res \<times> ('w hm_chain, 'g) gctx"

definition sudoBounded ::
  "'g gas_ops \<Rightarrow> ('w, 'g) hm_sudo \<Rightarrow> string \<Rightarrow> string \<Rightarrow> u64 \<Rightarrow> ('w hm_chain, 'g) gctx \<Rightarrow> unit res \<times> ('w hm_chain, 'g) gctx" where
  "sudoBounded G Sudo contractAddr bz limit0 ctx =
     (let limit = (if limit0 = 0 then DefaultContractGasLimit else limit0);
          (r, metered) = Sudo contractAddr bz (ctx\<lparr>meter := NewGasMeter G limit, evs := []\<rparr>)
      in case r of
           Inl (Panicked p) \<Rightarrow> if Panicked p = OutOfGas then (Inl (Plain ''sudo gas limit exceeded''), ctx) else (Inl (Panicked p), ctx)
         | Inl e \<Rightarrow> (Inl e, ctx)
         | Inr _ \<Rightarrow> (Inr (), ctx\<lparr>gstore := gstore metered, evs := evs ctx @ evs metered\<rparr>))"

definition sudo_payload :: "hm_lib \<Rightarrow> HashRoot \<Rightarrow> OracleAttestation list \<Rightarrow> HashMerchantSudoPayload" where
  "sudo_payload L root attestations =
     \<lparr>sp_ChainUID = hr_ChainUid root, sp_Algo = hr_Algo root, sp_Height = hr_Height root, sp_Root = hr_Root root,
      sp_AttestationCount = hr_AttestationCount root, sp_BlockTime = hr_BlockTime root,
      sp_OracleSources = map (\<lambda>a. \<lparr>so_SourceID = oa_SourceId a, so_Value = oa_Value a, so_Height = oa_Height a\<rparr>)
        (dedupeOracleAttestationsBySourceID (sortOracleAttestations L attestations))\<rparr>"

text \<open>
  One contract of the walk.  An error of the callback is logged; a panic other than running out of
  gas is not recovered.  The escrow is read from the state as the earlier callbacks left it.
\<close>

definition callback_one ::
  "'g gas_ops \<Rightarrow> ('w, 'g) hm_sudo \<Rightarrow> 'w sdk \<Rightarrow> hm_lib \<Rightarrow> u64 \<Rightarrow> u64 \<Rightarrow> HashRoot \<Rightarrow> OracleAttestation list \<Rightarrow>
     RegisteredContract \<Rightarrow> ('w hm_chain, 'g) gctx \<Rightarrow> unit res \<times> ('w hm_chain, 'g) gctx" where
  "callback_one G Sudo S L blockHeight limit root attestations c ctx =
     (if rk_ChainUid c \<noteq> hr_ChainUid root \<or> \<not> rk_Enabled c then (Inr (), ctx)
      else case GetEscrowRecord (fst (gstore ctx)) (rk_ContractAddr c) of
        Inl e \<Rightarrow> (Inr (), ctx)
      | Inr escrow \<Rightarrow>
          if er_PaidUntilHeight escrow < blockHeight then (Inr (), ctx)
          else case MarshalSudo L (sudo_payload L root attestations) of
            Inl e \<Rightarrow> (Inr (), ctx)
          | Inr bz \<Rightarrow>
         (case AccAddressFromBech32 S (rk_ContractAddr c) of
            Inl e \<Rightarrow> (Inr (), ctx)
          | Inr contractAddr \<Rightarrow>
             (case sudoBounded G Sudo contractAddr bz limit ctx of
                (Inl (Panicked p), ctx') \<Rightarrow> (Inl (Panicked p), ctx')
              | (_, ctx') \<Rightarrow> (Inr (), ctx'))))"

text \<open>
  The walk runs on the store as it is when the walk starts; the contracts it visits are those of
  that moment.
\<close>

fun callback_each ::
  "'g gas_ops \<Rightarrow> ('w, 'g) hm_sudo \<Rightarrow> 'w sdk \<Rightarrow> hm_lib \<Rightarrow> u64 \<Rightarrow> u64 \<Rightarrow> HashRoot \<Rightarrow> OracleAttestation list \<Rightarrow>
     RegisteredContract list \<Rightarrow> ('w hm_chain, 'g) gctx \<Rightarrow> unit res \<times> ('w hm_chain, 'g) gctx" where
  "callback_each G Sudo S L blockHeight limit root attestations [] ctx = (Inr (), ctx)"
| "callback_each G Sudo S L blockHeight limit root attestations (c # cs) ctx =
     (case callback_one G Sudo S L blockHeight limit root attestations c ctx of
        (Inl e, ctx') \<Rightarrow> (Inl e, ctx')
      | (Inr _, ctx') \<Rightarrow> callback_each G Sudo S L blockHeight limit root attestations cs ctx')"

definition dispatchSudoCallbacks ::
  "'g gas_ops \<Rightarrow> ('w, 'g) hm_sudo \<Rightarrow> 'w sdk \<Rightarrow> hm_lib \<Rightarrow> u64 \<Rightarrow> HashRoot \<Rightarrow> OracleAttestation list \<Rightarrow>
     ('w hm_chain, 'g) gctx \<Rightarrow> unit res \<times> ('w hm_chain, 'g) gctx" where
  "dispatchSudoCallbacks G Sudo S L blockHeight root attestations ctx =
     (let limit = (case HMGetParams (fst (gstore ctx)) of Inl e \<Rightarrow> DefaultContractGasLimit | Inr p \<Rightarrow> SudoGasLimit p)
      in callback_each G Sudo S L blockHeight limit root attestations (IterateRegisteredContracts (fst (gstore ctx))) ctx)"

section \<open>Processing the commit\<close>

definition winner_root :: "hm_lib \<Rightarrow> winner \<Rightarrow> HashRoot" where
  "winner_root L w =
     (let representative = hd (wi_votes w) in
      \<lparr>hr_ChainUid = fst (wi_key w), hr_Algo = snd (wi_key w), hr_Height = rv_height representative,
       hr_Root = rv_root representative, hr_AttestationCount = of_nat (length (wi_votes w)),
       hr_BlockTime = rv_blockTime representative,
       hr_Attestations = map Some (dedupeOracleAttestationsBySourceID (sortOracleAttestations L (rv_attestations representative)))\<rparr>)"

definition root_confirmed_event :: "winner \<Rightarrow> Event" where
  "root_confirmed_event w =
     \<lparr>ev_Type = ''hashmerchant_root_confirmed'', ev_Attributes =
        [\<lparr>ea_Key = ''chain_uid'', ea_Value = fst (wi_key w), ea_Index = False\<rparr>,
         \<lparr>ea_Key = ''algo'', ea_Value = snd (wi_key w), ea_Index = False\<rparr>,
         \<lparr>ea_Key = ''attestations'', ea_Value = go_itoa (int (length (wi_votes w))), ea_Index = False\<rparr>]\<rparr>"

fun apply_winners ::
  "'g gas_ops \<Rightarrow> ('w, 'g) hm_sudo \<Rightarrow> 'w sdk \<Rightarrow> hm_lib \<Rightarrow> u64 \<Rightarrow> winner list \<Rightarrow>
     ('w hm_chain, 'g) gctx \<Rightarrow> unit res \<times> ('w hm_chain, 'g) gctx" where
  "apply_winners G Sudo S L blockHeight [] ctx = (Inr (), ctx)"
| "apply_winners G Sudo S L blockHeight (w # ws) ctx =
     (if wi_votes w = [] then (Inl (Panicked ''index out of range''), ctx)
      else let root = winner_root L w;
               canonical = dedupeOracleAttestationsBySourceID (sortOracleAttestations L (rv_attestations (hd (wi_votes w))));
               ctx1 = ctx\<lparr>gstore := (SetHashRoot root (fst (gstore ctx)), snd (gstore ctx))\<rparr>
           in case dispatchSudoCallbacks G Sudo S L blockHeight root canonical ctx1 of
                (Inl e, ctx2) \<Rightarrow> (Inl e, ctx2)
              | (Inr _, ctx2) \<Rightarrow> apply_winners G Sudo S L blockHeight ws (ctx2\<lparr>evs := evs ctx2 @ [root_confirmed_event w]\<rparr>))"

definition quorum_threshold :: "hm_lib \<Rightarrow> HMParams \<Rightarrow> int \<Rightarrow> int" where
  "quorum_threshold L params totalPower = TruncateInt L (MulInt64 L (QuorumFraction params) totalPower)"

definition ProcessVoteExtensions ::
  "map_order \<Rightarrow> 'g gas_ops \<Rightarrow> ('w, 'g) hm_sudo \<Rightarrow> 'w sdk \<Rightarrow> hm_lib \<Rightarrow> u64 \<Rightarrow> ExtendedCommitInfo \<Rightarrow>
     ('w hm_chain, 'g) gctx \<Rightarrow> unit res \<times> ('w hm_chain, 'g) gctx" where
  "ProcessVoteExtensions W G Sudo S L blockHeight commit ctx =
     (case HMGetParams (fst (gstore ctx)) of
        Inl e \<Rightarrow> (Inl e, ctx)
      | Inr params \<Rightarrow>
         (let (t, totalPower) = tally_votes L commit [] 0;
              quorumThreshold = quorum_threshold L params totalPower
          in if quorumThreshold < - 9223372036854775808 \<or> 9223372036854775807 < quorumThreshold
             then (Inl (Panicked ''Int64 out of bound''), ctx)
             else apply_winners G Sudo S L blockHeight (winners_of W quorumThreshold t) ctx))"

definition ProcessInjectedVoteExtension ::
  "map_order \<Rightarrow> 'g gas_ops \<Rightarrow> ('w, 'g) hm_sudo \<Rightarrow> 'w sdk \<Rightarrow> hm_lib \<Rightarrow> u64 \<Rightarrow> string list \<Rightarrow>
     ('w hm_chain, 'g) gctx \<Rightarrow> bool res \<times> ('w hm_chain, 'g) gctx" where
  "ProcessInjectedVoteExtension W G Sudo S L blockHeight txs ctx =
     (case txs of
        [] \<Rightarrow> (Inr False, ctx)
      | tx # _ \<Rightarrow>
          if \<not> prefix InjectedVoteExtensionPrefix tx then (Inr False, ctx)
          else case UnmarshalCommit L (drop (length InjectedVoteExtensionPrefix) tx) of
            Inl e \<Rightarrow> (Inr False, ctx)
          | Inr commit \<Rightarrow>
             (case ProcessVoteExtensions W G Sudo S L blockHeight commit ctx of
                (Inl (Panicked p), ctx') \<Rightarrow> (Inl (Panicked p), ctx')
              | (Inl e, ctx') \<Rightarrow> (Inr False, ctx')
              | (Inr _, ctx') \<Rightarrow> (Inr True, ctx')))"


section \<open>The digest of attestations\<close>

definition sort_laws :: "hm_lib \<Rightarrow> bool" where
  "sort_laws L \<longleftrightarrow> (\<forall>xs. mset (SortAttestations L xs) = mset xs \<and> sorted (map att_key (SortAttestations L xs)))"

lemma sorted_keys_unique:
  assumes "sort_laws L1" and "sort_laws L2" and "mset (map att_key xs) = mset (map att_key ys)"
  shows "map att_key (SortAttestations L1 xs) = map att_key (SortAttestations L2 ys)"
proof -
  have "mset (map att_key (SortAttestations L1 xs)) = mset (map att_key (SortAttestations L2 ys))"
    using assms unfolding sort_laws_def mset_map by metis
  moreover have "sorted (map att_key (SortAttestations L1 xs))" "sorted (map att_key (SortAttestations L2 ys))"
    using assms unfolding sort_laws_def by blast+
  ultimately show ?thesis by (metis properties_for_sort)
qed

lemma dedupe_keys:
  "map att_key xs = map att_key ys \<Longrightarrow> map att_key (dedupe_loop seen xs) = map att_key (dedupe_loop seen ys)"
proof (induction xs arbitrary: ys seen)
  case (Cons x xs)
  then obtain y ys' where ys: "ys = y # ys'" "att_key x = att_key y" "map att_key xs = map att_key ys'"
    by (cases ys) auto
  then have "oa_SourceId x = oa_SourceId y" by (simp add: att_key_def)
  with ys Cons.IH [of ys'] show ?case by simp
qed simp

definition att_bytes :: "string \<times> string \<times> u64 \<times> int \<Rightarrow> string" where
  "att_bytes k = (case k of (sid, value, h, t) \<Rightarrow> sid @ value @ le_bytes h)"

lemma att_bytes_key: "map (\<lambda>att. oa_SourceId att @ oa_Value att @ le_bytes (oa_Height att)) xs = map att_bytes (map att_key xs)"
  by (simp add: att_bytes_def att_key_def)

text \<open>
  The root over a set of attestations depends neither on the order in which they are listed, nor
  on their signatures, nor on how the sort arranges attestations that compare equal: two lists with
  the same sources, values, heights and times have the same root.
\<close>

theorem hm_aggregate_order_irrelevant:
  assumes "sort_laws L1" and "sort_laws L2" and "Sha256 L1 = Sha256 L2"
    and "mset (map att_key xs) = mset (map att_key ys)"
  shows "aggregateAttestationRoot L1 xs = aggregateAttestationRoot L2 ys"
proof -
  have "map att_key (dedupe_loop [] (SortAttestations L1 xs)) = map att_key (dedupe_loop [] (SortAttestations L2 ys))"
    by (rule dedupe_keys [OF sorted_keys_unique [OF assms(1,2,4)]])
  moreover have "xs = [] \<longleftrightarrow> ys = []" using assms(4) by auto
  ultimately show ?thesis
    unfolding aggregateAttestationRoot_def dedupeOracleAttestationsBySourceID_def sortOracleAttestations_def Let_def
      att_bytes_key assms(3) by simp
qed

section \<open>The tally\<close>

text \<open>
  What the votes count as: \<open>decoded\<close> is the data of a vote that is counted, \<open>backing\<close> the power of
  the votes for a root of a chain and algorithm.
\<close>

definition decoded :: "hm_lib \<Rightarrow> ExtendedVoteInfo \<Rightarrow> VoteExtensionHashData option" where
  "decoded L vote =
     (if vi_VoteExtension vote = [] then None
      else case UnmarshalVote L (vi_VoteExtension vote) of Inl e \<Rightarrow> None | Inr d \<Rightarrow> Some d)"

definition votes_for :: "hm_lib \<Rightarrow> tallyKey \<Rightarrow> string \<Rightarrow> ExtendedVoteInfo \<Rightarrow> bool" where
  "votes_for L key root vote = (case decoded L vote of None \<Rightarrow> False | Some d \<Rightarrow> (ve_ChainUid d, ve_Algo d) = key \<and> ve_Root d = root)"

definition backing :: "hm_lib \<Rightarrow> ExtendedCommitInfo \<Rightarrow> tallyKey \<Rightarrow> string \<Rightarrow> int" where
  "backing L commit key root = sum_list (map vi_Power (filter (votes_for L key root) commit))"

definition vote_of :: "hm_lib \<Rightarrow> ExtendedVoteInfo \<Rightarrow> VoteExtensionHashData \<Rightarrow> rootVote" where
  "vote_of L vote data = \<lparr>rv_root = ve_Root data, rv_height = ve_ForeignHeight data, rv_blockTime = ve_ForeignBlockTime data,
                rv_votingPower = vi_Power vote, rv_attestations = voteExtensionAttestations L data\<rparr>"

lemma tally_votes_Cons:
  "tally_votes L (vote # votes) t n =
     tally_votes L votes
       (case decoded L vote of None \<Rightarrow> t
        | Some d \<Rightarrow> tally_insert (ve_ChainUid d, ve_Algo d) (hex_encode (ve_Root d)) (vote_of L vote d) t)
       (i64_add n (vi_Power vote))"
  by (simp add: decoded_def vote_of_def Let_def split: sum.split)

text \<open>The votes of a tally for a key and a hexadecimal root.\<close>

definition tally_get :: "tally_map \<Rightarrow> tallyKey \<Rightarrow> string \<Rightarrow> rootVote list" where
  "tally_get t k h = (case map_of t k of None \<Rightarrow> [] | Some m \<Rightarrow> (case map_of m h of None \<Rightarrow> [] | Some vs \<Rightarrow> vs))"

definition tally_wf :: "tally_map \<Rightarrow> bool" where
  "tally_wf t \<longleftrightarrow> distinct (map fst t) \<and>
     (\<forall>(k, m) \<in> set t. distinct (map fst m) \<and> (\<forall>(h, vs) \<in> set m. vs \<noteq> [] \<and> (\<forall>v \<in> set vs. hex_encode (rv_root v) = h)))"

lemma tally_append_keys: "fst ` set (tally_append h v m) = insert h (fst ` set m)"
  by (induction h v m rule: tally_append.induct) (simp_all add: insert_commute)

lemma tally_append_distinct: "distinct (map fst m) \<Longrightarrow> distinct (map fst (tally_append h v m))"
  by (induction h v m rule: tally_append.induct) (auto simp: tally_append_keys)

lemma tally_append_votes:
  "(h', vs) \<in> set (tally_append h v m) \<Longrightarrow>
     (\<forall>(h, vs) \<in> set m. vs \<noteq> [] \<and> (\<forall>v \<in> set vs. hex_encode (rv_root v) = h)) \<Longrightarrow> hex_encode (rv_root v) = h \<Longrightarrow>
     vs \<noteq> [] \<and> (\<forall>v \<in> set vs. hex_encode (rv_root v) = h')"
  by (induction m) (fastforce split: if_splits)+

lemma map_of_tally_append:
  "map_of (tally_append h v m) = (map_of m)(h \<mapsto> (case map_of m h of None \<Rightarrow> [] | Some vs \<Rightarrow> vs) @ [v])"
  by (induction m) (auto simp: fun_eq_iff)

lemma tally_insert_keys: "fst ` set (tally_insert k h v t) = insert k (fst ` set t)"
  by (induction k h v t rule: tally_insert.induct) (simp_all add: insert_commute)

lemma tally_insert_distinct: "distinct (map fst t) \<Longrightarrow> distinct (map fst (tally_insert k h v t))"
  by (induction k h v t rule: tally_insert.induct) (auto simp: tally_insert_keys)

lemma tally_insert_mem:
  "(k', m') \<in> set (tally_insert k h v t) \<Longrightarrow> (k', m') \<in> set t \<or> m' = [(h, [v])] \<or> (\<exists>m. (k', m) \<in> set t \<and> m' = tally_append h v m)"
proof (induction k h v t rule: tally_insert.induct)
  case (2 k h v k'' m t)
  show ?case
  proof (cases "k'' = k")
    case True
    with 2(2) show ?thesis by auto
  next
    case False
    with 2(2) consider "(k', m') = (k'', m)" | "(k', m') \<in> set (tally_insert k h v t)" by auto
    then show ?thesis
    proof cases
      case 2
      from "2.IH" [OF False 2] show ?thesis by auto
    qed auto
  qed
qed simp

lemma map_of_tally_insert:
  "map_of (tally_insert k h v t) = (map_of t)(k \<mapsto> tally_append h v (case map_of t k of None \<Rightarrow> [] | Some m \<Rightarrow> m))"
  by (induction t) (auto simp: fun_eq_iff)

lemma tally_wf_insert:
  assumes "tally_wf t" and "hex_encode (rv_root v) = h"
  shows "tally_wf (tally_insert k h v t)"
  unfolding tally_wf_def
proof (intro conjI ballI)
  show "distinct (map fst (tally_insert k h v t))" using assms(1) by (simp add: tally_wf_def tally_insert_distinct)
  fix e
  assume e: "e \<in> set (tally_insert k h v t)"
  obtain k' m' where e': "e = (k', m')" by (cases e)
  have old: "distinct (map fst m)" "\<forall>(h, vs) \<in> set m. vs \<noteq> [] \<and> (\<forall>v \<in> set vs. hex_encode (rv_root v) = h)"
    if "(k', m) \<in> set t" for m
    using assms(1) that unfolding tally_wf_def by blast+
  show "case e of (k, m) \<Rightarrow> distinct (map fst m) \<and> (\<forall>(h, vs) \<in> set m. vs \<noteq> [] \<and> (\<forall>v \<in> set vs. hex_encode (rv_root v) = h))"
    using tally_insert_mem [OF e [unfolded e']]
  proof (elim disjE exE conjE)
    assume "(k', m') \<in> set t"
    with old show ?thesis by (simp add: e')
  next
    assume "m' = [(h, [v])]"
    with assms(2) show ?thesis by (simp add: e')
  next
    fix m
    assume m: "(k', m) \<in> set t" "m' = tally_append h v m"
    have "vs \<noteq> [] \<and> (\<forall>v \<in> set vs. hex_encode (rv_root v) = h')" if "(h', vs) \<in> set m'" for h' vs
      using that unfolding m(2) by (rule tally_append_votes [OF _ old(2) [OF m(1)] assms(2)])
    with tally_append_distinct [OF old(1) [OF m(1)], of h v] show ?thesis by (auto simp: e' m(2))
  qed
qed

lemma tally_wf_votes: "tally_wf t \<Longrightarrow> tally_wf (fst (tally_votes L commit t n))"
proof (induction commit arbitrary: t n)
  case (Cons vote votes)
  then show ?case
    by (simp add: tally_votes_Cons del: tally_votes.simps split: option.split)
       (simp add: Cons.IH tally_wf_insert vote_of_def)
qed simp

lemma tally_get_insert:
  "tally_get (tally_insert k h v t) k' h' = tally_get t k' h' @ (if (k', h') = (k, h) then [v] else [])"
  by (auto simp: tally_get_def map_of_tally_insert map_of_tally_append split: option.split)

lemma tally_get_votes:
  "map rv_votingPower (tally_get (fst (tally_votes L commit t n)) k h) =
   map rv_votingPower (tally_get t k h) @
   map vi_Power (filter (\<lambda>v. case decoded L v of None \<Rightarrow> False | Some d \<Rightarrow> (ve_ChainUid d, ve_Algo d) = k \<and> hex_encode (ve_Root d) = h) commit)"
proof (induction commit arbitrary: t n)
  case (Cons vote votes)
  show ?case
    unfolding tally_votes_Cons Cons.IH
    by (cases "decoded L vote") (auto simp: tally_get_insert vote_of_def)
qed simp


lemma of_char_hex_digit: "n < 16 \<Longrightarrow> of_char (hex_digit n) = (if n < 10 then 48 + n else 87 + n :: nat)"
  by (simp add: hex_digit_def take_bit_eq_mod)

lemma hex_digit_inj:
  assumes "a < 16" and "b < 16" and "hex_digit a = hex_digit b"
  shows "a = b"
proof -
  have "of_char (hex_digit a) = (of_char (hex_digit b) :: nat)" using assms(3) by simp
  then show ?thesis using assms(1,2) by (simp add: of_char_hex_digit split: if_splits)
qed

lemma hex_encode_Cons: "hex_encode (c # s) = hex_digit (of_char c div 16) # hex_digit (of_char c mod 16) # hex_encode s"
  by (simp add: hex_encode_def)

lemma hex_encode_Nil [simp]: "hex_encode [] = []" "hex_encode s = [] \<longleftrightarrow> s = []"
  by (simp add: hex_encode_def, cases s) (simp_all add: hex_encode_def)

lemma hex_encode_inj: "hex_encode a = hex_encode b \<longleftrightarrow> a = b"
proof
  show "hex_encode a = hex_encode b \<Longrightarrow> a = b"
  proof (induction a arbitrary: b)
    case Nil
    then show ?case by (cases b) (simp_all add: hex_encode_Cons)
  next
    case (Cons c a)
    then obtain d b' where b: "b = d # b'" by (cases b) (simp_all add: hex_encode_Cons)
    have small: "of_char x div 16 < (16 :: nat)" for x :: char
    proof -
      have "of_char x < (256 :: nat)" by (rule nat_of_char_less_256)
      then show ?thesis by linarith
    qed
    have "of_char c div 16 = (of_char d div 16 :: nat)" "of_char c mod 16 = (of_char d mod 16 :: nat)"
      using Cons.prems small [of c] small [of d] unfolding b hex_encode_Cons
      by (auto intro!: hex_digit_inj)
    then have "of_char c = (of_char d :: nat)" by (metis div_mult_mod_eq)
    then show ?case using Cons b by (simp add: hex_encode_Cons)
  qed
qed simp

section \<open>The best root does not depend on the order of the walk\<close>

definition better :: "int \<times> string \<Rightarrow> int \<times> string \<Rightarrow> bool" where
  "better x b = (case (x, b) of ((p, h), (p', h')) \<Rightarrow> p' < p \<or> p = p' \<and> (h' = '''' \<or> h < h'))"

lemma best_step_better:
  "best_step k q (h, vs) (best, h') =
     (if q \<le> votes_power vs \<and> better (votes_power vs, h) (wi_power best, h')
      then (\<lparr>wi_key = k, wi_votes = vs, wi_power = votes_power vs\<rparr>, h) else (best, h'))"
  by (auto simp: best_step_def better_def Let_def)

text \<open>On roots that are not empty, \<open>better\<close> is a strict order that compares any two different roots.\<close>

lemma better_trans: "better x y \<Longrightarrow> better y z \<Longrightarrow> snd y \<noteq> '''' \<Longrightarrow> better x z"
  by (cases x; cases y; cases z) (auto simp: better_def)

lemma better_linear: "snd x \<noteq> snd y \<Longrightarrow> snd x \<noteq> '''' \<Longrightarrow> snd y \<noteq> '''' \<Longrightarrow> better x y = (\<not> better y x)"
  by (cases x; cases y) (auto simp: better_def not_less)

lemma better_not: "\<not> better x z \<Longrightarrow> better y z \<Longrightarrow> snd x \<noteq> snd y \<Longrightarrow> snd x \<noteq> '''' \<Longrightarrow> snd y \<noteq> '''' \<Longrightarrow> better y x"
  using better_trans [of x y z] better_linear [of x y] by blast

lemma best_step_commute:
  assumes "hx \<noteq> hy" and "hx \<noteq> ''''" and "hy \<noteq> ''''"
  shows "best_step k q (hx, vx) (best_step k q (hy, vy) b) = best_step k q (hy, vy) (best_step k q (hx, vx) b)"
proof -
  obtain best h where b: "b = (best, h)" by (cases b)
  let ?x = "(votes_power vx, hx)" and ?y = "(votes_power vy, hy)" and ?b = "(wi_power best, h)"
  have lin: "better ?x ?y = (\<not> better ?y ?x)" by (rule better_linear) (use assms in simp_all)
  show ?thesis
  proof (cases "better ?x ?b"; cases "better ?y ?b")
    assume "better ?x ?b" "better ?y ?b"
    with lin show ?thesis by (simp add: b best_step_better)
  next
    assume *: "better ?x ?b" "\<not> better ?y ?b"
    have "better ?x ?y" by (rule better_not [OF *(2,1)]) (use assms in simp_all)
    with * lin show ?thesis by (simp add: b best_step_better)
  next
    assume *: "\<not> better ?x ?b" "better ?y ?b"
    have "better ?y ?x" by (rule better_not [OF *]) (use assms in simp_all)
    with * lin show ?thesis by (simp add: b best_step_better)
  next
    assume "\<not> better ?x ?b" "\<not> better ?y ?b"
    then show ?thesis by (simp add: b best_step_better)
  qed
qed

lemma best_root_order:
  assumes "mset m = mset m'" and d: "distinct (map fst m)" and ne: "'''' \<notin> fst ` set m"
  shows "best_root k q m = best_root k q m'"
proof -
  have "fold (best_step k q) m = fold (best_step k q) m'"
  proof (rule fold_multiset_equiv [OF _ assms(1)])
    fix x y
    assume xy: "x \<in> set m" "y \<in> set m"
    show "best_step k q x \<circ> best_step k q y = best_step k q y \<circ> best_step k q x"
    proof (cases "x = y")
      case False
      have neq: "fst x \<noteq> fst y" using d xy False by (auto simp: distinct_map inj_on_def)
      have "fst x \<noteq> ''''" "fst y \<noteq> ''''" using ne xy by force+
      with best_step_commute [OF neq, where vx = "snd x" and vy = "snd y" and k = k and q = q] show ?thesis by (simp add: fun_eq_iff)
    qed simp
  qed
  then show ?thesis by (simp add: best_root_def)
qed

text \<open>What the walk ends with: an entry of the map with at least the power of every other, or nothing.\<close>

lemma best_fold:
  assumes "0 \<le> q"
  shows "let (best, h) = fold (best_step k q) m b in
    (best, h) = b \<or> (\<exists>vs. (h, vs) \<in> set m \<and> best = \<lparr>wi_key = k, wi_votes = vs, wi_power = votes_power vs\<rparr> \<and> q \<le> votes_power vs)"
proof (induction m arbitrary: b)
  case Nil
  then show ?case by (cases b) simp
next
  case (Cons e m)
  have step: "best_step k q e b = b \<or>
      (best_step k q e b = (\<lparr>wi_key = k, wi_votes = snd e, wi_power = votes_power (snd e)\<rparr>, fst e) \<and> q \<le> votes_power (snd e))"
    by (cases e; cases b) (simp add: best_step_better)
  show ?case using Cons.IH [of "best_step k q e b"] step by (cases e) (auto simp: Let_def split_beta prod_eq_iff)
qed

lemma best_root_cases:
  assumes "0 \<le> q"
  obtains (none) "wi_power (best_root k q m) = - 1" "wi_votes (best_root k q m) = []"
  | (some) h vs where "(h, vs) \<in> set m" "best_root k q m = \<lparr>wi_key = k, wi_votes = vs, wi_power = votes_power vs\<rparr>" "q \<le> votes_power vs"
  using best_fold [OF assms, of k m "(\<lparr>wi_key = ('''', ''''), wi_votes = [], wi_power = - 1\<rparr>, '''')"] that
  unfolding best_root_def by (auto simp: Let_def split_beta)

text \<open>An order of walking maps visits every entry once.\<close>

definition order_ok :: "map_order \<Rightarrow> bool" where
  "order_ok W \<longleftrightarrow> (\<forall>t. mset (mo_keys W t) = mset t) \<and> (\<forall>k m. mset (mo_roots W k m) = mset m)"

lemma order_okD:
  assumes "order_ok W"
  shows "mset (mo_keys W t) = mset t" and "mset (mo_roots W k m) = mset m"
    and "set (mo_keys W t) = set t" and "set (mo_roots W k m) = set m"
proof -
  show 1: "mset (mo_keys W t) = mset t" using assms unfolding order_ok_def by blast
  show 2: "mset (mo_roots W k m) = mset m" using assms unfolding order_ok_def by blast
  show "set (mo_keys W t) = set t" by (rule mset_eq_setD [OF 1])
  show "set (mo_roots W k m) = set m" by (rule mset_eq_setD [OF 2])
qed

lemma winners_mem:
  assumes "order_ok W" and q: "0 \<le> q" and w: "w \<in> set (winners_of W q t)"
  shows "\<exists>k m h vs. (k, m) \<in> set t \<and> (h, vs) \<in> set m \<and> w = \<lparr>wi_key = k, wi_votes = vs, wi_power = votes_power vs\<rparr> \<and> q \<le> votes_power vs"
proof -
  note sets = order_okD(3,4) [OF assms(1)]
  from w obtain k m where km: "(k, m) \<in> set t" "w = best_root k q (mo_roots W k m)" "q \<le> wi_power w"
    by (auto simp: winners_of_def sets)
  show ?thesis
  proof (cases rule: best_root_cases [OF q, where k = k and m = "mo_roots W k m", case_names none some])
    case none
    with km(2,3) q show ?thesis by simp
  next
    case (some h vs)
    with km sets show ?thesis by blast
  qed
qed

lemma sort_key_unique:
  assumes "mset xs = mset ys" and "distinct (map f xs)"
  shows "sort_key f xs = sort_key f ys"
proof (rule map_sorted_distinct_set_unique [of f])
  have set: "set xs = set ys" using assms(1) by (rule mset_eq_setD)
  show "inj_on f (set (sort_key f xs) \<union> set (sort_key f ys))" using assms(2) set by (simp add: distinct_map)
  show "sorted (map f (sort_key f xs))" "sorted (map f (sort_key f ys))" by simp_all
  show "distinct (map f (sort_key f xs))" using assms(2) by (simp add: distinct_map distinct_sort)
  have "distinct (map f ys)" using assms by (metis mset_eq_imp_distinct_iff mset_map)
  then show "distinct (map f (sort_key f ys))" by (simp add: distinct_map distinct_sort)
  show "set (sort_key f xs) = set (sort_key f ys)" using set by simp
qed

lemma winners_order:
  assumes W: "order_ok W1" "order_ok W2" and q: "0 \<le> q" and t: "tally_wf t"
    and ne: "\<And>k m. (k, m) \<in> set t \<Longrightarrow> '''' \<notin> fst ` set m"
  shows "winners_of W1 q t = winners_of W2 q t"
proof -
  define f where "f = (\<lambda>(W :: map_order) (key, rootMap). best_root key q (mo_roots W key rootMap))"
  have roots: "f W2 e = f W1 e" if "e \<in> set t" for e
  proof -
    obtain k m where e: "e = (k, m)" by (cases e)
    have d: "distinct (map fst m)" using t that unfolding tally_wf_def e by blast
    have eq: "mset (mo_roots W2 k m) = mset (mo_roots W1 k m)" by (simp only: order_okD(2) [OF W(1)] order_okD(2) [OF W(2)])
    have "distinct (map fst (mo_roots W2 k m))"
      using d mset_eq_imp_distinct_iff [of "map fst (mo_roots W2 k m)" "map fst m"]
      unfolding mset_map order_okD(2) [OF W(2)] by blast
    moreover have "'''' \<notin> fst ` set (mo_roots W2 k m)" using ne that by (simp add: e order_okD(4) [OF W(2)])
    ultimately show ?thesis using best_root_order [OF eq] by (simp add: f_def e)
  qed
  let ?ws = "\<lambda>W. filter (\<lambda>w. q \<le> wi_power w) (map (f W) (mo_keys W t))"
  have "mset (map (f W2) (mo_keys W2 t)) = mset (map (f W1) (mo_keys W1 t))"
    unfolding mset_map order_okD(1) [OF W(1)] order_okD(1) [OF W(2)] by (rule image_mset_cong) (simp add: roots)
  then have ms: "mset (?ws W1) = mset (?ws W2)" by (simp only: mset_filter)
  have key: "wi_key (f W1 e) = fst e" if "q \<le> wi_power (f W1 e)" for e
  proof -
    obtain k m where e: "e = (k, m)" by (cases e)
    show ?thesis
    proof (cases rule: best_root_cases [OF q, where k = k and m = "mo_roots W1 k m", case_names none some])
      case none
      with that q show ?thesis by (simp add: e f_def)
    next
      case (some h vs)
      then show ?thesis by (simp add: e f_def)
    qed
  qed
  have "map wi_key (?ws W1) = map fst (filter (\<lambda>e. q \<le> wi_power (f W1 e)) (mo_keys W1 t))"
    by (simp add: filter_map comp_def key cong: map_cong)
  moreover have "distinct (map fst (mo_keys W1 t))"
    using t mset_eq_imp_distinct_iff [of "map fst (mo_keys W1 t)" "map fst t"]
    unfolding tally_wf_def mset_map order_okD(1) [OF W(1)] by blast
  ultimately have "distinct (map wi_key (?ws W1))" by (simp add: distinct_map_filter)
  from sort_key_unique [OF ms this] show ?thesis by (simp only: winners_of_def f_def)
qed


lemma tally_append_nonempty: "h \<noteq> '''' \<Longrightarrow> '''' \<notin> fst ` set m \<Longrightarrow> '''' \<notin> fst ` set (tally_append h v m)"
  by (simp add: tally_append_keys)

lemma tally_votes_nonempty:
  assumes "list_all (\<lambda>v. case decoded L v of None \<Rightarrow> True | Some d \<Rightarrow> ve_Root d \<noteq> []) commit"
    and "\<forall>(k, m) \<in> set t. '''' \<notin> fst ` set m"
  shows "\<forall>(k, m) \<in> set (fst (tally_votes L commit t n)). '''' \<notin> fst ` set m"
  using assms
proof (induction commit arbitrary: t n)
  case Nil
  then show ?case by simp
next
  case (Cons vote votes)
  show ?case
  proof (cases "decoded L vote")
    case None
    then show ?thesis using Cons unfolding tally_votes_Cons by simp
  next
    case (Some d)
    let ?h = "hex_encode (ve_Root d)"
    have h: "?h \<noteq> ''''" using Cons.prems(1) Some by simp
    have "'''' \<notin> fst ` set m'" if mem: "(k', m') \<in> set (tally_insert k ?h v t)" for k k' m' v
      using tally_insert_mem [OF mem]
    proof (elim disjE exE conjE)
      assume "(k', m') \<in> set t"
      then show ?thesis using Cons.prems(2) by blast
    next
      assume "m' = [(?h, [v])]"
      then show ?thesis using h by (simp del: hex_encode_Nil add: eq_commute [of "[]"])
    next
      fix m
      assume m: "(k', m) \<in> set t" "m' = tally_append ?h v m"
      have "'''' \<notin> fst ` set m" using Cons.prems(2) m(1) by blast
      with h show ?thesis unfolding m(2) by (rule tally_append_nonempty)
    qed
    then have "\<forall>(k', m') \<in> set (tally_insert (ve_ChainUid d, ve_Algo d) ?h (vote_of L vote d) t). '''' \<notin> fst ` set m'"
      by blast
    with Cons.IH [OF _ this] Cons.prems(1) Some show ?thesis unfolding tally_votes_Cons by simp
  qed
qed

text \<open>
  C29. The outcome of a commit does not depend on the order in which the Go maps are walked: as long
  as no counted vote carries an empty root, any two orders lead to the same store, events and
  callbacks.
\<close>

theorem hm_map_order_irrelevant:
  assumes "order_ok W1" and "order_ok W2" and "HMGetParams (fst (gstore ctx)) = Inr params"
    and "0 \<le> quorum_threshold L params (snd (tally_votes L commit [] 0))"
    and "list_all (\<lambda>v. case decoded L v of None \<Rightarrow> True | Some d \<Rightarrow> ve_Root d \<noteq> []) commit"
  shows "ProcessVoteExtensions W1 G Sudo S L blockHeight commit ctx = ProcessVoteExtensions W2 G Sudo S L blockHeight commit ctx"
proof -
  obtain t n where t: "tally_votes L commit [] 0 = (t, n)" by fastforce
  have "tally_wf []" by (simp add: tally_wf_def)
  then have wf: "tally_wf t" using tally_wf_votes [of "[]" L commit 0] t by simp
  have ne: "'''' \<notin> fst ` set m" if "(k, m) \<in> set t" for k m
    using tally_votes_nonempty [OF assms(5), of "[]" 0] that unfolding t fst_conv by fastforce
  have "winners_of W1 (quorum_threshold L params n) t = winners_of W2 (quorum_threshold L params n) t"
    by (rule winners_order [OF assms(1,2) _ wf ne]) (use assms(4) t in simp_all)
  then show ?thesis unfolding ProcessVoteExtensions_def assms(3) t by (simp add: Let_def)
qed

section \<open>Quorum\<close>

lemma i64_add_exact: "- 9223372036854775808 \<le> a + b \<Longrightarrow> a + b \<le> 9223372036854775807 \<Longrightarrow> i64_add a b = a + b"
  by (simp add: i64_add_def)

lemma i64_foldl:
  assumes "0 \<le> a" and "list_all (\<lambda>x. 0 \<le> f x) xs" and "a + sum_list (map f xs) \<le> 9223372036854775807"
  shows "foldl (\<lambda>p v. i64_add p (f v)) a xs = a + sum_list (map f xs)"
  using assms
proof (induction xs arbitrary: a)
  case (Cons x xs)
  have "0 \<le> sum_list (map f xs)" using Cons.prems(2) by (auto intro!: sum_list_nonneg simp: list_all_iff)
  then have "i64_add a (f x) = a + f x" using Cons.prems by (intro i64_add_exact) simp_all
  then show ?case using Cons.IH [of "a + f x"] Cons.prems by simp
qed simp

lemma tally_total:
  "snd (tally_votes L commit t n) = foldl (\<lambda>p v. i64_add p (vi_Power v)) n commit"
proof (induction commit arbitrary: t n)
  case (Cons vote votes)
  then show ?case unfolding tally_votes_Cons by simp
qed simp

lemma filter_power_le:
  "list_all (\<lambda>v. 0 \<le> f v) xs \<Longrightarrow> sum_list (map f (filter P xs)) \<le> sum_list (map f xs)" for f :: "'a \<Rightarrow> int"
  by (induction xs) auto

lemma winner_backing:
  assumes W: "order_ok W" and q: "0 \<le> q" and pow: "list_all (\<lambda>v. 0 \<le> vi_Power v) commit"
    and tot: "sum_list (map vi_Power commit) \<le> 9223372036854775807"
    and w: "w \<in> set (winners_of W q (fst (tally_votes L commit [] 0)))"
  shows "q \<le> backing L commit (wi_key w) (hr_Root (winner_root L w))"
proof -
  let ?t = "fst (tally_votes L commit [] 0)"
  have wf: "tally_wf ?t" by (rule tally_wf_votes) (simp add: tally_wf_def)
  from winners_mem [OF W q w] obtain k m h vs where
    km: "(k, m) \<in> set ?t" "(h, vs) \<in> set m" "w = \<lparr>wi_key = k, wi_votes = vs, wi_power = votes_power vs\<rparr>" "q \<le> votes_power vs"
    by blast
  have dk: "distinct (map fst ?t)" and m: "distinct (map fst m)" "\<forall>(h, vs) \<in> set m. vs \<noteq> [] \<and> (\<forall>v \<in> set vs. hex_encode (rv_root v) = h)"
    using wf km(1) unfolding tally_wf_def by blast+
  have vs: "vs \<noteq> []" "hex_encode (rv_root (hd vs)) = h" using m(2) km(2) by auto
  have "map_of ?t k = Some m" "map_of m h = Some vs" using dk m(1) km(1,2) by simp_all
  then have get: "tally_get ?t k h = vs" by (simp add: tally_get_def)
  have "(\<lambda>v. case decoded L v of None \<Rightarrow> False | Some d \<Rightarrow> (ve_ChainUid d, ve_Algo d) = k \<and> hex_encode (ve_Root d) = h)
      = votes_for L k (rv_root (hd vs))"
    using vs(2) by (auto simp: votes_for_def fun_eq_iff hex_encode_inj split: option.split)
  with tally_get_votes [of L commit "[]" 0 k h] get
  have pows: "map rv_votingPower vs = map vi_Power (filter (votes_for L k (rv_root (hd vs))) commit)"
    by (simp add: tally_get_def)
  then have "sum_list (map rv_votingPower vs) = backing L commit k (rv_root (hd vs))" by (simp add: backing_def)
  moreover have "list_all (\<lambda>v. 0 \<le> rv_votingPower v) vs"
  proof -
    have "\<forall>p \<in> set (map rv_votingPower vs). 0 \<le> p" unfolding pows using pow by (auto simp: list_all_iff)
    then show ?thesis by (simp add: list_all_iff)
  qed
  moreover have "sum_list (map rv_votingPower vs) \<le> 9223372036854775807"
    unfolding pows using filter_power_le [OF pow] tot by (rule order_trans)
  ultimately have "votes_power vs = backing L commit k (rv_root (hd vs))"
    using i64_foldl [of 0 rv_votingPower vs] by (simp add: votes_power_def)
  then show ?thesis using km(3,4) by (simp add: winner_root_def Let_def)
qed

lemma GetHashRoot_Set:
  "GetHashRoot (SetHashRoot root st) u al = (if KeyHashRoot (hr_ChainUid root) (hr_Algo root) = KeyHashRoot u al then Inr root else GetHashRoot st u al)"
  by (simp add: GetHashRoot_def SetHashRoot_def kv_simps)

text \<open>Contracts that do not write the roots of the module keep them through all callbacks.\<close>

definition keeps_roots :: "('w, 'g) hm_sudo \<Rightarrow> bool" where
  "keeps_roots Sudo \<longleftrightarrow> (\<forall>a b c u al. GetHashRoot (fst (gstore (snd (Sudo a b c)))) u al = GetHashRoot (fst (gstore c)) u al)"

lemma sudoBounded_roots:
  assumes "keeps_roots Sudo"
  shows "GetHashRoot (fst (gstore (snd (sudoBounded G Sudo a b l ctx)))) u al = GetHashRoot (fst (gstore ctx)) u al"
proof -
  let ?c = "ctx\<lparr>meter := NewGasMeter G (if l = 0 then DefaultContractGasLimit else l), evs := []\<rparr>"
  obtain r c where run: "Sudo a b ?c = (r, c)" by fastforce
  have "GetHashRoot (fst (gstore c)) u al = GetHashRoot (fst (gstore ctx)) u al"
    using assms run unfolding keeps_roots_def by (metis gctx.select_convs(1) gctx.surjective gctx.update_convs(2) gctx.update_convs(3) snd_conv)
  then show ?thesis by (auto simp: sudoBounded_def run Let_def split: sum.split error.split)
qed

lemma callback_one_roots:
  assumes "keeps_roots Sudo"
  shows "GetHashRoot (fst (gstore (snd (callback_one G Sudo S L bh l root atts c ctx)))) u al = GetHashRoot (fst (gstore ctx)) u al"
proof -
  have "GetHashRoot (fst (gstore c')) u al = GetHashRoot (fst (gstore ctx)) u al"
    if "sudoBounded G Sudo a b l ctx = (r, c')" for a b r c'
    using sudoBounded_roots [OF assms, of G a b l ctx u al] that by simp
  then show ?thesis unfolding callback_one_def by (auto split: sum.split prod.split error.split)
qed

lemma callback_each_roots:
  assumes "keeps_roots Sudo"
  shows "GetHashRoot (fst (gstore (snd (callback_each G Sudo S L bh l root atts cs ctx)))) u al = GetHashRoot (fst (gstore ctx)) u al"
proof (induction cs arbitrary: ctx)
  case (Cons c cs)
  obtain r c1 where 1: "callback_one G Sudo S L bh l root atts c ctx = (r, c1)" by fastforce
  have "GetHashRoot (fst (gstore c1)) u al = GetHashRoot (fst (gstore ctx)) u al"
    using callback_one_roots [OF assms, of G S L bh l root atts c ctx] 1 by simp
  then show ?case using Cons.IH [of c1] 1 by (cases r) simp_all
qed simp

lemma apply_winners_roots:
  assumes "keeps_roots Sudo"
  shows "GetHashRoot (fst (gstore (snd (apply_winners G Sudo S L bh ws ctx)))) u al = GetHashRoot (fst (gstore ctx)) u al \<or>
    (\<exists>w \<in> set ws. GetHashRoot (fst (gstore (snd (apply_winners G Sudo S L bh ws ctx)))) u al = Inr (winner_root L w))"
proof (induction ws arbitrary: ctx)
  case (Cons w ws)
  show ?case
  proof (cases "wi_votes w = []")
    case False
    let ?root = "winner_root L w"
    let ?can = "dedupeOracleAttestationsBySourceID (sortOracleAttestations L (rv_attestations (hd (wi_votes w))))"
    let ?c1 = "ctx\<lparr>gstore := (SetHashRoot ?root (fst (gstore ctx)), snd (gstore ctx))\<rparr>"
    obtain r c2 where d: "dispatchSudoCallbacks G Sudo S L bh ?root ?can ?c1 = (r, c2)" by fastforce
    have "GetHashRoot (fst (gstore c2)) u al = GetHashRoot (fst (gstore ?c1)) u al"
      using callback_each_roots [OF assms] d unfolding dispatchSudoCallbacks_def Let_def by (metis snd_conv)
    then have c2: "GetHashRoot (fst (gstore c2)) u al = GetHashRoot (fst (gstore ctx)) u al \<or>
        GetHashRoot (fst (gstore c2)) u al = Inr ?root"
      by (simp add: GetHashRoot_Set)
    show ?thesis
    proof (cases r)
      case (Inl e)
      with False d c2 show ?thesis by (auto simp: Let_def)
    next
      case (Inr x)
      let ?c3 = "c2\<lparr>evs := evs c2 @ [root_confirmed_event w]\<rparr>"
      have eq: "apply_winners G Sudo S L bh (w # ws) ctx = apply_winners G Sudo S L bh ws ?c3"
        using False d Inr by (simp add: Let_def)
      show ?thesis unfolding eq using Cons.IH [of ?c3] c2 by auto
    qed
  qed simp
qed simp

text \<open>The library's arithmetic: the product is exact, and the truncation of a value that is not negative rounds down.\<close>

definition trunc_laws :: "hm_lib \<Rightarrow> bool" where
  "trunc_laws L \<longleftrightarrow> (\<forall>d n. 0 \<le> d \<longrightarrow> 0 \<le> n \<longrightarrow>
     TruncateInt L (MulInt64 L d n) * dec_one \<le> d * n \<and> d * n < (TruncateInt L (MulInt64 L d n) + 1) * dec_one)"

text \<open>
  C3. A root enters the store only with a quorum behind it: when a commit with voting powers that
  are not negative and do not overflow changes the root stored under a key, the new root is one that
  validators with at least the quorum fraction of the total power, rounded down, voted for, on the
  chain and algorithm it is stored with.
\<close>

theorem hm_root_has_quorum:
  assumes "order_ok W" and "trunc_laws L" and "keeps_roots Sudo"
    and "list_all (\<lambda>v. 0 \<le> vi_Power v) commit" and "sum_list (map vi_Power commit) \<le> 9223372036854775807"
    and "HMGetParams (fst (gstore ctx)) = Inr params" and "0 \<le> QuorumFraction params"
    and "ProcessVoteExtensions W G Sudo S L blockHeight commit ctx = (r, ctx')"
    and "GetHashRoot (fst (gstore ctx')) u al \<noteq> GetHashRoot (fst (gstore ctx)) u al"
  shows "\<exists>root. GetHashRoot (fst (gstore ctx')) u al = Inr root \<and>
     QuorumFraction params * sum_list (map vi_Power commit) <
       (backing L commit (hr_ChainUid root, hr_Algo root) (hr_Root root) + 1) * dec_one"
proof -
  let ?total = "sum_list (map vi_Power commit)"
  obtain t n where t: "tally_votes L commit [] 0 = (t, n)" by fastforce
  have n: "n = ?total" using tally_total [of L commit "[]" 0] i64_foldl [of 0 vi_Power commit] assms(4,5) t by simp
  have tn: "0 \<le> ?total" using assms(4) by (auto intro!: sum_list_nonneg simp: list_all_iff)
  define q where "q = quorum_threshold L params n"
  have q: "q * dec_one \<le> QuorumFraction params * ?total" "QuorumFraction params * ?total < (q + 1) * dec_one"
    using assms(2,7) tn unfolding trunc_laws_def q_def quorum_threshold_def n by blast+
  have "0 \<le> QuorumFraction params * ?total" using assms(7) tn by simp
  with q(2) have q0: "0 \<le> q" by (simp add: dec_one_def)
  have "ctx' = ctx \<or> snd (apply_winners G Sudo S L blockHeight (winners_of W q t) ctx) = ctx'"
    using assms(8) by (auto simp: ProcessVoteExtensions_def assms(6) t q_def Let_def split: if_splits)
  with assms(9) have "snd (apply_winners G Sudo S L blockHeight (winners_of W q t) ctx) = ctx'" by auto
  with apply_winners_roots [OF assms(3), of G S L blockHeight "winners_of W q t" ctx u al] assms(9)
  obtain w where w: "w \<in> set (winners_of W q t)" "GetHashRoot (fst (gstore ctx')) u al = Inr (winner_root L w)" by auto
  have "q \<le> backing L commit (wi_key w) (hr_Root (winner_root L w))"
    by (rule winner_backing [OF assms(1) q0 assms(4,5)]) (use w(1) t in simp)
  moreover have "wi_key w = (hr_ChainUid (winner_root L w), hr_Algo (winner_root L w))" by (simp add: winner_root_def Let_def)
  ultimately have "q + 1 \<le> backing L commit (hr_ChainUid (winner_root L w), hr_Algo (winner_root L w)) (hr_Root (winner_root L w)) + 1" by simp
  then have "(q + 1) * dec_one \<le> (backing L commit (hr_ChainUid (winner_root L w), hr_Algo (winner_root L w)) (hr_Root (winner_root L w)) + 1) * dec_one"
    by (rule mult_right_mono) (simp add: dec_one_def)
  with q(2) w(2) show ?thesis by (intro exI [of _ "winner_root L w"] conjI) (assumption, linarith)
qed


section \<open>Chains that governance registers\<close>

lemma decode_attestations_length: "decode_attestations as = Inr bs \<Longrightarrow> length bs = length as"
  by (induction as arbitrary: bs) (auto split: sum.splits)

lemma fetchSidecar_attested:
  assumes "fetchSidecar L reply = Inr data"
  shows "voteExtensionAttestations L data \<noteq> []"
proof -
  from assms obtain atts where "ve_Attestations data = map Some atts" "atts \<noteq> []"
    by (auto simp: fetchSidecar_def Let_def split: sum.splits if_splits)
  moreover have "List.map_filter (\<lambda>a. a) (map Some atts) = atts" for atts :: "OracleAttestation list"
    by (induction atts) (simp_all add: List.map_filter_simps)
  ultimately show ?thesis by (simp add: voteExtensionAttestations_def)
qed

lemma oracle_key_other: "KeyRegisteredChain c \<noteq> oracleSourcesKey c'"
  by (simp add: KeyRegisteredChain_def oracleSourcesKey_def KeyPrefixRegisteredChains_def oracleSourcesKeyPrefix_def)

text \<open>
  Registering a chain by governance does not register its oracle sources: unless sources were
  stored for it at genesis, every non-empty vote extension that a validator builds from its sidecar
  for such a chain is rejected by its peers, whatever sources the registration lists.
\<close>

theorem hm_gov_chain_unattestable:
  assumes "\<And>d bz. MarshalVote L d = Inr bz \<Longrightarrow> UnmarshalVote L bz = Inr d"
    and "RegisterChain gov gov chain st = (Inr (), st')"
    and "kv_get st (oracleSourcesKey (rc_ChainUid chain)) = None"
    and "ext = ExtendVoteHandler L url reply" and "ext \<noteq> []"
    and "UnmarshalVote L ext = Inr data" and "ve_ChainUid data = rc_ChainUid chain"
  shows "\<not> VerifyVoteExtensionHandler L st' ext"
proof -
  have st': "st' = SetRegisteredChain chain st" using assms(2) by (simp add: RegisterChain_def split: if_splits)
  have none: "GetOracleSources (hl_Sources L) st' (rc_ChainUid chain) = Inr []"
    using assms(3) oracle_key_other by (simp add: st' GetOracleSources_def SetRegisteredChain_def kv_simps eq_commute [of "oracleSourcesKey _"])
  from assms(4,5) obtain d where d: "fetchSidecar L reply = Inr d" "MarshalVote L d = Inr ext"
    by (auto simp: ExtendVoteHandler_def split: if_splits sum.splits)
  have "data = d" using assms(1) [OF d(2)] assms(6) by simp
  then have att: "voteExtensionAttestations L data \<noteq> []" using fetchSidecar_attested [OF d(1)] by simp
  then obtain a as where a: "voteExtensionAttestations L data = a # as" by (cases "voteExtensionAttestations L data") auto
  have "\<not> is_ok (verifyOracleAttestations L st' (rc_ChainUid chain) (a # as))"
    by (simp add: verifyOracleAttestations_def none verify_attestation_def split: sum.split)
  then show ?thesis
    using assms(5) by (auto simp: VerifyVoteExtensionHandler_def assms(6,7) a Let_def split: sum.splits)
qed

section \<open>A commit\<close>

text \<open>
  A library with toy encodings: the extension \<open>v\<close> followed by a root is a vote for it without
  attestations.
\<close>

definition hm_ex_lib :: hm_lib where
  "hm_ex_lib = \<lparr>hl_Sources = \<lparr>MarshalSources = (\<lambda>_. Inr ''src''), UnmarshalSources = (\<lambda>_. Inr [])\<rparr>,
     UnmarshalVote = (\<lambda>s. case s of [] \<Rightarrow> Inl (Plain ''proto'')
       | c # r \<Rightarrow> if c = CHR ''v'' then Inr \<lparr>ve_RuntimeId = '''', ve_ChainUid = ''zec'', ve_Algo = ''sha'', ve_Root = r, ve_ForeignHeight = 5,
                    ve_ForeignBlockTime = 9, ve_Ics23Proof = [], ve_Attestations = []\<rparr> else Inl (Plain ''proto'')),
     MarshalVote = (\<lambda>_. Inl (Plain ''proto'')), UnmarshalCommit = (\<lambda>_. Inl (Plain ''proto'')), MarshalCommit = (\<lambda>_. Inl (Plain ''proto'')),
     MarshalBundle = (\<lambda>_. Inl (Plain ''json'')), UnmarshalBundle = (\<lambda>_. Inl (Plain ''json'')), MarshalSudo = (\<lambda>_. Inr ''sudo''),
     Sha256 = (\<lambda>s. s), Ed25519Verify = (\<lambda>_ _ _. True), SortAttestations = sort_key att_key,
     MulInt64 = (\<lambda>d n. d * n), TruncateInt = (\<lambda>d. d div dec_one)\<rparr>"

definition hm_ex_chain :: RegisteredChain where
  "hm_ex_chain = \<lparr>rc_ChainUid = ''zec'', rc_Name = '''', rc_RpcEndpoints = [], rc_HashAlgos = [], rc_Enabled = True, rc_OracleSources = []\<rparr>"

definition hm_ex_params :: HMParams where
  "hm_ex_params = HMDefaultParams\<lparr>QuorumFraction := 500000000000000000\<rparr>"

definition hm_ex_store :: hm_store where
  "hm_ex_store = SetRegisteredChain hm_ex_chain (snd (HMUpdateParams ''gov'' ''gov'' hm_ex_params kv_empty))"

definition hm_ex_ctx :: "(unit hm_chain, u64 \<times> u64) gctx" where
  "hm_ex_ctx = \<lparr>gstore = (hm_ex_store, ()), meter = (1000, 0), evs = []\<rparr>"

definition hm_ex_sudo :: "(unit, u64 \<times> u64) hm_sudo" where
  "hm_ex_sudo addr bz c = (Inr '''', c)"

definition hm_ex_sdk :: "unit sdk" where
  "hm_ex_sdk = \<lparr>AccAddressFromBech32 = (\<lambda>s. Inr s), AccAddressString = (\<lambda>a. a), ValidateDenom = (\<lambda>_. Inr ()), CoinIsValid = (\<lambda>_. True),
     CoinsValidate = (\<lambda>_. Inr ()), NewCoins = (\<lambda>cs. Inr cs), MetadataValidate = (\<lambda>_. Inr ()), GetDenomMetaData = (\<lambda>_ _. None),
     SetDenomMetaData = (\<lambda>_ w. w), MintCoins = (\<lambda>_ _ w. (Inr (), w)), BurnCoins = (\<lambda>_ _ w. (Inr (), w)),
     SendCoins = (\<lambda>_ _ _ w. (Inr (), w)), SendCoinsFromModuleToAccount = (\<lambda>_ _ _ w. (Inr (), w)),
     SendCoinsFromAccountToModule = (\<lambda>_ _ _ w. (Inr (), w)), BlockedAddr = (\<lambda>_. False), FundCommunityPool = (\<lambda>_ _ w. (Inr (), w)),
     ConsumeGas = (\<lambda>_ w. (Inr (), w))\<rparr>"

definition hm_ex_order :: map_order where
  "hm_ex_order = \<lparr>mo_keys = (\<lambda>t. t), mo_roots = (\<lambda>k m. m)\<rparr>"

definition hm_ex_reverse :: map_order where
  "hm_ex_reverse = \<lparr>mo_keys = rev, mo_roots = (\<lambda>k m. rev m)\<rparr>"

definition hm_ex_commit :: ExtendedCommitInfo where
  "hm_ex_commit = [\<lparr>vi_Power = 1, vi_VoteExtension = ''vab''\<rparr>, \<lparr>vi_Power = 1, vi_VoteExtension = ''vcd''\<rparr>, \<lparr>vi_Power = 2, vi_VoteExtension = ''vcd''\<rparr>]"

definition hm_ex_empty_commit :: ExtendedCommitInfo where
  "hm_ex_empty_commit = [\<lparr>vi_Power = 1, vi_VoteExtension = ''v''\<rparr>, \<lparr>vi_Power = 1, vi_VoteExtension = ''vab''\<rparr>]"

abbreviation hm_ex_run :: "map_order \<Rightarrow> ExtendedCommitInfo \<Rightarrow> unit res \<times> (unit hm_chain, u64 \<times> u64) gctx" where
  "hm_ex_run W commit \<equiv> ProcessVoteExtensions W ref_gas hm_ex_sudo hm_ex_sdk hm_ex_lib 10 commit hm_ex_ctx"

lemma hm_ex_orders: "order_ok hm_ex_order" "order_ok hm_ex_reverse"
  by (simp_all add: order_ok_def hm_ex_order_def hm_ex_reverse_def)

lemma hm_ex_laws: "sort_laws hm_ex_lib" "trunc_laws hm_ex_lib" "keeps_roots hm_ex_sudo"
proof -
  show "sort_laws hm_ex_lib" by (simp add: sort_laws_def hm_ex_lib_def)
  show "keeps_roots hm_ex_sudo" by (simp add: keeps_roots_def hm_ex_sudo_def)
  have "a div dec_one * dec_one \<le> a \<and> a < (a div dec_one + 1) * dec_one" for a :: int
  proof -
    have "0 \<le> a mod dec_one" "a mod dec_one < dec_one" by (simp_all add: dec_one_def)
    moreover have "a = a div dec_one * dec_one + a mod dec_one" by simp
    ultimately show ?thesis by (simp only: distrib_right) linarith
  qed
  then show "trunc_laws hm_ex_lib" by (simp add: trunc_laws_def hm_ex_lib_def)
qed

lemma hm_ex_get_params: "HMGetParams (fst (gstore hm_ex_ctx)) = Inr hm_ex_params" by code_simp


theorem hm_map_order_irrelevant_witness:
  "hm_ex_run hm_ex_order hm_ex_commit = hm_ex_run hm_ex_reverse hm_ex_commit"
proof (rule hm_map_order_irrelevant [OF hm_ex_orders hm_ex_get_params])
  show "0 \<le> quorum_threshold hm_ex_lib hm_ex_params (snd (tally_votes hm_ex_lib hm_ex_commit [] 0))" by code_simp
  show "list_all (\<lambda>v. case decoded hm_ex_lib v of None \<Rightarrow> True | Some d \<Rightarrow> ve_Root d \<noteq> []) hm_ex_commit" by code_simp
qed

theorem hm_root_has_quorum_witness:
  "\<exists>root. GetHashRoot (fst (gstore (snd (hm_ex_run hm_ex_order hm_ex_commit)))) ''zec'' ''sha'' = Inr root \<and>
     QuorumFraction hm_ex_params * sum_list (map vi_Power hm_ex_commit) <
       (backing hm_ex_lib hm_ex_commit (hr_ChainUid root, hr_Algo root) (hr_Root root) + 1) * dec_one"
proof (rule hm_root_has_quorum [OF hm_ex_orders(1) hm_ex_laws(2,3) _ _ hm_ex_get_params])
  show "list_all (\<lambda>v. 0 \<le> vi_Power v) hm_ex_commit" by code_simp
  show "sum_list (map vi_Power hm_ex_commit) \<le> 9223372036854775807" by code_simp
  show "0 \<le> QuorumFraction hm_ex_params" by code_simp
  show "hm_ex_run hm_ex_order hm_ex_commit = (fst (hm_ex_run hm_ex_order hm_ex_commit), snd (hm_ex_run hm_ex_order hm_ex_commit))" by simp
  have 1: "is_ok (GetHashRoot (fst (gstore (snd (hm_ex_run hm_ex_order hm_ex_commit)))) ''zec'' ''sha'')" by code_simp
  have 2: "\<not> is_ok (GetHashRoot (fst (gstore hm_ex_ctx)) ''zec'' ''sha'')" by code_simp
  show "GetHashRoot (fst (gstore (snd (hm_ex_run hm_ex_order hm_ex_commit)))) ''zec'' ''sha'' \<noteq> GetHashRoot (fst (gstore hm_ex_ctx)) ''zec'' ''sha''"
    using 1 2 by (intro notI) simp
qed

definition hm_ex_atts :: "OracleAttestation list" where
  "hm_ex_atts = [\<lparr>oa_SourceId = ''b'', oa_Value = ''1'', oa_Height = 7, oa_Timestamp = 1, oa_CustodySignature = ''s''\<rparr>,
     \<lparr>oa_SourceId = ''a'', oa_Value = ''2'', oa_Height = 7, oa_Timestamp = 1, oa_CustodySignature = ''t''\<rparr>]"

theorem hm_aggregate_order_irrelevant_witness:
  "aggregateAttestationRoot hm_ex_lib hm_ex_atts = aggregateAttestationRoot hm_ex_lib (rev hm_ex_atts) \<and> hm_ex_atts \<noteq> rev hm_ex_atts"
  using hm_aggregate_order_irrelevant [OF hm_ex_laws(1) hm_ex_laws(1) refl, of hm_ex_atts "rev hm_ex_atts"]
  by (simp add: hm_ex_atts_def)

text \<open>The library for a chain that governance registers: one vote can be encoded, that of the reply below.\<close>

definition hm_ex_reply :: sidecarResponse where
  "hm_ex_reply = \<lparr>sr_RuntimeID = '''', sr_ChainUID = ''zec'', sr_Algo = ''sha'', sr_Root = '''', sr_ForeignHeight = 5, sr_ForeignBlockTime = 9,
     sr_Attestations = [\<lparr>sa_SourceID = ''db'', sa_Value = ''0a'', sa_Height = 5, sa_Timestamp = 9, sa_CustodySignature = ''ff''\<rparr>]\<rparr>"

definition hm_ex_data :: VoteExtensionHashData where
  "hm_ex_data = (case fetchSidecar hm_ex_lib (Inr hm_ex_reply) of Inr d \<Rightarrow> d | Inl e \<Rightarrow> undefined)"

definition hm_ex_lib2 :: hm_lib where
  "hm_ex_lib2 = hm_ex_lib\<lparr>MarshalVote := (\<lambda>d. if d = hm_ex_data then Inr ''x'' else Inl (Plain ''proto'')),
     UnmarshalVote := (\<lambda>s. if s = ''x'' then Inr hm_ex_data else Inl (Plain ''proto''))\<rparr>"

theorem hm_gov_chain_unattestable_witness:
  "\<not> VerifyVoteExtensionHandler hm_ex_lib2 (snd (RegisterChain ''gov'' ''gov'' hm_ex_chain kv_empty))
       (ExtendVoteHandler hm_ex_lib2 ''http'' (Inr hm_ex_reply)) \<and>
   ExtendVoteHandler hm_ex_lib2 ''http'' (Inr hm_ex_reply) \<noteq> []"
proof -
  have ext: "ExtendVoteHandler hm_ex_lib2 ''http'' (Inr hm_ex_reply) = ''x''" by code_simp
  have reg: "RegisterChain ''gov'' ''gov'' hm_ex_chain kv_empty = (Inr (), snd (RegisterChain ''gov'' ''gov'' hm_ex_chain kv_empty))"
    by (simp add: RegisterChain_def HasRegisteredChain_def kv_has_def kv_simps)
  have uid: "ve_ChainUid hm_ex_data = rc_ChainUid hm_ex_chain" by code_simp
  have "\<not> VerifyVoteExtensionHandler hm_ex_lib2 (snd (RegisterChain ''gov'' ''gov'' hm_ex_chain kv_empty))
       (ExtendVoteHandler hm_ex_lib2 ''http'' (Inr hm_ex_reply))"
  proof (rule hm_gov_chain_unattestable [OF _ reg _ refl _ _ uid])
    show "MarshalVote hm_ex_lib2 d = Inr bz \<Longrightarrow> UnmarshalVote hm_ex_lib2 bz = Inr d" for d bz
      by (simp add: hm_ex_lib2_def split: if_splits)
    show "kv_get kv_empty (oracleSourcesKey (rc_ChainUid hm_ex_chain)) = None" by (simp add: kv_simps)
    show "ExtendVoteHandler hm_ex_lib2 ''http'' (Inr hm_ex_reply) \<noteq> []" by (simp add: ext)
    show "UnmarshalVote hm_ex_lib2 (ExtendVoteHandler hm_ex_lib2 ''http'' (Inr hm_ex_reply)) = Inr hm_ex_data"
      unfolding ext by (simp add: hm_ex_lib2_def)
  qed
  with ext show ?thesis by simp
qed

end
