(* ===== verification/Authenticators.thy ===== *)
theory Authenticators
  imports Sdk KVStore Gas
begin

text \<open>
  The authenticators of \<open>x/smart-account\<close> (\<open>authenticator/\<close>): the manager that knows the registered
  types, the four native authenticators, the contract authenticator, and the composites \<open>AllOf\<close> and
  \<open>AnyOf\<close>.  A value of the Go interface is a value of the datatype \<open>authenticator\<close>, an initialised
  composite is a tree; the library code the authenticators call is the record \<open>auth_env\<close>.
\<close>

section \<open>Requests\<close>

datatype SignatureAssignment = Single | Partitioned

record LocalAny =
  la_TypeURL :: string
  la_Value :: string

record SignModeData =
  smd_Direct :: string
  smd_Textual :: string

record SimplifiedSignatureData =
  ssd_Signers :: "string list"
  ssd_Signatures :: "string list"

record ExplicitTxData =
  td_ChainID :: string
  td_AccountNumber :: u64
  td_AccountSequence :: u64
  td_TimeoutHeight :: u64
  td_Msgs :: "LocalAny list"
  td_Memo :: string

record AuthenticationRequest =
  AuthenticatorId :: string
  Account :: string
  FeePayer :: string
  FeeGranter :: string
  Fee :: Coins
  Msg :: LocalAny
  MsgIndex :: u64
  Signature :: string
  SignModeTxData :: SignModeData
  TxData :: ExplicitTxData
  SignatureData :: SimplifiedSignatureData
  Simulate :: bool
  AuthenticatorParams :: string

record TrackRequest =
  tr_AuthenticatorId :: string
  tr_Account :: string
  tr_FeePayer :: string
  tr_FeeGranter :: string
  tr_Fee :: Coins
  tr_Msg :: LocalAny
  tr_MsgIndex :: u64
  tr_AuthenticatorParams :: string

record ConfirmExecutionRequest =
  cr_AuthenticatorId :: string
  cr_Account :: string
  cr_FeePayer :: string
  cr_FeeGranter :: string
  cr_Fee :: Coins
  cr_Msg :: LocalAny
  cr_MsgIndex :: u64
  cr_AuthenticatorParams :: string

record OnAuthenticatorAddedRequest =
  ar_Account :: string
  ar_AuthenticatorParams :: string
  ar_AuthenticatorId :: string

record OnAuthenticatorRemovedRequest =
  rr_Account :: string
  rr_AuthenticatorParams :: string
  rr_AuthenticatorId :: string

text \<open>The message a contract authenticator receives; exactly one field of the Go struct is set.\<close>

datatype CwaSudoMsg =
    SudoOnAuthenticatorAdded OnAuthenticatorAddedRequest
  | SudoOnAuthenticatorRemoved OnAuthenticatorRemovedRequest
  | SudoAuthenticate AuthenticationRequest
  | SudoTrack TrackRequest
  | SudoConfirmExecution ConfirmExecutionRequest

section \<open>Configurations\<close>

record SubAuthenticatorInitData =
  sid_Type :: string
  sid_Config :: string

record CosmwasmAuthenticatorInitData =
  cwi_Contract :: string
  cwi_Params :: string

record ZkProofAuthenticatorConfig =
  zc_ZkID :: u64
  zc_PILayout :: string
  zc_StaticGas :: u64
  zc_RequirePin :: bool
  zc_MaxProofBytes :: u64

record ZkProofAuthPayload =
  zp_Proof :: string
  zp_Instances :: string
  zp_CircuitKeyHint :: string

text \<open>
  What \<open>json.Unmarshal\<close> puts into an \<open>interface{}\<close>.  An object is a Go map: a list of pairs with
  distinct keys, whose order carries no meaning.
\<close>

datatype json =
    JNull
  | JBool bool
  | JNumber string
  | JString string
  | JArray "json list"
  | JObject "(string \<times> json) list"

text \<open>A value is well formed when no object has a key twice, as for the maps of Go.\<close>

fun json_wf :: "json \<Rightarrow> bool" where
  "json_wf (JObject av) = (distinct (map fst av) \<and> list_all (\<lambda>(_, v). json_wf v) av)"
| "json_wf (JArray av) = list_all json_wf av"
| "json_wf _ = True"

section \<open>The authenticators\<close>

type_synonym ('s, 'g) PathAVerifier =
  "('s, 'g) gctx \<Rightarrow> u64 \<Rightarrow> string \<Rightarrow> string \<Rightarrow> unit res \<times> ('s, 'g) gctx"

datatype ('s, 'g) authenticator =
    SignatureVerification "string option"
  | MessageFilter string
  | CosmwasmAuthenticator string string
  | ZkProofAuthenticatorV1 ZkProofAuthenticatorConfig "('s, 'g) PathAVerifier option"
  | AllOf SignatureAssignment "('s, 'g) authenticator list"
  | AnyOf SignatureAssignment "('s, 'g) authenticator list"

text \<open>
  The library code: the gas meter, the signature scheme, the interface registry with its codec,
  the decimal parser, \<open>encoding/json\<close> at each type the authenticators decode, and the contracts.
\<close>

record ('s, 'g) auth_env =
  GasLib :: "'g gas_ops"
  SigVerifyCostSecp256k1 :: "'s \<Rightarrow> u64"
  VerifySignature :: "string \<Rightarrow> string \<Rightarrow> string \<Rightarrow> bool"
  ResolveMsg :: "string \<Rightarrow> string res"
  UnmarshalMsg :: "string \<Rightarrow> string \<Rightarrow> string res"
  MarshalInterfaceJSON :: "string \<Rightarrow> string res"
  NewDecFromStr :: "string \<Rightarrow> int option"
  JsonInitDatas :: "string \<Rightarrow> SubAuthenticatorInitData list res"
  JsonSignatures :: "string \<Rightarrow> string list res"
  JsonRaw :: "string \<Rightarrow> unit res"
  JsonValue :: "string \<Rightarrow> json res"
  JsonObjectOnly :: "string \<Rightarrow> unit res"
  JsonCwInit :: "string \<Rightarrow> CosmwasmAuthenticatorInitData res"
  JsonZkConfig :: "string \<Rightarrow> ZkProofAuthenticatorConfig res"
  JsonZkPayload :: "string \<Rightarrow> ZkProofAuthPayload res"
  MarshalSudo :: "CwaSudoMsg \<Rightarrow> string res"
  ContractSudo :: "string \<Rightarrow> string \<Rightarrow> ('s, 'g) gctx \<Rightarrow> string res \<times> ('s, 'g) gctx"
  GlobalPathAVerifier :: "('s, 'g) PathAVerifier option"
  IsReCheckTx :: bool

definition ConsumeCtx :: "('s, 'g) auth_env \<Rightarrow> u64 \<Rightarrow> ('s, 'g) gctx \<Rightarrow> unit res \<times> ('s, 'g) gctx" where
  "ConsumeCtx E n ctx = (let (r, m) = MeterConsume (GasLib E) n (meter ctx) in (r, ctx\<lparr>meter := m\<rparr>))"

definition SignatureVerificationType :: string where
  "SignatureVerificationType = ''SignatureVerification''"

definition ZkProofAuthenticatorType :: string where
  "ZkProofAuthenticatorType = ''ZkProofAuthenticatorV1''"

definition DefaultZkProofStaticGas :: u64 where "DefaultZkProofStaticGas = 100000"

text \<open>\<open>secp256k1.PubKeySize\<close> of the SDK: a compressed point.\<close>

definition PubKeySize :: nat where "PubKeySize = 33"

fun auth_Type :: "('s, 'g) authenticator \<Rightarrow> string" where
  "auth_Type (SignatureVerification _) = SignatureVerificationType"
| "auth_Type (MessageFilter _) = ''MessageFilter''"
| "auth_Type (CosmwasmAuthenticator _ _) = ''CosmwasmAuthenticatorV1''"
| "auth_Type (ZkProofAuthenticatorV1 _ _) = ZkProofAuthenticatorType"
| "auth_Type (AllOf sa _) = (if sa = Single then ''AllOf'' else ''PartitionedAllOf'')"
| "auth_Type (AnyOf sa _) = (if sa = Single then ''AnyOf'' else ''PartitionedAnyOf'')"

definition ZkProof_StaticGas :: "ZkProofAuthenticatorConfig \<Rightarrow> u64" where
  "ZkProof_StaticGas cfg = (if zc_StaticGas cfg = 0 then DefaultZkProofStaticGas else zc_StaticGas cfg)"

fun StaticGas :: "('s, 'g) authenticator \<Rightarrow> u64" where
  "StaticGas (SignatureVerification _) = 0"
| "StaticGas (MessageFilter _) = 0"
| "StaticGas (CosmwasmAuthenticator _ _) = 0"
| "StaticGas (ZkProofAuthenticatorV1 cfg _) = ZkProof_StaticGas cfg"
| "StaticGas (AllOf _ subs) = foldl (\<lambda>totalGas auth. totalGas + StaticGas auth) 0 subs"
| "StaticGas (AnyOf _ subs) = foldl (\<lambda>totalGas auth. totalGas + StaticGas auth) 0 subs"

text \<open>The templates that the constructors of the package build.\<close>

definition ZeroZkConfig :: ZkProofAuthenticatorConfig where
  "ZeroZkConfig = \<lparr>zc_ZkID = 0, zc_PILayout = [], zc_StaticGas = 0, zc_RequirePin = False, zc_MaxProofBytes = 0\<rparr>"

definition NewSignatureVerification :: "('s, 'g) authenticator" where
  "NewSignatureVerification = SignatureVerification None"

definition NewMessageFilter :: "('s, 'g) authenticator" where "NewMessageFilter = MessageFilter []"

definition NewCosmwasmAuthenticator :: "('s, 'g) authenticator" where
  "NewCosmwasmAuthenticator = CosmwasmAuthenticator [] []"

definition NewZkProofAuthenticatorV1 :: "('s, 'g) authenticator" where
  "NewZkProofAuthenticatorV1 = ZkProofAuthenticatorV1 ZeroZkConfig None"

definition NewZkProofAuthenticatorV1WithVerifier :: "('s, 'g) PathAVerifier \<Rightarrow> ('s, 'g) authenticator" where
  "NewZkProofAuthenticatorV1WithVerifier v = ZkProofAuthenticatorV1 ZeroZkConfig (Some v)"

definition NewAllOf :: "('s, 'g) authenticator" where "NewAllOf = AllOf Single []"
definition NewPartitionedAllOf :: "('s, 'g) authenticator" where "NewPartitionedAllOf = AllOf Partitioned []"
definition NewAnyOf :: "('s, 'g) authenticator" where "NewAnyOf = AnyOf Single []"
definition NewPartitionedAnyOf :: "('s, 'g) authenticator" where "NewPartitionedAnyOf = AnyOf Partitioned []"

section \<open>The manager\<close>

record ('s, 'g) AuthenticatorManager =
  registeredAuthenticators :: "('s, 'g) authenticator kv"
  orderedKeys :: "string list"

definition NewAuthenticatorManager :: "('s, 'g) AuthenticatorManager" where
  "NewAuthenticatorManager = \<lparr>registeredAuthenticators = kv_empty, orderedKeys = []\<rparr>"

definition ResetAuthenticators :: "('s, 'g) AuthenticatorManager \<Rightarrow> ('s, 'g) AuthenticatorManager" where
  "ResetAuthenticators am = am\<lparr>registeredAuthenticators := kv_empty, orderedKeys := []\<rparr>"

definition InitializeAuthenticators ::
  "('s, 'g) authenticator list \<Rightarrow> ('s, 'g) AuthenticatorManager \<Rightarrow> ('s, 'g) AuthenticatorManager" where
  "InitializeAuthenticators initial am =
     (if 0 < length (registeredAuthenticators am) then am
      else am\<lparr>registeredAuthenticators := foldl (\<lambda>m a. kv_set (auth_Type a) a m) (registeredAuthenticators am) initial,
              orderedKeys := sort (orderedKeys am @ map auth_Type initial)\<rparr>)"

definition RegisterAuthenticator ::
  "('s, 'g) authenticator \<Rightarrow> ('s, 'g) AuthenticatorManager \<Rightarrow> ('s, 'g) AuthenticatorManager" where
  "RegisterAuthenticator a am =
     (let am1 = (if kv_has (registeredAuthenticators am) (auth_Type a) then am
                 else am\<lparr>orderedKeys := sort (orderedKeys am @ [auth_Type a])\<rparr>)
      in am1\<lparr>registeredAuthenticators := kv_set (auth_Type a) a (registeredAuthenticators am1)\<rparr>)"

definition UnregisterAuthenticator ::
  "('s, 'g) authenticator \<Rightarrow> ('s, 'g) AuthenticatorManager \<Rightarrow> ('s, 'g) AuthenticatorManager" where
  "UnregisterAuthenticator a am =
     (if kv_has (registeredAuthenticators am) (auth_Type a)
      then am\<lparr>registeredAuthenticators := kv_del (auth_Type a) (registeredAuthenticators am),
              orderedKeys := remove1 (auth_Type a) (orderedKeys am)\<rparr>
      else am)"

text \<open>A key without an entry would give the nil authenticator, here \<open>None\<close>.\<close>

definition GetRegisteredAuthenticators :: "('s, 'g) AuthenticatorManager \<Rightarrow> ('s, 'g) authenticator option list" where
  "GetRegisteredAuthenticators am = map (kv_get (registeredAuthenticators am)) (orderedKeys am)"

definition IsAuthenticatorTypeRegistered :: "('s, 'g) AuthenticatorManager \<Rightarrow> string \<Rightarrow> bool" where
  "IsAuthenticatorTypeRegistered am ty = kv_has (registeredAuthenticators am) ty"

definition GetAuthenticatorByType :: "('s, 'g) AuthenticatorManager \<Rightarrow> string \<Rightarrow> ('s, 'g) authenticator option" where
  "GetAuthenticatorByType am ty = kv_get (registeredAuthenticators am) ty"

text \<open>The manager of the application.\<close>

definition app_authenticators :: "('s, 'g) AuthenticatorManager" where
  "app_authenticators =
     RegisterAuthenticator NewCosmwasmAuthenticator
       (InitializeAuthenticators [NewSignatureVerification, NewMessageFilter, NewAllOf, NewAnyOf,
          NewPartitionedAnyOf, NewPartitionedAllOf] NewAuthenticatorManager)"

section \<open>Signature verification\<close>

definition SignatureVerification_Authenticate ::
  "('s, 'g) auth_env \<Rightarrow> string option \<Rightarrow> AuthenticationRequest \<Rightarrow> ('s, 'g) gctx \<Rightarrow> unit res \<times> ('s, 'g) gctx" where
  "SignatureVerification_Authenticate E PubKey request ctx =
     (case ConsumeCtx E (SigVerifyCostSecp256k1 E (gstore ctx)) ctx of
        (Inl p, ctx1) \<Rightarrow> (Inl p, ctx1)
      | (Inr _, ctx1) \<Rightarrow>
          if Simulate request \<or> IsReCheckTx E then (Inr (), ctx1)
          else case PubKey of
            None \<Rightarrow> (Inl ErrInvalidPubKey, ctx1)
          | Some key \<Rightarrow>
              if \<not> VerifySignature E key (smd_Direct (SignModeTxData request)) (Signature request)
              then (Inl ErrUnauthorized, ctx1)
              else (Inr (), ctx1))"

text \<open>A configuration of the wrong size sets the key to nil, and the next statement sets it again.\<close>

definition SignatureVerification_Initialize :: "string option \<Rightarrow> string \<Rightarrow> ('s, 'g) authenticator res" where
  "SignatureVerification_Initialize PubKey config =
     (let PubKey1 = (if length config \<noteq> PubKeySize then None else PubKey);
          PubKey2 = Some config
      in Inr (SignatureVerification PubKey2))"

definition SignatureVerification_OnAuthenticatorAdded :: "string \<Rightarrow> unit res" where
  "SignatureVerification_OnAuthenticatorAdded config =
     (if length config \<noteq> PubKeySize then Inl (Plain ''invalid secp256k1 public key size'') else Inr ())"

section \<open>The message filter\<close>

fun checkForFloats :: "json \<Rightarrow> bool" where
  "checkForFloats (JObject vv) = list_ex (\<lambda>(_, val). checkForFloats val) vv"
| "checkForFloats (JArray vv) = list_ex checkForFloats vv"
| "checkForFloats (JNumber _) = True"
| "checkForFloats _ = False"

definition containsFloats :: "('s, 'g) auth_env \<Rightarrow> string \<Rightarrow> bool res" where
  "containsFloats E data = (case JsonValue E data of Inl e \<Rightarrow> Inl e | Inr v \<Rightarrow> Inr (checkForFloats v))"

text \<open>Two strings match when they are equal; strings that read as numbers are first compared as such.\<close>

definition match_strings :: "('s, 'g) auth_env \<Rightarrow> string \<Rightarrow> string \<Rightarrow> unit res" where
  "match_strings E av bv =
     (case (NewDecFromStr E av, NewDecFromStr E bv) of
        (Some decA, Some decB) \<Rightarrow>
          if decA \<noteq> decB then Inl (Plain ''numbers do not match'')
          else if av \<noteq> bv then Inl (Plain ''strings do not match'') else Inr ()
      | _ \<Rightarrow> if av \<noteq> bv then Inl (Plain ''strings do not match'') else Inr ())"

text \<open>
  The keys of an object are visited in sorted order; a slice is compared by position and may be
  shorter than the one it is compared with.
\<close>

function (sequential) isSuperset :: "('s, 'g) auth_env \<Rightarrow> json \<Rightarrow> json \<Rightarrow> unit res"
  and superset_keys :: "('s, 'g) auth_env \<Rightarrow> (string \<times> json) list \<Rightarrow> (string \<times> json) list \<Rightarrow> string list \<Rightarrow> unit res"
  and superset_slices :: "('s, 'g) auth_env \<Rightarrow> json list \<Rightarrow> json list \<Rightarrow> unit res" where
  "isSuperset E (JObject av) b =
     (case b of
        JObject bv \<Rightarrow> superset_keys E av bv (sort (map fst av))
      | _ \<Rightarrow> Inl (Plain ''expected map''))"
| "isSuperset E (JArray av) b =
     (case b of
        JArray bv \<Rightarrow>
          if length bv < length av then Inl (Plain ''first slice has more elements than second slice'')
          else superset_slices E av bv
      | _ \<Rightarrow> Inl (Plain ''expected slice''))"
| "isSuperset E (JString av) b =
     (case b of JString bv \<Rightarrow> match_strings E av bv | _ \<Rightarrow> Inl (Plain ''expected string''))"
| "isSuperset E (JBool av) b =
     (case b of
        JBool bv \<Rightarrow> if av = bv then Inr () else Inl (Plain ''booleans do not match or wrong type'')
      | _ \<Rightarrow> Inl (Plain ''booleans do not match or wrong type''))"
| "isSuperset E JNull b = (if b = JNull then Inr () else Inl (Plain ''expected null''))"
| "isSuperset E (JNumber n) b = Inl (Plain ''numbers encoded as floats are not allowed'')"
| "superset_keys E av bv [] = Inr ()"
| "superset_keys E av bv (key # keys) =
     (case map_of av key of
        None \<Rightarrow> superset_keys E av bv keys
      | Some valA \<Rightarrow>
         (case map_of bv key of
            None \<Rightarrow> Inl (Plain ''key missing from second map'')
          | Some valB \<Rightarrow>
             (case isSuperset E valA valB of Inl e \<Rightarrow> Inl e | Inr _ \<Rightarrow> superset_keys E av bv keys)))"
| "superset_slices E (valA # av) (valB # bv) =
     (case isSuperset E valA valB of Inl e \<Rightarrow> Inl e | Inr _ \<Rightarrow> superset_slices E av bv)"
| "superset_slices E _ _ = Inr ()"
  by pat_completeness auto

lemma map_of_size_less:
  assumes "map_of av k = Some v"
  shows "size (v :: json) < Suc (size_list (size_prod (\<lambda>x. 0) size) av)"
proof -
  have mem: "(k, v) \<in> set av" using assms by (rule map_of_SomeD)
  have "size_prod (\<lambda>x. 0) size (k, v) \<le> size_list (size_prod (\<lambda>x. 0) size) av"
    by (rule size_list_estimation' [OF mem]) simp
  then show ?thesis by simp
qed

termination isSuperset
  by (relation "measures [
        (\<lambda>x. case x of Inl (E, a, b) \<Rightarrow> size a
                     | Inr (Inl (E, av, bv, ks)) \<Rightarrow> size_list (size_prod (\<lambda>x. 0) size) av
                     | Inr (Inr (E, av, bv)) \<Rightarrow> size_list size av),
        (\<lambda>x. case x of Inl _ \<Rightarrow> 0 | Inr (Inl (E, av, bv, ks)) \<Rightarrow> Suc (length ks) | Inr (Inr (E, av, bv)) \<Rightarrow> Suc (length av))]")
     (auto dest: map_of_size_less)

definition IsJsonSuperset :: "('s, 'g) auth_env \<Rightarrow> string \<Rightarrow> string \<Rightarrow> unit res" where
  "IsJsonSuperset E a b =
     (case JsonValue E a of
        Inl e \<Rightarrow> Inl (Plain ''error unmarshaling first JSON'')
      | Inr av \<Rightarrow>
     (case JsonValue E b of
        Inl e \<Rightarrow> Inl (Plain ''error unmarshaling second JSON'')
      | Inr bv \<Rightarrow> isSuperset E av bv))"

definition MessageFilter_Initialize :: "('s, 'g) auth_env \<Rightarrow> string \<Rightarrow> ('s, 'g) authenticator res" where
  "MessageFilter_Initialize E config =
     (case JsonRaw E config of Inl e \<Rightarrow> Inl e | Inr _ \<Rightarrow> Inr (MessageFilter config))"

definition MessageFilter_Authenticate :: "('s, 'g) auth_env \<Rightarrow> string \<Rightarrow> AuthenticationRequest \<Rightarrow> unit res" where
  "MessageFilter_Authenticate E pattern request =
     (case ResolveMsg E (la_TypeURL (Msg request)) of
        Inl e \<Rightarrow> Inl e
      | Inr protoResponseType \<Rightarrow>
     (case UnmarshalMsg E (la_Value (Msg request)) protoResponseType of
        Inl e \<Rightarrow> Inl e
      | Inr concrete \<Rightarrow>
     (case MarshalInterfaceJSON E concrete of
        Inl e \<Rightarrow> Inl e
      | Inr jsonBz \<Rightarrow> IsJsonSuperset E pattern jsonBz)))"

definition MessageFilter_OnAuthenticatorAdded :: "('s, 'g) auth_env \<Rightarrow> string \<Rightarrow> unit res" where
  "MessageFilter_OnAuthenticatorAdded E config =
     (case JsonRaw E config of
        Inl e \<Rightarrow> Inl e
      | Inr _ \<Rightarrow>
     (case containsFloats E config of
        Inl e \<Rightarrow> Inl e
      | Inr hasFloats \<Rightarrow>
          if hasFloats then Inl (Plain ''Numbers should be encoded as strings'') else Inr ()))"

section \<open>The contract authenticator\<close>

definition parseInitData :: "'w sdk \<Rightarrow> ('s, 'g) auth_env \<Rightarrow> string \<Rightarrow> (string \<times> string) res" where
  "parseInitData S E data =
     (case JsonCwInit E data of
        Inl e \<Rightarrow> Inl e
      | Inr initData \<Rightarrow>
          if length (cwi_Contract initData) = 0 then Inl ErrInvalidRequest
          else case AccAddressFromBech32 S (cwi_Contract initData) of
            Inl e \<Rightarrow> Inl e
          | Inr contractAddr \<Rightarrow>
              if length (cwi_Params initData) = 0 then Inr (contractAddr, [])
              else case JsonObjectOnly E (cwi_Params initData) of
                Inl e \<Rightarrow> Inl e
              | Inr _ \<Rightarrow> Inr (contractAddr, cwi_Params initData))"

definition Cosmwasm_Initialize :: "'w sdk \<Rightarrow> ('s, 'g) auth_env \<Rightarrow> string \<Rightarrow> ('s, 'g) authenticator res" where
  "Cosmwasm_Initialize S E config =
     (case parseInitData S E config of
        Inl e \<Rightarrow> Inl e
      | Inr (contractAddr, params) \<Rightarrow> Inr (CosmwasmAuthenticator contractAddr params))"

text \<open>Marshal a message and run the contract on it; the bytes the contract returns are dropped.\<close>

definition sudo_with :: "('s, 'g) auth_env \<Rightarrow> (error \<Rightarrow> error) \<Rightarrow> string \<Rightarrow> CwaSudoMsg \<Rightarrow> ('s, 'g) gctx \<Rightarrow> unit res \<times> ('s, 'g) gctx" where
  "sudo_with E wrap contractAddr msg ctx =
     (case MarshalSudo E msg of
        Inl e \<Rightarrow> (Inl (wrap e), ctx)
      | Inr bz \<Rightarrow>
     (case ContractSudo E contractAddr bz ctx of
        (Inl e, ctx1) \<Rightarrow> (Inl e, ctx1)
      | (Inr _, ctx1) \<Rightarrow> (Inr (), ctx1)))"

definition Cosmwasm_Authenticate ::
  "('s, 'g) auth_env \<Rightarrow> string \<Rightarrow> string \<Rightarrow> AuthenticationRequest \<Rightarrow> ('s, 'g) gctx \<Rightarrow> unit res \<times> ('s, 'g) gctx" where
  "Cosmwasm_Authenticate E contractAddr params request ctx =
     sudo_with E (\<lambda>e. e) contractAddr (SudoAuthenticate (request\<lparr>AuthenticatorParams := params\<rparr>)) ctx"

definition Cosmwasm_Track ::
  "('s, 'g) auth_env \<Rightarrow> string \<Rightarrow> string \<Rightarrow> AuthenticationRequest \<Rightarrow> ('s, 'g) gctx \<Rightarrow> unit res \<times> ('s, 'g) gctx" where
  "Cosmwasm_Track E contractAddr params request ctx =
     sudo_with E (\<lambda>_. ErrInvalidRequest) contractAddr (SudoTrack
       \<lparr>tr_AuthenticatorId = AuthenticatorId request, tr_Account = Account request, tr_FeePayer = FeePayer request,
        tr_FeeGranter = FeeGranter request, tr_Fee = Fee request, tr_Msg = Msg request, tr_MsgIndex = MsgIndex request,
        tr_AuthenticatorParams = params\<rparr>) ctx"

definition Cosmwasm_ConfirmExecution ::
  "('s, 'g) auth_env \<Rightarrow> string \<Rightarrow> string \<Rightarrow> AuthenticationRequest \<Rightarrow> ('s, 'g) gctx \<Rightarrow> unit res \<times> ('s, 'g) gctx" where
  "Cosmwasm_ConfirmExecution E contractAddr params request ctx =
     sudo_with E (\<lambda>e. e) contractAddr (SudoConfirmExecution
       \<lparr>cr_AuthenticatorId = AuthenticatorId request, cr_Account = Account request, cr_FeePayer = FeePayer request,
        cr_FeeGranter = FeeGranter request, cr_Fee = Fee request, cr_Msg = Msg request, cr_MsgIndex = MsgIndex request,
        cr_AuthenticatorParams = params\<rparr>) ctx"

definition Cosmwasm_OnAuthenticatorAdded ::
  "'w sdk \<Rightarrow> ('s, 'g) auth_env \<Rightarrow> string \<Rightarrow> string \<Rightarrow> string \<Rightarrow> ('s, 'g) gctx \<Rightarrow> unit res \<times> ('s, 'g) gctx" where
  "Cosmwasm_OnAuthenticatorAdded S E account config authenticatorId ctx =
     (case parseInitData S E config of
        Inl e \<Rightarrow> (Inl e, ctx)
      | Inr (contractAddr, params) \<Rightarrow>
          sudo_with E (\<lambda>_. ErrInvalidRequest) contractAddr (SudoOnAuthenticatorAdded
            \<lparr>ar_Account = account, ar_AuthenticatorParams = params, ar_AuthenticatorId = authenticatorId\<rparr>) ctx)"

definition Cosmwasm_OnAuthenticatorRemoved ::
  "'w sdk \<Rightarrow> ('s, 'g) auth_env \<Rightarrow> string \<Rightarrow> string \<Rightarrow> string \<Rightarrow> ('s, 'g) gctx \<Rightarrow> unit res \<times> ('s, 'g) gctx" where
  "Cosmwasm_OnAuthenticatorRemoved S E account config authenticatorId ctx =
     (case parseInitData S E config of
        Inl e \<Rightarrow> (Inl e, ctx)
      | Inr (contractAddr, params) \<Rightarrow>
          sudo_with E (\<lambda>_. ErrInvalidRequest) contractAddr (SudoOnAuthenticatorRemoved
            \<lparr>rr_Account = account, rr_AuthenticatorParams = params, rr_AuthenticatorId = authenticatorId\<rparr>) ctx)"

section \<open>The proof authenticator\<close>

definition ParseZkProofAuthenticatorConfig ::
  "('s, 'g) auth_env \<Rightarrow> string \<Rightarrow> ZkProofAuthenticatorConfig res" where
  "ParseZkProofAuthenticatorConfig E config =
     (if length config = 0 then Inl ErrInvalidRequest
      else case JsonZkConfig E config of
        Inl e \<Rightarrow> Inl e
      | Inr cfg \<Rightarrow>
          if zc_ZkID cfg = 0 then Inl ErrInvalidRequest
          else if zc_MaxProofBytes cfg = 0 then Inr (cfg\<lparr>zc_MaxProofBytes := 65536\<rparr>)
          else Inr cfg)"

definition ParseZkProofAuthPayload :: "('s, 'g) auth_env \<Rightarrow> string \<Rightarrow> ZkProofAuthPayload res" where
  "ParseZkProofAuthPayload E raw =
     (if length raw = 0 then Inl ErrInvalidRequest
      else case JsonZkPayload E raw of
        Inl e \<Rightarrow> Inl e
      | Inr p \<Rightarrow>
          if length (zp_Proof p) = 0 then Inl ErrInvalidRequest
          else if length (zp_Instances p) = 0 then Inl ErrInvalidRequest
          else Inr p)"

definition ZkProof_Initialize ::
  "('s, 'g) auth_env \<Rightarrow> ('s, 'g) PathAVerifier option \<Rightarrow> string \<Rightarrow> ('s, 'g) authenticator res" where
  "ZkProof_Initialize E verifier config =
     (case ParseZkProofAuthenticatorConfig E config of
        Inl e \<Rightarrow> Inl e
      | Inr cfg \<Rightarrow> Inr (ZkProofAuthenticatorV1 cfg verifier))"

text \<open>Gas first, then nothing on a simulation or a recheck, then the payload and the verifier.\<close>

definition ZkProof_verify ::
  "('s, 'g) auth_env \<Rightarrow> ZkProofAuthenticatorConfig \<Rightarrow> ('s, 'g) PathAVerifier option \<Rightarrow> AuthenticationRequest \<Rightarrow>
   ('s, 'g) gctx \<Rightarrow> unit res \<times> ('s, 'g) gctx" where
  "ZkProof_verify E cfg verifier request ctx =
     (if Simulate request \<or> IsReCheckTx E then (Inr (), ctx)
      else case ParseZkProofAuthPayload E (Signature request) of
        Inl e \<Rightarrow> (Inl e, ctx)
      | Inr payload \<Rightarrow>
          if unat (zc_MaxProofBytes cfg) < length (zp_Proof payload) then (Inl ErrInvalidRequest, ctx)
          else case (case verifier of None \<Rightarrow> GlobalPathAVerifier E | Some v \<Rightarrow> Some v) of
            None \<Rightarrow> (Inl ErrUnauthorized, ctx)
          | Some v \<Rightarrow>
             (case v ctx (zc_ZkID cfg) (zp_Proof payload) (zp_Instances payload) of
                (Inl (Panicked p), ctx1) \<Rightarrow> (Inl (Panicked p), ctx1)
              | (Inl e, ctx1) \<Rightarrow> (Inl ErrUnauthorized, ctx1)
              | (Inr _, ctx1) \<Rightarrow> (Inr (), ctx1)))"

definition ZkProof_Authenticate ::
  "('s, 'g) auth_env \<Rightarrow> ZkProofAuthenticatorConfig \<Rightarrow> ('s, 'g) PathAVerifier option \<Rightarrow> AuthenticationRequest \<Rightarrow>
   ('s, 'g) gctx \<Rightarrow> unit res \<times> ('s, 'g) gctx" where
  "ZkProof_Authenticate E cfg verifier request ctx =
     (let gas = ZkProof_StaticGas cfg
      in if 0 < gas
         then (case ConsumeCtx E gas ctx of
                 (Inl p, ctx1) \<Rightarrow> (Inl p, ctx1)
               | (Inr _, ctx1) \<Rightarrow> ZkProof_verify E cfg verifier request ctx1)
         else ZkProof_verify E cfg verifier request ctx)"

section \<open>Composites\<close>

definition compositeId :: "string \<Rightarrow> nat \<Rightarrow> string" where
  "compositeId baseId subId = baseId @ ''.'' @ go_itoa (int subId)"

definition splitSignatures :: "('s, 'g) auth_env \<Rightarrow> string \<Rightarrow> nat \<Rightarrow> string list res" where
  "splitSignatures E signature cnt =
     (case JsonSignatures E signature of
        Inl e \<Rightarrow> Inl ErrInvalidRequest
      | Inr signatures \<Rightarrow> if length signatures \<noteq> cnt then Inl ErrInvalidRequest else Inr signatures)"

text \<open>The signatures of a request for a composite: split only when they are partitioned.\<close>

definition request_signatures ::
  "('s, 'g) auth_env \<Rightarrow> SignatureAssignment \<Rightarrow> AuthenticationRequest \<Rightarrow> nat \<Rightarrow> string list res" where
  "request_signatures E sa request cnt =
     (if sa = Partitioned then splitSignatures E (Signature request) cnt else Inr [])"

text \<open>The request for the sub-authenticator at an index.\<close>

definition sub_request ::
  "SignatureAssignment \<Rightarrow> string list \<Rightarrow> string \<Rightarrow> nat \<Rightarrow> AuthenticationRequest \<Rightarrow> AuthenticationRequest" where
  "sub_request sa signatures baseId i request =
     (let request1 = request\<lparr>AuthenticatorId := compositeId baseId i\<rparr>
      in if sa = Partitioned then request1\<lparr>Signature := signatures ! i\<rparr> else request1)"

text \<open>The loops of the composites, over the operations of the parts.\<close>

type_synonym ('s, 'g) auth_op = "AuthenticationRequest \<Rightarrow> ('s, 'g) gctx \<Rightarrow> unit res \<times> ('s, 'g) gctx"

fun allOf_loop ::
  "('s, 'g) auth_op list \<Rightarrow> SignatureAssignment \<Rightarrow> string list \<Rightarrow> string \<Rightarrow> nat \<Rightarrow> ('s, 'g) auth_op" where
  "allOf_loop [] sa signatures baseId i request ctx = (Inr (), ctx)"
| "allOf_loop (auth # auths) sa signatures baseId i request ctx =
     (let request1 = sub_request sa signatures baseId i request
      in case auth request1 ctx of
           (Inl e, ctx1) \<Rightarrow> (Inl e, ctx1)
         | (Inr _, ctx1) \<Rightarrow> allOf_loop auths sa signatures baseId (i + 1) request1 ctx1)"

fun anyOf_authenticate ::
  "('s, 'g) auth_op list \<Rightarrow> SignatureAssignment \<Rightarrow> string list \<Rightarrow> string \<Rightarrow> nat \<Rightarrow> ('s, 'g) auth_op" where
  "anyOf_authenticate [] sa signatures baseId i request ctx = (Inl ErrUnauthorized, ctx)"
| "anyOf_authenticate (auth # auths) sa signatures baseId i request ctx =
     (let request1 = sub_request sa signatures baseId i request;
          (r, ctx1) = auth request1 ctx
      in if is_ok r \<or> is_panic r then (r, ctx1)
         else anyOf_authenticate auths sa signatures baseId (i + 1) request1 ctx1)"

definition AllOf_Authenticate ::
  "('s, 'g) auth_env \<Rightarrow> SignatureAssignment \<Rightarrow> ('s, 'g) auth_op list \<Rightarrow> ('s, 'g) auth_op" where
  "AllOf_Authenticate E sa subs request ctx =
     (if length subs = 0 then (Inl ErrInvalidRequest, ctx)
      else case request_signatures E sa request (length subs) of
        Inl e \<Rightarrow> (Inl e, ctx)
      | Inr signatures \<Rightarrow> allOf_loop subs sa signatures (AuthenticatorId request) 0 request ctx)"

definition AnyOf_Authenticate ::
  "('s, 'g) auth_env \<Rightarrow> SignatureAssignment \<Rightarrow> ('s, 'g) auth_op list \<Rightarrow> ('s, 'g) auth_op" where
  "AnyOf_Authenticate E sa subs request ctx =
     (if length subs = 0 then (Inl ErrInvalidRequest, ctx)
      else case request_signatures E sa request (length subs) of
        Inl e \<Rightarrow> (Inl e, ctx)
      | Inr signatures \<Rightarrow> anyOf_authenticate subs sa signatures (AuthenticatorId request) 0 request ctx)"

primrec Authenticate :: "('s, 'g) auth_env \<Rightarrow> ('s, 'g) authenticator \<Rightarrow> ('s, 'g) auth_op" where
  "Authenticate E (SignatureVerification PubKey) = SignatureVerification_Authenticate E PubKey"
| "Authenticate E (MessageFilter pattern) = (\<lambda>request ctx. (MessageFilter_Authenticate E pattern request, ctx))"
| "Authenticate E (CosmwasmAuthenticator addr params) = Cosmwasm_Authenticate E addr params"
| "Authenticate E (ZkProofAuthenticatorV1 cfg v) = ZkProof_Authenticate E cfg v"
| "Authenticate E (AllOf sa subs) = AllOf_Authenticate E sa (map (Authenticate E) subs)"
| "Authenticate E (AnyOf sa subs) = AnyOf_Authenticate E sa (map (Authenticate E) subs)"

fun subTrack :: "('s, 'g) auth_op list \<Rightarrow> string \<Rightarrow> nat \<Rightarrow> ('s, 'g) auth_op" where
  "subTrack [] baseId i request ctx = (Inr (), ctx)"
| "subTrack (auth # auths) baseId i request ctx =
     (let request1 = request\<lparr>AuthenticatorId := compositeId baseId i\<rparr>
      in case auth request1 ctx of
           (Inl e, ctx1) \<Rightarrow> (Inl e, ctx1)
         | (Inr _, ctx1) \<Rightarrow> subTrack auths baseId (i + 1) request1 ctx1)"

primrec Track :: "('s, 'g) auth_env \<Rightarrow> ('s, 'g) authenticator \<Rightarrow> ('s, 'g) auth_op" where
  "Track E (SignatureVerification PubKey) = (\<lambda>request ctx. (Inr (), ctx))"
| "Track E (MessageFilter pattern) = (\<lambda>request ctx. (Inr (), ctx))"
| "Track E (CosmwasmAuthenticator addr params) = Cosmwasm_Track E addr params"
| "Track E (ZkProofAuthenticatorV1 cfg v) = (\<lambda>request ctx. (Inr (), ctx))"
| "Track E (AllOf sa subs) = (\<lambda>request. subTrack (map (Track E) subs) (AuthenticatorId request) 0 request)"
| "Track E (AnyOf sa subs) = (\<lambda>request. subTrack (map (Track E) subs) (AuthenticatorId request) 0 request)"

text \<open>
  A cache context has a store of its own and, as the SDK documents, an event manager of its own; the
  gas meter is shared.  Writing it back makes its store the context's and appends its events.
\<close>

definition CacheContext :: "('s, 'g) gctx \<Rightarrow> ('s, 'g) gctx" where
  "CacheContext ctx = ctx\<lparr>evs := []\<rparr>"

definition write_cache :: "('s, 'g) gctx \<Rightarrow> ('s, 'g) gctx \<Rightarrow> ('s, 'g) gctx" where
  "write_cache ctx cacheCtx = cacheCtx\<lparr>evs := evs ctx @ evs cacheCtx\<rparr>"

definition drop_cache :: "('s, 'g) gctx \<Rightarrow> ('s, 'g) gctx \<Rightarrow> ('s, 'g) gctx" where
  "drop_cache ctx cacheCtx = ctx\<lparr>meter := meter cacheCtx\<rparr>"

fun anyOf_confirm ::
  "('s, 'g) auth_op list \<Rightarrow> SignatureAssignment \<Rightarrow> string list \<Rightarrow> string \<Rightarrow> nat \<Rightarrow> ('s, 'g) auth_op" where
  "anyOf_confirm [] sa signatures baseId i request ctx = (Inl ErrUnauthorized, ctx)"
| "anyOf_confirm (auth # auths) sa signatures baseId i request ctx =
     (let request1 = sub_request sa signatures baseId i request;
          (r, cacheCtx) = auth request1 (CacheContext ctx)
      in if is_ok r then (Inr (), write_cache ctx cacheCtx)
         else if is_panic r then (r, drop_cache ctx cacheCtx)
         else anyOf_confirm auths sa signatures baseId (i + 1) request1 (drop_cache ctx cacheCtx))"

definition AllOf_ConfirmExecution ::
  "('s, 'g) auth_env \<Rightarrow> SignatureAssignment \<Rightarrow> ('s, 'g) auth_op list \<Rightarrow> ('s, 'g) auth_op" where
  "AllOf_ConfirmExecution E sa subs request ctx =
     (case request_signatures E sa request (length subs) of
        Inl e \<Rightarrow> (Inl e, ctx)
      | Inr signatures \<Rightarrow> allOf_loop subs sa signatures (AuthenticatorId request) 0 request ctx)"

definition AnyOf_ConfirmExecution ::
  "('s, 'g) auth_env \<Rightarrow> SignatureAssignment \<Rightarrow> ('s, 'g) auth_op list \<Rightarrow> ('s, 'g) auth_op" where
  "AnyOf_ConfirmExecution E sa subs request ctx =
     (case request_signatures E sa request (length subs) of
        Inl e \<Rightarrow> (Inl e, ctx)
      | Inr signatures \<Rightarrow> anyOf_confirm subs sa signatures (AuthenticatorId request) 0 request ctx)"

primrec ConfirmExecution :: "('s, 'g) auth_env \<Rightarrow> ('s, 'g) authenticator \<Rightarrow> ('s, 'g) auth_op" where
  "ConfirmExecution E (SignatureVerification PubKey) = (\<lambda>request ctx. (Inr (), ctx))"
| "ConfirmExecution E (MessageFilter pattern) = (\<lambda>request ctx. (Inr (), ctx))"
| "ConfirmExecution E (CosmwasmAuthenticator addr params) = Cosmwasm_ConfirmExecution E addr params"
| "ConfirmExecution E (ZkProofAuthenticatorV1 cfg v) = (\<lambda>request ctx. (Inr (), ctx))"
| "ConfirmExecution E (AllOf sa subs) = AllOf_ConfirmExecution E sa (map (ConfirmExecution E) subs)"
| "ConfirmExecution E (AnyOf sa subs) = AnyOf_ConfirmExecution E sa (map (ConfirmExecution E) subs)"

section \<open>Configuration of composites\<close>

text \<open>
  A composite decodes its configuration into the types and configurations of its parts, looks the
  types up in the manager and hands each part on.  The recursion follows the nesting of the encoded
  configurations, so it takes a bound on the depth; going past it is the stack overflow of Go.
\<close>

abbreviation StackOverflow :: error where "StackOverflow \<equiv> Panicked ''stack overflow''"
abbreviation NilDereference :: error where "NilDereference \<equiv> Panicked ''nil pointer dereference''"

fun init_each ::
  "(('s, 'g) authenticator \<Rightarrow> string \<Rightarrow> ('s, 'g) authenticator res) \<Rightarrow> ('s, 'g) AuthenticatorManager \<Rightarrow>
   SubAuthenticatorInitData list \<Rightarrow> ('s, 'g) authenticator list res" where
  "init_each init am [] = Inr []"
| "init_each init am (initData # initDatas) =
     (case GetAuthenticatorByType am (sid_Type initData) of
        None \<Rightarrow> Inl NilDereference
      | Some authenticatorCode \<Rightarrow>
     (case init authenticatorCode (sid_Config initData) of
        Inl e \<Rightarrow> Inl e
      | Inr inst \<Rightarrow>
     (case init_each init am initDatas of Inl e \<Rightarrow> Inl e | Inr insts \<Rightarrow> Inr (inst # insts))))"

definition Composite_Initialize ::
  "('s, 'g) auth_env \<Rightarrow> (('s, 'g) authenticator \<Rightarrow> string \<Rightarrow> ('s, 'g) authenticator res) \<Rightarrow>
   ('s, 'g) AuthenticatorManager \<Rightarrow> ('s, 'g) authenticator list \<Rightarrow> string \<Rightarrow> ('s, 'g) authenticator list res" where
  "Composite_Initialize E init am subs config =
     (case JsonInitDatas E config of
        Inl e \<Rightarrow> Inl e
      | Inr initDatas \<Rightarrow>
          if length initDatas \<le> 1 then Inl ErrInvalidRequest
          else case init_each init am initDatas of
            Inl e \<Rightarrow> Inl e
          | Inr insts \<Rightarrow>
              if length (subs @ insts) \<noteq> length initDatas then Inl ErrInvalidRequest
              else Inr (subs @ insts))"

fun Initialize ::
  "nat \<Rightarrow> 'w sdk \<Rightarrow> ('s, 'g) auth_env \<Rightarrow> ('s, 'g) AuthenticatorManager \<Rightarrow> ('s, 'g) authenticator \<Rightarrow> string \<Rightarrow>
   ('s, 'g) authenticator res" where
  "Initialize 0 S E am a config = Inl StackOverflow"
| "Initialize (Suc n) S E am a config =
     (case a of
        SignatureVerification PubKey \<Rightarrow> SignatureVerification_Initialize PubKey config
      | MessageFilter _ \<Rightarrow> MessageFilter_Initialize E config
      | CosmwasmAuthenticator _ _ \<Rightarrow> Cosmwasm_Initialize S E config
      | ZkProofAuthenticatorV1 _ verifier \<Rightarrow> ZkProof_Initialize E verifier config
      | AllOf sa subs \<Rightarrow>
         (case Composite_Initialize E (Initialize n S E am) am subs config of
            Inl e \<Rightarrow> Inl e | Inr subs1 \<Rightarrow> Inr (AllOf sa subs1))
      | AnyOf sa subs \<Rightarrow>
         (case Composite_Initialize E (Initialize n S E am) am subs config of
            Inl e \<Rightarrow> Inl e | Inr subs1 \<Rightarrow> Inr (AnyOf sa subs1)))"

fun on_sub_each ::
  "(('s, 'g) authenticator \<Rightarrow> string \<Rightarrow> string \<Rightarrow> ('s, 'g) gctx \<Rightarrow> unit res \<times> ('s, 'g) gctx) \<Rightarrow>
   ('s, 'g) AuthenticatorManager \<Rightarrow> string \<Rightarrow> nat \<Rightarrow> SubAuthenticatorInitData list \<Rightarrow>
   ('s, 'g) gctx \<Rightarrow> unit res \<times> ('s, 'g) gctx" where
  "on_sub_each hook am baseId i [] ctx = (Inr (), ctx)"
| "on_sub_each hook am baseId i (initData # initDatas) ctx =
     (case GetAuthenticatorByType am (sid_Type initData) of
        None \<Rightarrow> (Inl ErrInvalidRequest, ctx)
      | Some authenticatorCode \<Rightarrow>
     (case hook authenticatorCode (sid_Config initData) (compositeId baseId i) ctx of
        (Inl e, ctx1) \<Rightarrow> (Inl e, ctx1)
      | (Inr _, ctx1) \<Rightarrow> on_sub_each hook am baseId (i + 1) initDatas ctx1))"

definition onSubAuthenticatorsAdded ::
  "('s, 'g) auth_env \<Rightarrow>
   (('s, 'g) authenticator \<Rightarrow> string \<Rightarrow> string \<Rightarrow> ('s, 'g) gctx \<Rightarrow> unit res \<times> ('s, 'g) gctx) \<Rightarrow>
   ('s, 'g) AuthenticatorManager \<Rightarrow> string \<Rightarrow> string \<Rightarrow> ('s, 'g) gctx \<Rightarrow> unit res \<times> ('s, 'g) gctx" where
  "onSubAuthenticatorsAdded E hook am data authenticatorId ctx =
     (case JsonInitDatas E data of
        Inl e \<Rightarrow> (Inl e, ctx)
      | Inr initDatas \<Rightarrow>
          if length initDatas \<le> 1 then (Inl ErrInvalidRequest, ctx)
          else on_sub_each hook am authenticatorId 0 initDatas ctx)"

definition onSubAuthenticatorsRemoved ::
  "('s, 'g) auth_env \<Rightarrow>
   (('s, 'g) authenticator \<Rightarrow> string \<Rightarrow> string \<Rightarrow> ('s, 'g) gctx \<Rightarrow> unit res \<times> ('s, 'g) gctx) \<Rightarrow>
   ('s, 'g) AuthenticatorManager \<Rightarrow> string \<Rightarrow> string \<Rightarrow> ('s, 'g) gctx \<Rightarrow> unit res \<times> ('s, 'g) gctx" where
  "onSubAuthenticatorsRemoved E hook am data authenticatorId ctx =
     (case JsonInitDatas E data of
        Inl e \<Rightarrow> (Inl e, ctx)
      | Inr initDatas \<Rightarrow> on_sub_each hook am authenticatorId 0 initDatas ctx)"

fun OnAuthenticatorAdded ::
  "nat \<Rightarrow> 'w sdk \<Rightarrow> ('s, 'g) auth_env \<Rightarrow> ('s, 'g) AuthenticatorManager \<Rightarrow> string \<Rightarrow> ('s, 'g) authenticator \<Rightarrow>
   string \<Rightarrow> string \<Rightarrow> ('s, 'g) gctx \<Rightarrow> unit res \<times> ('s, 'g) gctx" where
  "OnAuthenticatorAdded 0 S E am account a config authenticatorId ctx = (Inl StackOverflow, ctx)"
| "OnAuthenticatorAdded (Suc n) S E am account a config authenticatorId ctx =
     (case a of
        SignatureVerification _ \<Rightarrow> (SignatureVerification_OnAuthenticatorAdded config, ctx)
      | MessageFilter _ \<Rightarrow> (MessageFilter_OnAuthenticatorAdded E config, ctx)
      | CosmwasmAuthenticator _ _ \<Rightarrow> Cosmwasm_OnAuthenticatorAdded S E account config authenticatorId ctx
      | ZkProofAuthenticatorV1 _ _ \<Rightarrow> (no_value (ParseZkProofAuthenticatorConfig E config), ctx)
      | AllOf _ _ \<Rightarrow> onSubAuthenticatorsAdded E (OnAuthenticatorAdded n S E am account) am config authenticatorId ctx
      | AnyOf _ _ \<Rightarrow> onSubAuthenticatorsAdded E (OnAuthenticatorAdded n S E am account) am config authenticatorId ctx)"

fun OnAuthenticatorRemoved ::
  "nat \<Rightarrow> 'w sdk \<Rightarrow> ('s, 'g) auth_env \<Rightarrow> ('s, 'g) AuthenticatorManager \<Rightarrow> string \<Rightarrow> ('s, 'g) authenticator \<Rightarrow>
   string \<Rightarrow> string \<Rightarrow> ('s, 'g) gctx \<Rightarrow> unit res \<times> ('s, 'g) gctx" where
  "OnAuthenticatorRemoved 0 S E am account a config authenticatorId ctx = (Inl StackOverflow, ctx)"
| "OnAuthenticatorRemoved (Suc n) S E am account a config authenticatorId ctx =
     (case a of
        SignatureVerification _ \<Rightarrow> (Inr (), ctx)
      | MessageFilter _ \<Rightarrow> (Inr (), ctx)
      | CosmwasmAuthenticator _ _ \<Rightarrow> Cosmwasm_OnAuthenticatorRemoved S E account config authenticatorId ctx
      | ZkProofAuthenticatorV1 _ _ \<Rightarrow> (Inr (), ctx)
      | AllOf _ _ \<Rightarrow> onSubAuthenticatorsRemoved E (OnAuthenticatorRemoved n S E am account) am config authenticatorId ctx
      | AnyOf _ _ \<Rightarrow> onSubAuthenticatorsRemoved E (OnAuthenticatorRemoved n S E am account) am config authenticatorId ctx)"

text \<open>
  A bound on the depth that suffices: a sub-configuration is a base64 string inside the encoding of
  its parent, so it is shorter.  The decoders return errors, they do not panic, and what they put
  into an \<open>interface{}\<close> has maps with distinct keys.
\<close>

definition config_depth :: "string \<Rightarrow> nat" where "config_depth config = Suc (length config)"

definition json_laws :: "('s, 'g) auth_env \<Rightarrow> bool" where
  "json_laws E \<longleftrightarrow>
     (\<forall>config ds d. JsonInitDatas E config = Inr ds \<longrightarrow> d \<in> set ds \<longrightarrow> length (sid_Config d) < length config) \<and>
     (\<forall>s v. JsonValue E s = Inr v \<longrightarrow> json_wf v) \<and>
     (\<forall>config. \<not> is_panic (JsonInitDatas E config) \<and> \<not> is_panic (JsonRaw E config) \<and> \<not> is_panic (JsonValue E config) \<and>
        \<not> is_panic (JsonCwInit E config) \<and> \<not> is_panic (JsonObjectOnly E config) \<and> \<not> is_panic (JsonZkConfig E config)) \<and>
     (\<forall>m. \<not> is_panic (MarshalSudo E m))"

end
