(* ===== verification/AuthTrees.thy ===== *)
theory AuthTrees
  imports Authenticators "HOL-Library.Multiset"
begin

text \<open>
  What the authenticators of \<open>x/smart-account\<close> guarantee: the message filter decides a relation on
  JSON values, a composite decides a boolean formula over its leaves, the manager keeps every type
  under its name, initialised trees are well typed, and the recursion over nested configurations ends.
\<close>

section \<open>The filter as a relation on JSON values\<close>

text \<open>
  What a pattern asks of a message: every field of the pattern is in the message and matches, slices
  match by position, strings, booleans and null are equal.
\<close>

lemma zip_size_less [termination_simp]:
  "(v, w) \<in> set (zip av bv) \<Longrightarrow> size (v :: json) < Suc (size_list size av)"
  by (drule set_zip_leftD) (simp add: size_list_estimation' less_Suc_eq_le)

fun json_matches :: "json \<Rightarrow> json \<Rightarrow> bool" where
  "json_matches (JObject av) (JObject bv) =
     (\<forall>(k, v) \<in> set av. \<exists>w. map_of bv k = Some w \<and> json_matches v w)"
| "json_matches (JArray av) (JArray bv) =
     (length av \<le> length bv \<and> (\<forall>(v, w) \<in> set (zip av bv). json_matches v w))"
| "json_matches (JString s) (JString t) = (s = t)"
| "json_matches (JBool s) (JBool t) = (s = t)"
| "json_matches JNull JNull = True"
| "json_matches _ _ = False"

lemma match_strings_ok [simp]: "match_strings E s t = Inr () \<longleftrightarrow> s = t"
  by (auto simp: match_strings_def split: option.splits)

lemma superset_keys_ok:
  assumes "\<And>v w. v \<in> snd ` set av \<Longrightarrow> isSuperset E v w = Inr () \<longleftrightarrow> json_matches v w"
    and "distinct (map fst av)" and "set ks \<subseteq> fst ` set av"
  shows "superset_keys E av bv ks = Inr () \<longleftrightarrow>
    (\<forall>(k, v) \<in> set av. k \<in> set ks \<longrightarrow> (\<exists>w. map_of bv k = Some w \<and> json_matches v w))"
  using assms(3)
proof (induction ks)
  case Nil
  then show ?case by auto
next
  case (Cons k ks)
  from Cons.prems obtain v where v: "(k, v) \<in> set av" by auto
  then have map: "map_of av k = Some v" using assms(2) by simp
  have uniq: "v' = v" if "(k, v') \<in> set av" for v'
    using that map assms(2) by (metis map_of_is_SomeI option.inject)
  have "v \<in> snd ` set av" using v by force
  then have iff: "isSuperset E v w = Inr () \<longleftrightarrow> json_matches v w" for w by (rule assms(1))
  have IH: "superset_keys E av bv ks = Inr () \<longleftrightarrow>
    (\<forall>(k, v) \<in> set av. k \<in> set ks \<longrightarrow> (\<exists>w. map_of bv k = Some w \<and> json_matches v w))"
    using Cons by simp
  show ?case
  proof (cases "map_of bv k")
    case None
    then show ?thesis using map v by auto
  next
    case (Some w)
    show ?thesis
    proof (cases "isSuperset E v w")
      case (Inl e)
      then have "\<not> json_matches v w" using iff [of w] by simp
      then show ?thesis using map v Some Inl by auto
    next
      case (Inr u)
      then have "json_matches v w" using iff [of w] by simp
      then show ?thesis using map Some Inr IH uniq by auto
    qed
  qed
qed

lemma superset_slices_ok:
  assumes "\<And>v w. v \<in> set av \<Longrightarrow> isSuperset E v w = Inr () \<longleftrightarrow> json_matches v w"
  shows "superset_slices E av bv = Inr () \<longleftrightarrow> (\<forall>(v, w) \<in> set (zip av bv). json_matches v w)"
  using assms
proof (induction av arbitrary: bv)
  case Nil
  then show ?case by simp
next
  case (Cons v av)
  have IH: "superset_slices E av bs = Inr () \<longleftrightarrow> (\<forall>(v, w) \<in> set (zip av bs). json_matches v w)" for bs
    using Cons by simp
  show ?case
  proof (cases bv)
    case Nil
    then show ?thesis by simp
  next
    case (Cons w bs)
    then show ?thesis
      using IH [of bs] Cons.prems [of v w] by (cases "isSuperset E v w") auto
  qed
qed

lemma isSuperset_iff: "json_wf a \<Longrightarrow> isSuperset E a b = Inr () \<longleftrightarrow> json_matches a b"
proof (induction a arbitrary: b)
  case (JArray av)
  have "isSuperset E v w = Inr () \<longleftrightarrow> json_matches v w" if "v \<in> set av" for v w
    using JArray that by (auto simp: list_all_iff)
  then show ?case
    by (cases b) (auto simp: superset_slices_ok)
next
  case (JObject av)
  have *: "isSuperset E v w = Inr () \<longleftrightarrow> json_matches v w" if "v \<in> snd ` set av" for v w
    using JObject that by (force simp: list_all_iff)
  have "superset_keys E av bv (sort (map fst av)) = Inr () \<longleftrightarrow>
      (\<forall>(k, v) \<in> set av. \<exists>w. map_of bv k = Some w \<and> json_matches v w)" for bv
  proof -
    have "superset_keys E av bv (sort (map fst av)) = Inr () \<longleftrightarrow>
        (\<forall>(k, v) \<in> set av. k \<in> set (sort (map fst av)) \<longrightarrow> (\<exists>w. map_of bv k = Some w \<and> json_matches v w))"
      by (rule superset_keys_ok) (use * JObject.prems in simp_all)
    also have "\<dots> \<longleftrightarrow> (\<forall>(k, v) \<in> set av. \<exists>w. map_of bv k = Some w \<and> json_matches v w)"
      by (rule ball_cong) (auto intro: rev_image_eqI)
    finally show ?thesis .
  qed
  then show ?case
    by (cases b) auto
next
  case JNull
  then show ?case by (cases b) auto
qed (auto split: json.splits)

lemma json_matches_refl: "json_wf a \<Longrightarrow> \<not> checkForFloats a \<Longrightarrow> json_matches a a"
proof (induction a)
  case (JArray av)
  then show ?case by (auto simp: list_all_iff list_ex_iff zip_same)
next
  case (JObject av)
  then show ?case by (fastforce simp: list_all_iff list_ex_iff)
qed auto

lemma json_matches_no_floats: "json_matches a b \<Longrightarrow> \<not> checkForFloats a"
proof (induction a b rule: json_matches.induct)
  case (1 av bv)
  then show ?case by (fastforce simp: list_ex_iff)
next
  case (2 av bv)
  show ?case
  proof
    assume "checkForFloats (JArray av)"
    then obtain i where "i < length av" "checkForFloats (av ! i)"
      by (auto simp: list_ex_iff in_set_conv_nth)
    moreover from this have "(av ! i, bv ! i) \<in> set (zip av bv)"
      using 2(2) by (auto simp: set_zip intro!: exI [of _ i])
    ultimately show False using 2 by fastforce
  qed
qed auto

section \<open>Composites decide a formula over their leaves\<close>

text \<open>A tree without contracts and proof verifiers.\<close>

primrec native :: "('s, 'g) authenticator \<Rightarrow> bool" where
  "native (SignatureVerification _) = True"
| "native (MessageFilter _) = True"
| "native (CosmwasmAuthenticator _ _) = False"
| "native (ZkProofAuthenticatorV1 _ _) = False"
| "native (AllOf _ subs) = list_all native subs"
| "native (AnyOf _ subs) = list_all native subs"

definition signature_accepts :: "('s, 'g) auth_env \<Rightarrow> string option \<Rightarrow> AuthenticationRequest \<Rightarrow> bool" where
  "signature_accepts E PubKey request \<longleftrightarrow>
     Simulate request \<or> IsReCheckTx E \<or>
     (\<exists>key. PubKey = Some key \<and> VerifySignature E key (smd_Direct (SignModeTxData request)) (Signature request))"

definition filter_accepts :: "('s, 'g) auth_env \<Rightarrow> string \<Rightarrow> AuthenticationRequest \<Rightarrow> bool" where
  "filter_accepts E pattern request \<longleftrightarrow>
     (\<exists>ty m bz a b. ResolveMsg E (la_TypeURL (Msg request)) = Inr ty \<and> UnmarshalMsg E (la_Value (Msg request)) ty = Inr m \<and>
        MarshalInterfaceJSON E m = Inr bz \<and> JsonValue E pattern = Inr a \<and> JsonValue E bz = Inr b \<and> json_matches a b)"

text \<open>
  The verdict of a tree on a request: all parts, or some part, accept the request with their own
  identifier and, when the signatures are partitioned, their own signature.
\<close>

definition part_requests ::
  "('s, 'g) auth_env \<Rightarrow> SignatureAssignment \<Rightarrow> nat \<Rightarrow> AuthenticationRequest \<Rightarrow> AuthenticationRequest list" where
  "part_requests E sa n request =
     (case request_signatures E sa request n of
        Inl _ \<Rightarrow> []
      | Inr signatures \<Rightarrow> map (\<lambda>i. sub_request sa signatures (AuthenticatorId request) i request) [0..<n])"

primrec accepts :: "('s, 'g) auth_env \<Rightarrow> ('s, 'g) authenticator \<Rightarrow> AuthenticationRequest \<Rightarrow> bool" where
  "accepts E (SignatureVerification PubKey) = signature_accepts E PubKey"
| "accepts E (MessageFilter pattern) = filter_accepts E pattern"
| "accepts E (CosmwasmAuthenticator _ _) = (\<lambda>request. False)"
| "accepts E (ZkProofAuthenticatorV1 _ _) = (\<lambda>request. False)"
| "accepts E (AllOf sa subs) = (\<lambda>request.
     part_requests E sa (length subs) request \<noteq> [] \<and>
     list_all (\<lambda>(p, q). p q) (zip (map (accepts E) subs) (part_requests E sa (length subs) request)))"
| "accepts E (AnyOf sa subs) = (\<lambda>request.
     list_ex (\<lambda>(p, q). p q) (zip (map (accepts E) subs) (part_requests E sa (length subs) request)))"

lemma sub_request_again [simp]:
  "sub_request sa sigs b j (sub_request sa sigs b i request) = sub_request sa sigs b j request"
  by (simp add: sub_request_def Let_def)

text \<open>An operation decides a predicate when it agrees with it whenever it does not panic.\<close>

definition decides :: "('s, 'g) auth_op \<Rightarrow> (AuthenticationRequest \<Rightarrow> bool) \<Rightarrow> bool" where
  "decides f p \<longleftrightarrow> (\<forall>request ctx. \<not> is_panic (fst (f request ctx)) \<longrightarrow> is_ok (fst (f request ctx)) = p request)"

lemma decidesD: "decides f p \<Longrightarrow> \<not> is_panic (fst (f request ctx)) \<Longrightarrow> is_ok (fst (f request ctx)) = p request"
  unfolding decides_def by blast

lemma allOf_loop_decides:
  assumes "list_all2 decides fs ps" and "\<not> is_panic (fst (allOf_loop fs sa sigs b i request ctx))"
  shows "is_ok (fst (allOf_loop fs sa sigs b i request ctx)) \<longleftrightarrow>
    list_all (\<lambda>(p, q). p q) (zip ps (map (\<lambda>j. sub_request sa sigs b j request) [i..<i + length ps]))"
  using assms
proof (induction fs ps arbitrary: i request ctx rule: list_all2_induct)
  case Nil
  then show ?case by simp
next
  case (Cons f fs p ps)
  obtain r ctx1 where f: "f (sub_request sa sigs b i request) ctx = (r, ctx1)" by fastforce
  have up: "[i..<i + length (p # ps)] = i # [i + 1..<i + 1 + length ps]"
    by (simp add: upt_rec)
  show ?case
  proof (cases r)
    case (Inl e)
    then have "\<not> is_panic (fst (f (sub_request sa sigs b i request) ctx))"
      using Cons.prems f by (simp add: Let_def)
    then have "\<not> p (sub_request sa sigs b i request)"
      using decidesD [OF Cons.hyps(1)] f Inl by fastforce
    then show ?thesis using f Inl up by (simp add: Let_def)
  next
    case (Inr u)
    then have "p (sub_request sa sigs b i request)"
      using decidesD [OF Cons.hyps(1), of "sub_request sa sigs b i request" ctx] f by simp
    then show ?thesis
      using f Inr up Cons.prems Cons.IH [of "i + 1" "sub_request sa sigs b i request" ctx1]
      by (simp add: Let_def)
  qed
qed

lemma anyOf_loop_decides:
  assumes "list_all2 decides fs ps" and "\<not> is_panic (fst (anyOf_authenticate fs sa sigs b i request ctx))"
  shows "is_ok (fst (anyOf_authenticate fs sa sigs b i request ctx)) \<longleftrightarrow>
    list_ex (\<lambda>(p, q). p q) (zip ps (map (\<lambda>j. sub_request sa sigs b j request) [i..<i + length ps]))"
  using assms
proof (induction fs ps arbitrary: i request ctx rule: list_all2_induct)
  case Nil
  then show ?case by simp
next
  case (Cons f fs p ps)
  obtain r ctx1 where f: "f (sub_request sa sigs b i request) ctx = (r, ctx1)" by fastforce
  have up: "[i..<i + length (p # ps)] = i # [i + 1..<i + 1 + length ps]"
    by (simp add: upt_rec)
  have np: "\<not> is_panic r"
    using Cons.prems f by (auto simp: Let_def split: if_splits)
  have rp: "is_ok r = p (sub_request sa sigs b i request)"
    using decidesD [OF Cons.hyps(1), of "sub_request sa sigs b i request" ctx] f np by simp
  show ?case
    using f np rp up Cons.prems Cons.IH [of "i + 1" "sub_request sa sigs b i request" ctx1]
    by (cases "is_ok r") (simp_all add: Let_def)
qed

lemma json_lawsD:
  assumes "json_laws E"
  shows "JsonInitDatas E config = Inr ds \<Longrightarrow> d \<in> set ds \<Longrightarrow> length (sid_Config d) < length config"
    and "JsonValue E s = Inr v \<Longrightarrow> json_wf v"
    and "\<not> is_panic (JsonInitDatas E config)" and "\<not> is_panic (JsonRaw E config)" and "\<not> is_panic (JsonValue E config)"
    and "\<not> is_panic (JsonCwInit E config)" and "\<not> is_panic (JsonObjectOnly E config)" and "\<not> is_panic (JsonZkConfig E config)"
    and "\<not> is_panic (MarshalSudo E m)"
  using assms unfolding json_laws_def by blast+

lemma SignatureVerification_decides:
  assumes "gas_laws (GasLib E)"
  shows "decides (SignatureVerification_Authenticate E k) (signature_accepts E k)"
  unfolding decides_def
proof (intro allI impI)
  fix request ctx
  assume np: "\<not> is_panic (fst (SignatureVerification_Authenticate E k request ctx))"
  obtain r m where c: "MeterConsume (GasLib E) (SigVerifyCostSecp256k1 E (gstore ctx)) (meter ctx) = (r, m)" by fastforce
  show "is_ok (fst (SignatureVerification_Authenticate E k request ctx)) = signature_accepts E k request"
  proof (cases r)
    case (Inl e)
    then have "is_panic (Inl e :: unit res)" using c gas_lawsD(5) [OF assms] by metis
    then show ?thesis using np c Inl by (simp add: SignatureVerification_Authenticate_def ConsumeCtx_def)
  next
    case (Inr u)
    then show ?thesis
      using c by (auto simp: SignatureVerification_Authenticate_def signature_accepts_def ConsumeCtx_def split: option.splits)
  qed
qed

lemma MessageFilter_ok_iff:
  assumes "json_laws E"
  shows "is_ok (MessageFilter_Authenticate E pattern request) \<longleftrightarrow> filter_accepts E pattern request"
  using json_lawsD(2) [OF assms] isSuperset_iff [where E = E]
  by (fastforce simp: MessageFilter_Authenticate_def IsJsonSuperset_def filter_accepts_def is_ok_iff split: sum.splits)

lemma part_requests_Inr:
  "request_signatures E sa request n = Inr sigs \<Longrightarrow>
     part_requests E sa n request = map (\<lambda>i. sub_request sa sigs (AuthenticatorId request) i request) [0..<n]"
  by (simp add: part_requests_def)

lemma AllOf_decides:
  assumes "list_all2 decides fs ps"
  shows "decides (AllOf_Authenticate E sa fs) (\<lambda>request.
    part_requests E sa (length fs) request \<noteq> [] \<and> list_all (\<lambda>(p, q). p q) (zip ps (part_requests E sa (length fs) request)))"
  unfolding decides_def
proof (intro allI impI)
  fix request ctx
  assume np: "\<not> is_panic (fst (AllOf_Authenticate E sa fs request ctx))"
  show "is_ok (fst (AllOf_Authenticate E sa fs request ctx)) =
    (part_requests E sa (length fs) request \<noteq> [] \<and> list_all (\<lambda>(p, q). p q) (zip ps (part_requests E sa (length fs) request)))"
  proof (cases "fs = [] \<or> \<not> is_ok (request_signatures E sa request (length fs))")
    case True
    then show ?thesis
      by (cases "request_signatures E sa request (length fs)") (auto simp: AllOf_Authenticate_def part_requests_def)
  next
    case False
    then obtain sigs where sigs: "request_signatures E sa request (length fs) = Inr sigs" by (auto simp: is_ok_iff)
    have "AllOf_Authenticate E sa fs request ctx = allOf_loop fs sa sigs (AuthenticatorId request) 0 request ctx"
      using False sigs by (simp add: AllOf_Authenticate_def)
    then show ?thesis
      using np allOf_loop_decides [OF assms, of sa sigs "AuthenticatorId request" 0 request ctx]
        part_requests_Inr [OF sigs] list_all2_lengthD [OF assms] False by auto
  qed
qed

lemma AnyOf_decides:
  assumes "list_all2 decides fs ps"
  shows "decides (AnyOf_Authenticate E sa fs) (\<lambda>request.
    list_ex (\<lambda>(p, q). p q) (zip ps (part_requests E sa (length fs) request)))"
  unfolding decides_def
proof (intro allI impI)
  fix request ctx
  assume np: "\<not> is_panic (fst (AnyOf_Authenticate E sa fs request ctx))"
  show "is_ok (fst (AnyOf_Authenticate E sa fs request ctx)) =
    list_ex (\<lambda>(p, q). p q) (zip ps (part_requests E sa (length fs) request))"
  proof (cases "fs = [] \<or> \<not> is_ok (request_signatures E sa request (length fs))")
    case True
    then show ?thesis
      using list_all2_lengthD [OF assms]
      by (cases "request_signatures E sa request (length fs)") (auto simp: AnyOf_Authenticate_def part_requests_def)
  next
    case False
    then obtain sigs where sigs: "request_signatures E sa request (length fs) = Inr sigs" by (auto simp: is_ok_iff)
    have "AnyOf_Authenticate E sa fs request ctx = anyOf_authenticate fs sa sigs (AuthenticatorId request) 0 request ctx"
      using False sigs by (simp add: AnyOf_Authenticate_def)
    then show ?thesis
      using np anyOf_loop_decides [OF assms, of sa sigs "AuthenticatorId request" 0 request ctx]
        part_requests_Inr [OF sigs] list_all2_lengthD [OF assms] False by simp
  qed
qed

lemma Authenticate_decides:
  assumes "gas_laws (GasLib E)" and "json_laws E" and "native a"
  shows "decides (Authenticate E a) (accepts E a)"
  using assms(3)
proof (induction a)
  case (SignatureVerification k)
  then show ?case using SignatureVerification_decides [OF assms(1)] by simp
next
  case (MessageFilter p)
  then show ?case using MessageFilter_ok_iff [OF assms(2)] by (simp add: decides_def)
next
  case (AllOf sa subs)
  then have "list_all2 decides (map (Authenticate E) subs) (map (accepts E) subs)"
    by (auto simp: list_all_iff list_all2_conv_all_nth)
  from AllOf_decides [OF this, of E sa] show ?case by simp
next
  case (AnyOf sa subs)
  then have "list_all2 decides (map (Authenticate E) subs) (map (accepts E) subs)"
    by (auto simp: list_all_iff list_all2_conv_all_nth)
  from AnyOf_decides [OF this, of E sa] show ?case by simp
qed simp_all

section \<open>The manager and the types of initialised trees\<close>

definition template :: "('s, 'g) authenticator \<Rightarrow> bool" where
  "template a = (case a of AllOf _ subs \<Rightarrow> subs = [] | AnyOf _ subs \<Rightarrow> subs = [] | _ \<Rightarrow> True)"

text \<open>The sorted keys list exactly the registered types, and each type is registered under its name.\<close>

definition manager_wf :: "('s, 'g) AuthenticatorManager \<Rightarrow> bool" where
  "manager_wf am \<longleftrightarrow>
     kv_wf (registeredAuthenticators am) \<and> orderedKeys am = map fst (registeredAuthenticators am) \<and>
     (\<forall>ty a. GetAuthenticatorByType am ty = Some a \<longrightarrow> auth_Type a = ty \<and> template a)"

lemma map_fst_kv_set:
  "kv_wf m \<Longrightarrow> map fst (kv_set k v m) = (if kv_has m k then map fst m else insort k (map fst m))"
proof (induction k v m rule: kv_set.induct)
  case (1 k v)
  then show ?case by (simp add: kv_has_def kv_get_def)
next
  case (2 k v k' v' m)
  have le: "k' < j" if "j \<in> fst ` set m" for j
    using 2(2) that by (auto simp: kv_wf_def)
  have wf: "kv_wf m" using 2(2) by (simp add: kv_wf_def)
  have none: "\<not> kv_has m k" if "k < k'"
    using le that by (force simp: kv_has_def kv_get_def map_of_eq_None_iff)
  show ?case
    using 2(1) [OF _ _ wf] none by (auto simp: kv_has_def kv_get_def)
qed

lemma sort_snoc: "sort (xs @ [x :: 'a :: linorder]) = insort x (sort xs)"
  by (rule properties_for_sort) (simp_all add: sorted_insort)

lemma manager_wf_new: "manager_wf NewAuthenticatorManager"
  by (simp add: manager_wf_def NewAuthenticatorManager_def GetAuthenticatorByType_def kv_simps) (simp add: kv_empty_def)

lemma manager_wf_register:
  assumes "manager_wf am" and "template a"
  shows "manager_wf (RegisterAuthenticator a am)"
proof -
  have "sorted (orderedKeys am)"
    using assms(1) by (simp add: manager_wf_def kv_wf_def strict_sorted_imp_sorted)
  then have "sort (orderedKeys am @ [auth_Type a]) = insort (auth_Type a) (orderedKeys am)"
    by (simp add: sort_snoc sorted_sort_id)
  then show ?thesis
    using assms map_fst_kv_set [of "registeredAuthenticators am" "auth_Type a" a]
    by (auto simp: manager_wf_def RegisterAuthenticator_def Let_def GetAuthenticatorByType_def kv_simps split: if_splits)
qed

lemma remove1_map_fst_kv_del:
  "kv_wf m \<Longrightarrow> remove1 k (map fst m) = map fst (kv_del k m)"
  by (simp add: kv_del_def kv_wf_distinct distinct_remove1_removeAll removeAll_filter_not_eq filter_map comp_def eq_commute)

lemma manager_wf_unregister: "manager_wf am \<Longrightarrow> manager_wf (UnregisterAuthenticator a am)"
  by (auto simp: manager_wf_def UnregisterAuthenticator_def GetAuthenticatorByType_def kv_simps remove1_map_fst_kv_del
      split: if_splits)

text \<open>Initialising an empty manager registers the given types one after the other.\<close>

lemma kv_has_foldl_set:
  "kv_has (foldl (\<lambda>m a. kv_set (auth_Type a) a m) m as) k \<longleftrightarrow> kv_has m k \<or> k \<in> auth_Type ` set as"
  by (induction as arbitrary: m) auto

lemma sort_append_insort:
  "sort (insort x ys @ xs) = sort ((ys :: 'a :: linorder list) @ x # xs)"
  "sort (sort ys @ xs) = sort ((ys :: 'a :: linorder list) @ xs)"
  by (rule properties_for_sort; simp)+

lemma initialize_registers:
  assumes "manager_wf am" and "list_all template as" and "distinct (map auth_Type as)"
    and "\<forall>a \<in> set as. \<not> kv_has (registeredAuthenticators am) (auth_Type a)"
  shows "manager_wf (am\<lparr>registeredAuthenticators := foldl (\<lambda>m a. kv_set (auth_Type a) a m) (registeredAuthenticators am) as,
    orderedKeys := sort (orderedKeys am @ map auth_Type as)\<rparr>)"
  using assms
proof (induction as arbitrary: am)
  case Nil
  then have "sorted (orderedKeys am)"
    by (simp add: manager_wf_def kv_wf_def strict_sorted_imp_sorted)
  then show ?case using Nil by (simp add: sorted_sort_id)
next
  case (Cons a as)
  let ?am = "RegisterAuthenticator a am"
  have new: "\<not> kv_has (registeredAuthenticators am) (auth_Type a)" using Cons.prems by simp
  have "manager_wf ?am" using Cons.prems by (simp add: manager_wf_register)
  moreover have "\<forall>b \<in> set as. \<not> kv_has (registeredAuthenticators ?am) (auth_Type b)"
    using Cons.prems by (auto simp: RegisterAuthenticator_def Let_def dest: sym intro: rev_image_eqI)
  ultimately have "manager_wf (?am\<lparr>registeredAuthenticators := foldl (\<lambda>m a. kv_set (auth_Type a) a m) (registeredAuthenticators ?am) as,
    orderedKeys := sort (orderedKeys ?am @ map auth_Type as)\<rparr>)"
    using Cons by simp
  then show ?case
    using new by (simp add: RegisterAuthenticator_def Let_def sort_snoc sort_append_insort)
qed

lemma manager_wf_initialize:
  assumes "manager_wf am" and "list_all template as" and "distinct (map auth_Type as)"
  shows "manager_wf (InitializeAuthenticators as am)"
proof (cases "0 < length (registeredAuthenticators am)")
  case True
  then show ?thesis using assms by (simp add: InitializeAuthenticators_def)
next
  case False
  then have "\<forall>a \<in> set as. \<not> kv_has (registeredAuthenticators am) (auth_Type a)"
    by (simp add: kv_has_def kv_get_def)
  then show ?thesis
    using False initialize_registers [OF assms] by (simp add: InitializeAuthenticators_def)
qed

lemmas new_authenticator_defs = NewSignatureVerification_def NewMessageFilter_def NewCosmwasmAuthenticator_def
  NewAllOf_def NewPartitionedAllOf_def NewAnyOf_def NewPartitionedAnyOf_def NewZkProofAuthenticatorV1_def
  NewZkProofAuthenticatorV1WithVerifier_def

lemma app_authenticators_wf: "manager_wf app_authenticators"
  unfolding app_authenticators_def
  by (intro manager_wf_register manager_wf_initialize manager_wf_new)
     (simp_all add: new_authenticator_defs template_def SignatureVerificationType_def)

primrec well_typed :: "('s, 'g) AuthenticatorManager \<Rightarrow> ('s, 'g) authenticator \<Rightarrow> bool" where
  "well_typed am (SignatureVerification k) = IsAuthenticatorTypeRegistered am SignatureVerificationType"
| "well_typed am (MessageFilter p) = IsAuthenticatorTypeRegistered am ''MessageFilter''"
| "well_typed am (CosmwasmAuthenticator c p) = IsAuthenticatorTypeRegistered am ''CosmwasmAuthenticatorV1''"
| "well_typed am (ZkProofAuthenticatorV1 c v) = IsAuthenticatorTypeRegistered am ZkProofAuthenticatorType"
| "well_typed am (AllOf sa subs) =
     (IsAuthenticatorTypeRegistered am (auth_Type (AllOf sa subs)) \<and> 2 \<le> length subs \<and> list_all (well_typed am) subs)"
| "well_typed am (AnyOf sa subs) =
     (IsAuthenticatorTypeRegistered am (auth_Type (AnyOf sa subs)) \<and> 2 \<le> length subs \<and> list_all (well_typed am) subs)"

lemma init_each_ok:
  assumes "init_each init am ds = Inr insts"
    and "\<And>ty code config b. GetAuthenticatorByType am ty = Some code \<Longrightarrow> init code config = Inr b \<Longrightarrow> auth_Type b = ty \<and> P b"
  shows "map auth_Type insts = map sid_Type ds \<and> list_all P insts"
  using assms(1)
proof (induction ds arbitrary: insts)
  case (Cons d ds)
  then show ?case using assms(2) by (auto split: option.splits sum.splits)
qed simp

lemma Composite_Initialize_ok:
  assumes "Composite_Initialize E init am [] config = Inr subs"
    and "\<And>ty code config b. GetAuthenticatorByType am ty = Some code \<Longrightarrow> init code config = Inr b \<Longrightarrow> auth_Type b = ty \<and> P b"
  shows "2 \<le> length subs \<and> list_all P subs"
proof -
  obtain ds where ds: "init_each init am ds = Inr subs" and "2 \<le> length subs"
    using assms(1) by (auto simp: Composite_Initialize_def split: sum.splits if_splits)
  then show ?thesis using init_each_ok [OF ds, of P] assms(2) by simp
qed

lemma Initialize_typed:
  assumes "manager_wf am" and "GetAuthenticatorByType am ty = Some a" and "Initialize n S E am a config = Inr b"
  shows "auth_Type b = ty \<and> well_typed am b"
  using assms(2,3)
proof (induction n arbitrary: ty a config b)
  case 0
  then show ?case by simp
next
  case (Suc n)
  have ty: "auth_Type a = ty" and tmpl: "template a"
    using assms(1) Suc.prems(1) by (auto simp: manager_wf_def)
  have reg: "IsAuthenticatorTypeRegistered am ty"
    using Suc.prems(1) by (simp add: IsAuthenticatorTypeRegistered_def GetAuthenticatorByType_def kv_has_def)
  have sub: "2 \<le> length subs \<and> list_all (well_typed am) subs"
    if "Composite_Initialize E (Initialize n S E am) am [] config = Inr subs" for subs
    using Composite_Initialize_ok [OF that, of "well_typed am"] Suc.IH by blast
  show ?case
    using Suc.prems(2) ty tmpl reg sub
    by (cases a)
       (auto simp: template_def SignatureVerification_Initialize_def MessageFilter_Initialize_def Cosmwasm_Initialize_def
         ZkProof_Initialize_def split: sum.splits)
qed

section \<open>Termination of the recursion over configurations\<close>

definition bech32_returns :: "'w sdk \<Rightarrow> bool" where
  "bech32_returns S \<longleftrightarrow> (\<forall>s. \<not> is_panic (AccAddressFromBech32 S s))"

lemma init_each_cong:
  "(\<And>d code. d \<in> set ds \<Longrightarrow> f code (sid_Config d) = g code (sid_Config d)) \<Longrightarrow> init_each f am ds = init_each g am ds"
  by (induction ds) (auto split: option.splits sum.splits)

lemma init_each_error:
  "init_each f am ds = Inl e \<Longrightarrow> e = NilDereference \<or> (\<exists>d \<in> set ds. \<exists>code. f code (sid_Config d) = Inl e)"
  by (induction ds) (auto split: option.splits sum.splits)

lemma on_sub_each_cong:
  "(\<And>d code. d \<in> set ds \<Longrightarrow> f code (sid_Config d) = g code (sid_Config d)) \<Longrightarrow>
     on_sub_each f am b i ds ctx = on_sub_each g am b i ds ctx"
  by (induction ds arbitrary: i ctx) (auto split: option.splits prod.splits sum.splits)

lemma on_sub_each_error:
  "fst (on_sub_each f am b i ds ctx) = Inl e \<Longrightarrow>
     e = ErrInvalidRequest \<or> (\<exists>d \<in> set ds. \<exists>code aid c. fst (f code (sid_Config d) aid c) = Inl e)"
proof (induction ds arbitrary: i ctx)
  case (Cons d ds)
  show ?case
  proof (cases "GetAuthenticatorByType am (sid_Type d)")
    case (Some code)
    obtain r c where f: "f code (sid_Config d) (compositeId b i) ctx = (r, c)" by fastforce
    show ?thesis
    proof (cases r)
      case (Inl e')
      then have "fst (f code (sid_Config d) (compositeId b i) ctx) = Inl e"
        using Cons.prems Some f by simp
      then show ?thesis by auto
    next
      case (Inr u)
      then show ?thesis using Cons.IH [of "i + 1" c] Cons.prems Some f by auto
    qed
  qed (use Cons in simp)
qed simp

text \<open>Operations that agree on shorter configurations give composites that agree.\<close>

lemma Composite_shorter:
  assumes "json_laws E" and "\<And>code c. length c < length config \<Longrightarrow> f code c = g code c"
  shows "Composite_Initialize E f am subs config = Composite_Initialize E g am subs config"
proof (cases "JsonInitDatas E config")
  case (Inr ds)
  have "init_each f am ds = init_each g am ds"
    by (rule init_each_cong) (use json_lawsD(1) [OF assms(1) Inr] assms(2) in blast)
  then show ?thesis using Inr by (simp add: Composite_Initialize_def)
qed (simp add: Composite_Initialize_def)

lemma hooks_shorter:
  assumes "json_laws E" and "\<And>code c. length c < length config \<Longrightarrow> f code c = g code c"
  shows "onSubAuthenticatorsAdded E f am config aid ctx = onSubAuthenticatorsAdded E g am config aid ctx"
    and "onSubAuthenticatorsRemoved E f am config aid ctx = onSubAuthenticatorsRemoved E g am config aid ctx"
proof -
  have "on_sub_each f am aid 0 ds ctx = on_sub_each g am aid 0 ds ctx" if "JsonInitDatas E config = Inr ds" for ds
    by (rule on_sub_each_cong) (use json_lawsD(1) [OF assms(1) that] assms(2) in blast)
  then show "onSubAuthenticatorsAdded E f am config aid ctx = onSubAuthenticatorsAdded E g am config aid ctx"
    and "onSubAuthenticatorsRemoved E f am config aid ctx = onSubAuthenticatorsRemoved E g am config aid ctx"
    by (auto simp: onSubAuthenticatorsAdded_def onSubAuthenticatorsRemoved_def split: sum.splits)
qed

lemma Initialize_fuel:
  assumes "json_laws E" and "length config < n" and "length config < m"
  shows "Initialize n S E am a config = Initialize m S E am a config"
  using assms(2,3)
proof (induction n arbitrary: m a config)
  case (Suc n)
  then obtain m' where m: "m = Suc m'" by (cases m) auto
  have "Composite_Initialize E (Initialize n S E am) am subs config = Composite_Initialize E (Initialize m' S E am) am subs config" for subs
    by (rule Composite_shorter [OF assms(1)], rule Suc.IH) (use Suc.prems m in simp_all)
  then show ?case using m by (cases a) simp_all
qed simp

lemma Added_fuel:
  assumes "json_laws E" and "length config < n" and "length config < m"
  shows "OnAuthenticatorAdded n S E am acc a config = OnAuthenticatorAdded m S E am acc a config"
  using assms(2,3)
proof (induction n arbitrary: m a config)
  case (Suc n)
  then obtain m' where m: "m = Suc m'" by (cases m) auto
  have "onSubAuthenticatorsAdded E (OnAuthenticatorAdded n S E am acc) am config aid ctx =
      onSubAuthenticatorsAdded E (OnAuthenticatorAdded m' S E am acc) am config aid ctx" for aid ctx
    by (rule hooks_shorter [OF assms(1)], rule Suc.IH) (use Suc.prems m in simp_all)
  then show ?case using m by (cases a) (simp_all add: fun_eq_iff)
qed simp

lemma Removed_fuel:
  assumes "json_laws E" and "length config < n" and "length config < m"
  shows "OnAuthenticatorRemoved n S E am acc a config = OnAuthenticatorRemoved m S E am acc a config"
  using assms(2,3)
proof (induction n arbitrary: m a config)
  case (Suc n)
  then obtain m' where m: "m = Suc m'" by (cases m) auto
  have "onSubAuthenticatorsRemoved E (OnAuthenticatorRemoved n S E am acc) am config aid ctx =
      onSubAuthenticatorsRemoved E (OnAuthenticatorRemoved m' S E am acc) am config aid ctx" for aid ctx
    by (rule hooks_shorter [OF assms(1)], rule Suc.IH) (use Suc.prems m in simp_all)
  then show ?case using m by (cases a) (simp_all add: fun_eq_iff)
qed simp

lemma parseInitData_returns:
  assumes "json_laws E" and "bech32_returns S"
  shows "\<not> is_panic (parseInitData S E config)"
proof
  assume "is_panic (parseInitData S E config)"
  then obtain m where "parseInitData S E config = Inl (Panicked m)" by (auto simp: is_panic_iff)
  then have "(\<exists>s. AccAddressFromBech32 S s = Inl (Panicked m)) \<or> JsonCwInit E config = Inl (Panicked m) \<or>
      (\<exists>s. JsonObjectOnly E s = Inl (Panicked m))"
    by (auto simp: parseInitData_def split: sum.splits if_splits)
  then show False
    using json_lawsD(6,7) [OF assms(1)] assms(2) by (metis bech32_returns_def is_panic_iff)
qed

lemma leaf_init_no_overflow:
  assumes "json_laws E" and "bech32_returns S"
  shows "MessageFilter_Initialize E config \<noteq> Inl StackOverflow" and "Cosmwasm_Initialize S E config \<noteq> Inl StackOverflow"
    and "ParseZkProofAuthenticatorConfig E config \<noteq> Inl StackOverflow"
  using json_lawsD(4,8) [OF assms(1), of config] parseInitData_returns [OF assms, of config]
  by (auto simp: MessageFilter_Initialize_def Cosmwasm_Initialize_def ParseZkProofAuthenticatorConfig_def
      split: sum.splits if_splits)

lemma Composite_no_overflow:
  assumes "json_laws E"
    and "\<And>code c. length c < length config \<Longrightarrow> f code c \<noteq> Inl StackOverflow"
  shows "Composite_Initialize E f am subs config \<noteq> Inl StackOverflow"
proof
  assume *: "Composite_Initialize E f am subs config = Inl StackOverflow"
  then obtain ds where ds: "JsonInitDatas E config = Inr ds" and "init_each f am ds = Inl StackOverflow"
    using json_lawsD(3) [OF assms(1), of config] by (auto simp: Composite_Initialize_def split: sum.splits if_splits)
  then obtain d code where "d \<in> set ds" "f code (sid_Config d) = Inl StackOverflow"
    using init_each_error [of f am ds StackOverflow] by auto
  then show False using assms(2) json_lawsD(1) [OF assms(1) ds] by blast
qed

lemma Initialize_no_overflow:
  assumes "json_laws E" and "bech32_returns S" and "length config < n"
  shows "Initialize n S E am a config \<noteq> Inl StackOverflow"
  using assms(3)
proof (induction n arbitrary: a config)
  case 0
  then show ?case by simp
next
  case (Suc n)
  have "Composite_Initialize E (Initialize n S E am) am subs config \<noteq> Inl StackOverflow" for subs
    by (rule Composite_no_overflow [OF assms(1)], rule Suc.IH) (use Suc.prems in simp)
  then show ?case
    using leaf_init_no_overflow [OF assms(1,2), of config]
    by (cases a) (auto simp: SignatureVerification_Initialize_def ZkProof_Initialize_def split: sum.splits)
qed

definition sudo_returns :: "('s, 'g) auth_env \<Rightarrow> bool" where
  "sudo_returns E \<longleftrightarrow> (\<forall>addr bz ctx. fst (ContractSudo E addr bz ctx) \<noteq> Inl StackOverflow)"

lemma sudo_with_no_overflow:
  assumes "json_laws E" and "sudo_returns E" and "\<And>e. wrap e = e \<or> wrap e = ErrInvalidRequest"
  shows "fst (sudo_with E wrap addr msg ctx) \<noteq> Inl StackOverflow"
proof -
  have m: "MarshalSudo E msg \<noteq> Inl StackOverflow" using json_lawsD(9) [OF assms(1), of msg] by auto
  have c: "fst (ContractSudo E addr bz ctx) \<noteq> Inl StackOverflow" for bz
    using assms(2) by (simp add: sudo_returns_def)
  show ?thesis
  proof (cases "MarshalSudo E msg")
    case (Inl e)
    then show ?thesis using m assms(3) [of e] by (auto simp: sudo_with_def)
  next
    case (Inr bz)
    then show ?thesis using c [of bz] by (auto simp: sudo_with_def split: prod.splits sum.splits)
  qed
qed

lemma leaf_hooks_no_overflow:
  assumes "json_laws E" and "bech32_returns S" and "sudo_returns E"
  shows "fst (Cosmwasm_OnAuthenticatorAdded S E acc config aid ctx) \<noteq> Inl StackOverflow"
    and "fst (Cosmwasm_OnAuthenticatorRemoved S E acc config aid ctx) \<noteq> Inl StackOverflow"
    and "MessageFilter_OnAuthenticatorAdded E config \<noteq> Inl StackOverflow"
  using parseInitData_returns [OF assms(1,2), of config] sudo_with_no_overflow [OF assms(1,3), of "\<lambda>_. ErrInvalidRequest"]
    json_lawsD(4,5) [OF assms(1), of config]
  by (auto simp: Cosmwasm_OnAuthenticatorAdded_def Cosmwasm_OnAuthenticatorRemoved_def
      MessageFilter_OnAuthenticatorAdded_def containsFloats_def split: sum.splits if_splits)

lemma hooks_no_overflow:
  assumes "json_laws E" and "\<And>code c aid ctx. length c < length config \<Longrightarrow> fst (f code c aid ctx) \<noteq> Inl StackOverflow"
  shows "fst (onSubAuthenticatorsAdded E f am config aid ctx) \<noteq> Inl StackOverflow"
    and "fst (onSubAuthenticatorsRemoved E f am config aid ctx) \<noteq> Inl StackOverflow"
proof -
  have "fst (on_sub_each f am aid 0 ds ctx) \<noteq> Inl StackOverflow" if "JsonInitDatas E config = Inr ds" for ds
  proof
    assume "fst (on_sub_each f am aid 0 ds ctx) = Inl StackOverflow"
    then obtain d code i c where "d \<in> set ds" "fst (f code (sid_Config d) i c) = Inl StackOverflow"
      using on_sub_each_error [of f am aid 0 ds ctx StackOverflow] by auto
    then show False using assms(2) json_lawsD(1) [OF assms(1) that] by blast
  qed
  then show "fst (onSubAuthenticatorsAdded E f am config aid ctx) \<noteq> Inl StackOverflow"
    and "fst (onSubAuthenticatorsRemoved E f am config aid ctx) \<noteq> Inl StackOverflow"
    using json_lawsD(3) [OF assms(1), of config]
    by (auto simp: onSubAuthenticatorsAdded_def onSubAuthenticatorsRemoved_def split: sum.splits)
qed

lemma Added_no_overflow:
  assumes "json_laws E" and "bech32_returns S" and "sudo_returns E" and "length config < n"
  shows "fst (OnAuthenticatorAdded n S E am acc a config aid ctx) \<noteq> Inl StackOverflow"
  using assms(4)
proof (induction n arbitrary: a config aid ctx)
  case (Suc n)
  have "fst (onSubAuthenticatorsAdded E (OnAuthenticatorAdded n S E am acc) am config aid ctx) \<noteq> Inl StackOverflow"
    by (rule hooks_no_overflow [OF assms(1)], rule Suc.IH) (use Suc.prems in simp)
  moreover have "no_value (ParseZkProofAuthenticatorConfig E config) \<noteq> Inl StackOverflow"
    using leaf_init_no_overflow(3) [OF assms(1,2)] by (auto simp: no_value_def split: sum.splits)
  ultimately show ?case
    using leaf_hooks_no_overflow [OF assms(1-3)] by (cases a) (auto simp: SignatureVerification_OnAuthenticatorAdded_def)
qed simp

lemma Removed_no_overflow:
  assumes "json_laws E" and "bech32_returns S" and "sudo_returns E" and "length config < n"
  shows "fst (OnAuthenticatorRemoved n S E am acc a config aid ctx) \<noteq> Inl StackOverflow"
  using assms(4)
proof (induction n arbitrary: a config aid ctx)
  case (Suc n)
  have "fst (onSubAuthenticatorsRemoved E (OnAuthenticatorRemoved n S E am acc) am config aid ctx) \<noteq> Inl StackOverflow"
    by (rule hooks_no_overflow [OF assms(1)], rule Suc.IH) (use Suc.prems in simp)
  then show ?case
    using leaf_hooks_no_overflow [OF assms(1-3)] by (cases a) auto
qed simp

section \<open>An instance of the library code\<close>

text \<open>
  A codec for composite configurations without quoting: parts are separated by semicolons, the type
  of a part from its configuration by a colon.
\<close>

definition ex_init_datas :: "string \<Rightarrow> SubAuthenticatorInitData list res" where
  "ex_init_datas config =
     (let ps = map (go_split CHR '':'') (go_split CHR '';'' config)
      in if list_all (\<lambda>p. length p = 2) ps
         then Inr (map (\<lambda>p. \<lparr>sid_Type = p ! 0, sid_Config = p ! 1\<rparr>) ps)
         else Inl (Plain ''invalid character''))"

definition ex_env :: "('s, u64 \<times> u64) auth_env" where
  "ex_env = \<lparr>
     GasLib = ref_gas,
     SigVerifyCostSecp256k1 = (\<lambda>_. 1000),
     VerifySignature = (\<lambda>key msg sig. sig = key),
     ResolveMsg = (\<lambda>url. Inr url),
     UnmarshalMsg = (\<lambda>bz ty. Inr bz),
     MarshalInterfaceJSON = (\<lambda>m. Inr m),
     NewDecFromStr = (\<lambda>s. None),
     JsonInitDatas = ex_init_datas,
     JsonSignatures = (\<lambda>s. Inr (go_split CHR '';'' s)),
     JsonRaw = (\<lambda>s. Inr ()),
     JsonValue = (\<lambda>s. Inr (JString s)),
     JsonObjectOnly = (\<lambda>s. Inr ()),
     JsonCwInit = (\<lambda>s. Inr \<lparr>cwi_Contract = s, cwi_Params = []\<rparr>),
     JsonZkConfig = (\<lambda>s. Inr (ZeroZkConfig\<lparr>zc_ZkID := 1\<rparr>)),
     JsonZkPayload = (\<lambda>s. Inr \<lparr>zp_Proof = s, zp_Instances = s, zp_CircuitKeyHint = []\<rparr>),
     MarshalSudo = (\<lambda>m. Inr ''sudo''),
     ContractSudo = (\<lambda>addr bz ctx. (Inr [], ctx)),
     GlobalPathAVerifier = None,
     IsReCheckTx = False\<rparr>"

lemma go_split_part_length: "p \<in> set (go_split c s) \<Longrightarrow> length p \<le> length s"
proof (induction s arbitrary: p)
  case (Cons x s)
  then show ?case by (cases "go_split c s") (force split: if_splits)+
qed simp

lemma go_split_two: "go_split c s = [a, b] \<Longrightarrow> length b < length s"
  using go_join_split [of c s] by auto

lemma ex_init_datas_shorter:
  assumes "ex_init_datas config = Inr ds" and "d \<in> set ds"
  shows "length (sid_Config d) < length config"
proof -
  obtain q where q: "q \<in> set (go_split CHR '';'' config)" and "length (go_split CHR '':'' q) = 2"
    and d: "d = \<lparr>sid_Type = go_split CHR '':'' q ! 0, sid_Config = go_split CHR '':'' q ! 1\<rparr>"
    using assms by (auto simp: ex_init_datas_def Let_def list_all_iff split: if_splits)
  then obtain a b where ab: "go_split CHR '':'' q = [a, b]"
    by (auto simp: length_Suc_conv numeral_2_eq_2)
  then have "length (sid_Config d) < length q" using d go_split_two by simp
  also have "length q \<le> length config" by (rule go_split_part_length [OF q])
  finally show ?thesis .
qed

lemma ex_env_json: "json_laws (ex_env :: ('s, u64 \<times> u64) auth_env)"
proof -
  have "\<not> is_panic (ex_init_datas config)" for config
    by (simp add: ex_init_datas_def Let_def)
  then show ?thesis
    using ex_init_datas_shorter by (simp add: json_laws_def ex_env_def)
qed

lemma ex_env_gas: "gas_laws (GasLib (ex_env :: ('s, u64 \<times> u64) auth_env))"
  by (simp add: ex_env_def ref_gas_laws)

lemma ex_env_sudo: "sudo_returns (ex_env :: ('s, u64 \<times> u64) auth_env)"
  by (simp add: sudo_returns_def ex_env_def)

lemma ledger_bech32_returns: "bech32_returns ledger_sdk"
  by (simp add: bech32_returns_def ledger_sdk_def)

definition ex_request :: AuthenticationRequest where
  "ex_request = \<lparr>AuthenticatorId = ''7'', Account = ''alice'', FeePayer = ''alice'', FeeGranter = [], Fee = [],
     Msg = \<lparr>la_TypeURL = ''/send'', la_Value = ''pay''\<rparr>, MsgIndex = 0, Signature = ''ka;kb'',
     SignModeTxData = \<lparr>smd_Direct = ''bytes'', smd_Textual = []\<rparr>,
     TxData = \<lparr>td_ChainID = ''terp'', td_AccountNumber = 1, td_AccountSequence = 0, td_TimeoutHeight = 0, td_Msgs = [], td_Memo = []\<rparr>,
     SignatureData = \<lparr>ssd_Signers = [], ssd_Signatures = []\<rparr>, Simulate = False, AuthenticatorParams = []\<rparr>"

text \<open>Both of two keys, each with its own signature, and one of two filters.\<close>

definition ex_tree :: "(unit, u64 \<times> u64) authenticator" where
  "ex_tree = AllOf Partitioned [SignatureVerification (Some ''ka''),
     AnyOf Single [MessageFilter ''stake'', SignatureVerification (Some ''kb'')]]"

definition ex_ctx :: "(unit, u64 \<times> u64) gctx" where
  "ex_ctx = \<lparr>gstore = (), meter = (100000, 0), evs = []\<rparr>"

section \<open>Properties\<close>

text \<open>
  C12.  A tree of signature and filter authenticators decides a boolean formula over its leaves: when
  authentication does not panic (out of gas), it succeeds exactly when all parts of each \<open>AllOf\<close> and
  some part of each \<open>AnyOf\<close> accept, where each part sees its own identifier and, under a partitioned
  composite, its own signature; a filter accepts exactly when its pattern matches the message.
\<close>

theorem sa_tree_decides_formula:
  assumes "gas_laws (GasLib E)" and "json_laws E" and "native a"
    and "\<not> is_panic (fst (Authenticate E a request ctx))"
  shows "is_ok (fst (Authenticate E a request ctx)) \<longleftrightarrow> accepts E a request"
  by (rule decidesD [OF Authenticate_decides [OF assms(1-3)] assms(4)])

theorem sa_tree_decides_formula_witness:
  "native ex_tree \<and> \<not> is_panic (fst (Authenticate ex_env ex_tree ex_request ex_ctx)) \<and>
   is_ok (fst (Authenticate ex_env ex_tree ex_request ex_ctx)) \<and> accepts ex_env ex_tree ex_request"
proof -
  have n: "native ex_tree" by code_simp
  have ok: "is_ok (fst (Authenticate ex_env ex_tree ex_request ex_ctx))" by code_simp
  have np: "\<not> is_panic (fst (Authenticate ex_env ex_tree ex_request ex_ctx))" by code_simp
  show ?thesis
    using n ok np sa_tree_decides_formula [OF ex_env_gas ex_env_json n np] by simp
qed

text \<open>
  C31.  Whatever bytes an account stores as configuration, the recursion through nested composites
  ends: with any depth beyond the length of the configuration, initialising and the two hooks give
  the result of the depth the keeper uses, and it is not a stack overflow.
\<close>

theorem sa_config_recursion_ends:
  assumes "json_laws E" and "bech32_returns S" and "sudo_returns E" and "length config < n"
  shows "Initialize n S E am a config = Initialize (config_depth config) S E am a config \<and>
    Initialize n S E am a config \<noteq> Inl StackOverflow \<and>
    OnAuthenticatorAdded n S E am acc a config aid ctx = OnAuthenticatorAdded (config_depth config) S E am acc a config aid ctx \<and>
    fst (OnAuthenticatorAdded n S E am acc a config aid ctx) \<noteq> Inl StackOverflow \<and>
    OnAuthenticatorRemoved n S E am acc a config aid ctx = OnAuthenticatorRemoved (config_depth config) S E am acc a config aid ctx \<and>
    fst (OnAuthenticatorRemoved n S E am acc a config aid ctx) \<noteq> Inl StackOverflow"
proof -
  have d: "length config < config_depth config" by (simp add: config_depth_def)
  show ?thesis
    using Initialize_fuel [OF assms(1,4) d, of S] Added_fuel [OF assms(1,4) d, of S] Removed_fuel [OF assms(1,4) d, of S]
      Initialize_no_overflow [OF assms(1,2,4)] Added_no_overflow [OF assms] Removed_no_overflow [OF assms]
    by simp
qed

definition ex_config :: string where "ex_config = ''MessageFilter:pay;AnyOf:x''"

theorem sa_config_recursion_ends_witness:
  "Initialize 40 ledger_sdk ex_env (app_authenticators :: (unit, u64 \<times> u64) AuthenticatorManager) NewAllOf ex_config = Inl (Plain ''invalid character'') \<and>
   Initialize 40 ledger_sdk ex_env (app_authenticators :: (unit, u64 \<times> u64) AuthenticatorManager) NewAllOf ex_config =
   Initialize (config_depth ex_config) ledger_sdk ex_env app_authenticators NewAllOf ex_config"
proof -
  have len: "length ex_config < 40" by code_simp
  have "case Initialize 40 ledger_sdk ex_env (app_authenticators :: (unit, u64 \<times> u64) AuthenticatorManager) NewAllOf ex_config of
      Inl e \<Rightarrow> e = Plain ''invalid character'' | Inr _ \<Rightarrow> False"
    by code_simp
  then have "Initialize 40 ledger_sdk ex_env (app_authenticators :: (unit, u64 \<times> u64) AuthenticatorManager) NewAllOf ex_config
      = Inl (Plain ''invalid character'')"
    by (simp split: sum.splits)
  then show ?thesis
    using sa_config_recursion_ends [OF ex_env_json ledger_bech32_returns ex_env_sudo len,
      of "app_authenticators :: (unit, u64 \<times> u64) AuthenticatorManager" NewAllOf] by simp
qed

text \<open>
  C32.  What comes out of initialising a registered type has that type, every node of the tree is of a
  registered type, and every composite in it has at least two parts; so authenticating never meets
  an empty composite.
\<close>

theorem sa_initialized_well_typed:
  assumes "manager_wf am" and "GetAuthenticatorByType am ty = Some a" and "Initialize n S E am a config = Inr b"
  shows "auth_Type b = ty \<and> well_typed am b"
  by (rule Initialize_typed [OF assms])

definition ex_sub_config :: string where "ex_sub_config = ''MessageFilter:pay;SignatureVerification:ka''"

theorem sa_initialized_well_typed_witness:
  "\<exists>a b. GetAuthenticatorByType (app_authenticators :: (unit, u64 \<times> u64) AuthenticatorManager) ''AnyOf'' = Some a \<and>
     Initialize 3 ledger_sdk ex_env app_authenticators a ex_sub_config = Inr b \<and>
     auth_Type b = ''AnyOf'' \<and> well_typed app_authenticators b"
proof -
  let ?am = "app_authenticators :: (unit, u64 \<times> u64) AuthenticatorManager"
  have "case GetAuthenticatorByType ?am ''AnyOf'' of
      None \<Rightarrow> False | Some a \<Rightarrow> is_ok (Initialize 3 ledger_sdk ex_env ?am a ex_sub_config)"
    by code_simp
  then obtain a b where g: "GetAuthenticatorByType ?am ''AnyOf'' = Some a"
    and i: "Initialize 3 ledger_sdk ex_env ?am a ex_sub_config = Inr b"
    by (auto simp: is_ok_iff split: option.splits)
  show ?thesis
    using g i sa_initialized_well_typed [OF app_authenticators_wf g i] by blast
qed

end
