(* ===== verification/SmartAccount.thy ===== *)
theory SmartAccount
  imports AuthTrees
begin

text \<open>
  Module \<open>x/smart-account\<close>, keeper side: accounts add and remove authenticators, a circuit breaker
  switches the module off, genesis exports and restores.  The store holds the parameters, the next
  authenticator id, and one entry per authenticator under the account and the id.  Adding and
  removing call the authenticator, which may run a contract, so those operations work on a context.
\<close>

section \<open>Keys and values\<close>

definition KeySeparator :: char where "KeySeparator = CHR ''|''"

text \<open>\<open>fmt.Sprint\<close> of a byte slice: decimal bytes between brackets, separated by blanks.\<close>

definition sprint_bytes :: "string \<Rightarrow> string" where
  "sprint_bytes bs = ''['' @ go_join CHR '' '' (map (\<lambda>c. go_itoa (of_char c)) bs) @ '']''"

definition KeyNextAccountAuthenticatorIdPrefix :: string where "KeyNextAccountAuthenticatorIdPrefix = [CHR 0x01]"
definition KeyAccountAuthenticatorsPrefix :: string where "KeyAccountAuthenticatorsPrefix = [CHR 0x02]"
definition SAParamsKey :: string where "SAParamsKey = [CHR 0x00]"

text \<open>The elements are given as \<open>fmt.Sprint\<close> prints them.\<close>

definition BuildKey :: "string list \<Rightarrow> string" where
  "BuildKey elements = go_join KeySeparator elements @ [KeySeparator]"

definition FormatUint :: "u64 \<Rightarrow> string" where "FormatUint n = go_itoa (uint n)"

definition KeyAccount :: "'w sdk \<Rightarrow> string \<Rightarrow> string" where
  "KeyAccount S account = BuildKey [sprint_bytes KeyAccountAuthenticatorsPrefix, AccAddressString S account]"

definition KeyAccountId :: "'w sdk \<Rightarrow> string \<Rightarrow> u64 \<Rightarrow> string" where
  "KeyAccountId S account n =
     BuildKey [sprint_bytes KeyAccountAuthenticatorsPrefix, AccAddressString S account, FormatUint n]"

definition KeyNextAccountAuthenticatorId :: string where
  "KeyNextAccountAuthenticatorId = BuildKey [sprint_bytes KeyNextAccountAuthenticatorIdPrefix]"

definition KeyAccountAuthenticatorsPrefixId :: string where
  "KeyAccountAuthenticatorsPrefixId = BuildKey [sprint_bytes KeyAccountAuthenticatorsPrefix]"

record SAParams =
  MaximumUnauthenticatedGas :: u64
  IsSmartAccountActive :: bool
  CircuitBreakerControllers :: "string list"

record AccountAuthenticator =
  aa_Id :: u64
  aa_Type :: string
  aa_Config :: string

datatype sa_val = SAParamsVal SAParams | SANextId u64 | SAAuth AccountAuthenticator

type_synonym sa_store = "sa_val kv"
type_synonym 'w sa_chain = "sa_store \<times> 'w"
type_synonym ('w, 'g) sa_ctx = "('w sa_chain, 'g) gctx"

definition on_store :: "(sa_store \<Rightarrow> sa_store) \<Rightarrow> ('w, 'g) sa_ctx \<Rightarrow> ('w, 'g) sa_ctx" where
  "on_store f ctx = ctx\<lparr>gstore := (f (fst (gstore ctx)), snd (gstore ctx))\<rparr>"

text \<open>
  \<open>Get\<close> reports whether the key is present and decodes the value; a value of another kind under the
  key fails to decode.
\<close>

definition sa_Get :: "(sa_val \<Rightarrow> 'a option) \<Rightarrow> sa_store \<Rightarrow> string \<Rightarrow> 'a option res" where
  "sa_Get decode st key =
     (case kv_get st key of
        None \<Rightarrow> Inr None
      | Some b \<Rightarrow> (case decode b of None \<Rightarrow> Inl (Plain ''unmarshal'') | Some v \<Rightarrow> Inr (Some v)))"

definition MustSet :: "string \<Rightarrow> sa_val \<Rightarrow> sa_store \<Rightarrow> sa_store" where "MustSet key v st = kv_set key v st"

fun decode_auth :: "sa_val \<Rightarrow> AccountAuthenticator option" where
  "decode_auth (SAAuth a) = Some a"
| "decode_auth _ = None"

fun decode_next :: "sa_val \<Rightarrow> u64 option" where
  "decode_next (SANextId n) = Some n"
| "decode_next _ = None"

fun gatherValuesFromIterator :: "('v \<Rightarrow> 'a res) \<Rightarrow> (string \<times> 'v) list \<Rightarrow> 'a list res" where
  "gatherValuesFromIterator parse [] = Inr []"
| "gatherValuesFromIterator parse ((k, b) # es) =
     (case parse b of
        Inl e \<Rightarrow> Inl e
      | Inr v \<Rightarrow> (case gatherValuesFromIterator parse es of Inl e \<Rightarrow> Inl e | Inr vs \<Rightarrow> Inr (v # vs)))"

definition GatherValuesFromStorePrefix :: "sa_store \<Rightarrow> string \<Rightarrow> (sa_val \<Rightarrow> 'a res) \<Rightarrow> 'a list res" where
  "GatherValuesFromStorePrefix st p parse = gatherValuesFromIterator parse (kv_scan p st)"

section \<open>Parameters\<close>

definition SANewParams :: SAParams where
  "SANewParams = \<lparr>MaximumUnauthenticatedGas = 120000, IsSmartAccountActive = True, CircuitBreakerControllers = []\<rparr>"

definition SADefaultParams :: SAParams where "SADefaultParams = SANewParams"

definition validateCircuitBreakerControllers :: "'w sdk \<Rightarrow> string list \<Rightarrow> unit res" where
  "validateCircuitBreakerControllers S controllers =
     first_error (map (\<lambda>addr. as_error (Plain ''invalid address'') (no_value (AccAddressFromBech32 S addr))) controllers)"

text \<open>The other two validators only assert the Go type of the field.\<close>

definition SAParamsValidate :: "'w sdk \<Rightarrow> SAParams \<Rightarrow> unit res" where
  "SAParamsValidate S p = validateCircuitBreakerControllers S (CircuitBreakerControllers p)"

definition HasModuleParams :: "sa_store \<Rightarrow> bool" where "HasModuleParams st = kv_has st SAParamsKey"

definition SAGetParams :: "sa_store \<Rightarrow> SAParams" where
  "SAGetParams st =
     (case kv_get st SAParamsKey of
        None \<Rightarrow> SADefaultParams
      | Some (SAParamsVal p) \<Rightarrow> p
      | Some _ \<Rightarrow> SADefaultParams)"

definition SASetParams :: "'w sdk \<Rightarrow> SAParams \<Rightarrow> sa_store \<Rightarrow> unit res \<times> sa_store" where
  "SASetParams S p st =
     (case SAParamsValidate S p of
        Inl e \<Rightarrow> (Inl (Panicked ''invalid params''), st)
      | Inr _ \<Rightarrow> (Inr (), kv_set SAParamsKey (SAParamsVal p) st))"

definition GetIsSmartAccountActive :: "sa_store \<Rightarrow> bool" where
  "GetIsSmartAccountActive st = IsSmartAccountActive (SAGetParams st)"

section \<open>The keeper\<close>

record ('w, 'g) sa_keeper =
  CircuitBreakerGovernor :: string
  AuthManager :: "('w sa_chain, 'g) AuthenticatorManager"

definition unmarshalAccountAuthenticator :: "sa_val \<Rightarrow> AccountAuthenticator res" where
  "unmarshalAccountAuthenticator b =
     (case decode_auth b of None \<Rightarrow> Inl (Plain ''failed to unmarshal account authenticator'') | Some a \<Rightarrow> Inr a)"

definition GetAuthenticatorDataForAccount :: "'w sdk \<Rightarrow> string \<Rightarrow> sa_store \<Rightarrow> AccountAuthenticator list res" where
  "GetAuthenticatorDataForAccount S account st =
     GatherValuesFromStorePrefix st (KeyAccount S account) unmarshalAccountAuthenticator"

definition GetSelectedAuthenticatorData :: "'w sdk \<Rightarrow> string \<Rightarrow> u64 \<Rightarrow> sa_store \<Rightarrow> AccountAuthenticator res" where
  "GetSelectedAuthenticatorData S account selected st =
     (case kv_get st (KeyAccountId S account selected) of
        None \<Rightarrow> Inl ErrInvalidRequest
      | Some bz \<Rightarrow> unmarshalAccountAuthenticator bz)"

record ('s, 'g) InitializedAuthenticator =
  ia_Id :: u64
  ia_Authenticator :: "('s, 'g) authenticator"

text \<open>
  The authenticators of the repository never return nil without an error from \<open>Initialize\<close>, so
  the branch for nil is that of the error.
\<close>

definition GetInitializedAuthenticatorForAccount ::
  "'w sdk \<Rightarrow> ('w sa_chain, 'g) auth_env \<Rightarrow> ('w, 'g) sa_keeper \<Rightarrow> string \<Rightarrow> u64 \<Rightarrow> sa_store \<Rightarrow>
   ('w sa_chain, 'g) InitializedAuthenticator res" where
  "GetInitializedAuthenticatorForAccount S E K account selected st =
     (case GetSelectedAuthenticatorData S account selected st of
        Inl e \<Rightarrow> Inl e
      | Inr fromStore \<Rightarrow>
     (case GetAuthenticatorByType (AuthManager K) (aa_Type fromStore) of
        None \<Rightarrow> Inl ErrLogic
      | Some uninitialized \<Rightarrow>
     (case Initialize (config_depth (aa_Config fromStore)) S E (AuthManager K) uninitialized (aa_Config fromStore) of
        Inl e \<Rightarrow> Inl e
      | Inr a \<Rightarrow> Inr \<lparr>ia_Id = aa_Id fromStore, ia_Authenticator = a\<rparr>)))"

definition FirstAuthenticatorId :: u64 where "FirstAuthenticatorId = 1"

definition SetNextAuthenticatorId :: "u64 \<Rightarrow> sa_store \<Rightarrow> sa_store" where
  "SetNextAuthenticatorId n st = MustSet KeyNextAccountAuthenticatorId (SANextId n) st"

definition InitializeOrGetNextAuthenticatorId :: "sa_store \<Rightarrow> u64 res \<times> sa_store" where
  "InitializeOrGetNextAuthenticatorId st =
     (case sa_Get decode_next st KeyNextAccountAuthenticatorId of
        Inl e \<Rightarrow> (Inl (Panicked ''unmarshal''), st)
      | Inr None \<Rightarrow> (Inr FirstAuthenticatorId, SetNextAuthenticatorId FirstAuthenticatorId st)
      | Inr (Some n) \<Rightarrow> (Inr n, st))"

definition AddAuthenticator ::
  "'w sdk \<Rightarrow> ('w sa_chain, 'g) auth_env \<Rightarrow> ('w, 'g) sa_keeper \<Rightarrow> string \<Rightarrow> string \<Rightarrow> string \<Rightarrow>
   ('w, 'g) sa_ctx \<Rightarrow> u64 res \<times> ('w, 'g) sa_ctx" where
  "AddAuthenticator S E K account authenticatorType config ctx =
     (case GetAuthenticatorByType (AuthManager K) authenticatorType of
        None \<Rightarrow> (Inl (Plain ''authenticator type is not registered''), ctx)
      | Some impl \<Rightarrow>
     (case InitializeOrGetNextAuthenticatorId (fst (gstore ctx)) of
        (Inl p, st1) \<Rightarrow> (Inl p, on_store (\<lambda>_. st1) ctx)
      | (Inr n, st1) \<Rightarrow>
     (case OnAuthenticatorAdded (config_depth config) S E (AuthManager K) account impl config (FormatUint n)
             (on_store (\<lambda>_. st1) ctx) of
        (Inl e, ctx2) \<Rightarrow> (Inl e, ctx2)
      | (Inr _, ctx2) \<Rightarrow>
          (Inr n, on_store (\<lambda>st. MustSet (KeyAccountId S account n) (SAAuth \<lparr>aa_Id = n, aa_Type = authenticatorType, aa_Config = config\<rparr>)
             (SetNextAuthenticatorId (n + 1) st)) ctx2))))"

definition RemoveAuthenticator ::
  "'w sdk \<Rightarrow> ('w sa_chain, 'g) auth_env \<Rightarrow> ('w, 'g) sa_keeper \<Rightarrow> string \<Rightarrow> u64 \<Rightarrow>
   ('w, 'g) sa_ctx \<Rightarrow> unit res \<times> ('w, 'g) sa_ctx" where
  "RemoveAuthenticator S E K account authenticatorId ctx =
     (let key = KeyAccountId S account authenticatorId
      in case sa_Get decode_auth (fst (gstore ctx)) key of
           Inl e \<Rightarrow> (Inl e, ctx)
         | Inr None \<Rightarrow> (Inl (Plain ''authenticator does not exist''), ctx)
         | Inr (Some existing) \<Rightarrow>
        (case GetAuthenticatorByType (AuthManager K) (aa_Type existing) of
           None \<Rightarrow> (Inl (Plain ''authenticator type is not registered''), ctx)
         | Some impl \<Rightarrow>
        (case OnAuthenticatorRemoved (config_depth (aa_Config existing)) S E (AuthManager K) account impl (aa_Config existing)
                (FormatUint authenticatorId) ctx of
           (Inl e, ctx1) \<Rightarrow> (Inl e, ctx1)
         | (Inr _, ctx1) \<Rightarrow> (Inr (), on_store (kv_del key) ctx1))))"

definition SASetActiveState :: "'w sdk \<Rightarrow> bool \<Rightarrow> sa_store \<Rightarrow> unit res \<times> sa_store" where
  "SASetActiveState S active st = SASetParams S ((SAGetParams st)\<lparr>IsSmartAccountActive := active\<rparr>) st"

section \<open>Messages\<close>

record MsgAddAuthenticator =
  add_Sender :: string
  add_AuthenticatorType :: string
  add_Data :: string

record MsgRemoveAuthenticator =
  rem_Sender :: string
  rem_Id :: u64

record MsgSetActiveState =
  act_Sender :: string
  act_Active :: bool

definition validateSender :: "'w sdk \<Rightarrow> string \<Rightarrow> unit res" where
  "validateSender S sender = as_error (Plain ''invalid sender address'') (no_value (AccAddressFromBech32 S sender))"

definition getSender :: "'w sdk \<Rightarrow> string \<Rightarrow> string list res" where
  "getSender S sender =
     (case AccAddressFromBech32 S sender of Inl e \<Rightarrow> Inl (Panicked ''invalid address'') | Inr addr \<Rightarrow> Inr [addr])"

definition AddAuthenticatorMsg ::
  "'w sdk \<Rightarrow> ('w sa_chain, 'g) auth_env \<Rightarrow> ('w, 'g) sa_keeper \<Rightarrow> MsgAddAuthenticator \<Rightarrow>
   ('w, 'g) sa_ctx \<Rightarrow> u64 res \<times> ('w, 'g) sa_ctx" where
  "AddAuthenticatorMsg S E K msg ctx =
     (if \<not> GetIsSmartAccountActive (fst (gstore ctx)) then (Inl ErrUnauthorized, ctx)
      else case AccAddressFromBech32 S (add_Sender msg) of
        Inl e \<Rightarrow> (Inl e, ctx)
      | Inr sender \<Rightarrow>
     (case AddAuthenticator S E K sender (add_AuthenticatorType msg) (add_Data msg) ctx of
        (Inl e, ctx1) \<Rightarrow> (Inl e, ctx1)
      | (Inr n, ctx1) \<Rightarrow>
          (Inr n, EmitEvents [NewEvent ''message'' [(''module'', ''smartaccount''), (''sender'', add_Sender msg),
             (''authenticator_type'', add_AuthenticatorType msg), (''authenticator_id'', FormatUint n)]] ctx1)))"

definition RemoveAuthenticatorMsg ::
  "'w sdk \<Rightarrow> ('w sa_chain, 'g) auth_env \<Rightarrow> ('w, 'g) sa_keeper \<Rightarrow> MsgRemoveAuthenticator \<Rightarrow>
   ('w, 'g) sa_ctx \<Rightarrow> unit res \<times> ('w, 'g) sa_ctx" where
  "RemoveAuthenticatorMsg S E K msg ctx =
     (if \<not> GetIsSmartAccountActive (fst (gstore ctx)) then (Inl ErrUnauthorized, ctx)
      else case AccAddressFromBech32 S (rem_Sender msg) of
        Inl e \<Rightarrow> (Inl e, ctx)
      | Inr sender \<Rightarrow> RemoveAuthenticator S E K sender (rem_Id msg) ctx)"

definition GoBool :: "bool \<Rightarrow> string" where "GoBool b = (if b then ''true'' else ''false'')"

definition SetActiveStateMsg ::
  "'w sdk \<Rightarrow> ('w, 'g) sa_keeper \<Rightarrow> MsgSetActiveState \<Rightarrow> ('w, 'g) sa_ctx \<Rightarrow> unit res \<times> ('w, 'g) sa_ctx" where
  "SetActiveStateMsg S K msg ctx =
     (case getSender S (act_Sender msg) of
        Inl p \<Rightarrow> (Inl p, ctx)
      | Inr signers \<Rightarrow>
         (let signer = hd signers in
          if act_Active msg \<and> signer \<noteq> CircuitBreakerGovernor K then (Inl ErrUnauthorized, ctx)
          else if \<not> act_Active msg \<and>
            \<not> list_ex (\<lambda>controller. controller = AccAddressString S signer)
                (CircuitBreakerControllers (SAGetParams (fst (gstore ctx))))
          then (Inl ErrUnauthorized, ctx)
          else case SASetActiveState S (act_Active msg) (fst (gstore ctx)) of
            (Inl p, st) \<Rightarrow> (Inl p, on_store (\<lambda>_. st) ctx)
          | (Inr _, st) \<Rightarrow>
              (Inr (), EmitEvents [NewEvent ''message'' [(''module'', ''smartaccount''), (''sender'', act_Sender msg),
                 (''is_smart_account_active'', GoBool (act_Active msg))]] (on_store (\<lambda>_. st) ctx))))"

section \<open>Queries and genesis\<close>

definition GetAuthenticators :: "'w sdk \<Rightarrow> string option \<Rightarrow> sa_store \<Rightarrow> AccountAuthenticator list res" where
  "GetAuthenticators S request st =
     (case request of
        None \<Rightarrow> Inl (Plain ''empty request'')
      | Some account \<Rightarrow>
     (case AccAddressFromBech32 S account of
        Inl e \<Rightarrow> Inl (Plain ''internal'')
      | Inr acc \<Rightarrow>
     (case GetAuthenticatorDataForAccount S acc st of Inl e \<Rightarrow> Inl (Plain ''internal'') | Inr as \<Rightarrow> Inr as)))"

definition GetAuthenticator :: "'w sdk \<Rightarrow> (string \<times> u64) option \<Rightarrow> sa_store \<Rightarrow> AccountAuthenticator res" where
  "GetAuthenticator S request st =
     (case request of
        None \<Rightarrow> Inl (Plain ''empty request'')
      | Some (account, n) \<Rightarrow>
     (case AccAddressFromBech32 S account of
        Inl e \<Rightarrow> Inl (Plain ''internal'')
      | Inr acc \<Rightarrow>
     (case GetSelectedAuthenticatorData S acc n st of Inl e \<Rightarrow> Inl (Plain ''internal'') | Inr a \<Rightarrow> Inr a)))"

definition QuerySAParams :: "sa_store \<Rightarrow> SAParams" where "QuerySAParams st = SAGetParams st"

record AuthenticatorData =
  ad_Address :: string
  ad_Authenticators :: "AccountAuthenticator list"

record sa_genesis =
  sg_Params :: SAParams
  sg_NextAuthenticatorId :: u64
  sg_AuthenticatorData :: "AuthenticatorData list"

definition SADefaultIndex :: u64 where "SADefaultIndex = 0"

definition SADefaultGenesis :: sa_genesis where
  "SADefaultGenesis = \<lparr>sg_Params = SADefaultParams, sg_NextAuthenticatorId = SADefaultIndex, sg_AuthenticatorData = []\<rparr>"

definition SAGenesisValidate :: "'w sdk \<Rightarrow> sa_genesis \<Rightarrow> unit res" where
  "SAGenesisValidate S g = SAParamsValidate S (sg_Params g)"

text \<open>One step of the export: an entry extends the data of the last address or starts a new one.\<close>

definition collect_data :: "string \<Rightarrow> AccountAuthenticator \<Rightarrow> AuthenticatorData list \<Rightarrow> AuthenticatorData list" where
  "collect_data accountAddr a acc =
     (if length acc = 0 \<or> ad_Address (last acc) \<noteq> accountAddr
      then acc @ [\<lparr>ad_Address = accountAddr, ad_Authenticators = [a]\<rparr>]
      else butlast acc @ [(last acc)\<lparr>ad_Authenticators := ad_Authenticators (last acc) @ [a]\<rparr>])"

text \<open>The address is the second part of the key; every key below the prefix has one.\<close>

fun export_entries :: "(string \<times> sa_val) list \<Rightarrow> AuthenticatorData list \<Rightarrow> AuthenticatorData list res" where
  "export_entries [] acc = Inr acc"
| "export_entries ((key, b) # es) acc =
     (case unmarshalAccountAuthenticator b of
        Inl e \<Rightarrow> Inl e
      | Inr a \<Rightarrow> export_entries es (collect_data (go_split KeySeparator key ! 1) a acc))"

definition GetAllAuthenticatorData :: "sa_store \<Rightarrow> AuthenticatorData list res" where
  "GetAllAuthenticatorData st = export_entries (filter (\<lambda>e. prefix KeyAccountAuthenticatorsPrefixId (fst e)) st) []"

definition AddAuthenticatorWithId ::
  "'w sdk \<Rightarrow> ('w sa_chain, 'g) auth_env \<Rightarrow> ('w, 'g) sa_keeper \<Rightarrow> string \<Rightarrow> string \<Rightarrow> string \<Rightarrow> u64 \<Rightarrow>
   ('w, 'g) sa_ctx \<Rightarrow> unit res \<times> ('w, 'g) sa_ctx" where
  "AddAuthenticatorWithId S E K account authenticatorType config n ctx =
     (case GetAuthenticatorByType (AuthManager K) authenticatorType of
        None \<Rightarrow> (Inl (Plain ''authenticator type is not registered''), ctx)
      | Some impl \<Rightarrow>
     (case OnAuthenticatorAdded (config_depth config) S E (AuthManager K) account impl config (FormatUint n) (CacheContext ctx) of
        (Inl e, cacheCtx) \<Rightarrow> (Inl e, drop_cache ctx cacheCtx)
      | (Inr _, cacheCtx) \<Rightarrow>
          (Inr (), on_store (MustSet (KeyAccountId S account n) (SAAuth \<lparr>aa_Id = n, aa_Type = authenticatorType, aa_Config = config\<rparr>))
             (drop_cache ctx cacheCtx))))"

fun import_authenticators ::
  "'w sdk \<Rightarrow> ('w sa_chain, 'g) auth_env \<Rightarrow> ('w, 'g) sa_keeper \<Rightarrow> string \<Rightarrow> AccountAuthenticator list \<Rightarrow>
   ('w, 'g) sa_ctx \<Rightarrow> unit res \<times> ('w, 'g) sa_ctx" where
  "import_authenticators S E K acc [] ctx = (Inr (), ctx)"
| "import_authenticators S E K acc (a # as) ctx =
     (case AddAuthenticatorWithId S E K acc (aa_Type a) (aa_Config a) (aa_Id a) ctx of
        (Inl e, ctx1) \<Rightarrow> (Inl (Panicked ''genesis authenticator''), ctx1)
      | (Inr _, ctx1) \<Rightarrow> import_authenticators S E K acc as ctx1)"

fun import_data ::
  "'w sdk \<Rightarrow> ('w sa_chain, 'g) auth_env \<Rightarrow> ('w, 'g) sa_keeper \<Rightarrow> AuthenticatorData list \<Rightarrow>
   ('w, 'g) sa_ctx \<Rightarrow> unit res \<times> ('w, 'g) sa_ctx" where
  "import_data S E K [] ctx = (Inr (), ctx)"
| "import_data S E K (d # ds) ctx =
     (case AccAddressFromBech32 S (ad_Address d) of
        Inl e \<Rightarrow> (Inl (Panicked ''genesis address''), ctx)
      | Inr accAddr \<Rightarrow>
     (case import_authenticators S E K accAddr (ad_Authenticators d) ctx of
        (Inl p, ctx1) \<Rightarrow> (Inl p, ctx1)
      | (Inr _, ctx1) \<Rightarrow> import_data S E K ds ctx1))"

definition SAInitGenesis ::
  "'w sdk \<Rightarrow> ('w sa_chain, 'g) auth_env \<Rightarrow> ('w, 'g) sa_keeper \<Rightarrow> sa_genesis \<Rightarrow>
   ('w, 'g) sa_ctx \<Rightarrow> unit res \<times> ('w, 'g) sa_ctx" where
  "SAInitGenesis S E K g ctx =
     (case SASetParams S (sg_Params g) (fst (gstore ctx)) of
        (Inl p, st) \<Rightarrow> (Inl p, on_store (\<lambda>_. st) ctx)
      | (Inr _, st) \<Rightarrow>
         (let next_id = (if sg_NextAuthenticatorId g = 0 then FirstAuthenticatorId else sg_NextAuthenticatorId g)
          in import_data S E K (sg_AuthenticatorData g) (on_store (\<lambda>_. SetNextAuthenticatorId next_id st) ctx)))"

definition SAExportGenesis :: "sa_store \<Rightarrow> sa_genesis res \<times> sa_store" where
  "SAExportGenesis st =
     (case InitializeOrGetNextAuthenticatorId st of
        (Inl p, st1) \<Rightarrow> (Inl p, st1)
      | (Inr n, st1) \<Rightarrow>
     (case GetAllAuthenticatorData st1 of
        Inl e \<Rightarrow> (Inl (Panicked ''export''), st1)
      | Inr ds \<Rightarrow> (Inr \<lparr>sg_Params = SAGetParams st, sg_NextAuthenticatorId = n, sg_AuthenticatorData = ds\<rparr>, st1)))"

section \<open>Keys\<close>

lemma sprint_prefixes:
  "sprint_bytes KeyAccountAuthenticatorsPrefix = ''[2]''" "sprint_bytes KeyNextAccountAuthenticatorIdPrefix = ''[1]''"
  by code_simp+

lemma key_forms:
  "KeyAccountId S acc n = ''[2]|'' @ AccAddressString S acc @ CHR ''|'' # FormatUint n @ ''|''"
  "KeyAccount S acc = ''[2]|'' @ AccAddressString S acc @ ''|''"
  "KeyNextAccountAuthenticatorId = ''[1]|''" "KeyAccountAuthenticatorsPrefixId = ''[2]|''"
  by (simp_all add: KeyAccountId_def KeyAccount_def KeyNextAccountAuthenticatorId_def KeyAccountAuthenticatorsPrefixId_def
      BuildKey_def KeySeparator_def sprint_prefixes)

lemma FormatUint_inj [simp]: "FormatUint a = FormatUint b \<longleftrightarrow> a = b"
  by (simp add: FormatUint_def go_itoa_def dec_digits_inj word_unat_eq_iff)

lemma FormatUint_no_sep [simp]: "CHR ''|'' \<notin> set (FormatUint n)"
  using dec_digits_chars [of "CHR ''|''" "unat n"] by (auto simp: FormatUint_def go_itoa_def)

lemma KeyAccountId_eq_iff:
  "KeyAccountId S a n = KeyAccountId S b m \<longleftrightarrow> AccAddressString S a = AccAddressString S b \<and> n = m"
proof
  assume "KeyAccountId S a n = KeyAccountId S b m"
  then have "AccAddressString S a @ CHR ''|'' # FormatUint n = AccAddressString S b @ CHR ''|'' # FormatUint m"
    by (simp add: key_forms)
  from sep_append_inj_right [OF _ _ this] show "AccAddressString S a = AccAddressString S b \<and> n = m" by simp
qed (simp add: KeyAccountId_def)

lemma key_kinds [simp]:
  "KeyAccountId S a n \<noteq> KeyNextAccountAuthenticatorId" "KeyNextAccountAuthenticatorId \<noteq> KeyAccountId S a n"
  "KeyAccountId S a n \<noteq> SAParamsKey" "SAParamsKey \<noteq> KeyAccountId S a n"
  "SAParamsKey \<noteq> KeyNextAccountAuthenticatorId" "KeyNextAccountAuthenticatorId \<noteq> SAParamsKey"
  by (simp_all add: key_forms SAParamsKey_def)

section \<open>The invariant of the store\<close>

definition next_id :: "sa_store \<Rightarrow> u64" where
  "next_id st = (case kv_get st KeyNextAccountAuthenticatorId of Some (SANextId n) \<Rightarrow> n | _ \<Rightarrow> FirstAuthenticatorId)"

text \<open>
  Every key holds a value of its kind, an authenticator is stored under its own id, which is below
  the next id, and no two entries have the same id.
\<close>

fun key_kind :: "'w sdk \<Rightarrow> string \<Rightarrow> sa_val \<Rightarrow> bool" where
  "key_kind S k (SAParamsVal p) = (k = SAParamsKey)"
| "key_kind S k (SANextId n) = (k = KeyNextAccountAuthenticatorId)"
| "key_kind S k (SAAuth a) = (\<exists>acc. k = KeyAccountId S acc (aa_Id a))"

definition sa_inv :: "'w sdk \<Rightarrow> sa_store \<Rightarrow> bool" where
  "sa_inv S st \<longleftrightarrow> kv_wf st \<and>
     (\<forall>k v. kv_get st k = Some v \<longrightarrow> key_kind S k v) \<and>
     (\<forall>k a. kv_get st k = Some (SAAuth a) \<longrightarrow> aa_Id a < next_id st) \<and>
     (\<forall>k k' a a'. kv_get st k = Some (SAAuth a) \<longrightarrow> kv_get st k' = Some (SAAuth a') \<longrightarrow> aa_Id a = aa_Id a' \<longrightarrow> k = k')"

lemma sa_invD:
  assumes "sa_inv S st"
  shows "kv_wf st"
    and "kv_get st k = Some (SAAuth a) \<Longrightarrow> aa_Id a < next_id st"
    and "kv_get st k = Some v \<Longrightarrow> key_kind S k v"
    and "kv_get st k = Some (SAAuth a) \<Longrightarrow> kv_get st k' = Some (SAAuth a') \<Longrightarrow> aa_Id a = aa_Id a' \<Longrightarrow> k = k'"
  using assms unfolding sa_inv_def by blast+

lemma sa_inv_kinds:
  assumes "sa_inv S st"
  shows "kv_get st KeyNextAccountAuthenticatorId = Some v \<Longrightarrow> v = SANextId (next_id st)"
    and "kv_get st SAParamsKey = Some v \<Longrightarrow> \<exists>p. v = SAParamsVal p"
    and "kv_get st (KeyAccountId S acc n) = Some v \<Longrightarrow> \<exists>a. v = SAAuth a \<and> aa_Id a = n"
proof -
  show "v = SANextId (next_id st)" if "kv_get st KeyNextAccountAuthenticatorId = Some v"
    using sa_invD(3) [OF assms that] that by (cases v) (auto simp: next_id_def)
  show "\<exists>p. v = SAParamsVal p" if "kv_get st SAParamsKey = Some v"
    using sa_invD(3) [OF assms that] by (cases v) auto
  show "\<exists>a. v = SAAuth a \<and> aa_Id a = n" if "kv_get st (KeyAccountId S acc n) = Some v"
    using sa_invD(3) [OF assms that] by (cases v) (auto simp: KeyAccountId_eq_iff)
qed

lemma InitializeOrGet_inv:
  assumes "sa_inv S st"
  shows "\<exists>st1. InitializeOrGetNextAuthenticatorId st = (Inr (next_id st), st1) \<and> sa_inv S st1 \<and>
    next_id st1 = next_id st \<and> (\<forall>k. k \<noteq> KeyNextAccountAuthenticatorId \<longrightarrow> kv_get st1 k = kv_get st k)"
proof (cases "kv_get st KeyNextAccountAuthenticatorId")
  case None
  then show ?thesis
    using assms
    by (auto simp: InitializeOrGetNextAuthenticatorId_def sa_Get_def SetNextAuthenticatorId_def MustSet_def next_id_def
        sa_inv_def kv_simps split: if_splits sa_val.splits)
next
  case (Some v)
  then show ?thesis
    using assms sa_inv_kinds(1) [OF assms Some] by (simp add: InitializeOrGetNextAuthenticatorId_def sa_Get_def)
qed

text \<open>Storing a new authenticator under the next id and moving the next id on keeps the invariant.\<close>

lemma sa_inv_add:
  assumes "sa_inv S st" and "n = next_id st" and "n < n + 1" and "aa_Id a = n"
  shows "sa_inv S (MustSet (KeyAccountId S acc n) (SAAuth a) (SetNextAuthenticatorId (n + 1) st))"
    and "next_id (MustSet (KeyAccountId S acc n) (SAAuth a) (SetNextAuthenticatorId (n + 1) st)) = n + 1"
proof -
  let ?st = "MustSet (KeyAccountId S acc n) (SAAuth a) (SetNextAuthenticatorId (n + 1) st)"
  have get: "kv_get ?st = (kv_get st)(KeyNextAccountAuthenticatorId \<mapsto> SANextId (n + 1), KeyAccountId S acc n \<mapsto> SAAuth a)"
    by (simp add: MustSet_def SetNextAuthenticatorId_def kv_simps)
  show nx: "next_id ?st = n + 1"
    by (simp add: next_id_def get)
  have lt: "aa_Id b < n" if "kv_get st k = Some (SAAuth b)" for k b
    using sa_invD(2) [OF assms(1) that] assms(2) by simp
  show "sa_inv S ?st"
    unfolding sa_inv_def
  proof (intro conjI allI impI)
    show "kv_wf ?st" using sa_invD(1) [OF assms(1)] by (simp add: MustSet_def SetNextAuthenticatorId_def kv_simps)
    show "key_kind S k v" if "kv_get ?st k = Some v" for k v
      using that sa_invD(3) [OF assms(1), of k v] assms(4) unfolding get by (auto split: if_splits)
    show "aa_Id b < next_id ?st" if "kv_get ?st k = Some (SAAuth b)" for k b
      using that lt [of k b] assms(3,4) unfolding nx get by (auto split: if_splits)
    show "k = k'" if "kv_get ?st k = Some (SAAuth b)" "kv_get ?st k' = Some (SAAuth b')" "aa_Id b = aa_Id b'" for k k' b b'
      using that lt [of k b] lt [of k' b'] assms(4) sa_invD(4) [OF assms(1), of k b k' b']
      unfolding get by (auto split: if_splits)
  qed
qed

lemma sa_inv_del:
  assumes "sa_inv S st" and "k \<noteq> KeyNextAccountAuthenticatorId"
  shows "sa_inv S (kv_del k st)" and "next_id (kv_del k st) = next_id st"
proof -
  show nx: "next_id (kv_del k st) = next_id st"
    using assms(2) by (simp add: next_id_def kv_simps)
  show "sa_inv S (kv_del k st)"
    unfolding sa_inv_def nx
    using assms(1) unfolding sa_inv_def by (auto simp: kv_simps split: if_splits)
qed

lemma sa_inv_params:
  assumes "sa_inv S st"
  shows "sa_inv S (kv_set SAParamsKey (SAParamsVal p) st)" and "next_id (kv_set SAParamsKey (SAParamsVal p) st) = next_id st"
proof -
  show nx: "next_id (kv_set SAParamsKey (SAParamsVal p) st) = next_id st"
    by (simp add: next_id_def kv_simps)
  show "sa_inv S (kv_set SAParamsKey (SAParamsVal p) st)"
    unfolding sa_inv_def nx
    using assms unfolding sa_inv_def by (auto simp: kv_simps split: if_splits)
qed

section \<open>Operations and the store\<close>

text \<open>Contracts that leave the module's store alone, so no re-entrant call of its messages.\<close>

definition sudo_frame :: "('w sa_chain, 'g) auth_env \<Rightarrow> bool" where
  "sudo_frame E \<longleftrightarrow> (\<forall>addr bz ctx. fst (gstore (snd (ContractSudo E addr bz ctx))) = fst (gstore ctx))"

lemma on_sub_each_frame:
  assumes "\<And>code c aid ctx. fst (gstore (snd (f code c aid ctx))) = fst (gstore ctx)"
  shows "fst (gstore (snd (on_sub_each f am b i ds ctx))) = fst (gstore ctx)"
proof (induction ds arbitrary: i ctx)
  case (Cons d ds)
  show ?case
  proof (cases "GetAuthenticatorByType am (sid_Type d)")
    case (Some code)
    obtain r c where f: "f code (sid_Config d) (compositeId b i) ctx = (r, c)" by fastforce
    then have "fst (gstore c) = fst (gstore ctx)" using assms [of code "sid_Config d" "compositeId b i" ctx] by simp
    then show ?thesis using Cons.IH [of "i + 1" c] Some f by (cases r) simp_all
  qed simp
qed simp

lemma sudo_with_frame:
  assumes "sudo_frame E"
  shows "fst (gstore (snd (sudo_with E wrap addr msg ctx))) = fst (gstore ctx)"
proof (cases "MarshalSudo E msg")
  case (Inr bz)
  obtain r c where c: "ContractSudo E addr bz ctx = (r, c)" by fastforce
  then have "fst (gstore c) = fst (gstore ctx)" using assms unfolding sudo_frame_def by (metis snd_conv)
  then show ?thesis using Inr c by (cases r) (simp_all add: sudo_with_def)
qed (simp add: sudo_with_def)

lemma hooks_frame:
  assumes "sudo_frame E"
  shows "fst (gstore (snd (OnAuthenticatorAdded n S E am acc a config aid ctx))) = fst (gstore ctx)"
    and "fst (gstore (snd (OnAuthenticatorRemoved n S E am acc a config aid ctx))) = fst (gstore ctx)"
proof -
  show "fst (gstore (snd (OnAuthenticatorAdded n S E am acc a config aid ctx))) = fst (gstore ctx)"
  proof (induction n arbitrary: a config aid ctx)
    case (Suc n)
    then show ?case
      by (cases a) (auto simp: Cosmwasm_OnAuthenticatorAdded_def sudo_with_frame [OF assms] onSubAuthenticatorsAdded_def
          on_sub_each_frame split: sum.splits)
  qed simp
  show "fst (gstore (snd (OnAuthenticatorRemoved n S E am acc a config aid ctx))) = fst (gstore ctx)"
  proof (induction n arbitrary: a config aid ctx)
    case (Suc n)
    then show ?case
      by (cases a) (auto simp: Cosmwasm_OnAuthenticatorRemoved_def sudo_with_frame [OF assms] onSubAuthenticatorsRemoved_def
          on_sub_each_frame split: sum.splits)
  qed simp
qed

lemma AddAuthenticator_effect:
  assumes "sa_inv S (fst (gstore ctx))" and "sudo_frame E" and "AddAuthenticator S E K acc ty config ctx = (Inr n, ctx')"
  shows "n = next_id (fst (gstore ctx))"
    and "\<exists>st1. sa_inv S st1 \<and> next_id st1 = n \<and>
      (\<forall>k. k \<noteq> KeyNextAccountAuthenticatorId \<longrightarrow> kv_get st1 k = kv_get (fst (gstore ctx)) k) \<and>
      fst (gstore ctx') = MustSet (KeyAccountId S acc n) (SAAuth \<lparr>aa_Id = n, aa_Type = ty, aa_Config = config\<rparr>)
        (SetNextAuthenticatorId (n + 1) st1)"
proof -
  obtain st1 where i: "InitializeOrGetNextAuthenticatorId (fst (gstore ctx)) = (Inr (next_id (fst (gstore ctx))), st1)"
    and st1: "sa_inv S st1" "next_id st1 = next_id (fst (gstore ctx))"
      "\<forall>k. k \<noteq> KeyNextAccountAuthenticatorId \<longrightarrow> kv_get st1 k = kv_get (fst (gstore ctx)) k"
    using InitializeOrGet_inv [OF assms(1)] by blast
  obtain impl where impl: "GetAuthenticatorByType (AuthManager K) ty = Some impl"
    using assms(3) by (auto simp: AddAuthenticator_def split: option.splits)
  obtain r c where h: "OnAuthenticatorAdded (config_depth config) S E (AuthManager K) acc impl config
      (FormatUint (next_id (fst (gstore ctx)))) (on_store (\<lambda>_. st1) ctx) = (r, c)" by fastforce
  have fr: "fst (gstore c) = st1"
    using hooks_frame(1) [OF assms(2), of "config_depth config" S "AuthManager K" acc impl config
        "FormatUint (next_id (fst (gstore ctx)))" "on_store (\<lambda>_. st1) ctx"] h
    by (simp add: on_store_def)
  obtain u where r: "r = Inr u"
    using assms(3) impl i h by (cases r) (simp_all add: AddAuthenticator_def)
  have n: "n = next_id (fst (gstore ctx))"
    and c': "ctx' = on_store (\<lambda>st. MustSet (KeyAccountId S acc n) (SAAuth \<lparr>aa_Id = n, aa_Type = ty, aa_Config = config\<rparr>)
        (SetNextAuthenticatorId (n + 1) st)) c"
    using assms(3) impl i h r by (auto simp: AddAuthenticator_def)
  show "n = next_id (fst (gstore ctx))" by (rule n)
  have "fst (gstore ctx') = MustSet (KeyAccountId S acc n) (SAAuth \<lparr>aa_Id = n, aa_Type = ty, aa_Config = config\<rparr>)
        (SetNextAuthenticatorId (n + 1) st1)"
    using c' fr by (simp add: on_store_def)
  then show "\<exists>st1. sa_inv S st1 \<and> next_id st1 = n \<and>
      (\<forall>k. k \<noteq> KeyNextAccountAuthenticatorId \<longrightarrow> kv_get st1 k = kv_get (fst (gstore ctx)) k) \<and>
      fst (gstore ctx') = MustSet (KeyAccountId S acc n) (SAAuth \<lparr>aa_Id = n, aa_Type = ty, aa_Config = config\<rparr>)
        (SetNextAuthenticatorId (n + 1) st1)"
    using st1 n by blast
qed

lemma RemoveAuthenticator_effect:
  assumes "sudo_frame E" and "RemoveAuthenticator S E K acc n ctx = (Inr (), ctx')"
  shows "fst (gstore ctx') = kv_del (KeyAccountId S acc n) (fst (gstore ctx))"
proof -
  obtain existing impl where e: "sa_Get decode_auth (fst (gstore ctx)) (KeyAccountId S acc n) = Inr (Some existing)"
    and impl: "GetAuthenticatorByType (AuthManager K) (aa_Type existing) = Some impl"
    using assms(2) by (auto simp: RemoveAuthenticator_def Let_def split: sum.splits option.splits)
  obtain r c where h: "OnAuthenticatorRemoved (config_depth (aa_Config existing)) S E (AuthManager K) acc impl (aa_Config existing)
      (FormatUint n) ctx = (r, c)" by fastforce
  have "fst (gstore c) = fst (gstore ctx)"
    using hooks_frame(2) [OF assms(1), of "config_depth (aa_Config existing)" S "AuthManager K" acc impl "aa_Config existing"
        "FormatUint n" ctx] h by simp
  then show ?thesis
    using assms(2) e impl h by (cases r) (auto simp: RemoveAuthenticator_def on_store_def)
qed

section \<open>Delivered messages\<close>

datatype sa_msg = MAdd MsgAddAuthenticator | MRemove MsgRemoveAuthenticator | MSetActive MsgSetActiveState

text \<open>A message is delivered on its own gas meter; a failure leaves the chain as it was.\<close>

definition sa_handle ::
  "'w sdk \<Rightarrow> ('w sa_chain, 'g) auth_env \<Rightarrow> ('w, 'g) sa_keeper \<Rightarrow> sa_msg \<Rightarrow> ('w, 'g) sa_ctx \<Rightarrow> u64 option res \<times> ('w, 'g) sa_ctx" where
  "sa_handle S E K m ctx =
     (case m of
        MAdd msg \<Rightarrow> (case AddAuthenticatorMsg S E K msg ctx of (Inl e, c) \<Rightarrow> (Inl e, c) | (Inr n, c) \<Rightarrow> (Inr (Some n), c))
      | MRemove msg \<Rightarrow> (case RemoveAuthenticatorMsg S E K msg ctx of (Inl e, c) \<Rightarrow> (Inl e, c) | (Inr _, c) \<Rightarrow> (Inr None, c))
      | MSetActive msg \<Rightarrow> (case SetActiveStateMsg S K msg ctx of (Inl e, c) \<Rightarrow> (Inl e, c) | (Inr _, c) \<Rightarrow> (Inr None, c)))"

definition sa_deliver ::
  "'w sdk \<Rightarrow> ('w sa_chain, 'g) auth_env \<Rightarrow> ('w, 'g) sa_keeper \<Rightarrow> 'g \<times> sa_msg \<Rightarrow> 'w sa_chain \<Rightarrow> u64 list \<times> 'w sa_chain" where
  "sa_deliver S E K gm w =
     (case sa_handle S E K (snd gm) \<lparr>gstore = w, meter = fst gm, evs = []\<rparr> of
        (Inl e, _) \<Rightarrow> ([], w)
      | (Inr r, ctx) \<Rightarrow> ((case r of None \<Rightarrow> [] | Some n \<Rightarrow> [n]), gstore ctx))"

text \<open>The ids a sequence of messages hands out, in order, and the chain it leaves.\<close>

fun sa_run ::
  "'w sdk \<Rightarrow> ('w sa_chain, 'g) auth_env \<Rightarrow> ('w, 'g) sa_keeper \<Rightarrow> ('g \<times> sa_msg) list \<Rightarrow> 'w sa_chain \<Rightarrow> u64 list \<times> 'w sa_chain" where
  "sa_run S E K [] w = ([], w)"
| "sa_run S E K (m # ms) w =
     (let (ids, w1) = sa_deliver S E K m w; (ids', w2) = sa_run S E K ms w1 in (ids @ ids', w2))"

text \<open>What a delivered message does to the store.\<close>

inductive sa_step :: "'w sdk \<Rightarrow> ('w, 'g) sa_keeper \<Rightarrow> sa_msg \<Rightarrow> sa_store \<Rightarrow> u64 list \<Rightarrow> sa_store \<Rightarrow> bool" for S K where
  failed: "sa_step S K m st [] st"
| added: "GetIsSmartAccountActive st \<Longrightarrow> AccAddressFromBech32 S (add_Sender msg) = Inr acc \<Longrightarrow> n = next_id st \<Longrightarrow>
    sa_inv S st1 \<Longrightarrow> next_id st1 = n \<Longrightarrow> \<forall>k. k \<noteq> KeyNextAccountAuthenticatorId \<longrightarrow> kv_get st1 k = kv_get st k \<Longrightarrow>
    sa_step S K (MAdd msg) st [n] (MustSet (KeyAccountId S acc n)
      (SAAuth \<lparr>aa_Id = n, aa_Type = add_AuthenticatorType msg, aa_Config = add_Data msg\<rparr>) (SetNextAuthenticatorId (n + 1) st1))"
| removed: "GetIsSmartAccountActive st \<Longrightarrow> AccAddressFromBech32 S (rem_Sender msg) = Inr acc \<Longrightarrow>
    sa_step S K (MRemove msg) st [] (kv_del (KeyAccountId S acc (rem_Id msg)) st)"
| switched: "AccAddressFromBech32 S (act_Sender msg) = Inr signer \<Longrightarrow>
    (if act_Active msg then signer = CircuitBreakerGovernor K
     else AccAddressString S signer \<in> set (CircuitBreakerControllers (SAGetParams st))) \<Longrightarrow>
    sa_step S K (MSetActive msg) st []
      (kv_set SAParamsKey (SAParamsVal ((SAGetParams st)\<lparr>IsSmartAccountActive := act_Active msg\<rparr>)) st)"

lemma sa_deliver_step:
  assumes "sa_inv S (fst w)" and "sudo_frame E" and "sa_deliver S E K (g, m) w = (ids, w')"
  shows "sa_step S K m (fst w) ids (fst w')"
proof -
  let ?ctx = "\<lparr>gstore = w, meter = g, evs = []\<rparr>"
  obtain r ctx where h: "sa_handle S E K m ?ctx = (r, ctx)" by fastforce
  show ?thesis
  proof (cases r)
    case (Inl e)
    then have "ids = [] \<and> w' = w" using assms(3) h by (simp add: sa_deliver_def)
    then show ?thesis by (simp add: sa_step.failed)
  next
    case (Inr x)
    then have ids: "ids = (case x of None \<Rightarrow> [] | Some n \<Rightarrow> [n])" and w': "w' = gstore ctx"
      using assms(3) h by (simp_all add: sa_deliver_def)
    show ?thesis
    proof (cases m)
      case (MAdd msg)
      obtain acc n c where active: "GetIsSmartAccountActive (fst w)" and acc: "AccAddressFromBech32 S (add_Sender msg) = Inr acc"
        and add: "AddAuthenticator S E K acc (add_AuthenticatorType msg) (add_Data msg) ?ctx = (Inr n, c)"
        and x: "x = Some n" and c: "gstore ctx = gstore c"
        using h MAdd Inr
        by (auto simp: sa_handle_def AddAuthenticatorMsg_def EmitEvents_def split: if_splits sum.splits prod.splits)
      obtain st1 where "sa_inv S st1" "next_id st1 = n"
        "\<forall>k. k \<noteq> KeyNextAccountAuthenticatorId \<longrightarrow> kv_get st1 k = kv_get (fst w) k"
        "fst (gstore c) = MustSet (KeyAccountId S acc n) (SAAuth \<lparr>aa_Id = n, aa_Type = add_AuthenticatorType msg, aa_Config = add_Data msg\<rparr>)
          (SetNextAuthenticatorId (n + 1) st1)" and "n = next_id (fst w)"
        using AddAuthenticator_effect [OF _ assms(2) add] assms(1) by auto
      then show ?thesis
        using sa_step.added [OF active acc, of n st1] ids x w' c MAdd by simp
    next
      case (MRemove msg)
      obtain acc where active: "GetIsSmartAccountActive (fst w)" and acc: "AccAddressFromBech32 S (rem_Sender msg) = Inr acc"
        and rem: "RemoveAuthenticator S E K acc (rem_Id msg) ?ctx = (Inr (), ctx)" and x: "x = None"
        using h MRemove Inr
        by (auto simp: sa_handle_def RemoveAuthenticatorMsg_def split: if_splits sum.splits prod.splits)
      then show ?thesis
        using RemoveAuthenticator_effect [OF assms(2) rem] sa_step.removed [OF active acc] ids w' MRemove by simp
    next
      case (MSetActive msg)
      obtain signer where signer: "AccAddressFromBech32 S (act_Sender msg) = Inr signer"
        and auth: "if act_Active msg then signer = CircuitBreakerGovernor K
          else AccAddressString S signer \<in> set (CircuitBreakerControllers (SAGetParams (fst w)))"
        and st: "fst (gstore ctx) = kv_set SAParamsKey (SAParamsVal ((SAGetParams (fst w))\<lparr>IsSmartAccountActive := act_Active msg\<rparr>)) (fst w)"
        and x: "x = None"
        using h MSetActive Inr
        by (auto simp: sa_handle_def SetActiveStateMsg_def getSender_def SASetActiveState_def SASetParams_def Let_def EmitEvents_def
            on_store_def list_ex_iff split: if_splits sum.splits prod.splits)
      then show ?thesis
        using sa_step.switched [OF signer auth] ids w' MSetActive by simp
    qed
  qed
qed

lemma u64_Suc_less: "uint (n :: u64) + 1 < 2 ^ 64 \<Longrightarrow> n < n + 1 \<and> uint (n + 1) = uint n + 1"
  by (simp add: word_less_def uint_word_ariths)

lemma sa_step_ids:
  assumes "sa_step S K m st ids st'" and "sa_inv S st" and "uint (next_id st) + 1 < 2 ^ 64"
  shows "sa_inv S st' \<and> (ids = [] \<and> next_id st' = next_id st \<or> ids = [next_id st] \<and> next_id st' = next_id st + 1)"
  using assms
proof (induction rule: sa_step.induct)
  case (added st msg acc n st1)
  then show ?case
    using sa_inv_add [OF added.hyps(4), of n "\<lparr>aa_Id = n, aa_Type = add_AuthenticatorType msg, aa_Config = add_Data msg\<rparr>" acc]
      u64_Suc_less [of n] by simp
qed (simp_all add: sa_inv_del sa_inv_params)

lemma sa_run_ids:
  assumes "sa_inv S (fst w)" and "sudo_frame E" and "uint (next_id (fst w)) + int (length ms) < 2 ^ 64"
    and "sa_run S E K ms w = (ids, w')"
  shows "sa_inv S (fst w') \<and> next_id (fst w) \<le> next_id (fst w') \<and> sorted_wrt (<) ids \<and>
    (\<forall>n \<in> set ids. next_id (fst w) \<le> n \<and> n < next_id (fst w'))"
  using assms(1,3,4)
proof (induction ms arbitrary: w ids)
  case (Cons gm ms)
  obtain g m where gm: "gm = (g, m)" by fastforce
  obtain ids1 w1 where d: "sa_deliver S E K (g, m) w = (ids1, w1)" by (cases "sa_deliver S E K (g, m) w")
  obtain ids2 where r: "sa_run S E K ms w1 = (ids2, w')" and ids: "ids = ids1 @ ids2"
    using Cons.prems(3) d gm by (auto split: prod.splits)
  have room: "uint (next_id (fst w)) + 1 < 2 ^ 64" using Cons.prems(2) by simp
  have st: "sa_inv S (fst w1)"
    "ids1 = [] \<and> next_id (fst w1) = next_id (fst w) \<or> ids1 = [next_id (fst w)] \<and> next_id (fst w1) = next_id (fst w) + 1"
    using sa_step_ids [OF sa_deliver_step [OF Cons.prems(1) assms(2) d] Cons.prems(1) room] by auto
  then have room1: "uint (next_id (fst w1)) + int (length ms) < 2 ^ 64"
    using Cons.prems(2) u64_Suc_less [OF room] by auto
  have IH: "sa_inv S (fst w') \<and> next_id (fst w1) \<le> next_id (fst w') \<and> sorted_wrt (<) ids2 \<and>
    (\<forall>n \<in> set ids2. next_id (fst w1) \<le> n \<and> n < next_id (fst w'))"
    by (rule Cons.IH [OF st(1) room1 r])
  show ?case
    using st(2) IH ids u64_Suc_less [OF room] by (auto simp: sorted_wrt_append)
qed simp

definition sa_sender :: "sa_msg \<Rightarrow> string" where
  "sa_sender m = (case m of MAdd msg \<Rightarrow> add_Sender msg | MRemove msg \<Rightarrow> rem_Sender msg | MSetActive msg \<Rightarrow> act_Sender msg)"

lemma params_unchanged: "kv_get st' SAParamsKey = kv_get st SAParamsKey \<Longrightarrow> SAGetParams st' = SAGetParams st"
  by (simp add: SAGetParams_def)

lemma sa_step_authorised:
  assumes "sa_step S K m st ids st'"
  shows "(GetIsSmartAccountActive st' \<noteq> GetIsSmartAccountActive st \<longrightarrow>
      (\<exists>signer. AccAddressFromBech32 S (sa_sender m) = Inr signer \<and>
        (if GetIsSmartAccountActive st' then signer = CircuitBreakerGovernor K
         else AccAddressString S signer \<in> set (CircuitBreakerControllers (SAGetParams st))))) \<and>
    (kv_get st' (KeyAccountId S acc n) \<noteq> kv_get st (KeyAccountId S acc n) \<longrightarrow>
      GetIsSmartAccountActive st \<and>
      (\<exists>signer. AccAddressFromBech32 S (sa_sender m) = Inr signer \<and> AccAddressString S signer = AccAddressString S acc))"
  using assms
proof (induction rule: sa_step.induct)
  case (added st msg a n' st1)
  have "SAGetParams (MustSet (KeyAccountId S a n') x (SetNextAuthenticatorId (n' + 1) st1)) = SAGetParams st" for x
    using added.hyps(6) by (intro params_unchanged) (simp add: MustSet_def SetNextAuthenticatorId_def kv_simps)
  then show ?case
    using added by (auto simp: GetIsSmartAccountActive_def sa_sender_def MustSet_def SetNextAuthenticatorId_def kv_simps
        KeyAccountId_eq_iff split: if_splits)
next
  case (removed st msg a)
  have "SAGetParams (kv_del (KeyAccountId S a (rem_Id msg)) st) = SAGetParams st"
    by (intro params_unchanged) (simp add: kv_simps)
  then show ?case
    using removed by (auto simp: GetIsSmartAccountActive_def sa_sender_def kv_simps KeyAccountId_eq_iff split: if_splits)
next
  case (switched msg signer st)
  then show ?case by (auto simp: GetIsSmartAccountActive_def SAGetParams_def sa_sender_def kv_simps split: if_splits)
qed simp

section \<open>Properties\<close>

definition ex_keeper :: "(ledger, u64 \<times> u64) sa_keeper" where
  "ex_keeper = \<lparr>CircuitBreakerGovernor = ''gov'', AuthManager = app_authenticators\<rparr>"

definition ex_key :: string where "ex_key = replicate 33 CHR ''k''"

definition ex_chain :: "ledger sa_chain" where "ex_chain = (kv_empty, ledger0)"

lemma ex_chain_inv: "sa_inv S (fst ex_chain)"
  by (simp add: ex_chain_def sa_inv_def kv_simps)

lemma ex_env_frame: "sudo_frame ex_env"
  by (simp add: sudo_frame_def ex_env_def)

definition ex_msgs :: "((u64 \<times> u64) \<times> sa_msg) list" where
  "ex_msgs = [((100000, 0), MAdd \<lparr>add_Sender = ''alice'', add_AuthenticatorType = ''SignatureVerification'', add_Data = ex_key\<rparr>),
     ((100000, 0), MRemove \<lparr>rem_Sender = ''alice'', rem_Id = 1\<rparr>),
     ((100000, 0), MAdd \<lparr>add_Sender = ''bob'', add_AuthenticatorType = ''MessageFilter'', add_Data = ''pay''\<rparr>)]"




definition ex_add :: sa_msg where
  "ex_add = MAdd \<lparr>add_Sender = ''alice'', add_AuthenticatorType = ''SignatureVerification'', add_Data = ex_key\<rparr>"


text \<open>A contract whose hook adds an authenticator of its own while it is being added.\<close>

definition reentrant_env :: "(ledger sa_chain, u64 \<times> u64) auth_env" where
  "reentrant_env = ex_env\<lparr>ContractSudo := (\<lambda>addr bz ctx.
     case AddAuthenticator ledger_sdk ex_env ex_keeper addr ''SignatureVerification'' ex_key ctx of
       (Inl e, ctx1) \<Rightarrow> (Inl e, ctx1)
     | (Inr _, ctx1) \<Rightarrow> (Inr [], ctx1))\<rparr>"


end
