(* ===== verification/SmartAccountAnte.thy ===== *)
theory SmartAccountAnte
  imports SmartAccount
begin

text \<open>
  The transaction side of \<open>x/smart-account\<close>: the request an authenticator sees
  (\<open>authenticator/authentication_request.go\<close>, \<open>replay_protection.go\<close>), the ante decorator that
  authenticates every message and takes the fee (\<open>ante/ante.go\<close>), the circuit breaker that routes a
  transaction to it (\<open>ante/circuit_breaker.go\<close>), the decorator that emits signature events
  (\<open>ante/pubkey.go\<close>), and the post decorator that asks the authenticators to confirm
  (\<open>post/post.go\<close>).  The gas of single store accesses is not counted.
\<close>

section \<open>Transactions\<close>

datatype SignatureDataV2 = NilSignature | SingleSignature string | MultiSignature "SignatureDataV2 list"

record SignatureV2 =
  sv_Data :: SignatureDataV2
  sv_Sequence :: u64

text \<open>
  A transaction, with one field per interface of the SDK it may implement; \<open>None\<close> is a failed type
  assertion.  Messages are their encodings.
\<close>

record sa_tx =
  tx_Msgs :: "string list"
  tx_FeeTx :: "(string \<times> string \<times> Coins) option"
  tx_ExtensionOptions :: "string list option"
  tx_SigTx :: "(SignatureV2 list res \<times> string list res) option"
  tx_TimeoutHeight :: "u64 option"
  tx_Memo :: "string option"

record SignerData =
  sd_ChainID :: string
  sd_AccountNumber :: u64
  sd_Sequence :: u64

text \<open>
  What the decorators call of the SDK: the signers and the encoding of a message, the selected
  authenticators an extension option holds, the account keeper, the block header, the sign bytes,
  and the fee deduction of \<open>x/auth\<close>.
\<close>

record ('w, 'g) tx_env =
  GetMsgV1Signers :: "string \<Rightarrow> string list res"
  NewAnyWithValue :: "string \<Rightarrow> LocalAny res"
  UnpackTxOptions :: "string \<Rightarrow> u64 list option"
  GetAccountNumSeq :: "'w \<Rightarrow> string \<Rightarrow> (u64 \<times> u64) option"
  CtxBlockHeight :: int
  CtxChainID :: string
  CtxIsCheckTx :: bool
  GetSignBytes :: "SignerData \<Rightarrow> sa_tx \<Rightarrow> string res"
  DeductFee :: "sa_tx \<Rightarrow> bool \<Rightarrow> ('w, 'g) sa_ctx \<Rightarrow> unit res \<times> ('w, 'g) sa_ctx"
  IsCacheMultiStore :: bool
  MarshalMultiSignature :: "string list \<Rightarrow> string res"
  Base64 :: "string \<Rightarrow> string"

abbreviation IndexOutOfRange :: error where "IndexOutOfRange \<equiv> Panicked ''index out of range''"

definition nth_res :: "'a list \<Rightarrow> nat \<Rightarrow> 'a res" where
  "nth_res xs i = (if i < length xs then Inr (xs ! i) else Inl IndexOutOfRange)"

section \<open>The authentication request\<close>

definition GetSignerAndSignatures :: "sa_tx \<Rightarrow> (string list \<times> SignatureV2 list) res" where
  "GetSignerAndSignatures tx =
     (case tx_SigTx tx of
        None \<Rightarrow> Inl ErrTxDecode
      | Some (sigs, sgns) \<Rightarrow>
     (case sigs of
        Inl e \<Rightarrow> Inl e
      | Inr signatures \<Rightarrow>
     (case sgns of
        Inl e \<Rightarrow> Inl e
      | Inr signers \<Rightarrow>
          if length signatures \<noteq> length signers then Inl ErrTxDecode else Inr (signers, signatures))))"

definition getSignerData :: "('w, 'g) tx_env \<Rightarrow> 'w \<Rightarrow> string \<Rightarrow> SignerData res" where
  "getSignerData T w account =
     (let baseAccount = GetAccountNumSeq T w account;
          genesis = (CtxBlockHeight T = 0)
      in if \<not> genesis \<and> baseAccount = None then Inl NilDereference
         else Inr \<lparr>sd_ChainID = CtxChainID T,
                   sd_AccountNumber = (if genesis then 0 else fst (the baseAccount)),
                   sd_Sequence = (case baseAccount of None \<Rightarrow> 0 | Some (_, s) \<Rightarrow> s)\<rparr>)"

fun encode_msgs :: "('w, 'g) tx_env \<Rightarrow> string list \<Rightarrow> LocalAny list res" where
  "encode_msgs T [] = Inr []"
| "encode_msgs T (m # ms) =
     (case NewAnyWithValue T m of
        Inl e \<Rightarrow> Inl e
      | Inr a \<Rightarrow> (case encode_msgs T ms of Inl e \<Rightarrow> Inl e | Inr as \<Rightarrow> Inr (a # as)))"

definition extractExplicitTxData :: "('w, 'g) tx_env \<Rightarrow> sa_tx \<Rightarrow> SignerData \<Rightarrow> ExplicitTxData res" where
  "extractExplicitTxData T tx signerData =
     (case tx_TimeoutHeight tx of
        None \<Rightarrow> Inl ErrInvalidType
      | Some timeout \<Rightarrow>
     (case tx_Memo tx of
        None \<Rightarrow> Inl ErrInvalidType
      | Some memo \<Rightarrow>
     (case encode_msgs T (tx_Msgs tx) of
        Inl e \<Rightarrow> Inl e
      | Inr msgs \<Rightarrow>
          Inr \<lparr>td_ChainID = sd_ChainID signerData, td_AccountNumber = sd_AccountNumber signerData,
               td_AccountSequence = sd_Sequence signerData, td_TimeoutHeight = timeout, td_Msgs = msgs, td_Memo = memo\<rparr>)))"

type_synonym ReplayProtection = "ExplicitTxData \<Rightarrow> SignatureV2 \<Rightarrow> unit res"

definition SequenceMatch :: ReplayProtection where
  "SequenceMatch txData signature =
     (if sv_Sequence signature \<noteq> td_AccountSequence txData then Inl ErrInvalidSequence else Inr ())"

definition NoReplayProtection :: ReplayProtection where "NoReplayProtection txData signature = Inr ()"

text \<open>The loop over signers and signatures, with the signatures and the signer's own one so far.\<close>

fun extract_loop ::
  "(string \<times> SignatureV2) list \<Rightarrow> ExplicitTxData \<Rightarrow> string \<Rightarrow> ReplayProtection \<Rightarrow> string list \<Rightarrow> string \<Rightarrow> (string list \<times> string) res" where
  "extract_loop [] txData account replay signatures msgSignature = Inr (signatures, msgSignature)"
| "extract_loop ((signer, signature) # rest) txData account replay signatures msgSignature =
     (case sv_Data signature of
        SingleSignature single \<Rightarrow>
          if signer = account
          then (case replay txData signature of
                  Inl e \<Rightarrow> Inl e
                | Inr _ \<Rightarrow> extract_loop rest txData account replay (signatures @ [single]) single)
          else extract_loop rest txData account replay (signatures @ [single]) msgSignature
      | _ \<Rightarrow> Inl ErrInvalidType)"

definition extractSignatures ::
  "string list \<Rightarrow> SignatureV2 list \<Rightarrow> ExplicitTxData \<Rightarrow> string \<Rightarrow> ReplayProtection \<Rightarrow> (string list \<times> string) res" where
  "extractSignatures txSigners txSignatures txData account replay =
     extract_loop (zip txSigners txSignatures) txData account replay [] []"

definition GenerateAuthenticationRequest ::
  "('w, 'g) tx_env \<Rightarrow> 'w \<Rightarrow> string \<Rightarrow> string \<Rightarrow> string \<Rightarrow> Coins \<Rightarrow> string \<Rightarrow> sa_tx \<Rightarrow> nat \<Rightarrow> bool \<Rightarrow> ReplayProtection \<Rightarrow>
   AuthenticationRequest res" where
  "GenerateAuthenticationRequest T w account feePayer feeGranter fee msg tx msgIndex simulate replay =
     (case GetMsgV1Signers T msg of
        Inl e \<Rightarrow> Inl e
      | Inr signers \<Rightarrow>
     (case nth_res signers 0 of
        Inl p \<Rightarrow> Inl p
      | Inr signer \<Rightarrow>
          if signer \<noteq> account then Inl ErrInvalidRequest
          else case GetSignerAndSignatures tx of
            Inl e \<Rightarrow> Inl e
          | Inr (txSigners, txSignatures) \<Rightarrow>
     (case getSignerData T w account of
        Inl p \<Rightarrow> Inl p
      | Inr signerData \<Rightarrow>
     (case extractExplicitTxData T tx signerData of
        Inl e \<Rightarrow> Inl e
      | Inr txData \<Rightarrow>
     (case extractSignatures txSigners txSignatures txData account replay of
        Inl e \<Rightarrow> Inl e
      | Inr (signatures, msgSignature) \<Rightarrow>
     (case nth_res (td_Msgs txData) msgIndex of
        Inl p \<Rightarrow> Inl p
      | Inr localMsg \<Rightarrow>
         (let authRequest =
            \<lparr>AuthenticatorId = [], Account = account, FeePayer = feePayer, FeeGranter = feeGranter, Fee = fee,
             Msg = localMsg, MsgIndex = of_nat msgIndex, Signature = msgSignature,
             SignModeTxData = \<lparr>smd_Direct = ''signBytes'', smd_Textual = []\<rparr>, TxData = txData,
             SignatureData = \<lparr>ssd_Signers = txSigners, ssd_Signatures = signatures\<rparr>,
             Simulate = simulate, AuthenticatorParams = []\<rparr>
          in if simulate \<and> CtxIsCheckTx T then Inr authRequest
             else case GetSignBytes T signerData tx of
               Inl e \<Rightarrow> Inl e
             | Inr signBytes \<Rightarrow> Inr (authRequest\<lparr>SignModeTxData := \<lparr>smd_Direct = signBytes, smd_Textual = []\<rparr>\<rparr>))))))))"

section \<open>The ante decorator\<close>

fun GetAuthenticatorExtension :: "('w, 'g) tx_env \<Rightarrow> string list \<Rightarrow> u64 list option" where
  "GetAuthenticatorExtension T [] = None"
| "GetAuthenticatorExtension T (ext # exts) =
     (case UnpackTxOptions T ext of Some opts \<Rightarrow> Some opts | None \<Rightarrow> GetAuthenticatorExtension T exts)"

definition GetSelectedAuthenticators :: "('w, 'g) tx_env \<Rightarrow> sa_tx \<Rightarrow> nat \<Rightarrow> u64 list res" where
  "GetSelectedAuthenticators T tx msgCount =
     (case tx_ExtensionOptions tx of
        None \<Rightarrow> Inl ErrTxDecode
      | Some exts \<Rightarrow>
     (case GetAuthenticatorExtension T exts of
        None \<Rightarrow> Inl ErrInvalidRequest
      | Some selected \<Rightarrow> if length selected \<noteq> msgCount then Inl ErrInvalidRequest else Inr selected))"

definition ValidateAuthenticatorFeePayer :: "('w, 'g) tx_env \<Rightarrow> sa_tx \<Rightarrow> unit res" where
  "ValidateAuthenticatorFeePayer T tx =
     (case tx_FeeTx tx of
        None \<Rightarrow> Inl ErrTxDecode
      | Some (feePayer, _) \<Rightarrow>
     (case tx_Msgs tx of
        [] \<Rightarrow> Inl ErrTxDecode
      | msg # _ \<Rightarrow>
     (case GetMsgV1Signers T msg of
        Inl e \<Rightarrow> Inl ErrUnauthorized
      | Inr [] \<Rightarrow> Inl ErrTxDecode
      | Inr (signer # _) \<Rightarrow> if feePayer \<noteq> signer then Inl ErrUnauthorized else Inr ())))"

text \<open>
  The state of the loop: the context, whose meter is the payer's until the fee is paid; the meter the
  transaction came with; whether the fee is paid; the closures for \<open>Track\<close> as authenticator and
  request; and what has been written to the store below the transaction's cache.
\<close>

record ('w, 'g) ante_state =
  as_ctx :: "('w, 'g) sa_ctx"
  as_original :: 'g
  as_feesPaid :: bool
  as_tracks :: "(('w sa_chain, 'g) authenticator \<times> AuthenticationRequest) list"
  as_parent :: "'w sa_chain"

definition pay_fee ::
  "('w sa_chain, 'g) auth_env \<Rightarrow> ('w, 'g) tx_env \<Rightarrow> sa_tx \<Rightarrow> bool \<Rightarrow> ('w, 'g) ante_state \<Rightarrow> unit res \<times> ('w, 'g) ante_state" where
  "pay_fee E T tx simulate s =
     (let (r, original1) = MeterConsume (GasLib E) (GasConsumed (GasLib E) (meter (as_ctx s))) (as_original s);
          s1 = s\<lparr>as_original := original1\<rparr>
      in case r of
           Inl p \<Rightarrow> (Inl p, s1)
         | Inr _ \<Rightarrow>
        (case DeductFee T tx simulate (as_ctx s1) of
           (Inl e, ctx1) \<Rightarrow> (Inl e, s1\<lparr>as_ctx := ctx1\<rparr>)
         | (Inr _, ctx1) \<Rightarrow>
             if \<not> IsCacheMultiStore T then (Inl ErrPanic, s1\<lparr>as_ctx := ctx1\<rparr>)
             else (Inr (), s1\<lparr>as_ctx := ctx1\<lparr>meter := original1\<rparr>, as_feesPaid := True, as_parent := gstore ctx1\<rparr>)))"

definition authenticate_msg ::
  "'w sdk \<Rightarrow> ('w sa_chain, 'g) auth_env \<Rightarrow> ('w, 'g) sa_keeper \<Rightarrow> ('w, 'g) tx_env \<Rightarrow> sa_tx \<Rightarrow> bool \<Rightarrow> string \<Rightarrow> string \<Rightarrow> Coins \<Rightarrow>
   u64 list \<Rightarrow> nat \<Rightarrow> string \<Rightarrow> ('w, 'g) ante_state \<Rightarrow> unit res \<times> ('w, 'g) ante_state" where
  "authenticate_msg S E K T tx simulate feePayer feeGranter fee selected msgIndex msg s =
     (case GetMsgV1Signers T msg of
        Inl e \<Rightarrow> (Inl ErrUnauthorized, s)
      | Inr signers \<Rightarrow>
          if length signers \<noteq> 1 then (Inl ErrUnauthorized, s)
          else
     (let account = hd signers in
      case nth_res selected msgIndex of
        Inl p \<Rightarrow> (Inl p, s)
      | Inr selectedId \<Rightarrow>
     (case GetInitializedAuthenticatorForAccount S E K account selectedId (fst (gstore (as_ctx s))) of
        Inl e \<Rightarrow> (Inl e, s)
      | Inr selectedAuthenticator \<Rightarrow>
     (case GenerateAuthenticationRequest T (snd (gstore (as_ctx s))) account feePayer feeGranter fee msg tx msgIndex simulate SequenceMatch of
        Inl e \<Rightarrow> (Inl e, s)
      | Inr request0 \<Rightarrow>
         (let ath = ia_Authenticator selectedAuthenticator;
              request = request0\<lparr>AuthenticatorId := FormatUint (ia_Id selectedAuthenticator)\<rparr>;
              (g, ctx1) = ConsumeCtx E (StaticGas ath) (as_ctx s)
          in case g of
               Inl p \<Rightarrow> (Inl p, s\<lparr>as_ctx := ctx1\<rparr>)
             | Inr _ \<Rightarrow>
                (let (authErr, neverWriteCtx) = Authenticate E ath request (CacheContext ctx1);
                     s1 = s\<lparr>as_ctx := drop_cache ctx1 neverWriteCtx\<rparr>
                 in case authErr of
                      Inl e \<Rightarrow> (Inl e, s1)
                    | Inr _ \<Rightarrow>
                       (let (f, s2) = (if \<not> as_feesPaid s1 \<and> account = feePayer then pay_fee E T tx simulate s1 else (Inr (), s1))
                        in case f of
                             Inl e \<Rightarrow> (Inl e, s2)
                           | Inr _ \<Rightarrow> (Inr (), s2\<lparr>as_tracks := as_tracks s2 @ [(ath, request)]\<rparr>))))))))"

fun authenticate_msgs ::
  "'w sdk \<Rightarrow> ('w sa_chain, 'g) auth_env \<Rightarrow> ('w, 'g) sa_keeper \<Rightarrow> ('w, 'g) tx_env \<Rightarrow> sa_tx \<Rightarrow> bool \<Rightarrow> string \<Rightarrow> string \<Rightarrow> Coins \<Rightarrow>
   u64 list \<Rightarrow> nat \<Rightarrow> string list \<Rightarrow> ('w, 'g) ante_state \<Rightarrow> unit res \<times> ('w, 'g) ante_state" where
  "authenticate_msgs S E K T tx simulate feePayer feeGranter fee selected msgIndex [] s = (Inr (), s)"
| "authenticate_msgs S E K T tx simulate feePayer feeGranter fee selected msgIndex (msg # msgs) s =
     (case authenticate_msg S E K T tx simulate feePayer feeGranter fee selected msgIndex msg s of
        (Inl e, s1) \<Rightarrow> (Inl e, s1)
      | (Inr _, s1) \<Rightarrow> authenticate_msgs S E K T tx simulate feePayer feeGranter fee selected (msgIndex + 1) msgs s1)"

fun run_tracks ::
  "('w sa_chain, 'g) auth_env \<Rightarrow> (('w sa_chain, 'g) authenticator \<times> AuthenticationRequest) list \<Rightarrow>
   ('w, 'g) sa_ctx \<Rightarrow> unit res \<times> ('w, 'g) sa_ctx" where
  "run_tracks E [] ctx = (Inr (), ctx)"
| "run_tracks E ((ath, request) # ts) ctx =
     (case Track E ath request ctx of (Inl e, ctx1) \<Rightarrow> (Inl e, ctx1) | (Inr _, ctx1) \<Rightarrow> run_tracks E ts ctx1)"

text \<open>The deferred function turns a panic for gas, also one from the decorators behind, into an error.\<close>

definition recover_gas :: "unit res \<Rightarrow> unit res" where
  "recover_gas r = (if r = Inl OutOfGas then Inl ErrOutOfGas else r)"

type_synonym ('w, 'g) handler = "sa_tx \<Rightarrow> bool \<Rightarrow> ('w, 'g) sa_ctx \<Rightarrow> unit res \<times> ('w, 'g) sa_ctx"

definition ante_body ::
  "'w sdk \<Rightarrow> ('w sa_chain, 'g) auth_env \<Rightarrow> ('w, 'g) sa_keeper \<Rightarrow> ('w, 'g) tx_env \<Rightarrow> ('w, 'g) handler \<Rightarrow> sa_tx \<Rightarrow> bool \<Rightarrow>
   ('w, 'g) ante_state \<Rightarrow> unit res \<times> ('w, 'g) ante_state" where
  "ante_body S E K T next tx simulate s =
     (if length (tx_Msgs tx) = 0 then (Inl ErrInvalidRequest, s)
      else case tx_FeeTx tx of
        None \<Rightarrow> (Inl ErrTxDecode, s)
      | Some (_, feeGranter, fee) \<Rightarrow>
     (case GetMsgV1Signers T (hd (tx_Msgs tx)) of
        Inl e \<Rightarrow> (Inl ErrUnauthorized, s)
      | Inr signers \<Rightarrow>
     (case nth_res signers 0 of
        Inl p \<Rightarrow> (Inl p, s)
      | Inr feePayer \<Rightarrow>
     (case GetSelectedAuthenticators T tx (length (tx_Msgs tx)) of
        Inl e \<Rightarrow> (Inl e, s)
      | Inr selected \<Rightarrow>
     (case authenticate_msgs S E K T tx simulate feePayer feeGranter fee selected 0 (tx_Msgs tx) s of
        (Inl e, s1) \<Rightarrow> (Inl e, s1)
      | (Inr _, s1) \<Rightarrow>
     (case run_tracks E (as_tracks s1) (as_ctx s1) of
        (Inl e, ctx1) \<Rightarrow> (Inl e, s1\<lparr>as_ctx := ctx1\<rparr>)
      | (Inr _, ctx1) \<Rightarrow> (let (r, ctx2) = next tx simulate ctx1 in (r, s1\<lparr>as_ctx := ctx2\<rparr>))))))))"

definition AuthenticatorAnteHandle ::
  "'w sdk \<Rightarrow> ('w sa_chain, 'g) auth_env \<Rightarrow> ('w, 'g) sa_keeper \<Rightarrow> ('w, 'g) tx_env \<Rightarrow> ('w, 'g) handler \<Rightarrow> sa_tx \<Rightarrow> bool \<Rightarrow>
   'w sa_chain \<Rightarrow> ('w, 'g) sa_ctx \<Rightarrow> unit res \<times> ('w, 'g) sa_ctx \<times> 'w sa_chain" where
  "AuthenticatorAnteHandle S E K T next tx simulate parent ctx =
     (case ValidateAuthenticatorFeePayer T tx of
        Inl e \<Rightarrow> (Inl e, ctx, parent)
      | Inr _ \<Rightarrow>
         (let limit = MaximumUnauthenticatedGas (SAGetParams (fst (gstore ctx)));
              s = \<lparr>as_ctx = ctx\<lparr>meter := NewGasMeter (GasLib E) limit\<rparr>, as_original = meter ctx, as_feesPaid = False,
                   as_tracks = [], as_parent = parent\<rparr>;
              (r, s1) = ante_body S E K T next tx simulate s
          in (recover_gas r, as_ctx s1, as_parent s1)))"

section \<open>The circuit breaker\<close>

definition IsSelectedAuthenticatorTxExtensionMissing :: "('w, 'g) tx_env \<Rightarrow> sa_tx \<Rightarrow> bool \<times> u64 list option" where
  "IsSelectedAuthenticatorTxExtensionMissing T tx =
     (case tx_ExtensionOptions tx of
        None \<Rightarrow> (True, None)
      | Some exts \<Rightarrow>
     (case GetAuthenticatorExtension T exts of
        None \<Rightarrow> (True, None)
      | Some opts \<Rightarrow> if length opts < 1 then (True, None) else (False, Some opts)))"

definition IsCircuitBreakActive :: "('w, 'g) tx_env \<Rightarrow> sa_tx \<Rightarrow> sa_store \<Rightarrow> bool \<times> u64 list option" where
  "IsCircuitBreakActive T tx st =
     (if \<not> GetIsSmartAccountActive st then (True, None) else IsSelectedAuthenticatorTxExtensionMissing T tx)"

definition CircuitBreakerAnteHandle ::
  "('w, 'g) tx_env \<Rightarrow> ('w, 'g) handler \<Rightarrow> ('w, 'g) handler \<Rightarrow> ('w, 'g) handler" where
  "CircuitBreakerAnteHandle T authenticatorFlow originalFlow tx simulate ctx =
     (if fst (IsCircuitBreakActive T tx (fst (gstore ctx))) then originalFlow tx simulate ctx
      else authenticatorFlow tx simulate ctx)"

section \<open>Signature events\<close>

text \<open>All single signatures of a signature, and for a multi signature its encoding behind them.\<close>

fun signatureDataToBz :: "('w, 'g) tx_env \<Rightarrow> SignatureDataV2 \<Rightarrow> string list res"
  and signaturesToBz :: "('w, 'g) tx_env \<Rightarrow> SignatureDataV2 list \<Rightarrow> string list res" where
  "signatureDataToBz T NilSignature = Inl (Plain ''got empty SignatureData'')"
| "signatureDataToBz T (SingleSignature s) = Inr [s]"
| "signatureDataToBz T (MultiSignature ds) =
     (case signaturesToBz T ds of
        Inl e \<Rightarrow> Inl e
      | Inr sigs \<Rightarrow> (case MarshalMultiSignature T sigs of Inl e \<Rightarrow> Inl e | Inr agg \<Rightarrow> Inr (sigs @ [agg])))"
| "signaturesToBz T [] = Inr []"
| "signaturesToBz T (d # ds) =
     (case signatureDataToBz T d of
        Inl e \<Rightarrow> Inl e
      | Inr nested \<Rightarrow> (case signaturesToBz T ds of Inl e \<Rightarrow> Inl e | Inr sigs \<Rightarrow> Inr (nested @ sigs)))"

fun pubkey_events :: "('w, 'g) tx_env \<Rightarrow> string list \<Rightarrow> nat \<Rightarrow> SignatureV2 list \<Rightarrow> Event list res" where
  "pubkey_events T signers i [] = Inr []"
| "pubkey_events T signers i (sig # sigs) =
     (case nth_res signers i of
        Inl p \<Rightarrow> Inl p
      | Inr signer \<Rightarrow>
     (case signatureDataToBz T (sv_Data sig) of
        Inl e \<Rightarrow> Inl e
      | Inr sigBzs \<Rightarrow>
     (case pubkey_events T signers (i + 1) sigs of
        Inl e \<Rightarrow> Inl e
      | Inr es \<Rightarrow>
         (let accSeq = signer @ ''/'' @ FormatUint (sv_Sequence sig)
          in Inr (NewEvent ''tx'' [(''acc_seq'', accSeq), (''authenticator_acc_seq'', accSeq)] #
               map (\<lambda>bz. NewEvent ''tx'' [(''signature'', Base64 T bz), (''authenticator_signature'', Base64 T bz)]) sigBzs @ es)))))"

definition EmitPubKeyAnteHandle :: "('w, 'g) tx_env \<Rightarrow> ('w, 'g) handler \<Rightarrow> ('w, 'g) handler" where
  "EmitPubKeyAnteHandle T next tx simulate ctx =
     (case tx_SigTx tx of
        None \<Rightarrow> (Inl ErrTxDecode, ctx)
      | Some (sigs, sgns) \<Rightarrow>
     (case sgns of
        Inl e \<Rightarrow> (Inl e, ctx)
      | Inr signers \<Rightarrow>
     (case sigs of
        Inl e \<Rightarrow> (Inl e, ctx)
      | Inr signatures \<Rightarrow>
     (case pubkey_events T signers 0 signatures of
        Inl e \<Rightarrow> (Inl e, ctx)
      | Inr events \<Rightarrow> next tx simulate (EmitEvents events ctx)))))"

section \<open>The post decorator\<close>

type_synonym ('w, 'g) post_handler = "sa_tx \<Rightarrow> bool \<Rightarrow> bool \<Rightarrow> ('w, 'g) sa_ctx \<Rightarrow> unit res \<times> ('w, 'g) sa_ctx"

fun confirm_msgs ::
  "'w sdk \<Rightarrow> ('w sa_chain, 'g) auth_env \<Rightarrow> ('w, 'g) sa_keeper \<Rightarrow> ('w, 'g) tx_env \<Rightarrow> sa_tx \<Rightarrow> bool \<Rightarrow> string \<times> string \<times> Coins \<Rightarrow>
   u64 list \<Rightarrow> nat \<Rightarrow> string list \<Rightarrow> ('w, 'g) sa_ctx \<Rightarrow> unit res \<times> ('w, 'g) sa_ctx" where
  "confirm_msgs S E K T tx simulate (feePayer, feeGranter, fee) selected i [] ctx = (Inr (), ctx)"
| "confirm_msgs S E K T tx simulate (feePayer, feeGranter, fee) selected i (msg # msgs) ctx =
     (case GetMsgV1Signers T msg of
        Inl e \<Rightarrow> (Inl e, ctx)
      | Inr signers \<Rightarrow>
     (case nth_res signers 0 of
        Inl p \<Rightarrow> (Inl p, ctx)
      | Inr account \<Rightarrow>
     (case nth_res selected i of
        Inl p \<Rightarrow> (Inl p, ctx)
      | Inr selectedId \<Rightarrow>
     (case GetInitializedAuthenticatorForAccount S E K account selectedId (fst (gstore ctx)) of
        Inl e \<Rightarrow> (Inl e, ctx)
      | Inr a \<Rightarrow>
     (case GenerateAuthenticationRequest T (snd (gstore ctx)) account feePayer feeGranter fee msg tx i simulate NoReplayProtection of
        Inl e \<Rightarrow> (Inl e, ctx)
      | Inr request \<Rightarrow>
     (case ConfirmExecution E (ia_Authenticator a) (request\<lparr>AuthenticatorId := FormatUint (ia_Id a)\<rparr>) ctx of
        (Inl e, ctx1) \<Rightarrow> (Inl e, ctx1)
      | (Inr _, ctx1) \<Rightarrow> confirm_msgs S E K T tx simulate (feePayer, feeGranter, fee) selected (i + 1) msgs ctx1))))))"

text \<open>
  The decorator has a handler of its own for transactions that are not its business; \<open>success\<close> is
  set once a message has been confirmed.
\<close>

definition AuthenticatorPostHandle ::
  "'w sdk \<Rightarrow> ('w sa_chain, 'g) auth_env \<Rightarrow> ('w, 'g) sa_keeper \<Rightarrow> ('w, 'g) tx_env \<Rightarrow> ('w, 'g) post_handler \<Rightarrow>
   ('w, 'g) post_handler \<Rightarrow> ('w, 'g) post_handler" where
  "AuthenticatorPostHandle S E K T own next tx simulate success ctx =
     (case IsCircuitBreakActive T tx (fst (gstore ctx)) of
        (True, _) \<Rightarrow> own tx simulate success ctx
      | (False, txOptions) \<Rightarrow>
         (let selected = (case txOptions of None \<Rightarrow> [] | Some ids \<Rightarrow> ids)
          in case tx_FeeTx tx of
               None \<Rightarrow> (Inl ErrTxDecode, ctx)
             | Some feeInfo \<Rightarrow>
            (case confirm_msgs S E K T tx simulate feeInfo selected 0 (tx_Msgs tx) ctx of
               (Inl e, ctx1) \<Rightarrow> (Inl e, ctx1)
             | (Inr _, ctx1) \<Rightarrow> next tx simulate (success \<or> tx_Msgs tx \<noteq> []) ctx1)))"

section \<open>What the ante decorator guarantees\<close>

text \<open>The sequence number an account has, as the request for it carries it.\<close>

definition account_sequence :: "('w, 'g) tx_env \<Rightarrow> 'w \<Rightarrow> string \<Rightarrow> u64" where
  "account_sequence T w account = (case GetAccountNumSeq T w account of None \<Rightarrow> 0 | Some (_, s) \<Rightarrow> s)"

text \<open>
  A message was authenticated on a chain state: its only signer has the selected authenticator there,
  the signer's signatures carry the account's sequence number, and the authenticator accepted the
  request.
\<close>

definition authenticated ::
  "'w sdk \<Rightarrow> ('w sa_chain, 'g) auth_env \<Rightarrow> ('w, 'g) sa_keeper \<Rightarrow> ('w, 'g) tx_env \<Rightarrow> sa_tx \<Rightarrow> u64 \<Rightarrow> string \<Rightarrow> 'w sa_chain \<Rightarrow> bool" where
  "authenticated S E K T tx selectedId msg w \<longleftrightarrow>
     (\<exists>account a request ctx txSigners txSignatures.
        GetMsgV1Signers T msg = Inr [account] \<and>
        GetInitializedAuthenticatorForAccount S E K account selectedId (fst w) = Inr a \<and>
        Account request = account \<and> AuthenticatorId request = FormatUint (ia_Id a) \<and>
        NewAnyWithValue T msg = Inr (Msg request) \<and>
        GetSignerAndSignatures tx = Inr (txSigners, txSignatures) \<and>
        (\<forall>(signer, sig) \<in> set (zip txSigners txSignatures). signer = account \<longrightarrow> sv_Sequence sig = account_sequence T (snd w) account) \<and>
        gstore ctx = w \<and> fst (Authenticate E (ia_Authenticator a) request ctx) = Inr ())"

lemma encode_msgs_nth:
  "encode_msgs T ms = Inr as \<Longrightarrow> i < length as \<Longrightarrow> length as = length ms \<and> NewAnyWithValue T (ms ! i) = Inr (as ! i)"
proof (induction ms arbitrary: as i)
  case (Cons m ms)
  obtain a bs where a: "NewAnyWithValue T m = Inr a" and bs: "encode_msgs T ms = Inr bs" and as: "as = a # bs"
    using Cons.prems(1) by (auto split: sum.splits)
  show ?case
  proof (cases i)
    case 0
    have "length bs = length ms"
    proof (cases bs)
      case Nil
      then show ?thesis using bs by (cases ms) (auto split: sum.splits)
    next
      case (Cons b cs)
      then show ?thesis using Cons.IH [OF bs, of 0] by simp
    qed
    then show ?thesis using 0 a as by simp
  next
    case (Suc j)
    then show ?thesis using Cons.IH [OF bs, of j] Cons.prems(2) a as by simp
  qed
qed simp

lemma extract_loop_replay:
  "extract_loop ps txData account replay sigs ms = Inr x \<Longrightarrow> (signer, sig) \<in> set ps \<Longrightarrow> signer = account \<Longrightarrow>
     \<exists>u. replay txData sig = Inr u"
  by (induction ps txData account replay sigs ms rule: extract_loop.induct)
     (auto split: SignatureDataV2.splits sum.splits if_splits)

lemma request_facts:
  assumes "GenerateAuthenticationRequest T w account fp fg fee (tx_Msgs tx ! i) tx i simulate SequenceMatch = Inr request"
  shows "Account request = account \<and> NewAnyWithValue T (tx_Msgs tx ! i) = Inr (Msg request) \<and>
    (\<exists>sgs sigs. GetSignerAndSignatures tx = Inr (sgs, sigs) \<and>
      (\<forall>(signer, sig) \<in> set (zip sgs sigs). signer = account \<longrightarrow> sv_Sequence sig = account_sequence T w account))"
proof -
  obtain sgs sigs sd td x where s: "GetSignerAndSignatures tx = Inr (sgs, sigs)" and sd: "getSignerData T w account = Inr sd"
    and td: "extractExplicitTxData T tx sd = Inr td" and x: "extractSignatures sgs sigs td account SequenceMatch = Inr x"
    and i: "i < length (td_Msgs td)" and r: "Account request = account" "Msg request = td_Msgs td ! i"
    using assms
    by (auto simp: GenerateAuthenticationRequest_def nth_res_def Let_def split: sum.splits prod.splits if_splits)
  have seq: "td_AccountSequence td = account_sequence T w account"
    using sd td by (auto simp: getSignerData_def extractExplicitTxData_def account_sequence_def Let_def
        split: option.splits sum.splits if_splits)
  have msgs: "encode_msgs T (tx_Msgs tx) = Inr (td_Msgs td)"
    using td by (auto simp: extractExplicitTxData_def split: option.splits sum.splits)
  have "sv_Sequence sig = account_sequence T w account" if "(signer, sig) \<in> set (zip sgs sigs)" "signer = account" for signer sig
    using extract_loop_replay [OF x [unfolded extractSignatures_def] that] seq
    by (auto simp: SequenceMatch_def split: if_splits)
  then show ?thesis
    using r s encode_msgs_nth [OF msgs i] by auto
qed

definition paid_by :: "('w, 'g) tx_env \<Rightarrow> sa_tx \<Rightarrow> bool \<Rightarrow> 'w sa_chain \<Rightarrow> 'w sa_chain \<Rightarrow> bool" where
  "paid_by T tx simulate w w' \<longleftrightarrow> (\<exists>c c'. gstore c = w \<and> DeductFee T tx simulate c = (Inr (), c') \<and> gstore c' = w')"

definition ante_inv :: "('w, 'g) tx_env \<Rightarrow> sa_tx \<Rightarrow> bool \<Rightarrow> 'w sa_chain \<Rightarrow> 'w sa_chain \<Rightarrow> ('w, 'g) ante_state \<Rightarrow> bool" where
  "ante_inv T tx simulate w p s =
     (if as_feesPaid s then paid_by T tx simulate w (as_parent s) \<and> gstore (as_ctx s) = as_parent s
      else as_parent s = p \<and> gstore (as_ctx s) = w)"

lemma pay_fee_cases:
  assumes "pay_fee E T tx simulate s = (r, s')"
  shows "r = Inr () \<and> paid_by T tx simulate (gstore (as_ctx s)) (as_parent s') \<and> gstore (as_ctx s') = as_parent s' \<and> as_feesPaid s' \<or>
    (\<exists>e. r = Inl e) \<and> as_parent s' = as_parent s"
  using assms by (auto simp: pay_fee_def paid_by_def Let_def split: prod.splits sum.splits if_splits)

lemma ConsumeCtx_gstore: "ConsumeCtx E n ctx = (r, ctx') \<Longrightarrow> gstore ctx' = gstore ctx"
  by (auto simp: ConsumeCtx_def Let_def split: prod.splits)

lemma authenticate_msg_step:
  assumes "ante_inv T tx simulate w p s"
    and "authenticate_msg S E K T tx simulate fp fg fee selected i (tx_Msgs tx ! i) s = (r, s')"
  shows "(as_parent s' = p \<or> paid_by T tx simulate w (as_parent s')) \<and>
    (r = Inr () \<longrightarrow> ante_inv T tx simulate w p s' \<and> i < length selected \<and>
       authenticated S E K T tx (selected ! i) (tx_Msgs tx ! i) (gstore (as_ctx s)) \<and>
       (as_feesPaid s \<longrightarrow> as_feesPaid s' \<and> as_parent s' = as_parent s) \<and>
       (GetMsgV1Signers T (tx_Msgs tx ! i) = Inr [fp] \<longrightarrow> as_feesPaid s'))"
proof (cases "\<exists>account a request0. GetMsgV1Signers T (tx_Msgs tx ! i) = Inr [account] \<and> i < length selected \<and>
    GetInitializedAuthenticatorForAccount S E K account (selected ! i) (fst (gstore (as_ctx s))) = Inr a \<and>
    GenerateAuthenticationRequest T (snd (gstore (as_ctx s))) account fp fg fee (tx_Msgs tx ! i) tx i simulate SequenceMatch = Inr request0")
  case False
  then have "(\<exists>e. r = Inl e) \<and> s' = s"
    using assms(2)
    by (auto simp: authenticate_msg_def nth_res_def Let_def length_Suc_conv split: sum.splits if_splits)
  then show ?thesis using assms(1) by (auto simp: ante_inv_def split: if_splits)
next
  case True
  then obtain account a request0 where sg: "GetMsgV1Signers T (tx_Msgs tx ! i) = Inr [account]" and i: "i < length selected"
    and a: "GetInitializedAuthenticatorForAccount S E K account (selected ! i) (fst (gstore (as_ctx s))) = Inr a"
    and req: "GenerateAuthenticationRequest T (snd (gstore (as_ctx s))) account fp fg fee (tx_Msgs tx ! i) tx i simulate SequenceMatch = Inr request0"
    by blast
  define request where "request = request0\<lparr>AuthenticatorId := FormatUint (ia_Id a)\<rparr>"
  obtain g c1 where c1: "ConsumeCtx E (StaticGas (ia_Authenticator a)) (as_ctx s) = (g, c1)" by fastforce
  obtain ar c2 where c2: "Authenticate E (ia_Authenticator a) request (CacheContext c1) = (ar, c2)" by fastforce
  have st1: "gstore c1 = gstore (as_ctx s)" by (rule ConsumeCtx_gstore [OF c1])
  define s1 where "s1 = s\<lparr>as_ctx := drop_cache c1 c2\<rparr>"
  have s1: "gstore (as_ctx s1) = gstore (as_ctx s)" "as_parent s1 = as_parent s" "as_feesPaid s1 = as_feesPaid s"
    using st1 by (simp_all add: s1_def drop_cache_def)
  have par: "as_parent s = p \<or> paid_by T tx simulate w (as_parent s)"
    using assms(1) by (auto simp: ante_inv_def split: if_splits)
  show ?thesis
  proof (cases "is_ok g \<and> is_ok ar")
    case False
    then have "(\<exists>e. r = Inl e) \<and> as_parent s' = as_parent s"
      using assms(2) sg i a req c1 c2 unfolding authenticate_msg_def nth_res_def Let_def request_def
      by (auto split: sum.splits)
    then show ?thesis using par by auto
  next
    case True
    then have ok: "g = Inr ()" "ar = Inr ()" by (auto simp: is_ok_iff)
    have auth: "authenticated S E K T tx (selected ! i) (tx_Msgs tx ! i) (gstore (as_ctx s))"
    proof -
      have "fst (Authenticate E (ia_Authenticator a) request (CacheContext c1)) = Inr ()" using c2 ok by simp
      moreover have "gstore (CacheContext c1) = gstore (as_ctx s)" using st1 by (simp add: CacheContext_def)
      moreover obtain sgs sigs where "Account request0 = account" "NewAnyWithValue T (tx_Msgs tx ! i) = Inr (Msg request0)"
        "GetSignerAndSignatures tx = Inr (sgs, sigs)"
        "\<forall>(signer, sig) \<in> set (zip sgs sigs). signer = account \<longrightarrow> sv_Sequence sig = account_sequence T (snd (gstore (as_ctx s))) account"
        using request_facts [OF req] by blast
      ultimately show ?thesis
        unfolding authenticated_def
        by (intro exI [of _ account] exI [of _ a] exI [of _ request] exI [of _ "CacheContext c1"] exI [of _ sgs] exI [of _ sigs])
           (simp add: sg a request_def)
    qed
    show ?thesis
    proof (cases "\<not> as_feesPaid s \<and> account = fp")
      case True
      obtain f s2 where f: "pay_fee E T tx simulate s1 = (f, s2)" by fastforce
      have out: "r = f" "as_parent s' = as_parent s2" "as_feesPaid s' = as_feesPaid s2" "gstore (as_ctx s') = gstore (as_ctx s2)"
        using assms(2) sg i a req c1 c2 ok f True unfolding authenticate_msg_def nth_res_def Let_def request_def s1_def
        by (auto split: sum.splits)
      have w: "gstore (as_ctx s1) = w" "as_parent s1 = p"
        using assms(1) True s1 by (simp_all add: ante_inv_def)
      from pay_fee_cases [OF f] show ?thesis
        using out w auth i True by (auto simp: ante_inv_def)
    next
      case False
      have out: "r = Inr ()" "as_parent s' = as_parent s" "as_feesPaid s' = as_feesPaid s" "gstore (as_ctx s') = gstore (as_ctx s)"
        using assms(2) sg i a req c1 c2 ok False s1 unfolding authenticate_msg_def nth_res_def Let_def request_def s1_def
        by (auto split: sum.splits)
      then show ?thesis using assms(1) auth i par sg False by (auto simp: ante_inv_def)
    qed
  qed
qed

lemma authenticate_msgs_paid:
  assumes "ante_inv T tx simulate w p s" and "as_feesPaid s" and "msgs = drop i (tx_Msgs tx)"
    and "authenticate_msgs S E K T tx simulate fp fg fee selected i msgs s = (r, s')"
  shows "(as_parent s' = p \<or> paid_by T tx simulate w (as_parent s')) \<and>
    (r = Inr () \<longrightarrow> as_parent s' = as_parent s \<and>
      (\<forall>j. i \<le> j \<longrightarrow> j < length (tx_Msgs tx) \<longrightarrow> authenticated S E K T tx (selected ! j) (tx_Msgs tx ! j) (as_parent s)))"
  using assms
proof (induction msgs arbitrary: i s)
  case Nil
  then show ?case by (auto simp: ante_inv_def)
next
  case (Cons msg msgs)
  have msg: "msg = tx_Msgs tx ! i" and msgs: "msgs = drop (i + 1) (tx_Msgs tx)"
    using Cons.prems(3) by (metis nth_via_drop) (metis Cons.prems(3) add.commute drop_drop drop0 drop_Suc_Cons plus_1_eq_Suc)
  obtain r1 s1 where m: "authenticate_msg S E K T tx simulate fp fg fee selected i (tx_Msgs tx ! i) s = (r1, s1)" by fastforce
  note step = authenticate_msg_step [OF Cons.prems(1) m]
  show ?case
  proof (cases r1)
    case (Inl e)
    then show ?thesis using step Cons.prems(4) m msg by auto
  next
    case (Inr u)
    have st: "ante_inv T tx simulate w p s1" "as_feesPaid s1" "as_parent s1 = as_parent s"
      "authenticated S E K T tx (selected ! i) (tx_Msgs tx ! i) (as_parent s)"
      using step Inr Cons.prems(1,2) by (auto simp: ante_inv_def)
    have rest: "authenticate_msgs S E K T tx simulate fp fg fee selected (i + 1) msgs s1 = (r, s')"
      using Cons.prems(4) m msg Inr by simp
    have IH: "(as_parent s' = p \<or> paid_by T tx simulate w (as_parent s')) \<and>
      (r = Inr () \<longrightarrow> as_parent s' = as_parent s1 \<and>
        (\<forall>j. i + 1 \<le> j \<longrightarrow> j < length (tx_Msgs tx) \<longrightarrow> authenticated S E K T tx (selected ! j) (tx_Msgs tx ! j) (as_parent s1)))"
      by (rule Cons.IH [OF st(1,2) msgs rest])
    have "authenticated S E K T tx (selected ! j) (tx_Msgs tx ! j) (as_parent s)"
      if "r = Inr ()" "i \<le> j" "j < length (tx_Msgs tx)" for j
      using IH st(3,4) that by (cases "j = i") auto
    then show ?thesis using IH st(3) by simp
  qed
qed

lemma authenticate_all:
  assumes "ante_inv T tx simulate w p s" and "\<not> as_feesPaid s" and "tx_Msgs tx = msg # msgs"
    and "GetMsgV1Signers T msg = Inr signers" and "nth_res signers 0 = Inr fp"
    and "authenticate_msgs S E K T tx simulate fp fg fee selected 0 (tx_Msgs tx) s = (r, s')"
  shows "(as_parent s' = p \<or> paid_by T tx simulate w (as_parent s')) \<and>
    (r = Inr () \<longrightarrow> paid_by T tx simulate w (as_parent s') \<and>
      (\<forall>j < length (tx_Msgs tx). authenticated S E K T tx (selected ! j) (tx_Msgs tx ! j) (if j = 0 then w else as_parent s')))"
proof -
  obtain r1 s1 where m: "authenticate_msg S E K T tx simulate fp fg fee selected 0 (tx_Msgs tx ! 0) s = (r1, s1)" by fastforce
  note step = authenticate_msg_step [OF assms(1) m]
  show ?thesis
  proof (cases r1)
    case (Inl e)
    then show ?thesis using step assms(3,6) m by auto
  next
    case (Inr u)
    have auth: "authenticated S E K T tx (selected ! 0) (tx_Msgs tx ! 0) w"
      using step Inr assms(1,2) by (simp add: ante_inv_def)
    then have "signers = [fp]"
      using assms(3-5) by (auto simp: authenticated_def nth_res_def split: if_splits)
    then have s1: "ante_inv T tx simulate w p s1" "as_feesPaid s1"
      using step Inr assms(3,4) by auto
    have paid: "paid_by T tx simulate w (as_parent s1)"
      using s1 by (simp add: ante_inv_def)
    have msgs: "msgs = drop 1 (tx_Msgs tx)" using assms(3) by simp
    have rest: "authenticate_msgs S E K T tx simulate fp fg fee selected 1 msgs s1 = (r, s')"
      using assms(3,6) m Inr by simp
    show ?thesis
      using authenticate_msgs_paid [OF s1 msgs rest] paid auth by (auto simp: Suc_le_eq)
  qed
qed

text \<open>
  C1.  A transaction that the decorator passes on has every message authenticated.  Each message has
  exactly one signer, the authenticator selected for it is stored for that signer, the signer's
  signature carries the account's sequence number, and the authenticator accepted the request.  The
  fee is deducted exactly once, after the first message and before any other is looked at.  Whatever
  happens, all that is written below the transaction's cache is that fee deduction on the store the
  transaction started from: authentication and tracking leave nothing there.
\<close>

theorem sa_ante_sound:
  assumes "AuthenticatorAnteHandle S E K T next tx simulate parent ctx = (r, ctx', parent')"
  shows "(parent' = parent \<or> paid_by T tx simulate (gstore ctx) parent') \<and>
    (r = Inr () \<longrightarrow> paid_by T tx simulate (gstore ctx) parent' \<and>
      (\<exists>selected. GetSelectedAuthenticators T tx (length (tx_Msgs tx)) = Inr selected \<and>
        (\<forall>i < length (tx_Msgs tx).
          authenticated S E K T tx (selected ! i) (tx_Msgs tx ! i) (if i = 0 then gstore ctx else parent'))))"
proof (cases "ValidateAuthenticatorFeePayer T tx")
  case (Inl e)
  then show ?thesis using assms by (auto simp: AuthenticatorAnteHandle_def)
next
  case (Inr u)
  obtain msg msgs signers fp where msgs: "tx_Msgs tx = msg # msgs" and sg: "GetMsgV1Signers T msg = Inr signers"
    and fp: "nth_res signers 0 = Inr fp"
    using Inr by (auto simp: ValidateAuthenticatorFeePayer_def nth_res_def split: option.splits list.splits sum.splits)
  define s where "s = \<lparr>as_ctx = ctx\<lparr>meter := NewGasMeter (GasLib E) (MaximumUnauthenticatedGas (SAGetParams (fst (gstore ctx))))\<rparr>,
    as_original = meter ctx, as_feesPaid = False, as_tracks = [], as_parent = parent\<rparr>"
  have inv: "ante_inv T tx simulate (gstore ctx) parent s" "\<not> as_feesPaid s"
    by (simp_all add: ante_inv_def s_def)
  obtain r1 s1 where b: "ante_body S E K T next tx simulate s = (r1, s1)" by fastforce
  have out: "r = recover_gas r1" "parent' = as_parent s1"
    using assms Inr b by (auto simp: AuthenticatorAnteHandle_def s_def Let_def split: prod.splits)
  show ?thesis
  proof (cases "\<exists>fg fee selected x. tx_FeeTx tx = Some (x, fg, fee) \<and> GetSelectedAuthenticators T tx (length (tx_Msgs tx)) = Inr selected")
    case False
    then have "(\<exists>e. r1 = Inl e) \<and> s1 = s"
      using b msgs sg fp by (auto simp: ante_body_def split: option.splits sum.splits)
    then show ?thesis using out by (auto simp: recover_gas_def s_def)
  next
    case True
    then obtain fg fee selected x where fee: "tx_FeeTx tx = Some (x, fg, fee)"
      and sel: "GetSelectedAuthenticators T tx (length (tx_Msgs tx)) = Inr selected" by blast
    obtain r2 s2 where l: "authenticate_msgs S E K T tx simulate fp fg fee selected 0 (tx_Msgs tx) s = (r2, s2)" by fastforce
    note all = authenticate_all [OF inv msgs sg fp l]
    have par: "as_parent s1 = as_parent s2" and ok: "r1 = Inr () \<Longrightarrow> r2 = Inr ()"
      using b msgs sg fp fee sel l by (auto simp: ante_body_def Let_def split: sum.splits prod.splits)
    show ?thesis
      using all par ok out sel by (auto simp: recover_gas_def split: if_splits)
  qed
qed

definition ex_tx :: sa_tx where
  "ex_tx = \<lparr>tx_Msgs = [''pay'', ''vote''], tx_FeeTx = Some (''alice'', [], []), tx_ExtensionOptions = Some [''ext''],
     tx_SigTx = Some (Inr [\<lparr>sv_Data = SingleSignature ex_key, sv_Sequence = 5\<rparr>], Inr [''alice'']),
     tx_TimeoutHeight = Some 0, tx_Memo = Some []\<rparr>"

definition ex_tx_env :: "(ledger, u64 \<times> u64) tx_env" where
  "ex_tx_env = \<lparr>GetMsgV1Signers = (\<lambda>m. Inr [''alice'']), NewAnyWithValue = (\<lambda>m. Inr \<lparr>la_TypeURL = ''/msg'', la_Value = m\<rparr>),
     UnpackTxOptions = (\<lambda>e. Some [1, 1]), GetAccountNumSeq = (\<lambda>w a. Some (1, 5)), CtxBlockHeight = 10, CtxChainID = ''terp'',
     CtxIsCheckTx = False, GetSignBytes = (\<lambda>sd tx. Inr ''bytes''), DeductFee = (\<lambda>tx sim ctx. (Inr (), ctx)),
     IsCacheMultiStore = True, MarshalMultiSignature = (\<lambda>sigs. Inr (concat sigs)), Base64 = (\<lambda>s. s)\<rparr>"

text \<open>Alice has added her key and sends two messages under it.\<close>

definition ex_tx_ctx :: "(ledger, u64 \<times> u64) sa_ctx" where
  "ex_tx_ctx = \<lparr>gstore = snd (sa_deliver ledger_sdk ex_env ex_keeper ((100000, 0), ex_add) ex_chain), meter = (200000, 0), evs = []\<rparr>"

theorem sa_ante_sound_witness:
  "fst (AuthenticatorAnteHandle ledger_sdk ex_env ex_keeper ex_tx_env (\<lambda>tx sim ctx. (Inr (), ctx)) ex_tx False (gstore ex_tx_ctx) ex_tx_ctx) = Inr () \<and>
   (\<exists>w. authenticated ledger_sdk ex_env ex_keeper ex_tx_env ex_tx 1 ''vote'' w)"
proof -
  let ?run = "AuthenticatorAnteHandle ledger_sdk ex_env ex_keeper ex_tx_env (\<lambda>tx sim ctx. (Inr (), ctx)) ex_tx False (gstore ex_tx_ctx) ex_tx_ctx"
  have ok: "fst ?run = Inr ()" by code_simp
  have run: "?run = (Inr (), fst (snd ?run), snd (snd ?run))" using ok by (simp add: prod_eq_iff)
  have sel: "GetSelectedAuthenticators ex_tx_env ex_tx (length (tx_Msgs ex_tx)) = Inr [1, 1]" by code_simp
  have len: "length (tx_Msgs ex_tx) = 2" "tx_Msgs ex_tx ! 1 = ''vote''" by code_simp+
  have "authenticated ledger_sdk ex_env ex_keeper ex_tx_env ex_tx 1 ''vote'' (snd (snd ?run))"
    using sa_ante_sound [OF run] sel len by (auto dest!: spec [of _ 1])
  then show ?thesis using ok by blast
qed

end
