(* ===== verification/GasRegister.thy ===== *)
theory GasRegister
  imports Dispatcher
begin

text \<open>
  The gas register of \<open>x/wasm\<close> (\<open>types/gas_register.go\<close>): what a contract call costs, and the
  conversion between the gas of the chain and the gas of the virtual machine, in 64-bit arithmetic
  as the code has it; and the two functions of the keeper that give a contract its gas and charge it
  (\<open>keeper/keeper.go\<close>).
\<close>

section \<open>Configuration\<close>

record UFraction =
  Numerator :: u64
  Denominator :: u64

definition UFraction_Mul :: "UFraction \<Rightarrow> u64 \<Rightarrow> UFraction" where
  "UFraction_Mul f m = \<lparr>Numerator = Numerator f * m, Denominator = Denominator f\<rparr>"

definition UFraction_Floor :: "UFraction \<Rightarrow> u64 res" where
  "UFraction_Floor f =
     (if Denominator f = 0 then Inl (Panicked ''integer divide by zero'') else Inr (Numerator f div Denominator f))"

record WasmGasRegisterConfig =
  InstanceCost :: u64
  InstanceCostDiscount :: u64
  CompileCost :: u64
  UncompressCost :: UFraction
  GasMultiplier :: u64
  EventPerAttributeCost :: u64
  EventAttributeDataCost :: u64
  EventAttributeDataFreeTier :: u64
  ContractMessageDataCost :: u64
  CustomEventCost :: u64
  PinCodeCost :: u64
  UnpinCodeCost :: u64

definition DefaultGasRegisterConfig :: WasmGasRegisterConfig where
  "DefaultGasRegisterConfig =
     \<lparr>InstanceCost = 60000, InstanceCostDiscount = 2000, CompileCost = 3,
      UncompressCost = \<lparr>Numerator = 15, Denominator = 100\<rparr>, GasMultiplier = 140000,
      EventPerAttributeCost = 10, EventAttributeDataCost = 1, EventAttributeDataFreeTier = 100,
      ContractMessageDataCost = 0, CustomEventCost = 20, PinCodeCost = 500000, UnpinCodeCost = 500000\<rparr>"

definition NewWasmGasRegister :: "WasmGasRegisterConfig \<Rightarrow> WasmGasRegisterConfig res" where
  "NewWasmGasRegister c =
     (if GasMultiplier c = 0 then Inl (Panicked ''GasMultiplier can not be 0'') else Inr c)"

section \<open>Costs\<close>

text \<open>A length is a Go \<open>int\<close>.\<close>

definition UncompressCosts :: "WasmGasRegisterConfig \<Rightarrow> int \<Rightarrow> u64 res" where
  "UncompressCosts c byteLength =
     (if byteLength < 0 then Inl (Panicked ''negative length'')
      else UFraction_Floor (UFraction_Mul (UncompressCost c) (of_int byteLength)))"

definition SetupContractCost :: "WasmGasRegisterConfig \<Rightarrow> bool \<Rightarrow> int \<Rightarrow> u64 res" where
  "SetupContractCost c discount msgLen =
     (if msgLen < 0 then Inl (Panicked ''negative length'')
      else (let dataCost = of_int msgLen * ContractMessageDataCost c
            in Inr (if discount then InstanceCostDiscount c + dataCost else InstanceCost c + dataCost)))"

definition calcWithFreeTier :: "u64 \<Rightarrow> u64 \<Rightarrow> u64 \<times> u64" where
  "calcWithFreeTier storedBytes freeTier =
     (if storedBytes \<le> freeTier then (0, freeTier - storedBytes) else (storedBytes - freeTier, 0))"

text \<open>The attributes of the virtual machine's events are pairs of a key and a value.\<close>

definition storedBytes :: "(string \<times> string) list \<Rightarrow> u64" where
  "storedBytes attrs = foldl (\<lambda>n l. n + (of_nat (length (fst l)) + of_nat (length (snd l)))) 0 attrs"

text \<open>The product is taken in unbounded integers, and a result of more than 64 bits is out of gas.\<close>

definition eventAttributeCosts ::
  "WasmGasRegisterConfig \<Rightarrow> (string \<times> string) list \<Rightarrow> u64 \<Rightarrow> (u64 \<times> u64) res" where
  "eventAttributeCosts c attrs freeTier =
     (if attrs = [] then Inr (0, freeTier)
      else (let (stored, free) = calcWithFreeTier (storedBytes attrs) freeTier;
                r = uint (EventAttributeDataCost c) * uint stored +
                    uint (EventPerAttributeCost c) * uint (of_nat (length attrs) :: u64)
            in if r < 18446744073709551616 then Inr (of_int r, free) else Inl OutOfGas))"

fun eventCosts_loop :: "WasmGasRegisterConfig \<Rightarrow> WasmEvent list \<Rightarrow> u64 \<Rightarrow> u64 \<Rightarrow> u64 res" where
  "eventCosts_loop c [] gas free = Inr gas"
| "eventCosts_loop c (e # es) gas free =
     (let gas = gas + CustomEventCost c + of_nat (length (fst e)) * EventAttributeDataCost c
      in case eventAttributeCosts c (snd e) free of
           Inl err \<Rightarrow> Inl err
         | Inr (attrCost, free') \<Rightarrow> eventCosts_loop c es (gas + attrCost) free')"

definition EventCosts :: "WasmGasRegisterConfig \<Rightarrow> (string \<times> string) list \<Rightarrow> WasmEvent list \<Rightarrow> u64 res" where
  "EventCosts c attrs events =
     (case eventAttributeCosts c attrs (EventAttributeDataFreeTier c) of
        Inl e \<Rightarrow> Inl e
      | Inr (gas, free) \<Rightarrow> eventCosts_loop c events gas free)"

definition ReplyCosts :: "WasmGasRegisterConfig \<Rightarrow> bool \<Rightarrow> Reply \<Rightarrow> u64 res" where
  "ReplyCosts c discount reply =
     (case rp_Result reply of
        SubErr err \<Rightarrow> SetupContractCost c discount (int (length err))
      | SubOk events data _ \<Rightarrow>
          (let msgLen = length (case data of None \<Rightarrow> [] | Some d \<Rightarrow> d);
               typeGas = foldl (\<lambda>g e. g + of_nat (length (fst e)) * EventAttributeDataCost c) 0 events
           in case EventCosts c (concat (map snd events)) [] of
                Inl e \<Rightarrow> Inl e
              | Inr attrGas \<Rightarrow>
                  (case SetupContractCost c discount (int msgLen) of
                     Inl e \<Rightarrow> Inl e
                   | Inr setup \<Rightarrow> Inr (typeGas + attrGas + setup))))"

section \<open>Conversion\<close>

definition ToWasmVMGas :: "WasmGasRegisterConfig \<Rightarrow> u64 \<Rightarrow> u64 res" where
  "ToWasmVMGas c source =
     (let x = source * GasMultiplier c in if x < source then Inl (Panicked ''ToWasmVMGas'') else Inr x)"

definition FromWasmVMGas :: "WasmGasRegisterConfig \<Rightarrow> u64 \<Rightarrow> u64" where
  "FromWasmVMGas c source = source div GasMultiplier c"

section \<open>The gas of a contract\<close>

text \<open>
  What the keeper further asks of a gas meter.  An unlimited meter has the largest limit.
\<close>

record 'g meter_ops = "'g gas_ops" +
  IsOutOfGas :: "'g \<Rightarrow> bool"
  GasConsumedToLimit :: "'g \<Rightarrow> u64"

definition runtimeGasForContract :: "WasmGasRegisterConfig \<Rightarrow> 'g meter_ops \<Rightarrow> 'g \<Rightarrow> u64 res" where
  "runtimeGasForContract c G m =
     (if IsOutOfGas G m then Inr 0
      else if MeterLimit G m = 18446744073709551615 then Inr 18446744073709551615
      else ToWasmVMGas c (MeterLimit G m - GasConsumedToLimit G m))"

definition consumeRuntimeGas :: "WasmGasRegisterConfig \<Rightarrow> 'g meter_ops \<Rightarrow> u64 \<Rightarrow> 'g \<Rightarrow> unit res \<times> 'g" where
  "consumeRuntimeGas c G gas m =
     (case MeterConsume G (FromWasmVMGas c gas) m of
        (Inl e, m') \<Rightarrow> (Inl e, m')
      | (Inr _, m') \<Rightarrow> (if IsOutOfGas G m' then Inl OutOfGas else Inr (), m'))"


section \<open>The cost of events\<close>

text \<open>
  The reference: the free tier is subtracted once from the bytes of all attributes together, and
  every attribute, every event and every byte of an event's type is charged.
\<close>

definition attr_bytes :: "(string \<times> string) list \<Rightarrow> nat" where
  "attr_bytes attrs = sum_list (map (\<lambda>l. length (fst l) + length (snd l)) attrs)"

definition event_cost_spec :: "WasmGasRegisterConfig \<Rightarrow> (string \<times> string) list \<Rightarrow> WasmEvent list \<Rightarrow> nat" where
  "event_cost_spec c attrs events =
     (let all_attrs = attrs @ concat (map snd events)
      in unat (EventAttributeDataCost c) * (attr_bytes all_attrs - unat (EventAttributeDataFreeTier c)) +
         unat (EventPerAttributeCost c) * length all_attrs +
         sum_list (map (\<lambda>e. unat (CustomEventCost c) + length (fst e) * unat (EventAttributeDataCost c)) events))"

lemma attr_bytes_simps [simp]:
  "attr_bytes [] = 0"
  "attr_bytes (xs @ ys) = attr_bytes xs + attr_bytes ys"
  by (simp_all add: attr_bytes_def)

lemma storedBytes_eq: "storedBytes attrs = of_nat (attr_bytes attrs)"
proof -
  have "foldl (\<lambda>n l. n + (of_nat (length (fst l)) + of_nat (length (snd l)))) a attrs =
      a + of_nat (attr_bytes attrs)" for a :: u64
    by (induction attrs arbitrary: a) (simp_all add: attr_bytes_def algebra_simps)
  then show ?thesis by (simp add: storedBytes_def)
qed

lemma unat_of_nat_u64: "n < 18446744073709551616 \<Longrightarrow> unat (of_nat n :: u64) = n"
  by (simp add: unsigned_of_nat take_bit_nat_eq_self)

lemma unat_of_nat_minus: "unat (of_nat (unat (f :: u64) - n) :: u64) = unat f - n"
proof (rule unat_of_nat_u64)
  have "unat f < 18446744073709551616" using unat_u64_bound [of f] by simp
  then show "unat f - n < 18446744073709551616" by linarith
qed

lemma calcWithFreeTier_nat:
  assumes "b < 18446744073709551616"
  shows "unat (fst (calcWithFreeTier (of_nat b) f)) = b - unat f"
    and "snd (calcWithFreeTier (of_nat b) f) = of_nat (unat f - b)"
proof -
  have le: "(of_nat b :: u64) \<le> f \<longleftrightarrow> b \<le> unat f"
    using assms by (simp add: word_le_nat_alt unat_of_nat_u64)
  show "unat (fst (calcWithFreeTier (of_nat b) f)) = b - unat f"
    using assms le by (auto simp: calcWithFreeTier_def unat_sub word_le_nat_alt unat_of_nat_u64)
  show "snd (calcWithFreeTier (of_nat b) f) = of_nat (unat f - b)"
    using assms le by (auto simp: calcWithFreeTier_def)
qed

lemma eventAttributeCosts_nat:
  assumes "attr_bytes attrs < 18446744073709551616" and "length attrs < 18446744073709551616"
    and "unat (EventAttributeDataCost c) * (attr_bytes attrs - unat f) +
         unat (EventPerAttributeCost c) * length attrs < 18446744073709551616"
  shows "eventAttributeCosts c attrs f =
     Inr (of_nat (unat (EventAttributeDataCost c) * (attr_bytes attrs - unat f) +
                  unat (EventPerAttributeCost c) * length attrs), of_nat (unat f - attr_bytes attrs))"
proof (cases "attrs = []")
  case True
  then show ?thesis by (simp add: eventAttributeCosts_def)
next
  case False
  obtain s g where sg: "calcWithFreeTier (of_nat (attr_bytes attrs)) f = (s, g)" by fastforce
  have s: "unat s = attr_bytes attrs - unat f" and g: "g = of_nat (unat f - attr_bytes attrs)"
    using calcWithFreeTier_nat [OF assms(1), of f] sg by simp_all
  let ?n = "unat (EventAttributeDataCost c) * (attr_bytes attrs - unat f) + unat (EventPerAttributeCost c) * length attrs"
  have r: "uint (EventAttributeDataCost c) * uint s + uint (EventPerAttributeCost c) * uint (of_nat (length attrs) :: u64) = int ?n"
    using unat_of_nat_u64 [OF assms(2)] s by (simp only: uint_nat of_nat_add of_nat_mult)
  have "int ?n < 18446744073709551616" and "of_int (int ?n) = (of_nat ?n :: u64)"
    using assms(3) by linarith simp
  then show ?thesis
    using False sg g unfolding eventAttributeCosts_def storedBytes_eq Let_def sg prod.case r by (simp only: if_False if_True)
qed

lemma eventCosts_loop_nat:
  assumes "attr_bytes (concat (map snd es)) < 18446744073709551616"
    and "length (concat (map snd es)) < 18446744073709551616"
    and "unat (EventAttributeDataCost c) * (attr_bytes (concat (map snd es)) - unat f) +
         unat (EventPerAttributeCost c) * length (concat (map snd es)) < 18446744073709551616"
  shows "eventCosts_loop c es gas f =
     Inr (gas + of_nat (unat (EventAttributeDataCost c) * (attr_bytes (concat (map snd es)) - unat f) +
            unat (EventPerAttributeCost c) * length (concat (map snd es)) +
            sum_list (map (\<lambda>e. unat (CustomEventCost c) + length (fst e) * unat (EventAttributeDataCost c)) es)))"
  using assms
proof (induction es arbitrary: gas f)
  case Nil
  then show ?case by simp
next
  case (Cons e es)
  let ?d = "unat (EventAttributeDataCost c)" and ?p = "unat (EventPerAttributeCost c)"
  let ?b = "attr_bytes (snd e)" and ?bs = "attr_bytes (concat (map snd es))" and ?f = "unat f"
  let ?n = "length (snd e)" and ?ns = "length (concat (map snd es))"
  have split: "?b + ?bs - ?f = (?b - ?f) + (?bs - (?f - ?b))" by simp
  have total: "?d * (?b - ?f) + ?d * (?bs - (?f - ?b)) + ?p * ?n + ?p * ?ns < 18446744073709551616"
    using Cons.prems(3) by (simp add: split distrib_left)
  have f: "unat (of_nat (?f - ?b) :: u64) = ?f - ?b"
    by (rule unat_of_nat_minus)
  have one: "eventAttributeCosts c (snd e) f = Inr (of_nat (?d * (?b - ?f) + ?p * ?n), of_nat (?f - ?b))"
    by (rule eventAttributeCosts_nat) (use Cons.prems total in simp_all)
  have IH: "eventCosts_loop c es g (of_nat (?f - ?b)) = Inr (g + of_nat (?d * (?bs - (?f - ?b)) + ?p * ?ns +
      sum_list (map (\<lambda>e. unat (CustomEventCost c) + length (fst e) * ?d) es)))" for g
    using Cons.IH [of "of_nat (?f - ?b)" g] Cons.prems total by (simp add: f)
  show ?case by (simp add: one IH split algebra_simps)
qed

lemma EventCosts_nat:
  assumes "attr_bytes (attrs @ concat (map snd events)) < 18446744073709551616"
    and "length (attrs @ concat (map snd events)) < 18446744073709551616"
    and "event_cost_spec c attrs events < 18446744073709551616"
  shows "EventCosts c attrs events = Inr (of_nat (event_cost_spec c attrs events))"
proof -
  let ?d = "unat (EventAttributeDataCost c)" and ?p = "unat (EventPerAttributeCost c)"
  let ?b = "attr_bytes attrs" and ?bs = "attr_bytes (concat (map snd events))" and ?f = "unat (EventAttributeDataFreeTier c)"
  let ?ns = "length (concat (map snd events))"
  have split: "?b + ?bs - ?f = (?b - ?f) + (?bs - (?f - ?b))" by simp
  have spec: "event_cost_spec c attrs events =
      (?d * (?b - ?f) + ?p * length attrs) + (?d * (?bs - (?f - ?b)) + ?p * ?ns +
       sum_list (map (\<lambda>e. unat (CustomEventCost c) + length (fst e) * ?d) events))"
    by (simp add: event_cost_spec_def Let_def split distrib_left)
  have f: "unat (of_nat (?f - ?b) :: u64) = ?f - ?b"
    by (rule unat_of_nat_minus)
  have "eventAttributeCosts c attrs (EventAttributeDataFreeTier c) =
      Inr (of_nat (?d * (?b - ?f) + ?p * length attrs), of_nat (?f - ?b))"
    by (rule eventAttributeCosts_nat) (use assms spec in simp_all)
  moreover have "eventCosts_loop c events g (of_nat (?f - ?b)) = Inr (g + of_nat (?d * (?bs - (?f - ?b)) + ?p * ?ns +
      sum_list (map (\<lambda>e. unat (CustomEventCost c) + length (fst e) * ?d) events)))" for g
    using eventCosts_loop_nat [of events c "of_nat (?f - ?b)" g] assms spec by (simp add: f)
  ultimately show ?thesis by (simp add: EventCosts_def spec)
qed

text \<open>
  C28.  The events of a contract response cost what the reference says, as long as the reference fits
  into 64 bits: the free tier, which the code threads through the response's attributes and then
  through the attributes of each event, is given once for all of them together, and each attribute,
  each event and each byte of a type is charged.  In particular splitting the attributes over several
  events gives no second free tier.
\<close>

theorem wasm_event_costs_reference:
  assumes "attr_bytes (attrs @ concat (map snd events)) < 2 ^ 64"
    and "length (attrs @ concat (map snd events)) < 2 ^ 64"
    and "event_cost_spec c attrs events < 2 ^ 64"
  shows "\<exists>gas. EventCosts c attrs events = Inr gas \<and> unat gas = event_cost_spec c attrs events"
  using EventCosts_nat [of attrs events c] unat_of_nat_u64 [of "event_cost_spec c attrs events"] assms by simp

theorem wasm_event_costs_reference_witness:
  "EventCosts DefaultGasRegisterConfig [(''action'', ''mint'')] [(''wasm-mint'', [(''to'', ''terp1'')])] = Inr 49"
proof -
  let ?as = "[(''action'', ''mint'')]" and ?es = "[(''wasm-mint'', [(''to'', ''terp1'')])]"
  have "event_cost_spec DefaultGasRegisterConfig ?as ?es = 49"
    by (simp add: event_cost_spec_def attr_bytes_def DefaultGasRegisterConfig_def)
  moreover have "\<exists>gas. EventCosts DefaultGasRegisterConfig ?as ?es = Inr gas \<and>
      unat gas = event_cost_spec DefaultGasRegisterConfig ?as ?es"
    by (rule wasm_event_costs_reference)
       (simp_all add: event_cost_spec_def attr_bytes_def DefaultGasRegisterConfig_def)
  ultimately obtain gas where "EventCosts DefaultGasRegisterConfig ?as ?es = Inr gas" and "unat gas = 49" by auto
  moreover have "gas = 49" using \<open>unat gas = 49\<close> by (simp add: word_unat_eq_iff)
  ultimately show ?thesis by simp
qed

section \<open>The gas of a contract\<close>

text \<open>
  A limited meter is out of gas when its limit is reached, and reports what it consumed up to the
  limit.
\<close>

definition meter_laws :: "'g meter_ops \<Rightarrow> bool" where
  "meter_laws G \<longleftrightarrow>
     gas_laws (gas_ops.truncate G) \<and>
     (\<forall>m. MeterLimit G m \<noteq> 18446744073709551615 \<longrightarrow> (IsOutOfGas G m \<longleftrightarrow> MeterLimit G m \<le> GasConsumed G m)) \<and>
     (\<forall>m. GasConsumedToLimit G m = min (GasConsumed G m) (MeterLimit G m))"

definition ref_meter :: "(u64 \<times> u64) meter_ops" where
  "ref_meter = gas_ops.extend ref_gas
     \<lparr>IsOutOfGas = (\<lambda>m. fst m \<noteq> 18446744073709551615 \<and> fst m \<le> snd m), GasConsumedToLimit = (\<lambda>m. min (snd m) (fst m))\<rparr>"

lemma ref_meter_laws: "meter_laws ref_meter"
  using ref_gas_laws by (simp add: meter_laws_def ref_meter_def gas_ops.defs ref_gas_def)

lemma ToWasmVMGas_exact:
  assumes "uint s * uint (GasMultiplier c) < 2 ^ 64" and "GasMultiplier c \<noteq> 0"
  shows "ToWasmVMGas c s = Inr (s * GasMultiplier c)" and "uint (s * GasMultiplier c) = uint s * uint (GasMultiplier c)"
proof -
  show x: "uint (s * GasMultiplier c) = uint s * uint (GasMultiplier c)"
    using assms(1) by (simp add: uint_word_ariths)
  have "1 \<le> uint (GasMultiplier c)" using assms(2) uint_0_iff [of "GasMultiplier c"] uint_ge_0 [of "GasMultiplier c"] by linarith
  then have "uint s \<le> uint s * uint (GasMultiplier c)" by (simp add: mult_le_cancel_left1)
  then show "ToWasmVMGas c s = Inr (s * GasMultiplier c)"
    using x by (simp add: ToWasmVMGas_def Let_def word_less_def)
qed



text \<open>
  The overflow check of the conversion does not find every overflow: it compares the product
  with the source, and a product that wraps around to a larger number passes.  With the default
  multiplier, \<open>140000000000000\<close> units of gas are converted without a panic, and the contract is given
  less than a tenth of what the transaction paid for.
\<close>

theorem wasm_gas_overflow_missed:
  "\<exists>x. ToWasmVMGas DefaultGasRegisterConfig 140000000000000 = Inr x \<and>
     uint x < uint (140000000000000 :: u64) * uint (GasMultiplier DefaultGasRegisterConfig) \<and>
     10 * uint (FromWasmVMGas DefaultGasRegisterConfig x) < uint (140000000000000 :: u64)"
  by (simp add: ToWasmVMGas_def FromWasmVMGas_def DefaultGasRegisterConfig_def Let_def uint_div)

end
