(* ===== verification/WasmStore.thy ===== *)
theory WasmStore
  imports KVStore WasmMsgs GasRegister SdkMath
begin

text \<open>
  The state of the \<open>x/wasm\<close> keeper as far as codes, circuits and their parameters go: the keys of
  \<open>types/keys.go\<close>, the records stored under them, the sequences, the pinned indices, the parameters
  and the handlers that change them (\<open>keeper/keeper.go\<close>, \<open>keeper/msg_server.go\<close>).  All of it lives in
  one store with byte keys, as in the code, so that two indices that share a prefix share their
  entries.  The virtual machine and the libraries are parameters.
\<close>

section \<open>Keys\<close>

text \<open>
  \<open>address.MustLengthPrefix\<close>: the length in one byte, then the address.  An address has at most 255
  bytes; \<open>AccAddressFromBech32\<close> refuses a longer one.
\<close>

definition MustLengthPrefix :: "string \<Rightarrow> string" where
  "MustLengthPrefix bz = (if bz = [] then [] else char_of (length bz) # bz)"

definition GetVkParamId :: "u64 \<Rightarrow> string" where
  "GetVkParamId vkParamId = CHR 0x12 # Uint64ToBigEndian vkParamId"

definition GetVkParamBytesKey :: "u64 \<Rightarrow> string" where
  "GetVkParamBytesKey vkParamId = CHR 0x14 # Uint64ToBigEndian vkParamId"

definition GetCodeKey :: "u64 \<Rightarrow> string" where
  "GetCodeKey codeID = CHR 0x01 # Uint64ToBigEndian codeID"

definition GetCircuitKey :: "u64 \<Rightarrow> string" where
  "GetCircuitKey zkId = CHR 0x16 # Uint64ToBigEndian zkId"

definition GetCircuitBytesKey :: "u64 \<Rightarrow> string" where
  "GetCircuitBytesKey zkId = CHR 0x19 # Uint64ToBigEndian zkId"

definition circuitParamRefKey :: "u64 \<Rightarrow> string" where
  "circuitParamRefKey zkID = CHR 0x17 # Uint64ToBigEndian zkID"

text \<open>Relative to their prefixes \<open>0x1B\<close> and \<open>0x1C\<close>.\<close>

definition GetCircuitDepositExpiryKey :: "u64 \<Rightarrow> string \<Rightarrow> string" where
  "GetCircuitDepositExpiryKey until addr = Uint64ToBigEndian until @ MustLengthPrefix addr"

definition ParseCircuitDepositExpiryKey :: "string \<Rightarrow> (u64 \<times> string) option" where
  "ParseCircuitDepositExpiryKey key =
     (if length key < 9 then None
      else let until = BigEndianToUint64 (take 8 key); n = of_char (key ! 8) :: nat
           in if n \<le> 0 \<or> length key < 9 + n then None else Some (until, take n (drop 9 key)))"

definition GetCircuitDepositGCKey :: "string \<Rightarrow> string" where
  "GetCircuitDepositGCKey addr = MustLengthPrefix addr"

definition ParseCircuitDepositGCKey :: "string \<Rightarrow> string option" where
  "ParseCircuitDepositGCKey key =
     (if length key < 1 then None
      else let n = of_char (key ! 0) :: nat
           in if n \<le> 0 \<or> length key < 1 + n then None else Some (take n (drop 1 key)))"

definition GetCircuitByCreatorIDPrefix :: "string \<Rightarrow> string" where
  "GetCircuitByCreatorIDPrefix creator = CHR 0x1D # MustLengthPrefix creator"

definition GetCircuitByCreatorIDKey :: "string \<Rightarrow> u64 \<Rightarrow> string" where
  "GetCircuitByCreatorIDKey creator zkID = GetCircuitByCreatorIDPrefix creator @ Uint64ToBigEndian zkID"

definition GetPinnedCodeIndexPrefix :: "u64 \<Rightarrow> string" where
  "GetPinnedCodeIndexPrefix codeID = CHR 0x07 # Uint64ToBigEndian codeID"

definition GetPinnedCircuitIndexPrefix :: "u64 \<Rightarrow> string" where
  "GetPinnedCircuitIndexPrefix zkID = CHR 0x07 # Uint64ToBigEndian zkID"

definition KeySequenceCircuitID :: string where "KeySequenceCircuitID = CHR 0x04 # ''lastPlonkishCircuit''"
definition KeySequenceVkParamID :: string where "KeySequenceVkParamID = CHR 0x04 # ''lastVkParamId''"
definition KeySequenceCodeID :: string where "KeySequenceCodeID = CHR 0x04 # ''lastCodeId''"

section \<open>Records and state\<close>

record CodeInfo =
  CodeHash :: string
  code_Creator :: string
  code_InstantiateConfig :: AccessConfig

record CircuitInfo =
  CircuitHash :: string
  zk_Creator :: string
  zk_InstantiateConfig :: AccessConfig
  zk_I :: u64
  VkpLen :: u64
  CsLen :: u64
  VkLen :: u64

record VkParamInfo =
  VkID :: u64
  vk_Creator :: string
  DataHash :: string

record CircuitEpochInfo =
  Identifier :: string
  DurationSeconds :: i64
  CurrentEpoch :: i64
  CurrentEpochStartUnix :: i64
  CurrentEpochStartHeight :: i64

text \<open>What is stored: raw bytes, or a record in its encoded form.\<close>

datatype wasm_val =
    Bytes string
  | CodeVal CodeInfo
  | CircuitVal CircuitInfo
  | VkParamVal VkParamInfo
  | EpochVal CircuitEpochInfo
  | ParamsVal WasmParams

record ('v, 'w) wasm_st =
  wkv :: "wasm_val kv"
  vm :: 'v
  world :: 'w

type_synonym ('v, 'w, 'g) wasm_ctx = "(('v, 'w) wasm_st, 'g) gctx"

text \<open>
  The virtual machine, with its own state \<open>'v\<close>: a call that can fail after it used gas returns both.
  Only some engines can remove a circuit.
\<close>

record 'v wasm_engine =
  StoreParam :: "string \<Rightarrow> 'v \<Rightarrow> string res \<times> 'v"
  StoreCircuit :: "string \<Rightarrow> u64 \<Rightarrow> 'v \<Rightarrow> (string res \<times> u64) \<times> 'v"
  SimulateStoreCircuit :: "string \<Rightarrow> u64 \<Rightarrow> 'v \<Rightarrow> (string res \<times> u64) \<times> 'v"
  StoreCode :: "string \<Rightarrow> u64 \<Rightarrow> 'v \<Rightarrow> (string res \<times> u64) \<times> 'v"
  SimulateStoreCode :: "string \<Rightarrow> u64 \<Rightarrow> 'v \<Rightarrow> (string res \<times> u64) \<times> 'v"
  AnalyzeCode :: "string \<Rightarrow> 'v \<Rightarrow> string res"
  UnpinCircuitVM :: "string \<Rightarrow> 'v \<Rightarrow> unit res \<times> 'v"
  RemoveCircuitVM :: "(string \<Rightarrow> 'v \<Rightarrow> unit res \<times> 'v) option"
  SyncPinnedCodes :: "string list \<Rightarrow> 'v \<Rightarrow> unit res \<times> 'v"
  SyncPinnedCircuits :: "string list \<Rightarrow> 'v \<Rightarrow> unit res \<times> 'v"
  GetCircuitVM :: "string \<Rightarrow> 'v \<Rightarrow> string option res"

record validator =
  OperatorAddress :: string
  Jailed :: bool

record ('v, 'w, 'g) wasm_keeper =
  wk_sdk :: "'w sdk"
  wk_coins :: coin_ops
  wk_meter :: "'g meter_ops"
  wasmVM :: "'v wasm_engine"
  gasRegister :: WasmGasRegisterConfig
  wk_authority :: string
  ValidateAuthority :: "string \<Rightarrow> string \<Rightarrow> unit res"
  propagateGovAuthorization :: "AuthorizationPolicyAction list"
  Sha256 :: "string \<Rightarrow> string"
  GzipReadAll :: "string \<Rightarrow> int \<Rightarrow> string res"
  circuitDepositYearly :: Coin
  GetAllBalances :: "'w \<Rightarrow> string \<Rightarrow> Coins"
  NewModuleAddress :: "string \<Rightarrow> string"
  GetBondedValidatorsByPower :: "('w \<Rightarrow> validator list res) option"
  ValAddressFromBech32 :: "string \<Rightarrow> string res"
  circuitWeight :: "('w \<Rightarrow> validator \<Rightarrow> i64) option"
  CoinsString :: "Coins \<Rightarrow> string"

text \<open>
  What a call reads of its context and of the process: the block, whether it is a simulation, the
  policy handed down to the messages of a contract, and two environment variables.
\<close>

record wasm_env =
  BlockTimeUnix :: i64
  BlockHeight :: i64
  ExecModeSimulate :: bool
  SubMsgAuthzPolicy :: "AuthorizationPolicy option"
  CIRCUIT_EPOCH_DURATION_SECONDS :: string
  MAX_CIRCUIT_SIZE :: string

abbreviation ErrCreateFailed :: error where "ErrCreateFailed \<equiv> Registered ''wasm'' 2"
abbreviation ErrWasmNotFound :: error where "ErrWasmNotFound \<equiv> Registered ''wasm'' 8"
abbreviation ErrNoSuchCode :: error where "ErrNoSuchCode \<equiv> Registered ''wasm'' 28"
abbreviation ErrSyncPinnedCodesFailed :: error where "ErrSyncPinnedCodesFailed \<equiv> Registered ''wasm'' 31"
abbreviation ErrUnpinCircuitFailed :: error where "ErrUnpinCircuitFailed \<equiv> Registered ''wasm'' 32"
abbreviation ErrPinCircuitFailed :: error where "ErrPinCircuitFailed \<equiv> Registered ''wasm'' 33"
abbreviation ErrPinContractFailed :: error where "ErrPinContractFailed \<equiv> Registered ''wasm'' 18"
abbreviation ErrNoSuchCircuit :: error where "ErrNoSuchCircuit \<equiv> Registered ''wasm'' 34"
abbreviation ErrCircuitDepositRequired :: error where "ErrCircuitDepositRequired \<equiv> Registered ''wasm'' 35"

abbreviation kv_of :: "('v, 'w, 'g) wasm_ctx \<Rightarrow> wasm_val kv" where "kv_of ctx \<equiv> wkv (gstore ctx)"

text \<open>The steps of a handler: a write, a call of the machine, a call of the SDK, a charge.\<close>

definition on_kv :: "(wasm_val kv \<Rightarrow> wasm_val kv) \<Rightarrow> ('v, 'w, 'g) wasm_ctx \<Rightarrow> ('v, 'w, 'g) wasm_ctx" where
  "on_kv f ctx = ctx\<lparr>gstore := (gstore ctx)\<lparr>wkv := f (wkv (gstore ctx))\<rparr>\<rparr>"

definition on_vm :: "('v \<Rightarrow> 'a \<times> 'v) \<Rightarrow> ('v, 'w, 'g) wasm_ctx \<Rightarrow> 'a \<times> ('v, 'w, 'g) wasm_ctx" where
  "on_vm f ctx = (let (a, v) = f (vm (gstore ctx)) in (a, ctx\<lparr>gstore := (gstore ctx)\<lparr>vm := v\<rparr>\<rparr>))"

definition on_world :: "('w \<Rightarrow> 'a \<times> 'w) \<Rightarrow> ('v, 'w, 'g) wasm_ctx \<Rightarrow> 'a \<times> ('v, 'w, 'g) wasm_ctx" where
  "on_world f ctx = (let (a, w) = f (world (gstore ctx)) in (a, ctx\<lparr>gstore := (gstore ctx)\<lparr>world := w\<rparr>\<rparr>))"

definition on_meter :: "('g \<Rightarrow> 'a \<times> 'g) \<Rightarrow> ('v, 'w, 'g) wasm_ctx \<Rightarrow> 'a \<times> ('v, 'w, 'g) wasm_ctx" where
  "on_meter f ctx = (let (a, m) = f (meter ctx) in (a, ctx\<lparr>meter := m\<rparr>))"

text \<open>An error of the machine or of a library is wrapped into an error of the module.\<close>

definition wrapR :: "error \<Rightarrow> 'a res \<times> 's \<Rightarrow> 'a res \<times> 's" where
  "wrapR e m = (case m of (Inl _, s) \<Rightarrow> (Inl e, s) | (Inr a, s) \<Rightarrow> (Inr a, s))"

definition emit :: "string \<Rightarrow> (string \<times> string) list \<Rightarrow> ('v, 'w, 'g) wasm_ctx \<Rightarrow> ('v, 'w, 'g) wasm_ctx" where
  "emit ty attrs ctx = EmitEvents [NewEvent ty attrs] ctx"

definition show_u64 :: "u64 \<Rightarrow> string" where
  "show_u64 n = dec_digits (unat n)"

section \<open>Reading and writing records\<close>

definition GetCodeInfo :: "wasm_val kv \<Rightarrow> u64 \<Rightarrow> CodeInfo option" where
  "GetCodeInfo kv codeID = (case kv_get kv (GetCodeKey codeID) of Some (CodeVal i) \<Rightarrow> Some i | _ \<Rightarrow> None)"

definition GetCircuitInfo :: "wasm_val kv \<Rightarrow> u64 \<Rightarrow> CircuitInfo option" where
  "GetCircuitInfo kv zkID = (case kv_get kv (GetCircuitKey zkID) of Some (CircuitVal i) \<Rightarrow> Some i | _ \<Rightarrow> None)"

definition GetVkParamInfo :: "wasm_val kv \<Rightarrow> u64 \<Rightarrow> VkParamInfo option" where
  "GetVkParamInfo kv vkParamID = (case kv_get kv (GetVkParamId vkParamID) of Some (VkParamVal i) \<Rightarrow> Some i | _ \<Rightarrow> None)"

definition getVkParamBytes :: "wasm_val kv \<Rightarrow> u64 \<Rightarrow> string res" where
  "getVkParamBytes kv vkParamID =
     (case kv_get kv (GetVkParamBytesKey vkParamID) of Some (Bytes bz) \<Rightarrow> Inr bz | _ \<Rightarrow> Inl ErrWasmNotFound)"

definition mustStoreCodeInfo :: "u64 \<Rightarrow> CodeInfo \<Rightarrow> ('v, 'w, 'g) wasm_ctx \<Rightarrow> ('v, 'w, 'g) wasm_ctx" where
  "mustStoreCodeInfo codeID info = on_kv (kv_set (GetCodeKey codeID) (CodeVal info))"

definition mustStoreCircuitInfo :: "u64 \<Rightarrow> CircuitInfo \<Rightarrow> ('v, 'w, 'g) wasm_ctx \<Rightarrow> ('v, 'w, 'g) wasm_ctx" where
  "mustStoreCircuitInfo vkID info = on_kv (kv_set (GetCircuitKey vkID) (CircuitVal info))"

definition mustStoreVkParamInfo :: "u64 \<Rightarrow> VkParamInfo \<Rightarrow> ('v, 'w, 'g) wasm_ctx \<Rightarrow> ('v, 'w, 'g) wasm_ctx" where
  "mustStoreVkParamInfo paramID info = on_kv (kv_set (GetVkParamId paramID) (VkParamVal info))"

definition mustStoreCircuitBytes :: "u64 \<Rightarrow> string \<Rightarrow> ('v, 'w, 'g) wasm_ctx \<Rightarrow> ('v, 'w, 'g) wasm_ctx" where
  "mustStoreCircuitBytes zkID blob = on_kv (kv_set (GetCircuitBytesKey zkID) (Bytes blob))"

definition mustStoreCircuitParamRef :: "u64 \<Rightarrow> u64 \<Rightarrow> ('v, 'w, 'g) wasm_ctx \<Rightarrow> ('v, 'w, 'g) wasm_ctx" where
  "mustStoreCircuitParamRef zkID paramID = on_kv (kv_set (circuitParamRefKey zkID) (Bytes (Uint64ToBigEndian paramID)))"

definition GetCircuitParamID :: "wasm_val kv \<Rightarrow> u64 \<Rightarrow> u64 option" where
  "GetCircuitParamID kv zkID =
     (case kv_get kv (circuitParamRefKey zkID) of
        Some (Bytes bz) \<Rightarrow> if length bz \<noteq> 8 then None else Some (BigEndianToUint64 bz)
      | _ \<Rightarrow> None)"

definition setCircuitCreatorIndex :: "string \<Rightarrow> u64 \<Rightarrow> ('v, 'w, 'g) wasm_ctx \<Rightarrow> ('v, 'w, 'g) wasm_ctx" where
  "setCircuitCreatorIndex creator zkID = on_kv (kv_set (GetCircuitByCreatorIDKey creator zkID) (Bytes [CHR 0x01]))"

definition deleteCircuitCreatorIndex :: "string \<Rightarrow> u64 \<Rightarrow> ('v, 'w, 'g) wasm_ctx \<Rightarrow> ('v, 'w, 'g) wasm_ctx" where
  "deleteCircuitCreatorIndex creator zkID = on_kv (kv_del (GetCircuitByCreatorIDKey creator zkID))"

text \<open>The parameters are written at genesis; the keeper panics when they are missing.\<close>

definition WasmGetParams :: "wasm_val kv \<Rightarrow> WasmParams res" where
  "WasmGetParams kv = (case kv_get kv [CHR 0x10] of Some (ParamsVal p) \<Rightarrow> Inr p | _ \<Rightarrow> Inl (Panicked ''not found''))"

definition WasmSetParams :: "WasmParams \<Rightarrow> ('v, 'w, 'g) wasm_ctx \<Rightarrow> ('v, 'w, 'g) wasm_ctx" where
  "WasmSetParams ps = on_kv (kv_set [CHR 0x10] (ParamsVal ps))"

definition getCircuitUploadAccessConfig :: "WasmParams \<Rightarrow> AccessConfig" where
  "getCircuitUploadAccessConfig p =
     (if Permission (CircuitUploadAccess p) \<noteq> AccessTypeUnspecified then CircuitUploadAccess p else CodeUploadAccess p)"

section \<open>Sequences\<close>

text \<open>\<open>binary.BigEndian.Uint64\<close> and \<open>binary.LittleEndian.Uint32\<close> read a prefix, and panic on a shorter slice.\<close>

definition be_uint64 :: "string \<Rightarrow> u64 res" where
  "be_uint64 bz = (if length bz < 8 then Inl (Panicked ''index out of range'') else Inr (of_nat (be_value (take 8 bz))))"

definition le_uint32 :: "string \<Rightarrow> u32 res" where
  "le_uint32 bz = (if length bz < 4 then Inl (Panicked ''index out of range'') else Inr (of_nat (be_value (rev (take 4 bz)))))"

definition raw_value :: "wasm_val kv \<Rightarrow> string \<Rightarrow> string option" where
  "raw_value kv k = (case kv_get kv k of Some (Bytes bz) \<Rightarrow> Some bz | _ \<Rightarrow> None)"

definition PeekAutoIncrementID :: "wasm_val kv \<Rightarrow> string \<Rightarrow> u64 res" where
  "PeekAutoIncrementID kv sequenceKey = (case raw_value kv sequenceKey of None \<Rightarrow> Inr 1 | Some bz \<Rightarrow> be_uint64 bz)"

definition PeekAutoIncrementIDUint32 :: "wasm_val kv \<Rightarrow> string \<Rightarrow> u32 res" where
  "PeekAutoIncrementIDUint32 kv sequenceKey = (case raw_value kv sequenceKey of None \<Rightarrow> Inr 1 | Some bz \<Rightarrow> le_uint32 bz)"

definition mustAutoIncrementID :: "string \<Rightarrow> ('v, 'w, 'g) wasm_ctx \<Rightarrow> u64 res \<times> ('v, 'w, 'g) wasm_ctx" where
  "mustAutoIncrementID sequenceKey ctx =
     (case (case raw_value (kv_of ctx) sequenceKey of None \<Rightarrow> Inr 1 | Some bz \<Rightarrow> be_uint64 bz) of
        Inl e \<Rightarrow> (Inl e, ctx)
      | Inr n \<Rightarrow> (Inr n, on_kv (kv_set sequenceKey (Bytes (Uint64ToBigEndian (n + 1)))) ctx))"

definition mustAutoIncrementIDUint32 :: "string \<Rightarrow> ('v, 'w, 'g) wasm_ctx \<Rightarrow> u32 res \<times> ('v, 'w, 'g) wasm_ctx" where
  "mustAutoIncrementIDUint32 sequenceKey ctx =
     (case (case raw_value (kv_of ctx) sequenceKey of None \<Rightarrow> Inr 1 | Some bz \<Rightarrow> le_uint32 bz) of
        Inl e \<Rightarrow> (Inl e, ctx)
      | Inr n \<Rightarrow> (Inr n, on_kv (kv_set sequenceKey (Bytes (le_bytes4 (n + 1)))) ctx))"

definition importAutoIncrementID :: "string \<Rightarrow> u64 \<Rightarrow> ('v, 'w, 'g) wasm_ctx \<Rightarrow> unit res \<times> ('v, 'w, 'g) wasm_ctx" where
  "importAutoIncrementID sequenceKey val ctx =
     (if kv_has (kv_of ctx) sequenceKey then (Inl ErrDuplicate, ctx)
      else (Inr (), on_kv (kv_set sequenceKey (Bytes (Uint64ToBigEndian val))) ctx))"

section \<open>Pinned codes and circuits\<close>

fun collect_codes :: "wasm_val kv \<Rightarrow> u64 option \<Rightarrow> (string \<times> wasm_val) list \<Rightarrow> string list res" where
  "collect_codes kv exclude [] = Inr []"
| "collect_codes kv exclude (e # es) =
     (let codeID = BigEndianToUint64 (fst e) in
      if exclude = Some codeID then collect_codes kv exclude es
      else (case GetCodeInfo kv codeID of
              None \<Rightarrow> Inl ErrNoSuchCode
            | Some info \<Rightarrow>
                (case collect_codes kv exclude es of Inl err \<Rightarrow> Inl err | Inr hs \<Rightarrow> Inr (CodeHash info # hs))))"

definition collectPinnedChecksums :: "wasm_val kv \<Rightarrow> u64 option \<Rightarrow> string list res" where
  "collectPinnedChecksums kv excludeCodeID = collect_codes kv excludeCodeID (kv_scan [CHR 0x07] kv)"

fun collect_circuits :: "wasm_val kv \<Rightarrow> u64 option \<Rightarrow> (string \<times> wasm_val) list \<Rightarrow> string list res" where
  "collect_circuits kv exclude [] = Inr []"
| "collect_circuits kv exclude (e # es) =
     (let zkID = BigEndianToUint64 (fst e) in
      if exclude = Some zkID then collect_circuits kv exclude es
      else (case GetCircuitInfo kv zkID of
              None \<Rightarrow> Inl ErrNoSuchCircuit
            | Some info \<Rightarrow>
                (case collect_circuits kv exclude es of Inl err \<Rightarrow> Inl err | Inr hs \<Rightarrow> Inr (CircuitHash info # hs))))"

definition collectPinnedCircuitKeys :: "wasm_val kv \<Rightarrow> u64 option \<Rightarrow> string list res" where
  "collectPinnedCircuitKeys kv excludeZkID = collect_circuits kv excludeZkID (kv_scan [CHR 0x07] kv)"

definition IsPinnedCode :: "wasm_val kv \<Rightarrow> u64 \<Rightarrow> bool" where
  "IsPinnedCode kv codeID = kv_has kv (GetPinnedCodeIndexPrefix codeID)"

definition IsPinnedCircuit :: "wasm_val kv \<Rightarrow> u64 \<Rightarrow> bool" where
  "IsPinnedCircuit kv zkID = kv_has kv (GetPinnedCircuitIndexPrefix zkID)"

definition pinCode ::
  "('v, 'w, 'g) wasm_keeper \<Rightarrow> u64 \<Rightarrow> ('v, 'w, 'g) wasm_ctx \<Rightarrow> unit res \<times> ('v, 'w, 'g) wasm_ctx" where
  "pinCode K codeID ctx =
     (case GetCodeInfo (kv_of ctx) codeID of
        None \<Rightarrow> (Inl ErrNoSuchCode, ctx)
      | Some info \<Rightarrow>
          bindR (on_meter (MeterConsume (wk_meter K) (PinCodeCost (gasRegister K))) ctx) (\<lambda>_ ctx.
          bindR (collectPinnedChecksums (kv_of ctx) None, ctx) (\<lambda>checksums ctx.
          bindR (wrapR ErrSyncPinnedCodesFailed (on_vm (SyncPinnedCodes (wasmVM K) (checksums @ [CodeHash info])) ctx)) (\<lambda>_ ctx.
            (Inr (), emit ''pin_code'' [(''code_id'', show_u64 codeID)]
               (on_kv (kv_set (GetPinnedCodeIndexPrefix codeID) (Bytes [CHR 0x01])) ctx))))))"

definition unpinCode ::
  "('v, 'w, 'g) wasm_keeper \<Rightarrow> u64 \<Rightarrow> ('v, 'w, 'g) wasm_ctx \<Rightarrow> unit res \<times> ('v, 'w, 'g) wasm_ctx" where
  "unpinCode K codeID ctx =
     (case GetCodeInfo (kv_of ctx) codeID of
        None \<Rightarrow> (Inl ErrNoSuchCode, ctx)
      | Some info \<Rightarrow>
          bindR (on_meter (MeterConsume (wk_meter K) (UnpinCodeCost (gasRegister K))) ctx) (\<lambda>_ ctx.
          bindR (collectPinnedChecksums (kv_of ctx) (Some codeID), ctx) (\<lambda>checksums ctx.
          bindR (wrapR ErrSyncPinnedCodesFailed (on_vm (SyncPinnedCodes (wasmVM K) checksums) ctx)) (\<lambda>_ ctx.
            (Inr (), emit ''unpin_code'' [(''code_id'', show_u64 codeID)]
               (on_kv (kv_del (GetPinnedCodeIndexPrefix codeID)) ctx))))))"

definition pinCircuit ::
  "('v, 'w, 'g) wasm_keeper \<Rightarrow> u64 \<Rightarrow> ('v, 'w, 'g) wasm_ctx \<Rightarrow> unit res \<times> ('v, 'w, 'g) wasm_ctx" where
  "pinCircuit K zkID ctx =
     (case GetCircuitInfo (kv_of ctx) zkID of
        None \<Rightarrow> (Inl ErrNoSuchCode, ctx)
      | Some info \<Rightarrow>
          bindR (collectPinnedCircuitKeys (kv_of ctx) None, ctx) (\<lambda>ks ctx.
          bindR (wrapR ErrPinCircuitFailed (on_vm (SyncPinnedCircuits (wasmVM K) (ks @ [CircuitHash info])) ctx)) (\<lambda>_ ctx.
            (Inr (), emit ''pin_circuit'' [(''zk_id'', show_u64 zkID)]
               (on_kv (kv_set (GetPinnedCircuitIndexPrefix zkID) (Bytes [CHR 0x01])) ctx)))))"

definition unpinCircuit ::
  "('v, 'w, 'g) wasm_keeper \<Rightarrow> u64 \<Rightarrow> ('v, 'w, 'g) wasm_ctx \<Rightarrow> unit res \<times> ('v, 'w, 'g) wasm_ctx" where
  "unpinCircuit K zkID ctx =
     (case GetCircuitInfo (kv_of ctx) zkID of
        None \<Rightarrow> (Inl ErrNoSuchCode, ctx)
      | Some info \<Rightarrow>
          bindR (collectPinnedCircuitKeys (kv_of ctx) (Some zkID), ctx) (\<lambda>ks ctx.
          bindR (wrapR ErrUnpinCircuitFailed (on_vm (SyncPinnedCircuits (wasmVM K) ks) ctx)) (\<lambda>_ ctx.
            (Inr (), emit ''unpin_circuit'' [(''zk_id'', show_u64 zkID)]
               (on_kv (kv_del (GetPinnedCircuitIndexPrefix zkID)) ctx)))))"

text \<open>The permissioned keeper, through which genesis pins, sends circuits to \<open>pinCode\<close>.\<close>

definition PinCircuit ::
  "('v, 'w, 'g) wasm_keeper \<Rightarrow> u64 \<Rightarrow> ('v, 'w, 'g) wasm_ctx \<Rightarrow> unit res \<times> ('v, 'w, 'g) wasm_ctx" where
  "PinCircuit K codeID ctx = pinCode K codeID ctx"

definition InitializePinnedCodes ::
  "('v, 'w, 'g) wasm_keeper \<Rightarrow> ('v, 'w, 'g) wasm_ctx \<Rightarrow> unit res \<times> ('v, 'w, 'g) wasm_ctx" where
  "InitializePinnedCodes K ctx =
     bindR (collect_codes (kv_of ctx) None (kv_scan [CHR 0x07] (kv_of ctx)), ctx) (\<lambda>checksums ctx.
       if checksums = [] then (Inr (), ctx)
       else wrapR ErrPinContractFailed (on_vm (SyncPinnedCodes (wasmVM K) checksums) ctx))"

definition InitalizedPinnedCodesAndCircuits ::
  "('v, 'w, 'g) wasm_keeper \<Rightarrow> ('v, 'w, 'g) wasm_ctx \<Rightarrow> unit res \<times> ('v, 'w, 'g) wasm_ctx" where
  "InitalizedPinnedCodesAndCircuits K ctx =
     bindR (InitializePinnedCodes K ctx) (\<lambda>_ ctx.
     bindR (collectPinnedCircuitKeys (kv_of ctx) None, ctx) (\<lambda>ks ctx.
       if ks = [] then (Inr (), ctx)
       else wrapR ErrPinCircuitFailed (on_vm (SyncPinnedCircuits (wasmVM K) ks) ctx)))"

fun each_id ::
  "(u64 \<Rightarrow> ('v, 'w, 'g) wasm_ctx \<Rightarrow> unit res \<times> ('v, 'w, 'g) wasm_ctx) \<Rightarrow> u64 list \<Rightarrow>
   ('v, 'w, 'g) wasm_ctx \<Rightarrow> unit res \<times> ('v, 'w, 'g) wasm_ctx" where
  "each_id f [] ctx = (Inr (), ctx)"
| "each_id f (n # ns) ctx = bindR (f n ctx) (\<lambda>_. each_id f ns)"

definition PinCodes ::
  "('v, 'w, 'g) wasm_keeper \<Rightarrow> string \<Rightarrow> u64 list \<Rightarrow> ('v, 'w, 'g) wasm_ctx \<Rightarrow> unit res \<times> ('v, 'w, 'g) wasm_ctx" where
  "PinCodes K authority codeIDs ctx =
     bindR (MsgPinCodes_ValidateBasic (wk_sdk K) authority codeIDs, ctx) (\<lambda>_ ctx.
     bindR (ValidateAuthority K (wk_authority K) authority, ctx) (\<lambda>_. each_id (pinCode K) codeIDs))"

definition UnpinCodes ::
  "('v, 'w, 'g) wasm_keeper \<Rightarrow> string \<Rightarrow> u64 list \<Rightarrow> ('v, 'w, 'g) wasm_ctx \<Rightarrow> unit res \<times> ('v, 'w, 'g) wasm_ctx" where
  "UnpinCodes K authority codeIDs ctx =
     bindR (MsgUnpinCodes_ValidateBasic (wk_sdk K) authority codeIDs, ctx) (\<lambda>_ ctx.
     bindR (ValidateAuthority K (wk_authority K) authority, ctx) (\<lambda>_. each_id (unpinCode K) codeIDs))"

definition UnpinCircuits ::
  "('v, 'w, 'g) wasm_keeper \<Rightarrow> string \<Rightarrow> u64 list \<Rightarrow> ('v, 'w, 'g) wasm_ctx \<Rightarrow> unit res \<times> ('v, 'w, 'g) wasm_ctx" where
  "UnpinCircuits K authority zkIDs ctx =
     bindR (MsgUnpinCircuits_ValidateBasic (wk_sdk K) authority zkIDs, ctx) (\<lambda>_ ctx.
     bindR (guardR (wk_authority K = authority) ErrInvalid ctx) (\<lambda>_. each_id (unpinCircuit K) zkIDs))"

section \<open>Parameters\<close>

definition WasmUpdateParams ::
  "('v, 'w, 'g) wasm_keeper \<Rightarrow> string \<Rightarrow> WasmParams \<Rightarrow> ('v, 'w, 'g) wasm_ctx \<Rightarrow> unit res \<times> ('v, 'w, 'g) wasm_ctx" where
  "WasmUpdateParams K authority params ctx =
     bindR (WasmMsgUpdateParams_ValidateBasic (wk_sdk K) authority params, ctx) (\<lambda>_ ctx.
     bindR (ValidateAuthority K (wk_authority K) authority, ctx) (\<lambda>_ ctx. (Inr (), WasmSetParams params ctx)))"

definition add_addresses :: "string list \<Rightarrow> string list \<Rightarrow> string list" where
  "add_addresses addresses new = foldl (\<lambda>as a. if a \<in> set as then as else as @ [a]) addresses new"

definition AddCodeUploadParamsAddresses ::
  "('v, 'w, 'g) wasm_keeper \<Rightarrow> string \<Rightarrow> string list \<Rightarrow> ('v, 'w, 'g) wasm_ctx \<Rightarrow> unit res \<times> ('v, 'w, 'g) wasm_ctx" where
  "AddCodeUploadParamsAddresses K authority new ctx =
     bindR (MsgAddCodeUploadParamsAddresses_ValidateBasic (wk_sdk K) authority new, ctx) (\<lambda>_ ctx.
     bindR (ValidateAuthority K (wk_authority K) authority, ctx) (\<lambda>_ ctx.
     bindR (WasmGetParams (kv_of ctx), ctx) (\<lambda>params ctx.
     bindR (guardR (Permission (CodeUploadAccess params) = AccessTypeAnyOfAddresses) ErrInvalid ctx) (\<lambda>_ ctx.
       (Inr (), WasmSetParams (params\<lparr>CodeUploadAccess := (CodeUploadAccess params)
          \<lparr>Addresses := add_addresses (Addresses (CodeUploadAccess params)) new\<rparr>\<rparr>) ctx)))))"

definition RemoveCodeUploadParamsAddresses ::
  "('v, 'w, 'g) wasm_keeper \<Rightarrow> string \<Rightarrow> string list \<Rightarrow> ('v, 'w, 'g) wasm_ctx \<Rightarrow> unit res \<times> ('v, 'w, 'g) wasm_ctx" where
  "RemoveCodeUploadParamsAddresses K authority old ctx =
     bindR (MsgRemoveCodeUploadParamsAddresses_ValidateBasic (wk_sdk K) authority old, ctx) (\<lambda>_ ctx.
     bindR (ValidateAuthority K (wk_authority K) authority, ctx) (\<lambda>_ ctx.
     bindR (WasmGetParams (kv_of ctx), ctx) (\<lambda>params ctx.
     bindR (guardR (Permission (CodeUploadAccess params) = AccessTypeAnyOfAddresses) ErrInvalid ctx) (\<lambda>_ ctx.
       (Inr (), WasmSetParams (params\<lparr>CodeUploadAccess := (CodeUploadAccess params)
          \<lparr>Addresses := filter (\<lambda>a. a \<notin> set old) (Addresses (CodeUploadAccess params))\<rparr>\<rparr>) ctx)))))"

text \<open>The two handlers for circuits read and write the upload access of codes.\<close>

definition AddCircuitUploadParamsAddresses ::
  "('v, 'w, 'g) wasm_keeper \<Rightarrow> string \<Rightarrow> string list \<Rightarrow> ('v, 'w, 'g) wasm_ctx \<Rightarrow> unit res \<times> ('v, 'w, 'g) wasm_ctx" where
  "AddCircuitUploadParamsAddresses K authority new ctx =
     bindR (MsgAddCircuitUploadParamsAddresses_ValidateBasic (wk_sdk K) authority new, ctx) (\<lambda>_ ctx.
     bindR (guardR (wk_authority K = authority) ErrInvalid ctx) (\<lambda>_ ctx.
     bindR (WasmGetParams (kv_of ctx), ctx) (\<lambda>params ctx.
     bindR (guardR (Permission (CodeUploadAccess params) = AccessTypeAnyOfAddresses) ErrInvalid ctx) (\<lambda>_ ctx.
       (Inr (), WasmSetParams (params\<lparr>CodeUploadAccess := (CodeUploadAccess params)
          \<lparr>Addresses := add_addresses (Addresses (CodeUploadAccess params)) new\<rparr>\<rparr>) ctx)))))"

definition RemoveCircuitUploadParamsAddresses ::
  "('v, 'w, 'g) wasm_keeper \<Rightarrow> string \<Rightarrow> string list \<Rightarrow> ('v, 'w, 'g) wasm_ctx \<Rightarrow> unit res \<times> ('v, 'w, 'g) wasm_ctx" where
  "RemoveCircuitUploadParamsAddresses K authority old ctx =
     bindR (MsgRemoveCircuitUploadParamsAddresses_ValidateBasic (wk_sdk K) authority old, ctx) (\<lambda>_ ctx.
     bindR (guardR (wk_authority K = authority) ErrInvalid ctx) (\<lambda>_ ctx.
     bindR (WasmGetParams (kv_of ctx), ctx) (\<lambda>params ctx.
     bindR (guardR (Permission (CodeUploadAccess params) = AccessTypeAnyOfAddresses) ErrInvalid ctx) (\<lambda>_ ctx.
       (Inr (), WasmSetParams (params\<lparr>CodeUploadAccess := (CodeUploadAccess params)
          \<lparr>Addresses := filter (\<lambda>a. a \<notin> set old) (Addresses (CodeUploadAccess params))\<rparr>\<rparr>) ctx)))))"

definition selectAuthorizationPolicy ::
  "('v, 'w, 'g) wasm_keeper \<Rightarrow> wasm_env \<Rightarrow> string \<Rightarrow> AuthorizationPolicy" where
  "selectAuthorizationPolicy K E actor =
     (if is_ok (ValidateAuthority K (wk_authority K) actor) then GovAuthorizationPolicy (propagateGovAuthorization K)
      else (case SubMsgAuthzPolicy E of Some policy \<Rightarrow> policy | None \<Rightarrow> DefaultAuthorizationPolicy))"

end
