(* ===== verification/Circuits.thy ===== *)
theory Circuits
  imports WasmStore
begin

text \<open>
  Uploading and removing code and circuits (\<open>x/wasm/keeper/keeper.go\<close>), with the check who may
  upload: the upload access of the parameters, or a prepaid deposit that has not run out.
\<close>

section \<open>Deposits, as the upload check reads them\<close>

text \<open>The collection \<open>circuitDepositees\<close>: an address to the paid-until time, in eight bytes.\<close>

definition depositee_get :: "wasm_val kv \<Rightarrow> string \<Rightarrow> u64 option" where
  "depositee_get kv addr =
     (case raw_value kv (CHR 0x1A # addr) of
        Some bz \<Rightarrow> if length bz = 8 then Some (BigEndianToUint64 bz) else None
      | None \<Rightarrow> None)"

definition block_now :: "wasm_env \<Rightarrow> int" where
  "block_now E = (if sint (BlockTimeUnix E) < 0 then 0 else sint (BlockTimeUnix E))"

definition HasCircuitDeposit :: "wasm_env \<Rightarrow> wasm_val kv \<Rightarrow> string \<Rightarrow> bool" where
  "HasCircuitDeposit E kv addr =
     (case depositee_get kv addr of None \<Rightarrow> False | Some until \<Rightarrow> block_now E < sint until)"

definition CircuitDepositPaidUntil :: "wasm_val kv \<Rightarrow> string \<Rightarrow> u64 \<times> bool" where
  "CircuitDepositPaidUntil kv addr = (case depositee_get kv addr of None \<Rightarrow> (0, False) | Some until \<Rightarrow> (until, True))"

record QueryCircuitDepositResponse =
  qr_Address :: string
  qr_PaidUntilUnix :: i64
  qr_Covered :: bool

definition Deposit ::
  "'w sdk \<Rightarrow> wasm_env \<Rightarrow> wasm_val kv \<Rightarrow> string option \<Rightarrow> QueryCircuitDepositResponse res" where
  "Deposit S E kv req =
     (if req = None \<or> req = Some [] then Inl ErrInvalidAddress
      else (case AccAddressFromBech32 S (the req) of
              Inl e \<Rightarrow> Inl e
            | Inr addr \<Rightarrow>
                (let (until, ok) = CircuitDepositPaidUntil kv addr; covered = HasCircuitDeposit E kv addr;
                     until = (if \<not> ok then 0 else until)
                 in Inr \<lparr>qr_Address = the req, qr_PaidUntilUnix = until, qr_Covered = covered\<rparr>)))"

section \<open>Who may upload\<close>

definition authorizeCircuitUpload ::
  "('v, 'w, 'g) wasm_keeper \<Rightarrow> wasm_env \<Rightarrow> string \<Rightarrow> AccessConfig option \<Rightarrow> AuthorizationPolicy \<Rightarrow> wasm_val kv \<Rightarrow> unit res" where
  "authorizeCircuitUpload K E creator instantiateAccess authZ kv =
     (case WasmGetParams kv of
        Inl e \<Rightarrow> Inl e
      | Inr params \<Rightarrow>
     (case AccessType_With (wk_sdk K) (InstantiateDefaultPermission params) [creator] of
        Inl e \<Rightarrow> Inl e
      | Inr defaultAccessConfig \<Rightarrow>
          (let access = (case instantiateAccess of None \<Rightarrow> defaultAccessConfig | Some a \<Rightarrow> a);
               chainConfigs = \<lparr>Upload = getCircuitUploadAccessConfig params, Instantiate = defaultAccessConfig\<rparr>
           in case CanCreateCode (wk_sdk K) authZ chainConfigs creator access of
                Inl e \<Rightarrow> Inl e
              | Inr True \<Rightarrow> Inr ()
              | Inr False \<Rightarrow>
                  if \<not> IsSubset access defaultAccessConfig then Inl ErrUnauthorized
                  else if HasCircuitDeposit E kv creator then Inr ()
                  else Inl ErrCircuitDepositRequired)))"

section \<open>Compressed uploads\<close>

definition IsGzip :: "string \<Rightarrow> bool" where
  "IsGzip input = (3 \<le> length input \<and> take 3 input = [CHR 0x1F, CHR 0x8B, CHR 0x08])"

definition Uncompress :: "('v, 'w, 'g) wasm_keeper \<Rightarrow> string \<Rightarrow> int \<Rightarrow> string res" where
  "Uncompress K gzipSrc limit =
     (if limit < int (length gzipSrc) then Inl (Plain ''exceeds limit'') else GzipReadAll K gzipSrc limit)"

definition charge_uncompress ::
  "('v, 'w, 'g) wasm_keeper \<Rightarrow> string \<Rightarrow> ('v, 'w, 'g) wasm_ctx \<Rightarrow> unit res \<times> ('v, 'w, 'g) wasm_ctx" where
  "charge_uncompress K bz ctx =
     bindR (UncompressCosts (gasRegister K) (int (length bz)), ctx) (\<lambda>cost. on_meter (MeterConsume (wk_meter K) cost))"

definition unpack ::
  "('v, 'w, 'g) wasm_keeper \<Rightarrow> int \<Rightarrow> string \<Rightarrow> ('v, 'w, 'g) wasm_ctx \<Rightarrow> string res \<times> ('v, 'w, 'g) wasm_ctx" where
  "unpack K limit bz ctx =
     (if IsGzip bz
      then bindR (charge_uncompress K bz ctx) (\<lambda>_ ctx. wrapR ErrCreateFailed (Uncompress K bz limit, ctx))
      else (Inr bz, ctx))"

text \<open>
  A call of the machine with the gas that is left; what it used is charged also when it failed.
\<close>

definition run_vm ::
  "('v, 'w, 'g) wasm_keeper \<Rightarrow> (u64 \<Rightarrow> 'v \<Rightarrow> (string res \<times> u64) \<times> 'v) \<Rightarrow> ('v, 'w, 'g) wasm_ctx \<Rightarrow>
   string res \<times> ('v, 'w, 'g) wasm_ctx" where
  "run_vm K f ctx =
     bindR (runtimeGasForContract (gasRegister K) (wk_meter K) (meter ctx), ctx) (\<lambda>gasLeft ctx.
       (let ((r, gasUsed), ctx) = on_vm (f gasLeft) ctx
        in bindR (on_meter (consumeRuntimeGas (gasRegister K) (wk_meter K) gasUsed) ctx) (\<lambda>_ ctx.
             wrapR ErrCreateFailed (r, ctx))))"

section \<open>Storing code\<close>

definition NewCodeInfo :: "'w sdk \<Rightarrow> string \<Rightarrow> string \<Rightarrow> AccessConfig \<Rightarrow> CodeInfo" where
  "NewCodeInfo S codeHash creator permission =
     \<lparr>CodeHash = codeHash, code_Creator = AccAddressString S creator, code_InstantiateConfig = permission\<rparr>"

definition capability_attrs :: "string \<Rightarrow> (string \<times> string) list" where
  "capability_attrs requiredCapabilities =
     map (\<lambda>f. (''required_capability'', trim_space f)) (go_split CHR '','' requiredCapabilities)"

definition create_code ::
  "('v, 'w, 'g) wasm_keeper \<Rightarrow> wasm_env \<Rightarrow> string option \<Rightarrow> string \<Rightarrow> AccessConfig option \<Rightarrow> AuthorizationPolicy \<Rightarrow>
   ('v, 'w, 'g) wasm_ctx \<Rightarrow> (u64 \<times> string) res \<times> ('v, 'w, 'g) wasm_ctx" where
  "create_code K E creator_opt wasmCode instantiateAccess authZ ctx =
     (case creator_opt of
        None \<Rightarrow> (Inl ErrInvalidAddress, ctx)
      | Some creator \<Rightarrow>
          bindR (WasmGetParams (kv_of ctx), ctx) (\<lambda>params ctx.
          bindR (AccessType_With (wk_sdk K) (InstantiateDefaultPermission params) [creator], ctx) (\<lambda>defaultAccessConfig ctx.
          let access = (case instantiateAccess of None \<Rightarrow> defaultAccessConfig | Some a \<Rightarrow> a);
              chainConfigs = \<lparr>Upload = CodeUploadAccess params, Instantiate = defaultAccessConfig\<rparr> in
          bindR (CanCreateCode (wk_sdk K) authZ chainConfigs creator access, ctx) (\<lambda>can ctx.
          bindR (guardR can ErrUnauthorized ctx) (\<lambda>_ ctx.
          bindR (unpack K MaxWasmSize wasmCode ctx) (\<lambda>wasmCode ctx.
          bindR (run_vm K (if ExecModeSimulate E then SimulateStoreCode (wasmVM K) wasmCode
                           else StoreCode (wasmVM K) wasmCode) ctx) (\<lambda>checksum ctx.
          bindR (wrapR ErrCreateFailed
                   (if ExecModeSimulate E then Inr [] else AnalyzeCode (wasmVM K) checksum (vm (gstore ctx)), ctx))
                (\<lambda>capabilities ctx.
          bindR (mustAutoIncrementID KeySequenceCodeID ctx) (\<lambda>codeID ctx.
            (Inr (codeID, checksum),
             emit ''store_code'' ([(''code_checksum'', hex_encode checksum), (''code_id'', show_u64 codeID)]
                                  @ capability_attrs capabilities)
               (mustStoreCodeInfo codeID (NewCodeInfo (wk_sdk K) checksum creator access) ctx)))))))))))"

section \<open>Storing circuits\<close>

definition NewVkParamInfo :: "'w sdk \<Rightarrow> u64 \<Rightarrow> string \<Rightarrow> string \<Rightarrow> VkParamInfo" where
  "NewVkParamInfo S paramID dataHash creator =
     \<lparr>VkID = paramID, vk_Creator = AccAddressString S creator, DataHash = dataHash\<rparr>"

definition NewCircuitInfoWithLayout ::
  "'w sdk \<Rightarrow> string \<Rightarrow> string \<Rightarrow> AccessConfig \<Rightarrow> u64 \<Rightarrow> u64 \<Rightarrow> u64 \<Rightarrow> u64 \<Rightarrow> CircuitInfo" where
  "NewCircuitInfoWithLayout S circuitHash creator permission i paramLen csLen vkLen =
     \<lparr>CircuitHash = circuitHash, zk_Creator = AccAddressString S creator, zk_InstantiateConfig = permission,
      zk_I = i, VkpLen = paramLen, CsLen = csLen, VkLen = vkLen\<rparr>"

definition NewCircuitInfo :: "'w sdk \<Rightarrow> string \<Rightarrow> string \<Rightarrow> AccessConfig \<Rightarrow> CircuitInfo" where
  "NewCircuitInfo S circuitHash creator permission =
     NewCircuitInfoWithLayout S circuitHash creator permission 0 0 0 0"

definition store_vk_param ::
  "('v, 'w, 'g) wasm_keeper \<Rightarrow> wasm_env \<Rightarrow> string option \<Rightarrow> u64 option \<Rightarrow> string \<Rightarrow> AuthorizationPolicy \<Rightarrow>
   ('v, 'w, 'g) wasm_ctx \<Rightarrow> (u64 \<times> string) res \<times> ('v, 'w, 'g) wasm_ctx" where
  "store_vk_param K E creator_opt auth paramBytes authZ ctx =
     (case creator_opt of
        None \<Rightarrow> (Inl ErrInvalidAddress, ctx)
      | Some creator \<Rightarrow>
          bindR (guardR (auth \<noteq> None) ErrInvalidRequest ctx) (\<lambda>_ ctx.
          bindR (WasmGetParams (kv_of ctx), ctx) (\<lambda>params ctx.
          bindR (AccessType_With (wk_sdk K) (InstantiateDefaultPermission params) [creator], ctx) (\<lambda>defaultAccessConfig ctx.
          bindR (authorizeCircuitUpload K E creator (Some defaultAccessConfig) authZ (kv_of ctx), ctx) (\<lambda>_ ctx.
          bindR (unpack K (MaxCircuitSize (MAX_CIRCUIT_SIZE E)) paramBytes ctx) (\<lambda>paramBytes ctx.
          bindR (guardR (paramBytes \<noteq> []) ErrInvalidRequest ctx) (\<lambda>_ ctx.
          bindR (wrapR ErrCreateFailed (on_vm (StoreParam (wasmVM K) paramBytes) ctx)) (\<lambda>paramKey ctx.
          bindR (guardR (length paramKey = 36) ErrCreateFailed ctx) (\<lambda>_ ctx.
          bindR (mustAutoIncrementID KeySequenceVkParamID ctx) (\<lambda>paramID ctx.
          let ctx = mustStoreVkParamInfo paramID (NewVkParamInfo (wk_sdk K) paramID paramKey creator) ctx;
              ctx = on_kv (kv_set (GetVkParamBytesKey paramID) (Bytes paramBytes)) ctx in
          bindR (charge_uncompress K paramBytes ctx) (\<lambda>_ ctx.
            (Inr (paramID, paramKey),
             emit ''store_vk_param'' [(''param_id'', show_u64 paramID), (''param_checksum'', hex_encode paramKey)] ctx))))))))))))"

text \<open>The stored parameters must still have the checksum they were stored under.\<close>

definition param_integrity :: "('v, 'w, 'g) wasm_keeper \<Rightarrow> string \<Rightarrow> string \<Rightarrow> unit res" where
  "param_integrity K dataHash paramBytes =
     (if length dataHash = 36 then (if Sha256 K paramBytes \<noteq> drop 4 dataHash then Inl ErrInvalid else Inr ())
      else if length dataHash = 32 then (if Sha256 K paramBytes \<noteq> dataHash then Inl ErrInvalid else Inr ())
      else Inl ErrInvalid)"

definition store_circuit ::
  "('v, 'w, 'g) wasm_keeper \<Rightarrow> wasm_env \<Rightarrow> string option \<Rightarrow> u64 \<Rightarrow> string \<Rightarrow> AccessConfig option \<Rightarrow> AuthorizationPolicy \<Rightarrow>
   ('v, 'w, 'g) wasm_ctx \<Rightarrow> (u64 \<times> string) res \<times> ('v, 'w, 'g) wasm_ctx" where
  "store_circuit K E creator_opt paramID vkBody instantiateAccess authZ ctx =
     (case creator_opt of
        None \<Rightarrow> (Inl ErrInvalidAddress, ctx)
      | Some creator \<Rightarrow>
          bindR (guardR (paramID \<noteq> 0) ErrInvalidRequest ctx) (\<lambda>_ ctx.
          bindR (WasmGetParams (kv_of ctx), ctx) (\<lambda>params ctx.
          bindR (AccessType_With (wk_sdk K) (InstantiateDefaultPermission params) [creator], ctx) (\<lambda>defaultAccessConfig ctx.
          let access = (case instantiateAccess of None \<Rightarrow> defaultAccessConfig | Some a \<Rightarrow> a) in
          bindR (authorizeCircuitUpload K E creator (Some access) authZ (kv_of ctx), ctx) (\<lambda>_ ctx.
          bindR ((case GetVkParamInfo (kv_of ctx) paramID of None \<Rightarrow> Inl ErrWasmNotFound | Some i \<Rightarrow> Inr i), ctx) (\<lambda>paramInfo ctx.
          bindR (getVkParamBytes (kv_of ctx) paramID, ctx) (\<lambda>paramBytes ctx.
          bindR (param_integrity K (DataHash paramInfo) paramBytes, ctx) (\<lambda>_ ctx.
          bindR (wrapR ErrCreateFailed (on_vm (StoreParam (wasmVM K) paramBytes) ctx)) (\<lambda>_ ctx.
          bindR (unpack K (MaxCircuitSize (MAX_CIRCUIT_SIZE E)) vkBody ctx) (\<lambda>vkBody ctx.
          bindR (guardR (vkBody \<noteq> []) ErrInvalidRequest ctx) (\<lambda>_ ctx.
          let circuitBinary = paramBytes @ vkBody in
          bindR (run_vm K (if ExecModeSimulate E then SimulateStoreCircuit (wasmVM K) circuitBinary
                           else StoreCircuit (wasmVM K) circuitBinary) ctx) (\<lambda>checksum ctx.
          bindR (guardR (checksum \<noteq> []) ErrCreateFailed ctx) (\<lambda>_ ctx.
          bindR (mustAutoIncrementID KeySequenceCircuitID ctx) (\<lambda>zkID ctx.
          let zkInfo = NewCircuitInfoWithLayout (wk_sdk K) checksum creator access 0
                         (of_nat (length paramBytes)) 0 (of_nat (length vkBody));
              ctx = mustStoreCircuitInfo zkID zkInfo ctx;
              ctx = mustStoreCircuitParamRef zkID paramID ctx;
              ctx = setCircuitCreatorIndex creator zkID ctx;
              ctx = mustStoreCircuitBytes zkID circuitBinary ctx
          in (Inr (zkID, checksum),
              emit ''store_circuit''
                [(''circuit_checksum'', hex_encode checksum), (''zk_id'', show_u64 zkID),
                 (''param_id'', show_u64 paramID), (''param_checksum'', hex_encode (DataHash paramInfo))] ctx)))))))))))))))"

definition store_full_circuit ::
  "('v, 'w, 'g) wasm_keeper \<Rightarrow> wasm_env \<Rightarrow> string option \<Rightarrow> u64 option \<Rightarrow> string \<Rightarrow> string \<Rightarrow> AuthorizationPolicy \<Rightarrow>
   ('v, 'w, 'g) wasm_ctx \<Rightarrow> (u64 \<times> u64 \<times> string \<times> string) res \<times> ('v, 'w, 'g) wasm_ctx" where
  "store_full_circuit K E creator auth paramBytes vkBody authZ ctx =
     bindR (store_vk_param K E creator auth paramBytes authZ ctx) (\<lambda>(paramID, paramChecksum) ctx.
     bindR (store_circuit K E creator paramID vkBody None authZ ctx) (\<lambda>(zkID, circuitChecksum) ctx.
       (Inr (paramID, zkID, paramChecksum, circuitChecksum),
        emit ''store_full_circuit''
          [(''param_id'', show_u64 paramID), (''zk_id'', show_u64 zkID),
           (''param_checksum'', hex_encode paramChecksum), (''circuit_checksum'', hex_encode circuitChecksum)] ctx)))"

text \<open>
  Code and circuit together; no message of the module calls it.  The gas of both calls of the machine
  is charged at the end.  The circuit's id is taken from the four-byte form of the sequence, and the
  id that is returned is never assigned.
\<close>

definition create_with_circuit ::
  "('v, 'w, 'g) wasm_keeper \<Rightarrow> wasm_env \<Rightarrow> string option \<Rightarrow> string \<Rightarrow> string option \<Rightarrow> AccessConfig option \<Rightarrow>
   AuthorizationPolicy \<Rightarrow> ('v, 'w, 'g) wasm_ctx \<Rightarrow> (u64 \<times> u64 \<times> string list) res \<times> ('v, 'w, 'g) wasm_ctx" where
  "create_with_circuit K E creator_opt wasmCode vkCode instantiateAccess authZ ctx =
     (case creator_opt of
        None \<Rightarrow> (Inl ErrInvalidAddress, ctx)
      | Some creator \<Rightarrow>
          bindR (WasmGetParams (kv_of ctx), ctx) (\<lambda>params ctx.
          bindR (AccessType_With (wk_sdk K) (InstantiateDefaultPermission params) [creator], ctx) (\<lambda>defaultAccessConfig ctx.
          let access = (case instantiateAccess of None \<Rightarrow> defaultAccessConfig | Some a \<Rightarrow> a);
              chainConfigs = \<lparr>Upload = CodeUploadAccess params, Instantiate = defaultAccessConfig\<rparr>;
              charge = (\<lambda>gas. on_meter (consumeRuntimeGas (gasRegister K) (wk_meter K) gas)) in
          bindR (CanCreateCode (wk_sdk K) authZ chainConfigs creator access, ctx) (\<lambda>can ctx.
          bindR (guardR can ErrUnauthorized ctx) (\<lambda>_ ctx.
          bindR (unpack K MaxWasmSize wasmCode ctx) (\<lambda>wasmCode ctx.
          bindR (runtimeGasForContract (gasRegister K) (wk_meter K) (meter ctx), ctx) (\<lambda>gasLeft ctx.
          let ((r, gas1), ctx) = on_vm (if ExecModeSimulate E then SimulateStoreCode (wasmVM K) wasmCode gasLeft
                                        else StoreCode (wasmVM K) wasmCode gasLeft) ctx in
          (case r of
             Inl _ \<Rightarrow> bindR (charge gas1 ctx) (\<lambda>_ ctx. (Inl ErrCreateFailed, ctx))
           | Inr wasmChecksum \<Rightarrow>
          bindR (case vkCode of
                   None \<Rightarrow> (Inr ([], gas1), ctx)
                 | Some vk \<Rightarrow>
                     bindR (runtimeGasForContract (gasRegister K) (wk_meter K) (meter ctx), ctx) (\<lambda>gasLeft ctx.
                     let ((r, gas2), ctx) = on_vm (if ExecModeSimulate E then SimulateStoreCircuit (wasmVM K) vk gasLeft
                                                   else StoreCircuit (wasmVM K) vk gasLeft) ctx in
                     (case r of
                        Inl _ \<Rightarrow> bindR (charge (gas1 + gas2) ctx) (\<lambda>_ ctx. (Inl ErrCreateFailed, ctx))
                      | Inr c \<Rightarrow> (Inr (c, gas1 + gas2), ctx)))) (\<lambda>(circuitChecksum, totalGasUsed) ctx.
          bindR (charge totalGasUsed ctx) (\<lambda>_ ctx.
          bindR (guardR (length wasmChecksum = 32) ErrCreateFailed ctx) (\<lambda>_ ctx.
          bindR (guardR (length circuitChecksum = 72) ErrCreateFailed ctx) (\<lambda>_ ctx.
          bindR (wrapR ErrCreateFailed
                   (if ExecModeSimulate E then Inr [] else AnalyzeCode (wasmVM K) wasmChecksum (vm (gstore ctx)), ctx))
                (\<lambda>capabilities ctx.
          bindR (mustAutoIncrementID KeySequenceCodeID ctx) (\<lambda>codeID ctx.
          bindR (mustAutoIncrementIDUint32 KeySequenceCircuitID ctx) (\<lambda>zkID32 ctx.
          let zkID = ucast zkID32;
              ctx = mustStoreCodeInfo codeID (NewCodeInfo (wk_sdk K) wasmChecksum creator access) ctx;
              ctx = mustStoreCircuitInfo zkID (NewCircuitInfo (wk_sdk K) circuitChecksum creator access) ctx;
              ctx = setCircuitCreatorIndex creator zkID ctx;
              ctx = mustStoreCircuitBytes zkID (case vkCode of None \<Rightarrow> [] | Some vk \<Rightarrow> vk) ctx
          in (Inr (codeID, 0, [wasmChecksum, circuitChecksum]),
              emit ''store_code_circuit''
                ([(''code_checksum'', hex_encode wasmChecksum), (''circuit_checksum'', hex_encode circuitChecksum),
                  (''code_id'', show_u64 codeID), (''zk_id'', show_u64 zkID)] @ capability_attrs capabilities) ctx))))))))))))))))"

section \<open>Reading and removing circuits\<close>

text \<open>A circuit stored by an old version has its bytes in the machine only; reading it writes them back.\<close>

definition GetCircuit ::
  "('v, 'w, 'g) wasm_keeper \<Rightarrow> u64 \<Rightarrow> ('v, 'w, 'g) wasm_ctx \<Rightarrow> string option res \<times> ('v, 'w, 'g) wasm_ctx" where
  "GetCircuit K zkID ctx =
     (case kv_get (kv_of ctx) (GetCircuitBytesKey zkID) of
        Some (Bytes blob) \<Rightarrow> (Inr (Some blob), ctx)
      | _ \<Rightarrow>
          (case GetCircuitInfo (kv_of ctx) zkID of
             None \<Rightarrow> (Inr None, ctx)
           | Some info \<Rightarrow>
               bindR (GetCircuitVM (wasmVM K) (CircuitHash info) (vm (gstore ctx)), ctx) (\<lambda>blob ctx.
                 (Inr blob, case blob of None \<Rightarrow> ctx
                            | Some b \<Rightarrow> on_kv (kv_set (GetCircuitBytesKey zkID) (Bytes b)) ctx))))"

text \<open>Errors of the machine are logged and otherwise ignored.\<close>

definition removeCircuit ::
  "('v, 'w, 'g) wasm_keeper \<Rightarrow> u64 \<Rightarrow> ('v, 'w, 'g) wasm_ctx \<Rightarrow> unit res \<times> ('v, 'w, 'g) wasm_ctx" where
  "removeCircuit K zkID ctx =
     (case GetCircuitInfo (kv_of ctx) zkID of
        None \<Rightarrow> (Inl ErrNoSuchCircuit, ctx)
      | Some zkInfo \<Rightarrow>
          (let ctx = snd (on_vm (UnpinCircuitVM (wasmVM K) (CircuitHash zkInfo)) ctx);
               ctx = on_kv (kv_del (GetPinnedCircuitIndexPrefix zkID)) ctx;
               ctx = (case RemoveCircuitVM (wasmVM K) of
                        None \<Rightarrow> ctx
                      | Some remove \<Rightarrow> snd (on_vm (remove (CircuitHash zkInfo)) ctx));
               ctx = (case AccAddressFromBech32 (wk_sdk K) (zk_Creator zkInfo) of
                        Inl _ \<Rightarrow> ctx
                      | Inr creator \<Rightarrow> deleteCircuitCreatorIndex creator zkID ctx);
               ctx = on_kv (kv_del (GetCircuitKey zkID)) ctx;
               ctx = on_kv (kv_del (GetCircuitBytesKey zkID)) ctx;
               ctx = on_kv (kv_del (circuitParamRefKey zkID)) ctx
           in (Inr (), emit ''unpin_circuit''
                 [(''zk_id'', show_u64 zkID), (''circuit_checksum'', hex_encode (CircuitHash zkInfo))] ctx)))"

end
