(* ===== verification/CircuitDeposit.thy ===== *)
theory CircuitDeposit
  imports Circuits
begin

text \<open>
  The circuit deposits of \<open>x/wasm\<close>: paying for years of upload coverage (\<open>keeper/keeper.go\<close>,
  \<open>types/circuit_deposit.go\<close>), the bounded collection of expired deposits and their circuits at the
  end of a block (\<open>keeper/circuit_deposit_gc.go\<close>), the pool the payments go to and its settlement to
  the validators (\<open>keeper/circuit_runway_pool.go\<close>), and the messages (\<open>keeper/msg_server.go\<close>).
\<close>

section \<open>Payments\<close>

definition MsgPayCircuitDeposit_ValidateBasic :: "'w sdk \<Rightarrow> string \<Rightarrow> u32 \<Rightarrow> unit res" where
  "MsgPayCircuitDeposit_ValidateBasic S sender years =
     first_error [as_error ErrInvalidAddress (valid_addr S sender),
       check ErrLimit (\<not> (years = 0 \<or> 10 < years))]"

fun split_loop :: "coin_ops \<Rightarrow> Coins \<Rightarrow> Coins \<Rightarrow> Coins \<Rightarrow> (Coins \<times> Coins) res" where
  "split_loop A [] valPool devPool = Inr (valPool, devPool)"
| "split_loop A (c # cs) valPool devPool =
     (if \<not> 0 < Amount c then split_loop A cs valPool devPool
      else let half = int_quo (Amount c) 2; rest = Amount c - half in
        (case (if 0 < half then (case NewCoin A (Denom c) half of Inl e \<Rightarrow> Inl e | Inr h \<Rightarrow> Inr (CoinsAdd A valPool [h]))
               else Inr valPool) of
           Inl e \<Rightarrow> Inl e
         | Inr valPool' \<Rightarrow>
        (case (if 0 < rest then (case NewCoin A (Denom c) rest of Inl e \<Rightarrow> Inl e | Inr r \<Rightarrow> Inr (CoinsAdd A devPool [r]))
               else Inr devPool) of
           Inl e \<Rightarrow> Inl e
         | Inr devPool' \<Rightarrow> split_loop A cs valPool' devPool')))"

definition SplitCircuitRunway :: "coin_ops \<Rightarrow> Coins \<Rightarrow> (Coins \<times> Coins) res" where
  "SplitCircuitRunway A amt = split_loop A amt [] []"

definition CircuitDepositQuote :: "'w sdk \<Rightarrow> coin_ops \<Rightarrow> string \<Rightarrow> u32 \<Rightarrow> Coins res" where
  "CircuitDepositQuote S A denom years =
     (if years = 0 \<or> 10 < years then Inl ErrLimit
      else if denom = [] then Inl (Plain ''deposit denom empty'')
      else (case NewCoin A denom (1000000 * uint years) of Inl e \<Rightarrow> Inl e | Inr c \<Rightarrow> NewCoins S [c]))"

definition receiveCircuitRunwayPayment ::
  "('v, 'w, 'g) wasm_keeper \<Rightarrow> string \<Rightarrow> Coins \<Rightarrow> ('v, 'w, 'g) wasm_ctx \<Rightarrow> unit res \<times> ('v, 'w, 'g) wasm_ctx" where
  "receiveCircuitRunwayPayment K payer amt ctx =
     bindR (SplitCircuitRunway (wk_coins K) amt, ctx) (\<lambda>(valPool, devPool) ctx.
     bindR (if valPool \<noteq> []
            then on_world (SendCoinsFromAccountToModule (wk_sdk K) payer ''circuit_val_pool'' valPool) ctx
            else (Inr (), ctx)) (\<lambda>_ ctx.
       if devPool \<noteq> []
       then bindR (WasmGetParams (kv_of ctx), ctx) (\<lambda>params ctx.
              if CircuitDevDestination params \<noteq> []
              then bindR (AccAddressFromBech32 (wk_sdk K) (CircuitDevDestination params), ctx) (\<lambda>addr.
                     on_world (SendCoins (wk_sdk K) payer addr devPool))
              else on_world (SendCoinsFromAccountToModule (wk_sdk K) payer ''circuit_dev_pool'' devPool) ctx)
       else (Inr (), ctx)))"

section \<open>Index of deposits\<close>

definition depositee_set :: "string \<Rightarrow> u64 \<Rightarrow> ('v, 'w, 'g) wasm_ctx \<Rightarrow> ('v, 'w, 'g) wasm_ctx" where
  "depositee_set addr until = on_kv (kv_set (CHR 0x1A # addr) (Bytes (Uint64ToBigEndian until)))"

definition depositee_remove :: "string \<Rightarrow> ('v, 'w, 'g) wasm_ctx \<Rightarrow> ('v, 'w, 'g) wasm_ctx" where
  "depositee_remove addr = on_kv (kv_del (CHR 0x1A # addr))"

definition setCircuitDepositExpiry :: "u64 \<Rightarrow> string \<Rightarrow> ('v, 'w, 'g) wasm_ctx \<Rightarrow> ('v, 'w, 'g) wasm_ctx" where
  "setCircuitDepositExpiry until addr =
     on_kv (kv_set (CHR 0x1B # GetCircuitDepositExpiryKey until addr) (Bytes [CHR 0x01]))"

definition deleteCircuitDepositExpiry :: "u64 \<Rightarrow> string \<Rightarrow> ('v, 'w, 'g) wasm_ctx \<Rightarrow> ('v, 'w, 'g) wasm_ctx" where
  "deleteCircuitDepositExpiry until addr = on_kv (kv_del (CHR 0x1B # GetCircuitDepositExpiryKey until addr))"

definition hasExpiryIndex :: "wasm_val kv \<Rightarrow> u64 \<Rightarrow> string \<Rightarrow> bool" where
  "hasExpiryIndex kv until addr = kv_has kv (CHR 0x1B # GetCircuitDepositExpiryKey until addr)"

definition setCircuitDepositGC :: "string \<Rightarrow> ('v, 'w, 'g) wasm_ctx \<Rightarrow> ('v, 'w, 'g) wasm_ctx" where
  "setCircuitDepositGC addr = on_kv (kv_set (CHR 0x1C # GetCircuitDepositGCKey addr) (Bytes [CHR 0x01]))"

definition deleteCircuitDepositGC :: "string \<Rightarrow> ('v, 'w, 'g) wasm_ctx \<Rightarrow> ('v, 'w, 'g) wasm_ctx" where
  "deleteCircuitDepositGC addr = on_kv (kv_del (CHR 0x1C # GetCircuitDepositGCKey addr))"

definition PayCircuitDeposit ::
  "('v, 'w, 'g) wasm_keeper \<Rightarrow> wasm_env \<Rightarrow> string \<Rightarrow> u32 \<Rightarrow> ('v, 'w, 'g) wasm_ctx \<Rightarrow> i64 res \<times> ('v, 'w, 'g) wasm_ctx" where
  "PayCircuitDeposit K E payer years ctx =
     bindR (guardR (\<not> (years = 0 \<or> 10 < years)) ErrLimit ctx) (\<lambda>_ ctx.
     let yearly = circuitDepositYearly K;
         fee = (if \<not> 0 < Amount yearly then \<lparr>Denom = ''stake'', Amount = 1000000\<rparr> else yearly) in
     bindR (NewCoin (wk_coins K) (Denom fee) (Amount fee * uint years), ctx) (\<lambda>c ctx.
     bindR (NewCoins (wk_sdk K) [c], ctx) (\<lambda>amt ctx.
     bindR (receiveCircuitRunwayPayment K payer amt ctx) (\<lambda>_ ctx.
     let now = of_int (block_now E) :: u64;
         existing = depositee_get (kv_of ctx) payer;
         ctx = (case existing of None \<Rightarrow> ctx | Some ex \<Rightarrow> deleteCircuitDepositExpiry ex payer ctx);
         start = (case existing of None \<Rightarrow> now | Some ex \<Rightarrow> if now < ex then ex else now);
         until = start + ucast years * 31536000;
         ctx = deleteCircuitDepositGC payer (setCircuitDepositExpiry until payer (depositee_set payer until ctx))
     in (Inr until, emit ''pay_circuit_deposit''
           [(''payer'', AccAddressString (wk_sdk K) payer), (''years'', dec_digits (unat years)),
            (''paid_until_unix'', show_u64 until)] ctx)))))"

section \<open>Collection of expired deposits\<close>

definition creator_keys :: "string \<Rightarrow> wasm_val kv \<Rightarrow> string list" where
  "creator_keys creator kv = map fst (kv_scan (GetCircuitByCreatorIDPrefix creator) kv)"

definition hasCircuitCreatorIndex :: "string \<Rightarrow> wasm_val kv \<Rightarrow> bool" where
  "hasCircuitCreatorIndex creator kv = (creator_keys creator kv \<noteq> [])"

fun prune_ids :: "int \<Rightarrow> string list \<Rightarrow> u64 list \<Rightarrow> u64 list \<times> bool" where
  "prune_ids mx [] ids = (ids, False)"
| "prune_ids mx (k # ks) ids =
     (if length k \<noteq> 8 then prune_ids mx ks ids
      else let ids' = ids @ [BigEndianToUint64 k] in
           if mx < int (length ids') then (take (nat mx) ids', True) else prune_ids mx ks ids')"

fun prune_each ::
  "('v, 'w, 'g) wasm_keeper \<Rightarrow> string \<Rightarrow> u64 list \<Rightarrow> ('v, 'w, 'g) wasm_ctx \<Rightarrow> ('v, 'w, 'g) wasm_ctx" where
  "prune_each K creator [] ctx = ctx"
| "prune_each K creator (zkID # ids) ctx =
     prune_each K creator ids
       (case removeCircuit K zkID ctx of
          (Inl _, ctx') \<Rightarrow> deleteCircuitCreatorIndex creator zkID ctx'
        | (Inr _, ctx') \<Rightarrow> ctx')"

definition pruneCreatorCircuits ::
  "('v, 'w, 'g) wasm_keeper \<Rightarrow> string \<Rightarrow> int \<Rightarrow> ('v, 'w, 'g) wasm_ctx \<Rightarrow> (int \<times> bool) \<times> ('v, 'w, 'g) wasm_ctx" where
  "pruneCreatorCircuits K creator mx ctx =
     (if mx \<le> 0 then ((0, hasCircuitCreatorIndex creator (kv_of ctx)), ctx)
      else let (ids, moreLeft) = prune_ids mx (creator_keys creator (kv_of ctx)) [];
               ctx = prune_each K creator ids ctx
           in ((int (length ids), if \<not> moreLeft then hasCircuitCreatorIndex creator (kv_of ctx) else moreLeft), ctx))"

definition prune_event :: "('v, 'w, 'g) wasm_keeper \<Rightarrow> string \<Rightarrow> int \<Rightarrow> bool \<Rightarrow> ('v, 'w, 'g) wasm_ctx \<Rightarrow> ('v, 'w, 'g) wasm_ctx" where
  "prune_event K addr n moreLeft =
     emit ''prune_circuit_deposit''
       [(''payer'', AccAddressString (wk_sdk K) addr), (''circuits'', go_itoa n),
        (''more'', if moreLeft then ''true'' else ''false'')]"

text \<open>
  One address: its circuits up to the bound, the mark that there are more, the event.  The result is
  the number of circuits that were removed.
\<close>

definition prune_address ::
  "('v, 'w, 'g) wasm_keeper \<Rightarrow> string \<Rightarrow> int \<Rightarrow> ('v, 'w, 'g) wasm_ctx \<Rightarrow> int \<times> ('v, 'w, 'g) wasm_ctx" where
  "prune_address K addr circuitsLeft ctx =
     (let ((n, moreLeft), ctx) = pruneCreatorCircuits K addr circuitsLeft ctx;
          ctx = (if moreLeft then setCircuitDepositGC addr ctx else deleteCircuitDepositGC addr ctx)
      in (n, prune_event K addr n moreLeft ctx))"

text \<open>
  The addresses whose circuits were not all removed yet.  \<open>None\<close> is the early return, after which the
  second part does not run.
\<close>

fun prune_pending ::
  "('v, 'w, 'g) wasm_keeper \<Rightarrow> string list \<Rightarrow> int \<Rightarrow> int \<Rightarrow> ('v, 'w, 'g) wasm_ctx \<Rightarrow>
   (int \<times> int) option \<times> ('v, 'w, 'g) wasm_ctx" where
  "prune_pending K [] depositeesLeft circuitsLeft ctx = (Some (depositeesLeft, circuitsLeft), ctx)"
| "prune_pending K (addr # as) depositeesLeft circuitsLeft ctx =
     (if depositeesLeft = 0 \<or> circuitsLeft = 0 then (None, ctx)
      else let (n, ctx) = prune_address K addr circuitsLeft ctx
           in prune_pending K as (depositeesLeft - 1) (circuitsLeft - n) ctx)"

fun prune_hits ::
  "('v, 'w, 'g) wasm_keeper \<Rightarrow> u64 \<Rightarrow> (u64 \<times> string) list \<Rightarrow> int \<Rightarrow> int \<Rightarrow> ('v, 'w, 'g) wasm_ctx \<Rightarrow>
   unit res \<times> ('v, 'w, 'g) wasm_ctx" where
  "prune_hits K now [] depositeesLeft circuitsLeft ctx = (Inr (), ctx)"
| "prune_hits K now (h # hs) depositeesLeft circuitsLeft ctx =
     (if depositeesLeft = 0 \<or> circuitsLeft = 0 then (Inr (), ctx)
      else (case depositee_get (kv_of ctx) (snd h) of
              None \<Rightarrow> prune_hits K now hs depositeesLeft circuitsLeft (deleteCircuitDepositExpiry (fst h) (snd h) ctx)
            | Some cur \<Rightarrow>
                if cur \<noteq> fst h
                then prune_hits K now hs depositeesLeft circuitsLeft (deleteCircuitDepositExpiry (fst h) (snd h) ctx)
                else if sint now < sint cur
                then prune_hits K now hs depositeesLeft circuitsLeft (deleteCircuitDepositExpiry (fst h) (snd h) ctx)
                else let ctx = deleteCircuitDepositExpiry (fst h) (snd h) (depositee_remove (snd h) ctx) in
                     (case WasmGetParams (kv_of ctx) of
                        Inl e \<Rightarrow> (Inl e, ctx)
                      | Inr params \<Rightarrow>
                     (case Allowed (wk_sdk K) (getCircuitUploadAccessConfig params) (snd h) of
                        Inl e \<Rightarrow> (Inl e, ctx)
                      | Inr True \<Rightarrow> prune_hits K now hs (depositeesLeft - 1) circuitsLeft (deleteCircuitDepositGC (snd h) ctx)
                      | Inr False \<Rightarrow>
                          (let (n, ctx) = prune_address K (snd h) circuitsLeft ctx
                           in prune_hits K now hs (depositeesLeft - 1) (circuitsLeft - n) ctx)))))"

definition gc_pending :: "wasm_val kv \<Rightarrow> string list" where
  "gc_pending kv = List.map_filter (\<lambda>e. ParseCircuitDepositGCKey (fst e)) (kv_scan [CHR 0x1C] kv)"

text \<open>The iterator over the index stops before the first key that is not below the end.\<close>

definition expired_hits :: "wasm_val kv \<Rightarrow> u64 \<Rightarrow> int \<Rightarrow> (u64 \<times> string) list" where
  "expired_hits kv now depositeesLeft =
     take (nat depositeesLeft)
       (List.map_filter (\<lambda>e. ParseCircuitDepositExpiryKey (fst e))
          (filter (\<lambda>e. fst e < Uint64ToBigEndian (now + 1)) (kv_scan [CHR 0x1B] kv)))"

definition PruneExpiredCircuitDeposits ::
  "('v, 'w, 'g) wasm_keeper \<Rightarrow> wasm_env \<Rightarrow> ('v, 'w, 'g) wasm_ctx \<Rightarrow> unit res \<times> ('v, 'w, 'g) wasm_ctx" where
  "PruneExpiredCircuitDeposits K E ctx =
     (let now = of_int (block_now E) in
      case prune_pending K (gc_pending (kv_of ctx)) 8 2 ctx of
        (None, ctx) \<Rightarrow> (Inr (), ctx)
      | (Some (depositeesLeft, circuitsLeft), ctx) \<Rightarrow>
          prune_hits K now (expired_hits (kv_of ctx) now depositeesLeft) depositeesLeft circuitsLeft ctx)"

section \<open>Settlement of the pool\<close>

definition operatorWeight :: "('v, 'w, 'g) wasm_keeper \<Rightarrow> 'w \<Rightarrow> validator \<Rightarrow> i64" where
  "operatorWeight K w v =
     (if Jailed v then 0 else (case circuitWeight K of Some f \<Rightarrow> f w v | None \<Rightarrow> 1))"

definition settle_weight :: "('v, 'w, 'g) wasm_keeper \<Rightarrow> 'w \<Rightarrow> validator \<Rightarrow> i64" where
  "settle_weight K w v = (let n = operatorWeight K w v in if sint n < 0 then 0 else n)"

fun settle_share :: "coin_ops \<Rightarrow> i64 \<Rightarrow> i64 \<Rightarrow> Coins \<Rightarrow> Coins \<Rightarrow> Coins res" where
  "settle_share A weight weightSum [] share = Inr share"
| "settle_share A weight weightSum (c # cs) share =
     (let each = int_quo (Amount c * sint weight) (sint weightSum) in
      if 0 < each
      then (case NewCoin A (Denom c) each of
              Inl e \<Rightarrow> Inl e
            | Inr x \<Rightarrow> settle_share A weight weightSum cs (CoinsAdd A share [x]))
      else settle_share A weight weightSum cs share)"

text \<open>A transfer that fails is logged and skipped; a panic of the bank is not.\<close>

fun settle_loop ::
  "('v, 'w, 'g) wasm_keeper \<Rightarrow> Coins \<Rightarrow> i64 \<Rightarrow> (validator \<times> i64) list \<Rightarrow> Coins \<Rightarrow> nat \<Rightarrow> ('v, 'w, 'g) wasm_ctx \<Rightarrow>
   (Coins \<times> nat) res \<times> ('v, 'w, 'g) wasm_ctx" where
  "settle_loop K bal weightSum [] paid eligible ctx = (Inr (paid, eligible), ctx)"
| "settle_loop K bal weightSum (vw # vws) paid eligible ctx =
     (if snd vw = 0 then settle_loop K bal weightSum vws paid eligible ctx
      else (case ValAddressFromBech32 K (OperatorAddress (fst vw)) of
              Inl _ \<Rightarrow> settle_loop K bal weightSum vws paid (eligible + 1) ctx
            | Inr op \<Rightarrow>
                bindR (settle_share (wk_coins K) (snd vw) weightSum bal [], ctx) (\<lambda>share ctx.
                if share = [] then settle_loop K bal weightSum vws paid (eligible + 1) ctx
                else (case on_world (SendCoinsFromModuleToAccount (wk_sdk K) ''circuit_val_pool'' op share) ctx of
                        (Inl (Panicked m), ctx) \<Rightarrow> (Inl (Panicked m), ctx)
                      | (Inl _, ctx) \<Rightarrow> settle_loop K bal weightSum vws paid (eligible + 1) ctx
                      | (Inr _, ctx) \<Rightarrow>
                          settle_loop K bal weightSum vws (CoinsAdd (wk_coins K) paid share) (eligible + 1) ctx))))"

definition payout_event ::
  "string \<Rightarrow> i64 \<Rightarrow> nat \<Rightarrow> i64 \<Rightarrow> string \<Rightarrow> ('v, 'w, 'g) wasm_ctx \<Rightarrow> ('v, 'w, 'g) wasm_ctx" where
  "payout_event epochIdentifier epochNumber eligible weightSum paid =
     emit ''circuit_val_pool_payout''
       [(''epoch_identifier'', epochIdentifier), (''epoch_number'', go_itoa (sint epochNumber)),
        (''eligible'', dec_digits eligible), (''weight_sum'', go_itoa (sint weightSum)), (''paid'', paid)]"

definition settleCircuitValPool ::
  "('v, 'w, 'g) wasm_keeper \<Rightarrow> string \<Rightarrow> i64 \<Rightarrow> ('v, 'w, 'g) wasm_ctx \<Rightarrow> unit res \<times> ('v, 'w, 'g) wasm_ctx" where
  "settleCircuitValPool K epochIdentifier epochNumber ctx =
     (case GetBondedValidatorsByPower K of
        None \<Rightarrow> (Inr (), ctx)
      | Some bonded \<Rightarrow>
     (case bonded (world (gstore ctx)) of
        Inl _ \<Rightarrow> (Inr (), ctx)
      | Inr vals \<Rightarrow>
          let bal = GetAllBalances K (world (gstore ctx)) (NewModuleAddress K ''circuit_val_pool'') in
          if vals = [] \<or> bal = [] then (Inr (), ctx)
          else let weights = map (settle_weight K (world (gstore ctx))) vals; weightSum = sum_list weights in
               if weightSum = 0 then (Inr (), payout_event epochIdentifier epochNumber 0 0 ''0'' ctx)
               else bindR (settle_loop K bal weightSum (zip vals weights) [] 0 ctx) (\<lambda>(paid, eligible) ctx.
                 (Inr (), if paid \<noteq> [] \<or> 0 < eligible
                          then payout_event epochIdentifier epochNumber eligible weightSum (CoinsString K paid) ctx
                          else ctx))))"

section \<open>Epochs\<close>

definition getCircuitEpochInfo :: "wasm_val kv \<Rightarrow> CircuitEpochInfo option" where
  "getCircuitEpochInfo kv = (case kv_get kv [CHR 0x1E] of Some (EpochVal info) \<Rightarrow> Some info | _ \<Rightarrow> None)"

definition setCircuitEpochInfo :: "CircuitEpochInfo \<Rightarrow> ('v, 'w, 'g) wasm_ctx \<Rightarrow> ('v, 'w, 'g) wasm_ctx" where
  "setCircuitEpochInfo info = on_kv (kv_set [CHR 0x1E] (EpochVal info))"

definition DistributeCircuitValPool ::
  "('v, 'w, 'g) wasm_keeper \<Rightarrow> ('v, 'w, 'g) wasm_ctx \<Rightarrow> unit res \<times> ('v, 'w, 'g) wasm_ctx" where
  "DistributeCircuitValPool K ctx = settleCircuitValPool K [] 0 ctx"

definition AfterEpochEnd ::
  "('v, 'w, 'g) wasm_keeper \<Rightarrow> string \<Rightarrow> i64 \<Rightarrow> ('v, 'w, 'g) wasm_ctx \<Rightarrow> unit res \<times> ('v, 'w, 'g) wasm_ctx" where
  "AfterEpochEnd K epochIdentifier epochNumber ctx =
     (if epochIdentifier \<noteq> ''day'' then (Inr (), ctx)
      else settleCircuitValPool K epochIdentifier epochNumber ctx)"

definition epoch_duration :: "string \<Rightarrow> i64" where
  "epoch_duration env =
     (case (if env \<noteq> [] then parse_int64 env else None) of
        Some n \<Rightarrow> if 0 < n then of_int n else 86400
      | None \<Rightarrow> 86400)"

definition TickCircuitEpoch ::
  "('v, 'w, 'g) wasm_keeper \<Rightarrow> wasm_env \<Rightarrow> ('v, 'w, 'g) wasm_ctx \<Rightarrow> unit res \<times> ('v, 'w, 'g) wasm_ctx" where
  "TickCircuitEpoch K E ctx =
     (case getCircuitEpochInfo (kv_of ctx) of
        None \<Rightarrow>
          (Inr (), setCircuitEpochInfo
             \<lparr>Identifier = ''day'', DurationSeconds = epoch_duration (CIRCUIT_EPOCH_DURATION_SECONDS E),
              CurrentEpoch = 0, CurrentEpochStartUnix = of_int (block_now E),
              CurrentEpochStartHeight = BlockHeight E\<rparr> ctx)
      | Some info \<Rightarrow>
          if Identifier info = [] then DistributeCircuitValPool K ctx
          else let info = (if sint (DurationSeconds info) \<le> 0 then info\<lparr>DurationSeconds := 86400\<rparr> else info) in
               if sint (BlockTimeUnix E) < sint (CurrentEpochStartUnix info + DurationSeconds info) then (Inr (), ctx)
               else bindR (AfterEpochEnd K (Identifier info) (CurrentEpoch info) ctx) (\<lambda>_ ctx.
                 (Inr (), setCircuitEpochInfo
                    (info\<lparr>CurrentEpoch := CurrentEpoch info + 1, CurrentEpochStartUnix := BlockTimeUnix E,
                          CurrentEpochStartHeight := BlockHeight E\<rparr>) ctx)))"

definition wasm_EndBlock ::
  "('v, 'w, 'g) wasm_keeper \<Rightarrow> wasm_env \<Rightarrow> ('v, 'w, 'g) wasm_ctx \<Rightarrow> unit res \<times> ('v, 'w, 'g) wasm_ctx" where
  "wasm_EndBlock K E ctx = bindR (TickCircuitEpoch K E ctx) (\<lambda>_. PruneExpiredCircuitDeposits K E)"

section \<open>Messages\<close>

definition StoreVkParamMsg ::
  "('v, 'w, 'g) wasm_keeper \<Rightarrow> wasm_env \<Rightarrow> MsgStoreVkParam \<Rightarrow> ('v, 'w, 'g) wasm_ctx \<Rightarrow>
   (u64 \<times> string) res \<times> ('v, 'w, 'g) wasm_ctx" where
  "StoreVkParamMsg K E msg ctx =
     bindR (MsgStoreVkParam_ValidateBasic (wk_sdk K) (MAX_CIRCUIT_SIZE E) msg, ctx) (\<lambda>_ ctx.
     bindR (AccAddressFromBech32 (wk_sdk K) (vkp_Sender msg), ctx) (\<lambda>sender ctx.
       store_vk_param K E (Some sender) (vkp_K msg) (CsParam msg) (selectAuthorizationPolicy K E (vkp_Sender msg)) ctx))"

definition StoreCircuitMsg ::
  "('v, 'w, 'g) wasm_keeper \<Rightarrow> wasm_env \<Rightarrow> MsgStoreCircuit \<Rightarrow> ('v, 'w, 'g) wasm_ctx \<Rightarrow>
   (u64 \<times> string) res \<times> ('v, 'w, 'g) wasm_ctx" where
  "StoreCircuitMsg K E msg ctx =
     bindR (MsgStoreCircuit_ValidateBasic (wk_sdk K) (MAX_CIRCUIT_SIZE E) msg, ctx) (\<lambda>_ ctx.
     bindR (AccAddressFromBech32 (wk_sdk K) (cir_Sender msg), ctx) (\<lambda>sender ctx.
       store_circuit K E (Some sender) (CircuitParamKey msg) (CircuitBinaryFile msg) (cir_InstantiatePermission msg)
         (selectAuthorizationPolicy K E (cir_Sender msg)) ctx))"

definition StoreFullCircuitMsg ::
  "('v, 'w, 'g) wasm_keeper \<Rightarrow> wasm_env \<Rightarrow> MsgStoreFullCircuit \<Rightarrow> ('v, 'w, 'g) wasm_ctx \<Rightarrow>
   (u64 \<times> u64 \<times> string \<times> string) res \<times> ('v, 'w, 'g) wasm_ctx" where
  "StoreFullCircuitMsg K E msg ctx =
     bindR (MsgStoreFullCircuit_ValidateBasic (wk_sdk K) (MAX_CIRCUIT_SIZE E) msg, ctx) (\<lambda>_ ctx.
     bindR (AccAddressFromBech32 (wk_sdk K) (fc_Sender msg), ctx) (\<lambda>sender ctx.
       store_full_circuit K E (Some sender) (fc_K msg) (CircuitParamBinaryFile msg) (CircuitVkBinaryFile msg)
         (selectAuthorizationPolicy K E (fc_Sender msg)) ctx))"

definition StoreCodeMsg ::
  "('v, 'w, 'g) wasm_keeper \<Rightarrow> wasm_env \<Rightarrow> MsgStoreCode \<Rightarrow> ('v, 'w, 'g) wasm_ctx \<Rightarrow>
   (u64 \<times> string) res \<times> ('v, 'w, 'g) wasm_ctx" where
  "StoreCodeMsg K E msg ctx =
     bindR (MsgStoreCode_ValidateBasic (wk_sdk K) msg, ctx) (\<lambda>_ ctx.
     bindR (AccAddressFromBech32 (wk_sdk K) (sc_Sender msg), ctx) (\<lambda>sender ctx.
       create_code K E (Some sender) (sc_WASMByteCode msg) (sc_InstantiatePermission msg)
         (selectAuthorizationPolicy K E (sc_Sender msg)) ctx))"

definition PayCircuitDepositMsg ::
  "('v, 'w, 'g) wasm_keeper \<Rightarrow> wasm_env \<Rightarrow> string \<Rightarrow> u32 \<Rightarrow> ('v, 'w, 'g) wasm_ctx \<Rightarrow>
   i64 res \<times> ('v, 'w, 'g) wasm_ctx" where
  "PayCircuitDepositMsg K E sender years ctx =
     bindR (MsgPayCircuitDeposit_ValidateBasic (wk_sdk K) sender years, ctx) (\<lambda>_ ctx.
     bindR (AccAddressFromBech32 (wk_sdk K) sender, ctx) (\<lambda>payer. PayCircuitDeposit K E payer years))"

end
