(* ===== verification/CircuitInv.thy ===== *)
theory CircuitInv
  imports CircuitDeposit
begin

text \<open>
  The invariant of the circuit deposits and what the collection of expired ones does: the indices
  agree with the deposits and the circuits, and the collector takes expired deposits and the circuits
  of their depositors only, a bounded number per block, until none is left.
\<close>

section \<open>Keys\<close>

definition addr_ok :: "string \<Rightarrow> bool" where
  "addr_ok a = (1 \<le> length a \<and> length a \<le> 255)"

lemma lp_eq: "addr_ok a \<Longrightarrow> MustLengthPrefix a = char_of (length a) # a"
  by (auto simp: addr_ok_def MustLengthPrefix_def)

lemma char_of_length_inj:
  assumes "addr_ok a" and "addr_ok b"
  shows "(char_of (length a) :: char) = char_of (length b) \<longleftrightarrow> length a = length b"
proof -
  have "length a < 2 ^ 8" and "length b < 2 ^ 8" using assms by (simp_all add: addr_ok_def)
  then show ?thesis by (simp only: char_of_eq_iff of_char_of take_bit_nat_eq_self) simp
qed

lemma lp_append_inj:
  assumes "addr_ok a" and "addr_ok b"
  shows "MustLengthPrefix a @ x = MustLengthPrefix b @ y \<longleftrightarrow> a = b \<and> x = y"
proof
  assume "MustLengthPrefix a @ x = MustLengthPrefix b @ y"
  then have "(char_of (length a) :: char) = char_of (length b)" and tl: "a @ x = b @ y"
    using assms by (simp_all add: lp_eq del: char_of_eq_iff char_of_mod_256)
  then have "length a = length b" using char_of_length_inj [OF assms] by blast
  with tl show "a = b \<and> x = y" by simp
qed simp

lemma lp_inj: "addr_ok a \<Longrightarrow> addr_ok b \<Longrightarrow> MustLengthPrefix a = MustLengthPrefix b \<longleftrightarrow> a = b"
  using lp_append_inj [of a b "[]" "[]"] by simp

lemma of_char_length: "addr_ok a \<Longrightarrow> (of_char (char_of (length a) :: char) :: nat) = length a"
  by (simp add: addr_ok_def)

lemma expiry_key_inj [simp]:
  assumes "addr_ok a" and "addr_ok b"
  shows "GetCircuitDepositExpiryKey u a = GetCircuitDepositExpiryKey v b \<longleftrightarrow> u = v \<and> a = b"
  using assms by (simp add: GetCircuitDepositExpiryKey_def append_eq_same_length lp_inj)

lemma parse_expiry_key [simp]:
  assumes "addr_ok a"
  shows "ParseCircuitDepositExpiryKey (GetCircuitDepositExpiryKey u a) = Some (u, a)"
proof -
  have "(Uint64ToBigEndian u @ char_of (length a) # a) ! 8 = char_of (length a)"
    by (simp add: nth_append)
  moreover have "drop 9 (Uint64ToBigEndian u @ char_of (length a) # a) = a" by simp
  moreover have "a \<noteq> []" using assms by (auto simp: addr_ok_def)
  ultimately show ?thesis
    using assms of_char_length [OF assms]
    by (simp add: ParseCircuitDepositExpiryKey_def GetCircuitDepositExpiryKey_def lp_eq Let_def)
qed

lemma parse_gc_key [simp]:
  assumes "addr_ok a"
  shows "ParseCircuitDepositGCKey (GetCircuitDepositGCKey a) = Some a"
proof -
  have "a \<noteq> []" using assms by (auto simp: addr_ok_def)
  then show ?thesis
    using assms of_char_length [OF assms] by (simp add: ParseCircuitDepositGCKey_def GetCircuitDepositGCKey_def lp_eq Let_def)
qed

lemmas key_defs = GetVkParamId_def GetVkParamBytesKey_def GetCodeKey_def GetCircuitKey_def GetCircuitBytesKey_def
  circuitParamRefKey_def GetCircuitByCreatorIDPrefix_def GetCircuitByCreatorIDKey_def
  GetPinnedCodeIndexPrefix_def GetPinnedCircuitIndexPrefix_def
  KeySequenceCircuitID_def KeySequenceVkParamID_def KeySequenceCodeID_def

section \<open>What the store holds\<close>

definition creator_of :: "'w sdk \<Rightarrow> wasm_val kv \<Rightarrow> u64 \<Rightarrow> string option" where
  "creator_of S kv i =
     (case GetCircuitInfo kv i of
        None \<Rightarrow> None
      | Some info \<Rightarrow> (case AccAddressFromBech32 S (zk_Creator info) of Inl _ \<Rightarrow> None | Inr a \<Rightarrow> Some a))"

definition marked :: "wasm_val kv \<Rightarrow> string \<Rightarrow> bool" where
  "marked kv a = (addr_ok a \<and> kv_has kv (CHR 0x1C # GetCircuitDepositGCKey a))"

text \<open>
  The invariant: the expiry index is exactly the graph of the deposits; an address that is marked for
  collection has no deposit; the index by creator is exactly the circuits; and the ids of circuits
  are below the sequence.
\<close>

definition circuit_inv :: "'w sdk \<Rightarrow> wasm_val kv \<Rightarrow> bool" where
  "circuit_inv S kv \<longleftrightarrow>
     kv_wf kv \<and>
     (\<forall>k. kv_has kv (CHR 0x1A # k) \<longrightarrow> addr_ok k \<and> depositee_get kv k \<noteq> None) \<and>
     (\<forall>k. kv_has kv (CHR 0x1B # k) \<longleftrightarrow>
        (\<exists>a u. addr_ok a \<and> depositee_get kv a = Some u \<and> k = GetCircuitDepositExpiryKey u a)) \<and>
     (\<forall>k. kv_has kv (CHR 0x1C # k) \<longrightarrow> (\<exists>a. addr_ok a \<and> depositee_get kv a = None \<and> k = GetCircuitDepositGCKey a)) \<and>
     (\<forall>k. kv_has kv (CHR 0x1D # k) \<longleftrightarrow>
        (\<exists>a i. addr_ok a \<and> creator_of S kv i = Some a \<and> k = MustLengthPrefix a @ Uint64ToBigEndian i)) \<and>
     (\<forall>i. GetCircuitInfo kv i \<noteq> None \<longrightarrow> (\<exists>a. addr_ok a \<and> creator_of S kv i = Some a)) \<and>
     (\<exists>n. PeekAutoIncrementID kv KeySequenceCircuitID = Inr n \<and> (\<forall>i. GetCircuitInfo kv i \<noteq> None \<longrightarrow> unat i < unat n))"

text \<open>What the invariant reads of the store.\<close>

definition gc_key :: "string \<Rightarrow> bool" where
  "gc_key k = (k \<noteq> [] \<and> hd k \<in> {CHR 0x16, CHR 0x1A, CHR 0x1B, CHR 0x1C, CHR 0x1D} \<or> k = KeySequenceCircuitID)"

lemma gc_key_simps [simp]:
  "gc_key (CHR 0x16 # k)" "gc_key (CHR 0x1A # k)" "gc_key (CHR 0x1B # k)" "gc_key (CHR 0x1C # k)" "gc_key (CHR 0x1D # k)"
  "gc_key KeySequenceCircuitID"
  by (simp_all add: gc_key_def)

lemma same_gc_keys:
  assumes "\<And>k. gc_key k \<Longrightarrow> kv_get kv' k = kv_get kv k"
  shows "depositee_get kv' = depositee_get kv" and "GetCircuitInfo kv' = GetCircuitInfo kv"
    and "creator_of S kv' = creator_of S kv" and "marked kv' = marked kv"
    and "PeekAutoIncrementID kv' KeySequenceCircuitID = PeekAutoIncrementID kv KeySequenceCircuitID"
    and "gc_key k \<Longrightarrow> kv_has kv' k = kv_has kv k"
proof -
  show c: "GetCircuitInfo kv' = GetCircuitInfo kv"
    by (simp add: fun_eq_iff GetCircuitInfo_def GetCircuitKey_def assms)
  show "depositee_get kv' = depositee_get kv"
    by (simp add: fun_eq_iff depositee_get_def raw_value_def assms)
  show "creator_of S kv' = creator_of S kv" by (simp add: fun_eq_iff creator_of_def c)
  show "marked kv' = marked kv" by (simp add: fun_eq_iff marked_def kv_has_def assms)
  show "PeekAutoIncrementID kv' KeySequenceCircuitID = PeekAutoIncrementID kv KeySequenceCircuitID"
    by (simp add: PeekAutoIncrementID_def raw_value_def assms)
  show "kv_has kv' k = kv_has kv k" if "gc_key k" using that by (simp add: kv_has_def assms)
qed

lemma circuit_inv_cong:
  assumes "circuit_inv S kv" and "kv_wf kv'" and "\<And>k. gc_key k \<Longrightarrow> kv_get kv' k = kv_get kv k"
  shows "circuit_inv S kv'"
  using assms(1,2) unfolding circuit_inv_def
  by (simp add: same_gc_keys [of kv' kv, OF assms(3)])


lemma circuit_invD:
  assumes "circuit_inv S kv"
  shows "kv_wf kv"
    and "kv_has kv (CHR 0x1A # k) \<Longrightarrow> addr_ok k \<and> depositee_get kv k \<noteq> None"
    and "kv_has kv (CHR 0x1B # k) \<longleftrightarrow> (\<exists>a u. addr_ok a \<and> depositee_get kv a = Some u \<and> k = GetCircuitDepositExpiryKey u a)"
    and "kv_has kv (CHR 0x1C # k) \<Longrightarrow> \<exists>a. addr_ok a \<and> depositee_get kv a = None \<and> k = GetCircuitDepositGCKey a"
    and "kv_has kv (CHR 0x1D # k) \<longleftrightarrow>
      (\<exists>a i. addr_ok a \<and> creator_of S kv i = Some a \<and> k = MustLengthPrefix a @ Uint64ToBigEndian i)"
    and "GetCircuitInfo kv i \<noteq> None \<Longrightarrow> \<exists>a. addr_ok a \<and> creator_of S kv i = Some a"
    and "\<exists>n. PeekAutoIncrementID kv KeySequenceCircuitID = Inr n \<and> (\<forall>i. GetCircuitInfo kv i \<noteq> None \<longrightarrow> unat i < unat n)"
  using assms unfolding circuit_inv_def by blast+

lemma creator_of_info: "creator_of S kv i = Some a \<Longrightarrow> \<exists>info. GetCircuitInfo kv i = Some info \<and> AccAddressFromBech32 S (zk_Creator info) = Inr a"
  by (auto simp: creator_of_def split: option.splits sum.splits)

lemma creator_addr_ok: "circuit_inv S kv \<Longrightarrow> creator_of S kv i = Some a \<Longrightarrow> addr_ok a"
  using circuit_invD(6) creator_of_info by fastforce

lemma depositee_addr_ok:
  assumes "circuit_inv S kv" and "depositee_get kv a = Some u"
  shows "addr_ok a"
proof -
  have "kv_has kv (CHR 0x1A # a)"
    using assms(2) by (auto simp: depositee_get_def raw_value_def kv_has_def split: option.splits wasm_val.splits)
  then show ?thesis using circuit_invD(2) [OF assms(1)] by blast
qed

section \<open>The steps on the store\<close>

lemma kv_of_simps [simp]:
  "kv_of (on_kv f ctx) = f (kv_of ctx)"
  "kv_of (emit t as ctx) = kv_of ctx"
  "kv_of (snd (on_vm g ctx)) = kv_of ctx"
  "kv_of (snd (on_world h ctx)) = kv_of ctx"
  "kv_of (snd (on_meter m ctx)) = kv_of ctx"
  by (simp_all add: on_kv_def emit_def EmitEvents_def on_vm_def on_world_def on_meter_def split: prod.splits)

definition kv_remove_circuit :: "string \<Rightarrow> u64 \<Rightarrow> wasm_val kv \<Rightarrow> wasm_val kv" where
  "kv_remove_circuit a i kv =
     kv_del (circuitParamRefKey i) (kv_del (GetCircuitBytesKey i) (kv_del (GetCircuitKey i)
       (kv_del (GetCircuitByCreatorIDKey a i) (kv_del (GetPinnedCircuitIndexPrefix i) kv))))"

lemma removeCircuit_kv:
  assumes "creator_of (wk_sdk K) (kv_of ctx) i = Some a"
  shows "fst (removeCircuit K i ctx) = Inr ()"
    and "kv_of (snd (removeCircuit K i ctx)) = kv_remove_circuit a i (kv_of ctx)"
proof -
  obtain info where info: "GetCircuitInfo (kv_of ctx) i = Some info" "AccAddressFromBech32 (wk_sdk K) (zk_Creator info) = Inr a"
    using creator_of_info [OF assms] by blast
  show "fst (removeCircuit K i ctx) = Inr ()"
    by (simp add: removeCircuit_def info Let_def)
  show "kv_of (snd (removeCircuit K i ctx)) = kv_remove_circuit a i (kv_of ctx)"
    by (simp add: removeCircuit_def info Let_def deleteCircuitCreatorIndex_def kv_remove_circuit_def split: option.splits)
qed

lemma kv_remove_circuit_get:
  "kv_get (kv_remove_circuit a i kv) k =
     (if k \<in> {circuitParamRefKey i, GetCircuitBytesKey i, GetCircuitKey i, GetCircuitByCreatorIDKey a i, GetPinnedCircuitIndexPrefix i}
      then None else kv_get kv k)"
  by (simp add: kv_remove_circuit_def kv_simps)

lemma kv_remove_circuit_proj:
  shows "depositee_get (kv_remove_circuit a i kv) = depositee_get kv"
    and "marked (kv_remove_circuit a i kv) = marked kv"
    and "GetCircuitInfo (kv_remove_circuit a i kv) = (GetCircuitInfo kv)(i := None)"
    and "creator_of S (kv_remove_circuit a i kv) = (creator_of S kv)(i := None)"
    and "PeekAutoIncrementID (kv_remove_circuit a i kv) KeySequenceCircuitID = PeekAutoIncrementID kv KeySequenceCircuitID"
    and "WasmGetParams (kv_remove_circuit a i kv) = WasmGetParams kv"
    and "kv_get (kv_remove_circuit a i kv) (GetCircuitBytesKey j) = (if j = i then None else kv_get kv (GetCircuitBytesKey j))"
proof -
  show c: "GetCircuitInfo (kv_remove_circuit a i kv) = (GetCircuitInfo kv)(i := None)"
    by (auto simp: fun_eq_iff GetCircuitInfo_def kv_remove_circuit_get key_defs)
  show "creator_of S (kv_remove_circuit a i kv) = (creator_of S kv)(i := None)"
    by (simp add: fun_eq_iff creator_of_def c)
qed (simp_all add: fun_eq_iff depositee_get_def raw_value_def marked_def kv_has_def PeekAutoIncrementID_def
      WasmGetParams_def kv_remove_circuit_get key_defs)

lemma kv_remove_circuit_inv:
  assumes "circuit_inv S kv" and "creator_of S kv i = Some a"
  shows "circuit_inv S (kv_remove_circuit a i kv)"
proof -
  let ?kv = "kv_remove_circuit a i kv"
  note I = circuit_invD [OF assms(1)]
  have ok: "addr_ok a" using creator_addr_ok [OF assms] .
  have wf: "kv_wf ?kv" using I(1) by (simp add: kv_remove_circuit_def kv_simps)
  have has: "kv_has ?kv (CHR 0x1A # k) = kv_has kv (CHR 0x1A # k)" "kv_has ?kv (CHR 0x1B # k) = kv_has kv (CHR 0x1B # k)"
    "kv_has ?kv (CHR 0x1C # k) = kv_has kv (CHR 0x1C # k)"
    "kv_has ?kv (CHR 0x1D # k) \<longleftrightarrow> k \<noteq> MustLengthPrefix a @ Uint64ToBigEndian i \<and> kv_has kv (CHR 0x1D # k)" for k
    by (simp_all add: kv_has_def kv_remove_circuit_get key_defs)
  have idx: "kv_has ?kv (CHR 0x1D # k) \<longleftrightarrow>
      (\<exists>b j. addr_ok b \<and> creator_of S ?kv j = Some b \<and> k = MustLengthPrefix b @ Uint64ToBigEndian j)" for k
  proof
    assume "kv_has ?kv (CHR 0x1D # k)"
    then obtain b j where b: "addr_ok b" "creator_of S kv j = Some b" "k = MustLengthPrefix b @ Uint64ToBigEndian j"
      and k: "k \<noteq> MustLengthPrefix a @ Uint64ToBigEndian i"
      unfolding has(4) I(5) by blast
    then have "j \<noteq> i" using assms(2) by auto
    then show "\<exists>b j. addr_ok b \<and> creator_of S ?kv j = Some b \<and> k = MustLengthPrefix b @ Uint64ToBigEndian j"
      using b by (intro exI [of _ b] exI [of _ j]) (simp add: kv_remove_circuit_proj)
  next
    assume "\<exists>b j. addr_ok b \<and> creator_of S ?kv j = Some b \<and> k = MustLengthPrefix b @ Uint64ToBigEndian j"
    then obtain b j where b: "addr_ok b" "j \<noteq> i" "creator_of S kv j = Some b" "k = MustLengthPrefix b @ Uint64ToBigEndian j"
      by (auto simp: kv_remove_circuit_proj split: if_splits)
    then have "k \<noteq> MustLengthPrefix a @ Uint64ToBigEndian i" using ok lp_append_inj [of b a] by auto
    then show "kv_has ?kv (CHR 0x1D # k)" unfolding has(4) I(5) using b by blast
  qed
  have info: "\<exists>b. addr_ok b \<and> creator_of S ?kv j = Some b" if "GetCircuitInfo ?kv j \<noteq> None" for j
    using that I(6) [of j] by (auto simp: kv_remove_circuit_proj split: if_splits)
  show ?thesis
    unfolding circuit_inv_def using wf I(2-4) idx info I(7)
    by (simp add: has(1-3) kv_remove_circuit_proj(1,5)) (auto simp: kv_remove_circuit_proj)
qed


section \<open>Removing the circuits of an address\<close>

text \<open>What a removal of circuits leaves: everything but those circuits.\<close>

definition circuits_removed :: "'w sdk \<Rightarrow> u64 set \<Rightarrow> wasm_val kv \<Rightarrow> wasm_val kv \<Rightarrow> bool" where
  "circuits_removed S ids kv kv' \<longleftrightarrow>
     circuit_inv S kv' \<and> depositee_get kv' = depositee_get kv \<and> marked kv' = marked kv \<and>
     WasmGetParams kv' = WasmGetParams kv \<and>
     (\<forall>i. GetCircuitInfo kv' i = (if i \<in> ids then None else GetCircuitInfo kv i)) \<and>
     (\<forall>i. kv_get kv' (GetCircuitBytesKey i) = (if i \<in> ids then None else kv_get kv (GetCircuitBytesKey i)))"

lemma circuits_removedD:
  assumes "circuits_removed S ids kv kv'"
  shows "circuit_inv S kv'" and "depositee_get kv' = depositee_get kv" and "marked kv' = marked kv"
    and "WasmGetParams kv' = WasmGetParams kv"
    and "GetCircuitInfo kv' i = (if i \<in> ids then None else GetCircuitInfo kv i)"
    and "kv_get kv' (GetCircuitBytesKey i) = (if i \<in> ids then None else kv_get kv (GetCircuitBytesKey i))"
    and "creator_of S' kv' i = (if i \<in> ids then None else creator_of S' kv i)"
  using assms by (simp_all add: circuits_removed_def creator_of_def)

lemma circuits_removed_refl: "circuit_inv S kv \<Longrightarrow> circuits_removed S {} kv kv"
  by (simp add: circuits_removed_def)

lemma circuits_removed_trans:
  "circuits_removed S A kv kv' \<Longrightarrow> circuits_removed S B kv' kv'' \<Longrightarrow> circuits_removed S (A \<union> B) kv kv''"
  unfolding circuits_removed_def by simp

lemma circuits_removed_one:
  "circuit_inv S kv \<Longrightarrow> creator_of S kv i = Some a \<Longrightarrow> circuits_removed S {i} kv (kv_remove_circuit a i kv)"
  by (simp add: circuits_removed_def kv_remove_circuit_inv kv_remove_circuit_proj)

lemma prune_each_removed:
  assumes "circuit_inv (wk_sdk K) (kv_of ctx)" and "distinct ids"
    and "\<forall>i \<in> set ids. creator_of (wk_sdk K) (kv_of ctx) i = Some a"
  shows "circuits_removed (wk_sdk K) (set ids) (kv_of ctx) (kv_of (prune_each K a ids ctx))"
  using assms
proof (induction ids arbitrary: ctx)
  case Nil
  then show ?case by (simp add: circuits_removed_refl)
next
  case (Cons i ids)
  let ?c = "snd (removeCircuit K i ctx)"
  have a: "creator_of (wk_sdk K) (kv_of ctx) i = Some a" using Cons.prems by simp
  note rm = removeCircuit_kv [OF a]
  have step: "prune_each K a (i # ids) ctx = prune_each K a ids ?c"
    using rm(1) by (cases "removeCircuit K i ctx") simp
  have one: "circuits_removed (wk_sdk K) {i} (kv_of ctx) (kv_of ?c)"
    using circuits_removed_one [OF Cons.prems(1) a] rm(2) by simp
  have "circuits_removed (wk_sdk K) (set ids) (kv_of ?c) (kv_of (prune_each K a ids ?c))"
  proof (rule Cons.IH)
    show "circuit_inv (wk_sdk K) (kv_of ?c)" by (rule circuits_removedD(1) [OF one])
    show "\<forall>j \<in> set ids. creator_of (wk_sdk K) (kv_of ?c) j = Some a"
      using Cons.prems circuits_removedD(7) [OF one, of "wk_sdk K"] by auto
  qed (use Cons.prems in simp)
  from circuits_removed_trans [OF one this] show ?case unfolding step by simp
qed

lemma creator_keys_iff:
  assumes "circuit_inv S kv" and "addr_ok a"
  shows "k \<in> set (creator_keys a kv) \<longleftrightarrow> (\<exists>i. creator_of S kv i = Some a \<and> k = Uint64ToBigEndian i)"
proof -
  have "k \<in> set (creator_keys a kv) \<longleftrightarrow> kv_has kv (CHR 0x1D # MustLengthPrefix a @ k)"
    using kvs.scan_keys_iff [OF circuit_invD(1) [OF assms(1)], of k "GetCircuitByCreatorIDPrefix a"]
    by (simp add: creator_keys_def GetCircuitByCreatorIDPrefix_def kv_has_def)
  also have "\<dots> \<longleftrightarrow> (\<exists>i. creator_of S kv i = Some a \<and> k = Uint64ToBigEndian i)"
    unfolding circuit_invD(5) [OF assms(1)] using assms(2) lp_append_inj by metis
  finally show ?thesis .
qed

lemma creator_keys_distinct: "circuit_inv S kv \<Longrightarrow> distinct (creator_keys a kv)"
  unfolding creator_keys_def by (rule kvs.scan_keys_distinct) (rule circuit_invD(1))

lemma prune_ids_eq:
  assumes "\<forall>k \<in> set ks. length k = 8" and "int (length ids) \<le> mx" and "0 < mx"
  shows "prune_ids mx ks ids = (take (nat mx) (ids @ map BigEndianToUint64 ks), mx < int (length ids) + int (length ks))"
  using assms
proof (induction ks arbitrary: ids)
  case Nil
  then show ?case by (simp add: nat_le_iff le_nat_iff)
next
  case (Cons k ks)
  show ?case
  proof (cases "mx < int (length ids) + 1")
    case True
    then have "nat mx = length ids" using Cons.prems(2) by simp
    then show ?thesis using Cons.prems True by simp
  next
    case False
    then show ?thesis using Cons.IH [of "ids @ [BigEndianToUint64 k]"] Cons.prems by (simp add: ac_simps)
  qed
qed

lemma pruneCreatorCircuits_removed:
  assumes inv: "circuit_inv (wk_sdk K) (kv_of ctx)" and ok: "addr_ok a" and mx: "0 < mx"
    and run: "pruneCreatorCircuits K a mx ctx = ((n, m), ctx')"
  shows "\<exists>ids. circuits_removed (wk_sdk K) (set ids) (kv_of ctx) (kv_of ctx') \<and> distinct ids \<and>
     (\<forall>i \<in> set ids. creator_of (wk_sdk K) (kv_of ctx) i = Some a) \<and> n = int (length ids) \<and> n \<le> mx"
    and "m \<longleftrightarrow> (\<exists>i. creator_of (wk_sdk K) (kv_of ctx') i = Some a)"
    and "n = 0 \<Longrightarrow> \<not> m"
proof -
  let ?S = "wk_sdk K" and ?ks = "creator_keys a (kv_of ctx)"
  define all where "all = map BigEndianToUint64 ?ks"
  define ids where "ids = take (nat mx) all"
  have keys: "k \<in> set ?ks \<longleftrightarrow> (\<exists>i. creator_of ?S (kv_of ctx) i = Some a \<and> k = Uint64ToBigEndian i)" for k
    by (rule creator_keys_iff [OF inv ok])
  have all: "i \<in> set all \<longleftrightarrow> creator_of ?S (kv_of ctx) i = Some a" for i
    by (auto simp: all_def keys image_iff) (metis Uint64_roundtrip keys)
  have "distinct all" unfolding all_def
    using creator_keys_distinct [OF inv, of a] by (auto simp: distinct_map inj_on_def keys)
  then have dist: "distinct ids" by (simp add: ids_def)
  have sub: "\<forall>i \<in> set ids. creator_of ?S (kv_of ctx) i = Some a"
    using all by (auto simp: ids_def dest: in_set_takeD)
  have p: "prune_ids mx ?ks [] = (ids, mx < int (length all))"
  proof -
    have "\<forall>k \<in> set ?ks. length k = 8" using keys by auto
    then show ?thesis using prune_ids_eq [of ?ks "[]" mx] mx by (simp add: ids_def all_def)
  qed
  let ?c = "prune_each K a ids ctx"
  have r: "n = int (length ids)" "ctx' = ?c" "m = (if mx < int (length all) then True else hasCircuitCreatorIndex a (kv_of ?c))"
    using run mx by (auto simp: pruneCreatorCircuits_def p Let_def)
  have rm: "circuits_removed ?S (set ids) (kv_of ctx) (kv_of ctx')"
    unfolding r(2) by (rule prune_each_removed [OF inv dist sub])
  show "\<exists>ids. circuits_removed ?S (set ids) (kv_of ctx) (kv_of ctx') \<and> distinct ids \<and>
     (\<forall>i \<in> set ids. creator_of ?S (kv_of ctx) i = Some a) \<and> n = int (length ids) \<and> n \<le> mx"
    using rm dist sub r(1) mx by (intro exI [of _ ids]) (simp add: ids_def)
  have has: "hasCircuitCreatorIndex a (kv_of ctx') \<longleftrightarrow> (\<exists>i. creator_of ?S (kv_of ctx') i = Some a)"
    unfolding hasCircuitCreatorIndex_def
    using creator_keys_iff [OF circuits_removedD(1) [OF rm] ok] by (metis list.set_intros(1) neq_Nil_conv empty_iff list.set(1))
  have "\<exists>i. creator_of ?S (kv_of ctx') i = Some a" if "mx < int (length all)"
  proof -
    have "card (set ids) < card (set all)"
      using that mx \<open>distinct all\<close> dist by (simp add: distinct_card ids_def nat_less_iff)
    then obtain i where "i \<in> set all" "i \<notin> set ids"
      using card_mono [of "set ids" "set all"] by (metis List.finite_set leD subsetI)
    then show ?thesis using all circuits_removedD(7) [OF rm, of ?S i] by auto
  qed
  then show more: "m \<longleftrightarrow> (\<exists>i. creator_of ?S (kv_of ctx') i = Some a)"
    using r(3) has r(2) by auto
  show "\<not> m" if "n = 0"
  proof -
    have "ids = []" using that r(1) by simp
    then have "all = []" using mx by (simp add: ids_def)
    then show ?thesis unfolding more using all circuits_removedD(7) [OF rm, of ?S] by (simp split: if_splits)
  qed
qed


section \<open>Marks and deposits\<close>

lemma gc_key_inj: "addr_ok a \<Longrightarrow> addr_ok b \<Longrightarrow> GetCircuitDepositGCKey a = GetCircuitDepositGCKey b \<longleftrightarrow> a = b"
  by (simp add: GetCircuitDepositGCKey_def lp_inj)

definition kv_mark :: "bool \<Rightarrow> string \<Rightarrow> wasm_val kv \<Rightarrow> wasm_val kv" where
  "kv_mark b a kv =
     (if b then kv_set (CHR 0x1C # GetCircuitDepositGCKey a) (Bytes [CHR 0x01]) kv
      else kv_del (CHR 0x1C # GetCircuitDepositGCKey a) kv)"

lemma kv_mark_get:
  "kv_get (kv_mark b a kv) k =
     (if k = CHR 0x1C # GetCircuitDepositGCKey a then (if b then Some (Bytes [CHR 0x01]) else None) else kv_get kv k)"
  by (simp add: kv_mark_def kv_simps)

lemma kv_mark_proj:
  shows "depositee_get (kv_mark b a kv) = depositee_get kv"
    and "GetCircuitInfo (kv_mark b a kv) = GetCircuitInfo kv"
    and "creator_of S (kv_mark b a kv) = creator_of S kv"
    and "PeekAutoIncrementID (kv_mark b a kv) KeySequenceCircuitID = PeekAutoIncrementID kv KeySequenceCircuitID"
    and "WasmGetParams (kv_mark b a kv) = WasmGetParams kv"
    and "kv_get (kv_mark b a kv) (GetCircuitBytesKey j) = kv_get kv (GetCircuitBytesKey j)"
proof -
  show c: "GetCircuitInfo (kv_mark b a kv) = GetCircuitInfo kv"
    by (simp add: fun_eq_iff GetCircuitInfo_def kv_mark_get key_defs)
  show "creator_of S (kv_mark b a kv) = creator_of S kv" by (simp add: fun_eq_iff creator_of_def c)
qed (simp_all add: fun_eq_iff depositee_get_def raw_value_def PeekAutoIncrementID_def WasmGetParams_def kv_mark_get key_defs)

lemma kv_mark_marked: "addr_ok a \<Longrightarrow> marked (kv_mark b a kv) = (marked kv)(a := b)"
  by (auto simp: fun_eq_iff marked_def kv_has_def kv_mark_get gc_key_inj)

lemma kv_mark_inv:
  assumes "circuit_inv S kv" and "addr_ok a" and "depositee_get kv a = None"
  shows "circuit_inv S (kv_mark b a kv)"
proof -
  let ?kv = "kv_mark b a kv"
  note I = circuit_invD [OF assms(1)]
  have wf: "kv_wf ?kv" using I(1) by (simp add: kv_mark_def kv_simps)
  have has: "kv_has ?kv (CHR 0x1A # k) = kv_has kv (CHR 0x1A # k)" "kv_has ?kv (CHR 0x1B # k) = kv_has kv (CHR 0x1B # k)"
    "kv_has ?kv (CHR 0x1D # k) = kv_has kv (CHR 0x1D # k)"
    "kv_has ?kv (CHR 0x1C # k) \<longleftrightarrow> (if k = GetCircuitDepositGCKey a then b else kv_has kv (CHR 0x1C # k))" for k
    by (simp_all add: kv_has_def kv_mark_get)
  show ?thesis
    unfolding circuit_inv_def kv_mark_proj has
    using wf I(2-7) assms(2,3) by auto
qed

definition kv_drop_deposit :: "u64 \<Rightarrow> string \<Rightarrow> wasm_val kv \<Rightarrow> wasm_val kv" where
  "kv_drop_deposit u a kv = kv_del (CHR 0x1B # GetCircuitDepositExpiryKey u a) (kv_del (CHR 0x1A # a) kv)"

lemma kv_drop_deposit_get:
  "kv_get (kv_drop_deposit u a kv) k =
     (if k = CHR 0x1B # GetCircuitDepositExpiryKey u a \<or> k = CHR 0x1A # a then None else kv_get kv k)"
  by (simp add: kv_drop_deposit_def kv_simps)

lemma kv_drop_deposit_proj:
  shows "depositee_get (kv_drop_deposit u a kv) = (depositee_get kv)(a := None)"
    and "GetCircuitInfo (kv_drop_deposit u a kv) = GetCircuitInfo kv"
    and "creator_of S (kv_drop_deposit u a kv) = creator_of S kv"
    and "marked (kv_drop_deposit u a kv) = marked kv"
    and "PeekAutoIncrementID (kv_drop_deposit u a kv) KeySequenceCircuitID = PeekAutoIncrementID kv KeySequenceCircuitID"
    and "WasmGetParams (kv_drop_deposit u a kv) = WasmGetParams kv"
    and "kv_get (kv_drop_deposit u a kv) (GetCircuitBytesKey j) = kv_get kv (GetCircuitBytesKey j)"
proof -
  show c: "GetCircuitInfo (kv_drop_deposit u a kv) = GetCircuitInfo kv"
    by (simp add: fun_eq_iff GetCircuitInfo_def kv_drop_deposit_get key_defs)
  show "creator_of S (kv_drop_deposit u a kv) = creator_of S kv" by (simp add: fun_eq_iff creator_of_def c)
qed (simp_all add: fun_eq_iff depositee_get_def raw_value_def marked_def kv_has_def PeekAutoIncrementID_def WasmGetParams_def
      kv_drop_deposit_get key_defs)

lemma kv_drop_deposit_inv:
  assumes "circuit_inv S kv" and "depositee_get kv a = Some u"
  shows "circuit_inv S (kv_drop_deposit u a kv)"
proof -
  let ?kv = "kv_drop_deposit u a kv"
  note I = circuit_invD [OF assms(1)]
  have ok: "addr_ok a" by (rule depositee_addr_ok [OF assms])
  have wf: "kv_wf ?kv" using I(1) by (simp add: kv_drop_deposit_def kv_simps)
  have has: "kv_has ?kv (CHR 0x1A # k) \<longleftrightarrow> k \<noteq> a \<and> kv_has kv (CHR 0x1A # k)"
    "kv_has ?kv (CHR 0x1B # k) \<longleftrightarrow> k \<noteq> GetCircuitDepositExpiryKey u a \<and> kv_has kv (CHR 0x1B # k)"
    "kv_has ?kv (CHR 0x1C # k) = kv_has kv (CHR 0x1C # k)" "kv_has ?kv (CHR 0x1D # k) = kv_has kv (CHR 0x1D # k)" for k
    by (simp_all add: kv_has_def kv_drop_deposit_get)
  have exp: "k \<noteq> GetCircuitDepositExpiryKey u a \<and> kv_has kv (CHR 0x1B # k) \<longleftrightarrow>
      (\<exists>b v. addr_ok b \<and> ((depositee_get kv)(a := None)) b = Some v \<and> k = GetCircuitDepositExpiryKey v b)" for k
  proof
    assume "k \<noteq> GetCircuitDepositExpiryKey u a \<and> kv_has kv (CHR 0x1B # k)"
    then obtain b v where b: "addr_ok b" "depositee_get kv b = Some v" "k = GetCircuitDepositExpiryKey v b"
      and k: "k \<noteq> GetCircuitDepositExpiryKey u a"
      unfolding I(3) by blast
    then have "b \<noteq> a" using assms(2) by auto
    then show "\<exists>b v. addr_ok b \<and> ((depositee_get kv)(a := None)) b = Some v \<and> k = GetCircuitDepositExpiryKey v b"
      using b by (intro exI [of _ b] exI [of _ v]) simp
  next
    assume "\<exists>b v. addr_ok b \<and> ((depositee_get kv)(a := None)) b = Some v \<and> k = GetCircuitDepositExpiryKey v b"
    then obtain b v where "addr_ok b" "b \<noteq> a" "depositee_get kv b = Some v" "k = GetCircuitDepositExpiryKey v b"
      by (auto split: if_splits)
    then show "k \<noteq> GetCircuitDepositExpiryKey u a \<and> kv_has kv (CHR 0x1B # k)" unfolding I(3) using ok by auto
  qed
  have gc: "\<exists>b. addr_ok b \<and> ((depositee_get kv)(a := None)) b = None \<and> k = GetCircuitDepositGCKey b"
    if k: "kv_has kv (CHR 0x1C # k)" for k
  proof -
    obtain b where "addr_ok b" "depositee_get kv b = None" "k = GetCircuitDepositGCKey b" using I(4) [OF k] by blast
    then show ?thesis by (intro exI [of _ b]) simp
  qed
  show ?thesis
    unfolding circuit_inv_def kv_drop_deposit_proj has exp
  proof (intro conjI allI impI)
    show "addr_ok k" "((depositee_get kv)(a := None)) k \<noteq> None" if "k \<noteq> a \<and> kv_has kv (CHR 0x1A # k)" for k
      using that I(2) by simp_all
  qed (use wf gc I(5-7) in blast)+
qed


section \<open>One step of the collector\<close>

definition expired :: "nat \<Rightarrow> wasm_val kv \<Rightarrow> string \<Rightarrow> bool" where
  "expired now kv a = (\<exists>u. depositee_get kv a = Some u \<and> unat u \<le> now)"

text \<open>An address the collector has to do with: expired, marked, or without circuits left.\<close>

definition due :: "'w sdk \<Rightarrow> nat \<Rightarrow> wasm_val kv \<Rightarrow> string \<Rightarrow> bool" where
  "due S now kv a = (expired now kv a \<or> marked kv a \<or> (\<forall>i. creator_of S kv i \<noteq> Some a))"

definition gone_circuits :: "wasm_val kv \<Rightarrow> wasm_val kv \<Rightarrow> u64 set" where
  "gone_circuits kv kv' = {i. GetCircuitInfo kv i \<noteq> None \<and> GetCircuitInfo kv' i = None}"

definition gone_deposits :: "wasm_val kv \<Rightarrow> wasm_val kv \<Rightarrow> string set" where
  "gone_deposits kv kv' = {a. depositee_get kv a \<noteq> None \<and> depositee_get kv' a = None}"

text \<open>The work that is left; every deposit may still leave a mark.\<close>

definition gc_measure :: "wasm_val kv \<Rightarrow> nat" where
  "gc_measure kv =
     card {i. GetCircuitInfo kv i \<noteq> None} + card {a. marked kv a} + 2 * card {a. depositee_get kv a \<noteq> None}"

definition gc_step ::
  "'w sdk \<Rightarrow> nat \<Rightarrow> (string \<Rightarrow> bool) \<Rightarrow> nat \<Rightarrow> nat \<Rightarrow> wasm_val kv \<Rightarrow> wasm_val kv \<Rightarrow> bool" where
  "gc_step S now al c d kv kv' \<longleftrightarrow>
     circuit_inv S kv' \<and> WasmGetParams kv' = WasmGetParams kv \<and>
     (\<forall>a. depositee_get kv' a = depositee_get kv a \<or> depositee_get kv' a = None \<and> expired now kv a) \<and>
     (\<forall>i. GetCircuitInfo kv' i = GetCircuitInfo kv i \<and> kv_get kv' (GetCircuitBytesKey i) = kv_get kv (GetCircuitBytesKey i) \<or>
          GetCircuitInfo kv' i = None \<and> (\<exists>a. creator_of S kv i = Some a \<and> (marked kv a \<or> expired now kv a))) \<and>
     (\<forall>a. marked kv' a \<longrightarrow> marked kv a \<or> expired now kv a) \<and>
     (\<forall>a. \<not> al a \<longrightarrow> due S now kv a \<longrightarrow> due S now kv' a) \<and>
     card (gone_circuits kv kv') \<le> c \<and> card (gone_deposits kv kv') \<le> d \<and> gc_measure kv' \<le> gc_measure kv"

lemma gc_stepD:
  assumes "gc_step S now al c d kv kv'"
  shows "circuit_inv S kv'" and "WasmGetParams kv' = WasmGetParams kv"
    and "depositee_get kv' a = depositee_get kv a \<or> depositee_get kv' a = None \<and> expired now kv a"
    and "GetCircuitInfo kv' i = GetCircuitInfo kv i \<and> kv_get kv' (GetCircuitBytesKey i) = kv_get kv (GetCircuitBytesKey i) \<or>
         GetCircuitInfo kv' i = None \<and> (\<exists>a. creator_of S kv i = Some a \<and> (marked kv a \<or> expired now kv a))"
    and "marked kv' a \<Longrightarrow> marked kv a \<or> expired now kv a"
    and "\<not> al a \<Longrightarrow> due S now kv a \<Longrightarrow> due S now kv' a"
    and "card (gone_circuits kv kv') \<le> c" and "card (gone_deposits kv kv') \<le> d" and "gc_measure kv' \<le> gc_measure kv"
  using assms unfolding gc_step_def by blast+

lemma finite_deposits [simp]: "finite {a. depositee_get kv a \<noteq> None}"
proof (rule finite_subset)
  show "{a. depositee_get kv a \<noteq> None} \<subseteq> tl ` fst ` set kv"
  proof
    fix a assume "a \<in> {a. depositee_get kv a \<noteq> None}"
    then have "kv_get kv (CHR 0x1A # a) \<noteq> None" by (auto simp: depositee_get_def raw_value_def split: option.splits)
    then have "CHR 0x1A # a \<in> fst ` set kv" by (auto simp: kv_get_def map_of_eq_None_iff)
    then show "a \<in> tl ` fst ` set kv" by (metis image_eqI list.sel(3))
  qed
qed simp

lemma finite_marked [simp]: "finite {a. marked kv a}"
proof (rule finite_subset)
  show "{a. marked kv a} \<subseteq> (tl \<circ> tl) ` fst ` set kv"
  proof
    fix a assume "a \<in> {a. marked kv a}"
    then have ok: "addr_ok a" and "kv_get kv (CHR 0x1C # GetCircuitDepositGCKey a) \<noteq> None" by (auto simp: marked_def kv_has_def)
    then have "CHR 0x1C # char_of (length a) # a \<in> fst ` set kv"
      by (auto simp: kv_get_def map_of_eq_None_iff GetCircuitDepositGCKey_def lp_eq)
    then show "a \<in> (tl \<circ> tl) ` fst ` set kv" by (metis comp_apply image_eqI list.sel(3))
  qed
qed simp

lemma gc_step_refl:
  assumes "circuit_inv S kv"
  shows "gc_step S now al 0 0 kv kv"
proof -
  have "gone_circuits kv kv = {}" "gone_deposits kv kv = {}" by (auto simp: gone_circuits_def gone_deposits_def)
  with assms show ?thesis by (simp add: gc_step_def)
qed

lemma gc_step_mono: "gc_step S now al c d kv kv' \<Longrightarrow> c \<le> c' \<Longrightarrow> d \<le> d' \<Longrightarrow> gc_step S now al c' d' kv kv'"
  unfolding gc_step_def by (meson le_trans)

lemma gc_step_trans:
  assumes 1: "gc_step S now al c d kv kv'" and 2: "gc_step S now al c' d' kv' kv''"
  shows "gc_step S now al (c + c') (d + d') kv kv''"
proof -
  note A = gc_stepD [OF 1] and B = gc_stepD [OF 2]
  have exp: "expired now kv a" if "expired now kv' a" for a
    using that A(3) [of a] by (auto simp: expired_def)
  have mark: "marked kv a \<or> expired now kv a" if "marked kv' a \<or> expired now kv' a" for a
    using that A(5) [of a] exp [of a] by blast
  have cr: "creator_of S kv i = Some a" if "creator_of S kv' i = Some a" for i a
  proof -
    have "GetCircuitInfo kv' i \<noteq> None" using creator_of_info [OF that] by auto
    then have "GetCircuitInfo kv' i = GetCircuitInfo kv i" using A(4) [of i] by metis
    with that show ?thesis by (simp add: creator_of_def)
  qed
  have rows: "depositee_get kv'' a = depositee_get kv a \<or> depositee_get kv'' a = None \<and> expired now kv a" for a
    using A(3) [of a] B(3) [of a] exp [of a] by auto
  have circs: "GetCircuitInfo kv'' i = GetCircuitInfo kv i \<and> kv_get kv'' (GetCircuitBytesKey i) = kv_get kv (GetCircuitBytesKey i) \<or>
       GetCircuitInfo kv'' i = None \<and> (\<exists>a. creator_of S kv i = Some a \<and> (marked kv a \<or> expired now kv a))" for i
  proof (cases "GetCircuitInfo kv'' i = GetCircuitInfo kv' i \<and> kv_get kv'' (GetCircuitBytesKey i) = kv_get kv' (GetCircuitBytesKey i)")
    case True
    then show ?thesis using A(4) [of i] by auto
  next
    case False
    then obtain a where "GetCircuitInfo kv'' i = None" "creator_of S kv' i = Some a" "marked kv' a \<or> expired now kv' a"
      using B(4) [of i] by blast
    then show ?thesis using cr mark by blast
  qed
  have "gone_circuits kv kv'' \<subseteq> gone_circuits kv kv' \<union> gone_circuits kv' kv''" by (auto simp: gone_circuits_def)
  then have "card (gone_circuits kv kv'') \<le> card (gone_circuits kv kv' \<union> gone_circuits kv' kv'')" by (intro card_mono) simp_all
  also have "\<dots> \<le> card (gone_circuits kv kv') + card (gone_circuits kv' kv'')" by (rule card_Un_le)
  finally have c: "card (gone_circuits kv kv'') \<le> c + c'" using A(7) B(7) by linarith
  have fin: "finite (gone_deposits kv kv' \<union> gone_deposits kv' kv'')"
    by (rule finite_subset [of _ "{a. depositee_get kv a \<noteq> None} \<union> {a. depositee_get kv' a \<noteq> None}"])
       (auto simp: gone_deposits_def simp del: not_None_eq)
  have "gone_deposits kv kv'' \<subseteq> gone_deposits kv kv' \<union> gone_deposits kv' kv''" by (auto simp: gone_deposits_def)
  then have "card (gone_deposits kv kv'') \<le> card (gone_deposits kv kv' \<union> gone_deposits kv' kv'')" by (rule card_mono [OF fin])
  also have "\<dots> \<le> card (gone_deposits kv kv') + card (gone_deposits kv' kv'')" by (rule card_Un_le)
  finally have d: "card (gone_deposits kv kv'') \<le> d + d'" using A(8) B(8) by linarith
  have "WasmGetParams kv'' = WasmGetParams kv" using A(2) B(2) by simp
  moreover have "marked kv'' a \<longrightarrow> marked kv a \<or> expired now kv a" for a using B(5) mark by blast
  moreover have "\<not> al a \<longrightarrow> due S now kv a \<longrightarrow> due S now kv'' a" for a using A(6) B(6) by blast
  moreover have "gc_measure kv'' \<le> gc_measure kv" using A(9) B(9) by simp
  ultimately show ?thesis
    unfolding gc_step_def using B(1) rows circs c d by (intro conjI allI) assumption+
qed

end
