(* ===== verification/CircuitGC.thy ===== *)
theory CircuitGC
  imports CircuitInv
begin

text \<open>
  The collector of expired circuit deposits (x/wasm/keeper/circuit_deposit_gc.go, \<open>PruneExpiredCircuitDeposits\<close>),
  run at the end of every block: a run keeps the circuit invariant, touches no deposit that is still paid and no
  circuit of its creator, removes at most two circuits and eight deposits, and over enough blocks leaves nothing
  behind for an expired address.
\<close>

section \<open>The collector\<close>

text \<open>One address without a deposit: what removing its circuits and renewing its mark does.\<close>

lemma prune_address_effect:
  assumes inv: "circuit_inv (wk_sdk K) (kv_of ctx)" and ok: "addr_ok a" and none: "depositee_get (kv_of ctx) a = None"
    and mx: "0 < mx" and run: "prune_address K a mx ctx = (n, ctx')"
  shows "0 \<le> n" and "n \<le> mx" and "circuit_inv (wk_sdk K) (kv_of ctx')"
    and "depositee_get (kv_of ctx') = depositee_get (kv_of ctx)" and "WasmGetParams (kv_of ctx') = WasmGetParams (kv_of ctx)"
    and "GetCircuitInfo (kv_of ctx') i = GetCircuitInfo (kv_of ctx) i \<and>
         kv_get (kv_of ctx') (GetCircuitBytesKey i) = kv_get (kv_of ctx) (GetCircuitBytesKey i) \<or>
         GetCircuitInfo (kv_of ctx') i = None \<and> creator_of (wk_sdk K) (kv_of ctx) i = Some a"
    and "marked (kv_of ctx') = (marked (kv_of ctx))(a := \<exists>i. creator_of (wk_sdk K) (kv_of ctx') i = Some a)"
    and "int (card (gone_circuits (kv_of ctx) (kv_of ctx'))) = n"
    and "n = 0 \<Longrightarrow> \<not> marked (kv_of ctx') a"
proof -
  obtain m c where p: "pruneCreatorCircuits K a mx ctx = ((n, m), c)"
    using run by (auto simp: prune_address_def Let_def split: prod.splits)
  obtain ids where rm: "circuits_removed (wk_sdk K) (set ids) (kv_of ctx) (kv_of c)" and dist: "distinct ids"
    and own: "\<forall>i \<in> set ids. creator_of (wk_sdk K) (kv_of ctx) i = Some a" and n: "n = int (length ids)" "n \<le> mx"
    using pruneCreatorCircuits_removed(1) [OF inv ok mx p] by blast
  note m = pruneCreatorCircuits_removed(2,3) [OF inv ok mx p]
  note R = circuits_removedD [OF rm]
  have kv: "kv_of ctx' = kv_mark m a (kv_of c)"
    using run p by (auto simp: prune_address_def Let_def prune_event_def setCircuitDepositGC_def deleteCircuitDepositGC_def
        kv_mark_def split: if_splits)
  have cr: "creator_of (wk_sdk K) (kv_of ctx') = creator_of (wk_sdk K) (kv_of c)" by (simp add: kv kv_mark_proj)
  have none': "depositee_get (kv_of c) a = None" by (simp add: R(2) none)
  show "0 \<le> n" "n \<le> mx" using n by simp_all
  show "circuit_inv (wk_sdk K) (kv_of ctx')" unfolding kv by (rule kv_mark_inv [OF R(1) ok none'])
  show "depositee_get (kv_of ctx') = depositee_get (kv_of ctx)" "WasmGetParams (kv_of ctx') = WasmGetParams (kv_of ctx)"
    by (simp_all add: kv kv_mark_proj R(2,4))
  have info: "GetCircuitInfo (kv_of ctx') j = (if j \<in> set ids then None else GetCircuitInfo (kv_of ctx) j)" for j
    by (simp add: kv kv_mark_proj R(5))
  show "GetCircuitInfo (kv_of ctx') i = GetCircuitInfo (kv_of ctx) i \<and>
         kv_get (kv_of ctx') (GetCircuitBytesKey i) = kv_get (kv_of ctx) (GetCircuitBytesKey i) \<or>
         GetCircuitInfo (kv_of ctx') i = None \<and> creator_of (wk_sdk K) (kv_of ctx) i = Some a"
    using own by (cases "i \<in> set ids") (simp_all add: kv kv_mark_proj R(5,6))
  show marks: "marked (kv_of ctx') = (marked (kv_of ctx))(a := \<exists>i. creator_of (wk_sdk K) (kv_of ctx') i = Some a)"
    unfolding cr m(1) [symmetric] unfolding kv by (simp add: kv_mark_marked [OF ok] R(3))
  have "gone_circuits (kv_of ctx) (kv_of ctx') = set ids"
    using own creator_of_info by (fastforce simp: gone_circuits_def info split: if_splits)
  then show "int (card (gone_circuits (kv_of ctx) (kv_of ctx'))) = n" using dist n by (simp add: distinct_card)
  show "\<not> marked (kv_of ctx') a" if "n = 0" using m(2) [OF that] by (simp add: kv kv_mark_marked [OF ok])
qed

lemma card_fun_upd:
  assumes "finite {a. P a}"
  shows "card {x. (P(a := b)) x} + (if P a then 1 else 0) = card {x. P x} + (if b then 1 else 0)"
proof -
  have "{x. (P(a := b)) x} = (if b then insert a {x. P x} else {x. P x} - {a})" by auto
  moreover have "P a \<Longrightarrow> 0 < card {x. P x}" using assms by (auto simp: card_gt_0_iff)
  ultimately show ?thesis using assms by (auto simp: card_insert_if card_Diff_singleton_if)
qed

lemma card_remaining_circuits:
  assumes "\<And>i. GetCircuitInfo kv' i = GetCircuitInfo kv i \<or> GetCircuitInfo kv' i = None"
  shows "card {i. GetCircuitInfo kv' i \<noteq> None} + card (gone_circuits kv kv') = card {i. GetCircuitInfo kv i \<noteq> None}"
proof -
  have "{i. GetCircuitInfo kv i \<noteq> None} = {i. GetCircuitInfo kv' i \<noteq> None} \<union> gone_circuits kv kv'"
    using assms unfolding gone_circuits_def by (intro set_eqI) (metis (mono_tags, lifting) UnE UnI1 UnI2 mem_Collect_eq)
  moreover have "{i. GetCircuitInfo kv' i \<noteq> None} \<inter> gone_circuits kv kv' = {}" by (auto simp: gone_circuits_def)
  ultimately show ?thesis by (simp add: card_Un_disjoint)
qed

lemma gc_stepI:
  assumes "circuit_inv S kv'" and "WasmGetParams kv' = WasmGetParams kv"
    and "\<And>a. depositee_get kv' a = depositee_get kv a \<or> depositee_get kv' a = None \<and> expired now kv a"
    and "\<And>i. GetCircuitInfo kv' i = GetCircuitInfo kv i \<and> kv_get kv' (GetCircuitBytesKey i) = kv_get kv (GetCircuitBytesKey i) \<or>
         GetCircuitInfo kv' i = None \<and> creator_of S kv i = Some x"
    and "marked kv x \<or> expired now kv x"
    and "\<And>a. marked kv' a \<Longrightarrow> a = x \<or> marked kv a"
    and "\<And>a. \<not> al a \<Longrightarrow> due S now kv a \<Longrightarrow> due S now kv' a"
    and "card (gone_circuits kv kv') \<le> c" and "card (gone_deposits kv kv') \<le> d" and "gc_measure kv' \<le> gc_measure kv"
  shows "gc_step S now al c d kv kv'"
proof -
  have "GetCircuitInfo kv' i = GetCircuitInfo kv i \<and> kv_get kv' (GetCircuitBytesKey i) = kv_get kv (GetCircuitBytesKey i) \<or>
      GetCircuitInfo kv' i = None \<and> (\<exists>a. creator_of S kv i = Some a \<and> (marked kv a \<or> expired now kv a))" for i
    using assms(4) [of i] assms(5) by metis
  moreover have "marked kv' a \<longrightarrow> marked kv a \<or> expired now kv a" for a using assms(5,6) by metis
  ultimately show ?thesis unfolding gc_step_def using assms(1-3,7-10) by (intro conjI allI impI) metis+
qed

text \<open>A marked address, as the first part of the collector handles it.\<close>

lemma pending_step:
  assumes inv: "circuit_inv (wk_sdk K) (kv_of ctx)" and mark: "marked (kv_of ctx) a" and mx: "0 < mx"
    and run: "prune_address K a mx ctx = (n, ctx')"
  shows "gc_step (wk_sdk K) now al (nat n) 0 (kv_of ctx) (kv_of ctx')" and "gc_measure (kv_of ctx') < gc_measure (kv_of ctx)"
    and "0 \<le> n" and "n \<le> mx" and "b \<noteq> a \<Longrightarrow> marked (kv_of ctx') b = marked (kv_of ctx) b"
proof -
  have ok: "addr_ok a" and has: "kv_has (kv_of ctx) (CHR 0x1C # GetCircuitDepositGCKey a)" using mark by (simp_all add: marked_def)
  have none: "depositee_get (kv_of ctx) a = None" using circuit_invD(4) [OF inv has] ok gc_key_inj by metis
  note P = prune_address_effect [OF inv ok none mx run]
  have dep: "gone_deposits (kv_of ctx) (kv_of ctx') = {}" by (auto simp: gone_deposits_def P(4))
  have circs: "card {i. GetCircuitInfo (kv_of ctx') i \<noteq> None} + nat n = card {i. GetCircuitInfo (kv_of ctx) i \<noteq> None}"
    using card_remaining_circuits [of "kv_of ctx'" "kv_of ctx"] P(6,8) by (metis nat_int)
  have marks: "card {x. marked (kv_of ctx') x} + 1 = card {x. marked (kv_of ctx) x} + (if marked (kv_of ctx') a then 1 else 0)"
    using card_fun_upd [OF finite_marked, of "kv_of ctx" a "marked (kv_of ctx') a"] mark P(7) by (simp add: fun_upd_def)
  show less: "gc_measure (kv_of ctx') < gc_measure (kv_of ctx)"
    using circs marks P(1,9) unfolding gc_measure_def P(4) by (cases "n = 0") (auto split: if_splits)
  have due: "due (wk_sdk K) now (kv_of ctx') x" if "due (wk_sdk K) now (kv_of ctx) x" for x
  proof (cases "x = a")
    case True
    then show ?thesis by (auto simp: due_def P(7))
  next
    case False
    have "creator_of (wk_sdk K) (kv_of ctx) i = Some x" if "creator_of (wk_sdk K) (kv_of ctx') i = Some x" for i
      using P(6) [of i] creator_of_info [OF that] that by (auto simp: creator_of_def)
    then show ?thesis using \<open>due _ _ _ x\<close> False by (auto simp: due_def expired_def P(4,7))
  qed
  show "gc_step (wk_sdk K) now al (nat n) 0 (kv_of ctx) (kv_of ctx')"
  proof (rule gc_stepI [where x = a])
    show "card (gone_circuits (kv_of ctx) (kv_of ctx')) \<le> nat n" using P(8) by simp
    show "x = a \<or> marked (kv_of ctx) x" if "marked (kv_of ctx') x" for x using that by (simp add: P(7) split: if_splits)
  qed (use P(3-6) mark dep due less in simp_all)
  show "0 \<le> n" "n \<le> mx" by (fact P(1,2))+
  show "b \<noteq> a \<Longrightarrow> marked (kv_of ctx') b = marked (kv_of ctx) b" by (simp add: P(7))
qed


lemma sint_of_nat_small:
  assumes "unat (w :: u64) < 2 ^ 63"
  shows "sint w = int (unat w)"
proof -
  have u: "uint w < 2 ^ 63" using assms unfolding uint_nat by (metis of_nat_less_iff of_nat_numeral of_nat_power)
  have "sint w = signed_take_bit 63 (uint w)" by (simp add: sint_uint)
  also have "\<dots> = uint w" by (rule signed_take_bit_int_eq_self) (use u uint_ge_0 [of w] in linarith)+
  finally show ?thesis by simp
qed

lemma sint_nonneg_uint: "0 \<le> sint (w :: u64) \<Longrightarrow> uint w = sint w"
proof -
  assume "0 \<le> sint w"
  moreover have "sint w < 2 ^ 63" using sint_less [of w] by simp
  ultimately have "uint (of_int (sint w) :: u64) = sint w" unfolding uint_word_of_int_eq by (intro take_bit_int_eq_self) simp_all
  then show ?thesis by simp
qed

text \<open>An expired deposit, as the second part handles it.\<close>

lemma hit_drop:
  assumes inv: "circuit_inv (wk_sdk K) (kv_of ctx)" and dep: "depositee_get (kv_of ctx) a = Some u"
  shows "kv_of (deleteCircuitDepositExpiry u a (depositee_remove a ctx)) = kv_drop_deposit u a (kv_of ctx)"
    and "\<not> marked (kv_of ctx) a" and "addr_ok a"
proof -
  show "kv_of (deleteCircuitDepositExpiry u a (depositee_remove a ctx)) = kv_drop_deposit u a (kv_of ctx)"
    by (simp add: deleteCircuitDepositExpiry_def depositee_remove_def kv_drop_deposit_def)
  show ok: "addr_ok a" by (rule depositee_addr_ok [OF inv dep])
  show "\<not> marked (kv_of ctx) a"
  proof
    assume "marked (kv_of ctx) a"
    then have "kv_has (kv_of ctx) (CHR 0x1C # GetCircuitDepositGCKey a)" by (simp add: marked_def)
    then show False using circuit_invD(4) [OF inv] ok gc_key_inj dep by (metis option.distinct(1))
  qed
qed

lemma card_deposits_upd:
  assumes "depositee_get kv a = Some u" and "depositee_get kv' = (depositee_get kv)(a := None)"
  shows "card {x. depositee_get kv' x \<noteq> None} + 1 = card {x. depositee_get kv x \<noteq> None}"
    and "gone_deposits kv kv' = {a}"
proof -
  have "card {x. ((\<lambda>x. depositee_get kv x \<noteq> None)(a := False)) x} + 1 = card {x. depositee_get kv x \<noteq> None}"
    using card_fun_upd [OF finite_deposits, of kv a False] assms(1) by simp
  moreover have "{x. ((\<lambda>x. depositee_get kv x \<noteq> None)(a := False)) x} = {x. depositee_get kv' x \<noteq> None}"
    by (auto simp: assms(2))
  ultimately show "card {x. depositee_get kv' x \<noteq> None} + 1 = card {x. depositee_get kv x \<noteq> None}" by simp
  show "gone_deposits kv kv' = {a}" using assms(1) by (auto simp: gone_deposits_def assms(2) split: if_splits)
qed

lemma hit_step:
  assumes inv: "circuit_inv (wk_sdk K) (kv_of ctx)" and dep: "depositee_get (kv_of ctx) a = Some u" and exp: "unat u \<le> now"
    and mx: "0 < mx"
    and run: "prune_address K a mx (deleteCircuitDepositExpiry u a (depositee_remove a ctx)) = (n, ctx')"
  shows "gc_step (wk_sdk K) now al (nat n) 1 (kv_of ctx) (kv_of ctx')" and "gc_measure (kv_of ctx') < gc_measure (kv_of ctx)"
    and "0 \<le> n" and "n \<le> mx" and "depositee_get (kv_of ctx') = (depositee_get (kv_of ctx))(a := None)"
proof -
  let ?c = "deleteCircuitDepositExpiry u a (depositee_remove a ctx)"
  note H = hit_drop [OF inv dep] and D = kv_drop_deposit_proj [where u = u and a = a and kv = "kv_of ctx"]
  have "circuit_inv (wk_sdk K) (kv_of ?c)" unfolding H(1) by (rule kv_drop_deposit_inv [OF inv dep])
  moreover have "depositee_get (kv_of ?c) a = None" by (simp add: H(1) D)
  ultimately have P: "0 \<le> n" "n \<le> mx" "circuit_inv (wk_sdk K) (kv_of ctx')"
    "depositee_get (kv_of ctx') = (depositee_get (kv_of ctx))(a := None)" "WasmGetParams (kv_of ctx') = WasmGetParams (kv_of ctx)"
    "\<And>i. GetCircuitInfo (kv_of ctx') i = GetCircuitInfo (kv_of ctx) i \<and>
         kv_get (kv_of ctx') (GetCircuitBytesKey i) = kv_get (kv_of ctx) (GetCircuitBytesKey i) \<or>
         GetCircuitInfo (kv_of ctx') i = None \<and> creator_of (wk_sdk K) (kv_of ctx) i = Some a"
    "marked (kv_of ctx') = (marked (kv_of ctx))(a := \<exists>i. creator_of (wk_sdk K) (kv_of ctx') i = Some a)"
    "int (card (gone_circuits (kv_of ctx) (kv_of ctx'))) = n" "n = 0 \<Longrightarrow> \<not> marked (kv_of ctx') a"
    using prune_address_effect [OF _ H(3) _ mx run] by (simp_all add: H(1) D gone_circuits_def)
  have circs: "card {i. GetCircuitInfo (kv_of ctx') i \<noteq> None} + nat n = card {i. GetCircuitInfo (kv_of ctx) i \<noteq> None}"
    using card_remaining_circuits [of "kv_of ctx'" "kv_of ctx"] P(6,8) by (metis nat_int)
  have marks: "card {x. marked (kv_of ctx') x} = card {x. marked (kv_of ctx) x} + (if marked (kv_of ctx') a then 1 else 0)"
    using card_fun_upd [OF finite_marked, of "kv_of ctx" a "marked (kv_of ctx') a"] H(2) P(7) by (simp add: fun_upd_def)
  show less: "gc_measure (kv_of ctx') < gc_measure (kv_of ctx)"
    using circs marks P(1,9) card_deposits_upd(1) [OF dep P(4)] unfolding gc_measure_def by (cases "n = 0") (auto split: if_splits)
  have due: "due (wk_sdk K) now (kv_of ctx') x" if "due (wk_sdk K) now (kv_of ctx) x" for x
  proof (cases "x = a")
    case True
    then show ?thesis by (auto simp: due_def P(7))
  next
    case False
    have "creator_of (wk_sdk K) (kv_of ctx) i = Some x" if "creator_of (wk_sdk K) (kv_of ctx') i = Some x" for i
      using P(6) [of i] creator_of_info [OF that] that by (auto simp: creator_of_def)
    then show ?thesis using \<open>due _ _ _ x\<close> False by (auto simp: due_def expired_def P(4,7))
  qed
  show "gc_step (wk_sdk K) now al (nat n) 1 (kv_of ctx) (kv_of ctx')"
  proof (rule gc_stepI [where x = a])
    show "card (gone_circuits (kv_of ctx) (kv_of ctx')) \<le> nat n" using P(8) by simp
    show "card (gone_deposits (kv_of ctx) (kv_of ctx')) \<le> 1" by (simp add: card_deposits_upd(2) [OF dep P(4)])
    show "x = a \<or> marked (kv_of ctx) x" if "marked (kv_of ctx') x" for x using that by (simp add: P(7) split: if_splits)
    show "marked (kv_of ctx) a \<or> expired now (kv_of ctx) a" using dep exp by (simp add: expired_def)
    show "depositee_get (kv_of ctx') x = depositee_get (kv_of ctx) x \<or> depositee_get (kv_of ctx') x = None \<and> expired now (kv_of ctx) x" for x
      using dep exp by (simp add: P(4) expired_def)
  qed (use P(3,5,6) due less in simp_all)
  show "0 \<le> n" "n \<le> mx" "depositee_get (kv_of ctx') = (depositee_get (kv_of ctx))(a := None)" by (fact P(1,2,4))+
qed

lemma hit_allowed_step:
  assumes inv: "circuit_inv (wk_sdk K) (kv_of ctx)" and dep: "depositee_get (kv_of ctx) a = Some u" and exp: "unat u \<le> now"
    and al: "al a" and ctx': "ctx' = deleteCircuitDepositGC a (deleteCircuitDepositExpiry u a (depositee_remove a ctx))"
  shows "gc_step (wk_sdk K) now al 0 1 (kv_of ctx) (kv_of ctx')" and "gc_measure (kv_of ctx') < gc_measure (kv_of ctx)"
    and "depositee_get (kv_of ctx') = (depositee_get (kv_of ctx))(a := None)"
proof -
  note H = hit_drop [OF inv dep] and D = kv_drop_deposit_proj [where u = u and a = a and kv = "kv_of ctx"]
  have kv: "kv_of ctx' = kv_mark False a (kv_drop_deposit u a (kv_of ctx))"
    using H(1) by (simp add: ctx' deleteCircuitDepositGC_def kv_mark_def)
  have inv': "circuit_inv (wk_sdk K) (kv_of ctx')"
    unfolding kv by (rule kv_mark_inv [OF kv_drop_deposit_inv [OF inv dep] H(3)]) (simp add: D)
  show dep': "depositee_get (kv_of ctx') = (depositee_get (kv_of ctx))(a := None)" by (simp add: kv kv_mark_proj D)
  have marks: "marked (kv_of ctx') = marked (kv_of ctx)"
    using H(2) by (simp add: kv kv_mark_marked [OF H(3)] D fun_upd_idem)
  have circs: "GetCircuitInfo (kv_of ctx') = GetCircuitInfo (kv_of ctx)" "creator_of (wk_sdk K) (kv_of ctx') = creator_of (wk_sdk K) (kv_of ctx)"
    by (simp_all add: kv kv_mark_proj D)
  show less: "gc_measure (kv_of ctx') < gc_measure (kv_of ctx)"
    using card_deposits_upd(1) [OF dep dep'] by (simp add: gc_measure_def circs marks)
  show "gc_step (wk_sdk K) now al 0 1 (kv_of ctx) (kv_of ctx')"
  proof (rule gc_stepI [where x = a])
    show "card (gone_circuits (kv_of ctx) (kv_of ctx')) \<le> 0" by (auto simp: gone_circuits_def circs card_eq_0_iff)
    show "card (gone_deposits (kv_of ctx) (kv_of ctx')) \<le> 1" by (simp add: card_deposits_upd(2) [OF dep dep'])
    show "marked (kv_of ctx) a \<or> expired now (kv_of ctx) a" using dep exp by (simp add: expired_def)
    show "depositee_get (kv_of ctx') x = depositee_get (kv_of ctx) x \<or> depositee_get (kv_of ctx') x = None \<and> expired now (kv_of ctx) x" for x
      using dep exp by (simp add: dep' expired_def)
    show "due (wk_sdk K) now (kv_of ctx') x" if "\<not> al x" "due (wk_sdk K) now (kv_of ctx) x" for x
      using that al by (auto simp: due_def expired_def dep' marks circs)
  qed (use inv' less marks in \<open>simp_all add: circs\<close>, simp_all add: kv kv_mark_proj D)
qed


section \<open>What the iterators find\<close>

lemma map_filter_keys: "List.map_filter (\<lambda>e. f (fst e)) xs = List.map_filter f (map fst xs)"
  by (induction xs) (simp_all add: List.map_filter_simps split: option.splits)

lemma set_map_filter_some: "set (List.map_filter f xs) = {y. \<exists>x \<in> set xs. f x = Some y}"
  by (induction xs) (auto simp: List.map_filter_simps split: option.splits)

lemma distinct_map_filter:
  assumes "distinct xs" and "\<And>x y z. x \<in> set xs \<Longrightarrow> y \<in> set xs \<Longrightarrow> f x = Some z \<Longrightarrow> f y = Some z \<Longrightarrow> x = y"
  shows "distinct (List.map_filter f xs)"
  using assms
proof (induction xs)
  case (Cons x xs)
  have d: "distinct (List.map_filter f xs)" using Cons.prems by (intro Cons.IH) (simp, meson list.set_intros(2))
  have "z \<notin> set (List.map_filter f xs)" if "f x = Some z" for z
  proof
    assume "z \<in> set (List.map_filter f xs)"
    then obtain y where y: "y \<in> set xs" "f y = Some z" by (auto simp: set_map_filter_some)
    then have "x = y" using Cons.prems(2) [of x y z] that by simp
    then show False using y Cons.prems(1) by simp
  qed
  with d show ?case by (simp add: List.map_filter_simps split: option.splits)
qed (simp add: List.map_filter_simps)

lemma append_less_same_length:
  assumes "length xs = length ys"
  shows "xs @ s < ys @ t \<longleftrightarrow> xs < ys \<or> xs = ys \<and> s < (t :: string)"
  using assms by (induction xs ys rule: list_induct2) auto

lemma be_bytes_less:
  assumes "a < 256 ^ n" and "b < 256 ^ n"
  shows "be_bytes n a @ s < be_bytes n b \<longleftrightarrow> a < b"
  using assms
proof (induction n arbitrary: a b s)
  case (Suc n)
  have d: "a div 256 < 256 ^ n" "b div 256 < 256 ^ n" using Suc.prems by (simp_all add: less_mult_imp_div_less mult.commute)
  have "be_bytes n (a div 256) < be_bytes n (b div 256) \<longleftrightarrow> a div 256 < b div 256" using Suc.IH [OF d, of "[]"] by simp
  moreover have "(char_of (a mod 256) :: char) < char_of (b mod 256) \<longleftrightarrow> a mod 256 < b mod 256"
    by (simp add: less_char_def)
  moreover have "(char_of (a mod 256) :: char) = char_of (b mod 256) \<longleftrightarrow> a mod 256 = b mod 256"
    by (metis of_char_of mod_mod_trivial)
  moreover have "a < b \<longleftrightarrow> a div 256 < b div 256 \<or> a div 256 = b div 256 \<and> a mod 256 < b mod 256"
    by (cases "a div 256" "b div 256" rule: linorder_cases)
      (use div_mult_mod_eq [of a 256] div_mult_mod_eq [of b 256] mod_less_divisor [of 256 a] mod_less_divisor [of 256 b] in linarith)+
  ultimately show ?case by (simp add: append_less_same_length be_bytes_inj [OF d])
qed simp

lemma Uint64ToBigEndian_less: "Uint64ToBigEndian u @ s < Uint64ToBigEndian v \<longleftrightarrow> u < v"
  unfolding Uint64ToBigEndian_def word_less_nat_alt by (rule be_bytes_less [OF unat_u64_bound unat_u64_bound])

lemma scan_keys: "kv_wf kv \<Longrightarrow> k \<in> fst ` set (kv_scan [c] kv) \<longleftrightarrow> kv_has kv (c # k)"
  using kvs.scan_keys_iff [of kv k "[c]"] by (simp add: kv_has_def)

lemma gc_pending_marked:
  assumes inv: "circuit_inv S kv"
  shows "distinct (gc_pending kv)" and "a \<in> set (gc_pending kv) \<longleftrightarrow> marked kv a"
proof -
  note wf = circuit_invD(1) [OF inv]
  have eq: "gc_pending kv = List.map_filter ParseCircuitDepositGCKey (map fst (kv_scan [CHR 0x1C] kv))"
    by (simp add: gc_pending_def map_filter_keys)
  have key: "\<exists>b. addr_ok b \<and> k = GetCircuitDepositGCKey b" if "k \<in> set (map fst (kv_scan [CHR 0x1C] kv))" for k
    using circuit_invD(4) [OF inv, of k] that scan_keys [OF wf, of k "CHR 0x1C"] by auto
  show "distinct (gc_pending kv)"
    unfolding eq by (rule distinct_map_filter [OF kvs.scan_keys_distinct [OF wf]]) (metis key parse_gc_key option.inject)
  have "a \<in> set (gc_pending kv) \<longleftrightarrow> (\<exists>k. kv_has kv (CHR 0x1C # k) \<and> ParseCircuitDepositGCKey k = Some a)"
    unfolding eq set_map_filter_some by (auto simp: Bex_def simp flip: scan_keys [OF wf])
  also have "\<dots> \<longleftrightarrow> marked kv a"
    unfolding marked_def using circuit_invD(4) [OF inv] parse_gc_key by (metis option.inject)
  finally show "a \<in> set (gc_pending kv) \<longleftrightarrow> marked kv a" .
qed

lemma expired_hits_expired:
  assumes inv: "circuit_inv S kv" and now: "unat now < 2 ^ 63"
  shows "distinct (map snd (expired_hits kv now dl))"
    and "(u, a) \<in> set (expired_hits kv now dl) \<Longrightarrow> depositee_get kv a = Some u \<and> unat u \<le> unat now"
    and "0 < dl \<Longrightarrow> expired (unat now) kv a \<Longrightarrow> expired_hits kv now dl \<noteq> []"
proof -
  note wf = circuit_invD(1) [OF inv]
  let ?ks = "filter (\<lambda>k. k < Uint64ToBigEndian (now + 1)) (map fst (kv_scan [CHR 0x1B] kv))"
  let ?all = "List.map_filter ParseCircuitDepositExpiryKey ?ks"
  have eq: "expired_hits kv now dl = take (nat dl) ?all"
    by (simp add: expired_hits_def map_filter_keys filter_map comp_def)
  have "unat (now + 1) = unat now + 1" using now by (simp add: unat_plus_if')
  then have le: "u < now + 1 \<longleftrightarrow> unat u \<le> unat now" for u by (simp add: word_less_nat_alt less_Suc_eq_le)
  have ks: "k \<in> set ?ks \<longleftrightarrow> (\<exists>b v. addr_ok b \<and> depositee_get kv b = Some v \<and> unat v \<le> unat now \<and> k = GetCircuitDepositExpiryKey v b)" for k
  proof -
    have lt: "GetCircuitDepositExpiryKey v b < Uint64ToBigEndian (now + 1) \<longleftrightarrow> unat v \<le> unat now" for v b
      by (simp add: GetCircuitDepositExpiryKey_def Uint64ToBigEndian_less le)
    have "k \<in> set ?ks \<longleftrightarrow> kv_has kv (CHR 0x1B # k) \<and> k < Uint64ToBigEndian (now + 1)"
      using scan_keys [OF wf, of k "CHR 0x1B"] by auto
    then show ?thesis unfolding circuit_invD(3) [OF inv] using lt by metis
  qed
  have all: "(v, b) \<in> set ?all \<longleftrightarrow> depositee_get kv b = Some v \<and> unat v \<le> unat now" for v b
  proof -
    have "(v, b) \<in> set ?all \<longleftrightarrow> (\<exists>k. k \<in> set ?ks \<and> ParseCircuitDepositExpiryKey k = Some (v, b))"
      by (auto simp: set_map_filter_some)
    also have "\<dots> \<longleftrightarrow> depositee_get kv b = Some v \<and> unat v \<le> unat now"
      unfolding ks using depositee_addr_ok [OF inv] parse_expiry_key by (metis option.inject prod.inject)
    finally show ?thesis .
  qed
  have "distinct ?all"
    by (rule distinct_map_filter) (use kvs.scan_keys_distinct [OF wf] in simp, metis ks parse_expiry_key option.inject prod.inject)
  moreover have "inj_on snd (set ?all)" by (rule inj_onI) (use all in fastforce)
  ultimately have "distinct (map snd ?all)" by (simp add: distinct_map)
  then show "distinct (map snd (expired_hits kv now dl))" unfolding eq by (metis distinct_take take_map)
  show "depositee_get kv a = Some u \<and> unat u \<le> unat now" if "(u, a) \<in> set (expired_hits kv now dl)"
    using that all unfolding eq by (meson in_set_takeD)
  show "expired_hits kv now dl \<noteq> []" if dl: "0 < dl" and e: "expired (unat now) kv a"
  proof -
    obtain v where "(v, a) \<in> set ?all" using e unfolding all expired_def by blast
    then have "?all \<noteq> []" by (metis empty_iff empty_set)
    then show ?thesis unfolding eq take_eq_Nil using dl by simp
  qed
qed

section \<open>The two loops\<close>

lemma prune_pending_step:
  assumes "circuit_inv (wk_sdk K) (kv_of ctx)" and "distinct as" and "\<forall>a \<in> set as. marked (kv_of ctx) a"
    and "0 \<le> dl" and "0 \<le> cl" and "prune_pending K as dl cl ctx = (r, ctx')"
  shows "\<exists>c. gc_step (wk_sdk K) now al c 0 (kv_of ctx) (kv_of ctx') \<and> int c \<le> cl \<and>
           (\<forall>dl' cl'. r = Some (dl', cl') \<longrightarrow> dl' = dl - int (length as) \<and> 0 \<le> dl' \<and> cl' = cl - int c) \<and>
           (as \<noteq> [] \<longrightarrow> 0 < dl \<longrightarrow> 0 < cl \<longrightarrow> gc_measure (kv_of ctx') < gc_measure (kv_of ctx))"
  using assms
proof (induction K as dl cl ctx rule: prune_pending.induct)
  case (1 K dl cl ctx)
  then show ?case using gc_step_refl [OF "1.prems"(1)] by (intro exI [of _ 0]) auto
next
  case (2 K addr as dl cl ctx)
  show ?case
  proof (cases "dl = 0 \<or> cl = 0")
    case True
    with 2 show ?thesis using gc_step_refl [OF "2.prems"(1)] by (intro exI [of _ 0]) auto
  next
    case False
    obtain n ctx1 where p: "prune_address K addr cl ctx = (n, ctx1)" by fastforce
    have pos: "0 < cl" using False "2.prems"(5) by simp
    have mark: "marked (kv_of ctx) addr" using "2.prems"(3) by simp
    note S = pending_step [OF "2.prems"(1) mark pos p]
    have "prune_pending K as (dl - 1) (cl - n) ctx1 = (r, ctx')" using "2.prems"(6) False p by simp
    then obtain c where c: "gc_step (wk_sdk K) now al c 0 (kv_of ctx1) (kv_of ctx')" "int c \<le> cl - n"
      "\<forall>dl' cl'. r = Some (dl', cl') \<longrightarrow> dl' = dl - 1 - int (length as) \<and> 0 \<le> dl' \<and> cl' = cl - n - int c"
      using "2.IH" [OF False p [symmetric] refl gc_stepD(1) [OF S(1)]] "2.prems"(2-5) False S(3-5) by fastforce
    have "gc_step (wk_sdk K) now al (nat n + c) 0 (kv_of ctx) (kv_of ctx')" using gc_step_trans [OF S(1) c(1)] by simp
    moreover have "gc_measure (kv_of ctx') < gc_measure (kv_of ctx)" using S(2) gc_stepD(9) [OF c(1)] by (rule le_less_trans [rotated])
    moreover have "int (nat n + c) = n + int c" using S(3) by simp
    ultimately show ?thesis using c(2,3) by (intro exI [of _ "nat n + c"]) auto
  qed
qed

definition circuit_allowed :: "'w sdk \<Rightarrow> wasm_val kv \<Rightarrow> string \<Rightarrow> bool" where
  "circuit_allowed S kv a =
     (\<exists>p. WasmGetParams kv = Inr p \<and> Allowed S (getCircuitUploadAccessConfig p) a = Inr True)"

lemma prune_hits_step:
  assumes "circuit_inv (wk_sdk K) (kv_of ctx)" and "unat now < 2 ^ 63" and "distinct (map snd hs)"
    and "\<forall>h \<in> set hs. depositee_get (kv_of ctx) (snd h) = Some (fst h) \<and> unat (fst h) \<le> unat now"
    and "0 \<le> dl" and "0 \<le> cl" and "al = circuit_allowed (wk_sdk K) (kv_of ctx)" and "prune_hits K now hs dl cl ctx = (Inr (), ctx')"
  shows "\<exists>c d. gc_step (wk_sdk K) (unat now) al c d (kv_of ctx) (kv_of ctx') \<and> int c \<le> cl \<and> int d \<le> dl \<and>
           (hs \<noteq> [] \<longrightarrow> 0 < dl \<longrightarrow> 0 < cl \<longrightarrow> gc_measure (kv_of ctx') < gc_measure (kv_of ctx))"
  using assms
proof (induction hs arbitrary: dl cl ctx)
  case Nil
  then show ?case using gc_step_refl [OF Nil.prems(1)] by (intro exI [of _ 0]) auto
next
  case (Cons h hs)
  obtain u a where h: "h = (u, a)" by fastforce
  let ?ctx = "deleteCircuitDepositExpiry u a (depositee_remove a ctx)"
  show ?case
  proof (cases "dl = 0 \<or> cl = 0")
    case True
    with Cons.prems(5,6,8) show ?thesis using gc_step_refl [OF Cons.prems(1)] by (intro exI [of _ 0]) auto
  next
    case False
    have dep: "depositee_get (kv_of ctx) a = Some u" and le: "unat u \<le> unat now" using Cons.prems(4) h by auto
    have "\<not> sint now < sint u" using le Cons.prems(2) sint_of_nat_small [of u] sint_of_nat_small [of now] by linarith
    moreover have "WasmGetParams (kv_of ?ctx) = WasmGetParams (kv_of ctx)"
      using hit_drop(1) [OF Cons.prems(1) dep] kv_drop_deposit_proj(6) by metis
    ultimately have run: "(case WasmGetParams (kv_of ctx) of Inl e \<Rightarrow> (Inl e, ?ctx)
        | Inr params \<Rightarrow> (case Allowed (wk_sdk K) (getCircuitUploadAccessConfig params) a of
            Inl e \<Rightarrow> (Inl e, ?ctx)
          | Inr True \<Rightarrow> prune_hits K now hs (dl - 1) cl (deleteCircuitDepositGC a ?ctx)
          | Inr False \<Rightarrow> (let (n, ctx) = prune_address K a cl ?ctx in prune_hits K now hs (dl - 1) (cl - n) ctx))) = (Inr (), ctx')"
      using Cons.prems(8) False dep unfolding h prune_hits.simps snd_conv fst_conv Let_def by simp
    obtain n ctx1 where S: "gc_step (wk_sdk K) (unat now) al (nat n) 1 (kv_of ctx) (kv_of ctx1)"
      "gc_measure (kv_of ctx1) < gc_measure (kv_of ctx)" "0 \<le> n" "n \<le> cl"
      "depositee_get (kv_of ctx1) = (depositee_get (kv_of ctx))(a := None)"
      and rest: "prune_hits K now hs (dl - 1) (cl - n) ctx1 = (Inr (), ctx')"
    proof (cases "circuit_allowed (wk_sdk K) (kv_of ctx) a")
      case True
      then have al: "al a" by (simp add: Cons.prems(7))
      have "prune_hits K now hs (dl - 1) (cl - 0) (deleteCircuitDepositGC a ?ctx) = (Inr (), ctx')"
        using True run by (auto simp: circuit_allowed_def)
      moreover have "gc_step (wk_sdk K) (unat now) al (nat 0) 1 (kv_of ctx) (kv_of (deleteCircuitDepositGC a ?ctx))"
        using hit_allowed_step(1) [OF Cons.prems(1) dep le, where al = al, OF al refl] by simp
      ultimately show ?thesis
        using that hit_allowed_step(2,3) [OF Cons.prems(1) dep le, where al = al, OF al refl] Cons.prems(6) by blast
    next
      case nal: False
      obtain n ctx1 where p: "prune_address K a cl ?ctx = (n, ctx1)" by fastforce
      have "0 < cl" using False Cons.prems(6) by simp
      note H = hit_step [OF Cons.prems(1) dep le this p]
      have "prune_hits K now hs (dl - 1) (cl - n) ctx1 = (Inr (), ctx')"
        using nal run p by (auto simp: circuit_allowed_def split: sum.splits bool.splits)
      then show ?thesis using that H by blast
    qed
    have al: "al = circuit_allowed (wk_sdk K) (kv_of ctx1)"
      by (simp add: Cons.prems(7) fun_eq_iff circuit_allowed_def gc_stepD(2) [OF S(1)])
    have d: "a \<notin> snd ` set hs" "distinct (map snd hs)" using Cons.prems(3) h by auto
    have "\<forall>h \<in> set hs. depositee_get (kv_of ctx1) (snd h) = Some (fst h) \<and> unat (fst h) \<le> unat now"
      using Cons.prems(4) d(1) by (auto simp: S(5))
    then obtain c d' where c: "gc_step (wk_sdk K) (unat now) al c d' (kv_of ctx1) (kv_of ctx')" "int c \<le> cl - n" "int d' \<le> dl - 1"
      using Cons.IH [OF gc_stepD(1) [OF S(1)] Cons.prems(2) d(2) _ _ _ al rest] Cons.prems(5,6) False S(3,4) by fastforce
    have "gc_measure (kv_of ctx') < gc_measure (kv_of ctx)" using S(2) gc_stepD(9) [OF c(1)] by (rule le_less_trans [rotated])
    then show ?thesis using gc_step_trans [OF S(1) c(1)] c(2,3) S(3) by (intro exI [of _ "nat n + c"] exI [of _ "1 + d'"]) auto
  qed
qed

section \<open>The collector and the end of a block\<close>

lemma block_now_bounds: "0 \<le> block_now E" "block_now E < 2 ^ 63"
  using sint_less [of "BlockTimeUnix E"] by (simp_all add: block_now_def)

lemma unat_block_now: "unat (of_int (block_now E) :: u64) = nat (block_now E)" "nat (block_now E) < 2 ^ 63"
proof -
  have "uint (of_int (block_now E) :: u64) = block_now E"
    using block_now_bounds [of E] by (simp add: uint_word_of_int_eq take_bit_int_eq_self)
  then show "unat (of_int (block_now E) :: u64) = nat (block_now E)" by (simp only: unat_eq_nat_uint)
  show "nat (block_now E) < 2 ^ 63" using block_now_bounds [of E] by (simp add: nat_less_iff)
qed

lemma prune_expired_step:
  assumes inv: "circuit_inv (wk_sdk K) (kv_of ctx)" and run: "PruneExpiredCircuitDeposits K E ctx = (Inr (), ctx')"
  shows "gc_step (wk_sdk K) (nat (block_now E)) (circuit_allowed (wk_sdk K) (kv_of ctx)) 2 8 (kv_of ctx) (kv_of ctx')"
    and "marked (kv_of ctx) a \<or> expired (nat (block_now E)) (kv_of ctx) a \<Longrightarrow> gc_measure (kv_of ctx') < gc_measure (kv_of ctx)"
proof -
  let ?al = "circuit_allowed (wk_sdk K) (kv_of ctx)" and ?now = "of_int (block_now E) :: u64"
  note now = unat_block_now [of E]
  let ?as = "gc_pending (kv_of ctx)"
  obtain r ctx1 where p: "prune_pending K ?as 8 2 ctx = (r, ctx1)" by fastforce
  obtain c where c: "gc_step (wk_sdk K) (nat (block_now E)) ?al c 0 (kv_of ctx) (kv_of ctx1)" "int c \<le> 2"
    "\<forall>dl' cl'. r = Some (dl', cl') \<longrightarrow> dl' = 8 - int (length ?as) \<and> 0 \<le> dl' \<and> cl' = 2 - int c"
    "?as \<noteq> [] \<longrightarrow> gc_measure (kv_of ctx1) < gc_measure (kv_of ctx)"
    using prune_pending_step [OF inv gc_pending_marked(1) [OF inv] _ _ _ p] gc_pending_marked(2) [OF inv] by fastforce
  have "gc_step (wk_sdk K) (nat (block_now E)) ?al 2 8 (kv_of ctx) (kv_of ctx') \<and>
    (marked (kv_of ctx) a \<or> expired (nat (block_now E)) (kv_of ctx) a \<longrightarrow> gc_measure (kv_of ctx') < gc_measure (kv_of ctx))"
  proof (cases r)
    case None
    then have "ctx' = ctx1" "?as \<noteq> []" using run p by (auto simp: PruneExpiredCircuitDeposits_def)
    then show ?thesis using gc_step_mono [OF c(1)] c(2,4) by simp
  next
    case (Some lr)
    then obtain dl cl where lr: "r = Some (dl, cl)" by (cases lr) simp
    have hits: "prune_hits K ?now (expired_hits (kv_of ctx1) ?now dl) dl cl ctx1 = (Inr (), ctx')"
      using run p lr by (simp add: PruneExpiredCircuitDeposits_def Let_def)
    note inv1 = gc_stepD(1) [OF c(1)]
    have al: "?al = circuit_allowed (wk_sdk K) (kv_of ctx1)"
      by (simp add: fun_eq_iff circuit_allowed_def gc_stepD(2) [OF c(1)])
    have lim: "0 \<le> dl" "0 \<le> cl" "cl = 2 - int c" "dl \<le> 8" using c(2,3) lr by auto
    have small: "unat ?now < 2 ^ 63" using now by simp
    have "\<forall>h \<in> set (expired_hits (kv_of ctx1) ?now dl). depositee_get (kv_of ctx1) (snd h) = Some (fst h) \<and> unat (fst h) \<le> unat ?now"
      using expired_hits_expired(2) [OF inv1 small] by fastforce
    then obtain c' d' where h: "gc_step (wk_sdk K) (nat (block_now E)) ?al c' d' (kv_of ctx1) (kv_of ctx')" "int c' \<le> cl" "int d' \<le> dl"
      "expired_hits (kv_of ctx1) ?now dl \<noteq> [] \<longrightarrow> 0 < dl \<longrightarrow> 0 < cl \<longrightarrow> gc_measure (kv_of ctx') < gc_measure (kv_of ctx1)"
      using prune_hits_step [OF inv1 small expired_hits_expired(1) [OF inv1 small] _ lim(1,2) al hits] unfolding now(1) by blast
    have "gc_measure (kv_of ctx') < gc_measure (kv_of ctx)" if "marked (kv_of ctx) a \<or> expired (nat (block_now E)) (kv_of ctx) a"
    proof (cases "?as = []")
      case True
      then have "ctx1 = ctx" "dl = 8" "cl = 2" using p lr by auto
      moreover have "expired (unat ?now) (kv_of ctx) a" using that gc_pending_marked(2) [OF inv, of a] True now(1) by simp
      ultimately show ?thesis using h(4) expired_hits_expired(3) [OF inv1 small, of 8 a] by simp
    next
      case False
      then show ?thesis using c(4) gc_stepD(9) [OF h(1)] by simp
    qed
    moreover have "gc_step (wk_sdk K) (nat (block_now E)) ?al 2 8 (kv_of ctx) (kv_of ctx')"
      by (rule gc_step_mono [OF gc_step_trans [OF c(1) h(1)]]) (use h(2,3) lim in linarith)+
    ultimately show ?thesis by blast
  qed
  then show "gc_step (wk_sdk K) (nat (block_now E)) ?al 2 8 (kv_of ctx) (kv_of ctx')"
    and "marked (kv_of ctx) a \<or> expired (nat (block_now E)) (kv_of ctx) a \<Longrightarrow> gc_measure (kv_of ctx') < gc_measure (kv_of ctx)" by blast+
qed


text \<open>A settlement and the tick of the epoch write nothing the collector reads.\<close>

lemma settle_loop_kv: "kv_of (snd (settle_loop K bal ws vws paid n ctx)) = kv_of ctx"
proof (induction vws arbitrary: paid n ctx)
  case (Cons vw vws)
  show ?case
  proof (cases "ValAddressFromBech32 K (OperatorAddress (fst vw))")
    case (Inr op)
    show ?thesis
    proof (cases "settle_share (wk_coins K) (snd vw) ws bal []")
      case share: (Inr share)
      obtain r ctx1 where send: "on_world (SendCoinsFromModuleToAccount (wk_sdk K) ''circuit_val_pool'' op share) ctx = (r, ctx1)"
        by fastforce
      then have "kv_of ctx1 = kv_of ctx" using kv_of_simps(4) by (metis snd_conv)
      then show ?thesis using Cons Inr share send by (auto split: sum.splits error.splits)
    qed (use Cons Inr in auto)
  qed (use Cons in auto)
qed simp

lemma settle_kv: "kv_of (snd (settleCircuitValPool K i n ctx)) = kv_of ctx"
proof -
  have "kv_of (snd (bindR (settle_loop K bal ws vws paid e ctx) (\<lambda>(paid, e) ctx. (Inr (),
      if paid \<noteq> [] \<or> 0 < e then payout_event i n e ws (CoinsString K paid) ctx else ctx)))) = kv_of ctx" for bal ws vws paid e
    using settle_loop_kv [of K bal ws vws paid e ctx] by (auto simp: bindR_def payout_event_def split: prod.splits sum.splits)
  then show ?thesis by (auto simp: settleCircuitValPool_def Let_def payout_event_def split: option.splits sum.splits)
qed

lemma tick_kv:
  "kv_of (snd (TickCircuitEpoch K E ctx)) = kv_of ctx \<or>
   (\<exists>info. kv_of (snd (TickCircuitEpoch K E ctx)) = kv_set [CHR 0x1E] (EpochVal info) (kv_of ctx))"
proof -
  have "kv_of (snd (bindR (AfterEpochEnd K i n ctx) (\<lambda>_ ctx. (Inr (), setCircuitEpochInfo info ctx)))) = kv_of ctx \<or>
     kv_of (snd (bindR (AfterEpochEnd K i n ctx) (\<lambda>_ ctx. (Inr (), setCircuitEpochInfo info ctx)))) = kv_set [CHR 0x1E] (EpochVal info) (kv_of ctx)"
    for i n info
    using settle_kv [of K i n ctx] by (auto simp: AfterEpochEnd_def bindR_def setCircuitEpochInfo_def split: prod.splits sum.splits)
  then show ?thesis
    by (auto simp: TickCircuitEpoch_def Let_def DistributeCircuitValPool_def settle_kv setCircuitEpochInfo_def split: option.splits)
qed

lemma epoch_step:
  assumes "circuit_inv S kv"
  shows "gc_step S now al 0 0 kv (kv_set [CHR 0x1E] (EpochVal info) kv)"
proof -
  let ?kv = "kv_set [CHR 0x1E] (EpochVal info) kv"
  have get: "kv_get ?kv k = kv_get kv k" if "k \<noteq> [CHR 0x1E]" for k using that by (simp add: kv_simps)
  have gc: "kv_get ?kv k = kv_get kv k" if "gc_key k" for k
    using that by (intro get) (auto simp: gc_key_def KeySequenceCircuitID_def)
  note same = same_gc_keys [of ?kv kv, OF gc]
  have "circuit_inv S ?kv" by (rule circuit_inv_cong [OF assms kv_wf_set [OF circuit_invD(1) [OF assms]] gc])
  moreover have "WasmGetParams ?kv = WasmGetParams kv" "\<And>i. kv_get ?kv (GetCircuitBytesKey i) = kv_get kv (GetCircuitBytesKey i)"
    by (simp_all add: WasmGetParams_def get GetCircuitBytesKey_def)
  moreover have "gone_circuits kv ?kv = {}" "gone_deposits kv ?kv = {}" by (auto simp: gone_circuits_def gone_deposits_def same)
  ultimately show ?thesis by (simp add: gc_step_def same due_def expired_def gc_measure_def)
qed

lemma end_block_step:
  assumes inv: "circuit_inv (wk_sdk K) (kv_of ctx)" and run: "wasm_EndBlock K E ctx = (Inr (), ctx')"
  shows "gc_step (wk_sdk K) (nat (block_now E)) (circuit_allowed (wk_sdk K) (kv_of ctx)) 2 8 (kv_of ctx) (kv_of ctx')"
    and "marked (kv_of ctx) a \<or> expired (nat (block_now E)) (kv_of ctx) a \<Longrightarrow> gc_measure (kv_of ctx') < gc_measure (kv_of ctx)"
proof -
  let ?now = "nat (block_now E)" and ?al = "circuit_allowed (wk_sdk K) (kv_of ctx)"
  obtain ctx1 where t: "TickCircuitEpoch K E ctx = (Inr (), ctx1)" and p: "PruneExpiredCircuitDeposits K E ctx1 = (Inr (), ctx')"
    using run unfolding wasm_EndBlock_def by (auto simp: bindR_ok)
  have "kv_of ctx1 = kv_of ctx \<or> (\<exists>info. kv_of ctx1 = kv_set [CHR 0x1E] (EpochVal info) (kv_of ctx))"
    using tick_kv [of K E ctx] t by simp
  then consider "kv_of ctx1 = kv_of ctx" | info where "kv_of ctx1 = kv_set [CHR 0x1E] (EpochVal info) (kv_of ctx)" by blast
  then have s: "gc_step (wk_sdk K) ?now ?al 0 0 (kv_of ctx) (kv_of ctx1)"
    by cases (use gc_step_refl [OF inv] epoch_step [OF inv] in simp_all)
  have same: "marked (kv_of ctx1) = marked (kv_of ctx)" "depositee_get (kv_of ctx1) = depositee_get (kv_of ctx)"
    using \<open>kv_of ctx1 = _ \<or> _\<close>
    by (auto simp: fun_eq_iff marked_def kv_has_def depositee_get_def raw_value_def kv_simps)
  have "?al = circuit_allowed (wk_sdk K) (kv_of ctx1)"
    by (simp add: fun_eq_iff circuit_allowed_def gc_stepD(2) [OF s])
  then show "gc_step (wk_sdk K) ?now ?al 2 8 (kv_of ctx) (kv_of ctx')"
    using gc_step_trans [OF s] prune_expired_step(1) [OF gc_stepD(1) [OF s] p] by (metis add_0)
  show "gc_measure (kv_of ctx') < gc_measure (kv_of ctx)" if "marked (kv_of ctx) a \<or> expired ?now (kv_of ctx) a"
    using that prune_expired_step(2) [OF gc_stepD(1) [OF s] p, of a] gc_stepD(9) [OF s] by (simp add: same expired_def)
qed

text \<open>When a run does not fail: the parameters are there and their permission is a known one.\<close>

definition upload_access_known :: "wasm_val kv \<Rightarrow> bool" where
  "upload_access_known kv \<longleftrightarrow>
     (\<exists>p. WasmGetParams kv = Inr p \<and>
        Permission (getCircuitUploadAccessConfig p) \<in> {AccessTypeNobody, AccessTypeEverybody, AccessTypeAnyOfAddresses})"

lemma upload_access_ok:
  assumes "upload_access_known kv"
  shows "\<exists>p b. WasmGetParams kv = Inr p \<and> Allowed S (getCircuitUploadAccessConfig p) a = Inr b"
  using assms by (fastforce simp: upload_access_known_def Allowed_def)

lemma params_kept [simp]:
  "k \<noteq> [CHR 0x10] \<Longrightarrow> WasmGetParams (kv_set k v kv) = WasmGetParams kv"
  "k \<noteq> [CHR 0x10] \<Longrightarrow> WasmGetParams (kv_del k kv) = WasmGetParams kv"
  by (simp_all add: WasmGetParams_def kv_simps)

lemma deposit_params [simp]:
  "WasmGetParams (kv_of (deleteCircuitDepositExpiry u a ctx)) = WasmGetParams (kv_of ctx)"
  "WasmGetParams (kv_of (depositee_remove a ctx)) = WasmGetParams (kv_of ctx)"
  "WasmGetParams (kv_of (deleteCircuitDepositGC a ctx)) = WasmGetParams (kv_of ctx)"
  "WasmGetParams (kv_of (setCircuitDepositGC a ctx)) = WasmGetParams (kv_of ctx)"
  "WasmGetParams (kv_of (deleteCircuitCreatorIndex a i ctx)) = WasmGetParams (kv_of ctx)"
  by (simp_all add: deleteCircuitDepositExpiry_def depositee_remove_def deleteCircuitDepositGC_def setCircuitDepositGC_def
      deleteCircuitCreatorIndex_def key_defs)

lemma removeCircuit_params [simp]: "WasmGetParams (kv_of (snd (removeCircuit K i ctx))) = WasmGetParams (kv_of ctx)"
  by (simp add: removeCircuit_def Let_def key_defs split: option.splits sum.splits)

lemma prune_each_params [simp]: "WasmGetParams (kv_of (prune_each K a ids ctx)) = WasmGetParams (kv_of ctx)"
proof (induction ids arbitrary: ctx)
  case (Cons i ids)
  show ?case using removeCircuit_params [of K i ctx]
    by (cases "removeCircuit K i ctx"; cases "fst (removeCircuit K i ctx)") (simp_all add: Cons)
qed simp

lemma prune_address_params [simp]: "WasmGetParams (kv_of (snd (prune_address K a mx ctx))) = WasmGetParams (kv_of ctx)"
  by (auto simp: prune_address_def pruneCreatorCircuits_def prune_event_def Let_def split: prod.splits)

lemma prune_pending_params: "WasmGetParams (kv_of (snd (prune_pending K as dl cl ctx))) = WasmGetParams (kv_of ctx)"
proof (induction as arbitrary: dl cl ctx)
  case (Cons a as)
  show ?case using prune_address_params [of K a cl ctx] by (cases "prune_address K a cl ctx") (simp add: Cons)
qed simp

lemma prune_hits_ok:
  assumes "upload_access_known (kv_of ctx)"
  shows "fst (prune_hits K now hs dl cl ctx) = Inr ()"
  using assms
proof (induction hs arbitrary: dl cl ctx)
  case (Cons h hs)
  obtain p b where p: "WasmGetParams (kv_of ctx) = Inr p" "Allowed (wk_sdk K) (getCircuitUploadAccessConfig p) (snd h) = Inr b"
    using upload_access_ok [OF Cons.prems] by blast
  have IH: "fst (prune_hits K now hs dl cl c) = Inr ()" if "WasmGetParams (kv_of c) = WasmGetParams (kv_of ctx)" for dl cl c
    using Cons.IH [of c] Cons.prems that by (simp add: upload_access_known_def)
  let ?c = "deleteCircuitDepositExpiry (fst h) (snd h) (depositee_remove (snd h) ctx)"
  obtain n ctx1 where a: "prune_address K (snd h) cl ?c = (n, ctx1)" by fastforce
  then have "WasmGetParams (kv_of ctx1) = WasmGetParams (kv_of ctx)" using prune_address_params [of K "snd h" cl ?c] by simp
  then show ?case using p a by (cases b) (simp_all add: IH Let_def split: option.splits)
qed simp

text \<open>The transfers of a settlement may fail but not panic, and the coins of the pool are coins.\<close>

definition pool_ok :: "('v, 'w, 'g) wasm_keeper \<Rightarrow> bool" where
  "pool_ok K \<longleftrightarrow>
     (\<forall>op share w m. fst (SendCoinsFromModuleToAccount (wk_sdk K) ''circuit_val_pool'' op share w) \<noteq> Inl (Panicked m)) \<and>
     (\<forall>w. \<forall>c \<in> set (GetAllBalances K w (NewModuleAddress K ''circuit_val_pool'')). \<forall>n > 0. is_ok (NewCoin (wk_coins K) (Denom c) n))"

lemma settle_share_ok:
  assumes "\<forall>c \<in> set cs. \<forall>n > 0. is_ok (NewCoin A (Denom c) n)"
  shows "\<exists>share'. settle_share A wt ws cs share = Inr share'"
  using assms
proof (induction cs arbitrary: share)
  case (Cons c cs)
  then show ?case by (cases "NewCoin A (Denom c) (int_quo (Amount c * sint wt) (sint ws))") (auto simp: Let_def)
qed simp

lemma settle_loop_ok:
  assumes "pool_ok K" and "bal = GetAllBalances K w (NewModuleAddress K ''circuit_val_pool'')"
  shows "is_ok (fst (settle_loop K bal ws vws paid n ctx))"
proof (induction vws arbitrary: paid n ctx)
  case Nil
  then show ?case by simp
next
  case (Cons vw vws)
  obtain share where share: "settle_share (wk_coins K) (snd vw) ws bal [] = Inr share"
    using settle_share_ok [of bal "wk_coins K"] assms unfolding pool_ok_def by blast
  show ?case
  proof (cases "ValAddressFromBech32 K (OperatorAddress (fst vw))")
    case (Inr op)
    obtain r ctx1 where send: "on_world (SendCoinsFromModuleToAccount (wk_sdk K) ''circuit_val_pool'' op share) ctx = (r, ctx1)"
      by fastforce
    then have "r = fst (SendCoinsFromModuleToAccount (wk_sdk K) ''circuit_val_pool'' op share (world (gstore ctx)))"
      by (auto simp: on_world_def split: prod.splits)
    then have "r \<noteq> Inl (Panicked m)" for m using assms(1) by (simp add: pool_ok_def)
    then show ?thesis using Cons Inr share send by (auto split: sum.splits error.splits)
  qed (use Cons in auto)
qed

lemma bindR_total: "is_ok (fst m) \<Longrightarrow> fst (bindR m (\<lambda>a c. (Inr (), f a c))) = Inr ()"
  by (cases m; cases "fst m") simp_all

lemma tick_ok:
  assumes "pool_ok K"
  shows "fst (TickCircuitEpoch K E ctx) = Inr ()"
proof -
  have settle: "fst (settleCircuitValPool K i n ctx) = Inr ()" for i n
  proof -
    have "fst (bindR (settle_loop K (GetAllBalances K (world (gstore ctx)) (NewModuleAddress K ''circuit_val_pool'')) ws vws [] 0 ctx)
        (\<lambda>(paid, e) c. (Inr (), f paid e c))) = Inr ()" for ws vws f
      using settle_loop_ok [OF assms refl, where w = "world (gstore ctx)" and ws = ws and vws = vws and paid = "[]" and n = 0 and ctx = ctx]
      by (auto simp: bindR_def split: prod.splits sum.splits)
    then show ?thesis by (auto simp: settleCircuitValPool_def Let_def split: option.splits sum.splits)
  qed
  then have "is_ok (fst (AfterEpochEnd K i n ctx))" for i n by (simp add: AfterEpochEnd_def)
  then show ?thesis
    by (simp add: TickCircuitEpoch_def Let_def DistributeCircuitValPool_def settle bindR_total split: option.splits)
qed

lemma tick_params: "WasmGetParams (kv_of (snd (TickCircuitEpoch K E ctx))) = WasmGetParams (kv_of ctx)"
  using tick_kv [of K E ctx] by auto

lemma end_block_ok:
  assumes "pool_ok K" and "upload_access_known (kv_of ctx)"
  shows "\<exists>ctx'. wasm_EndBlock K E ctx = (Inr (), ctx')"
proof -
  obtain ctx1 where t: "TickCircuitEpoch K E ctx = (Inr (), ctx1)" using tick_ok [OF assms(1), of E ctx] by (metis fst_conv surj_pair)
  have k: "upload_access_known (kv_of ctx1)" using tick_params [of K E ctx] t assms(2) by (simp add: upload_access_known_def)
  obtain r ctx2 where p: "prune_pending K (gc_pending (kv_of ctx1)) 8 2 ctx1 = (r, ctx2)" by fastforce
  have "upload_access_known (kv_of ctx2)"
    using prune_pending_params [of K "gc_pending (kv_of ctx1)" 8 2 ctx1] p k by (simp add: upload_access_known_def)
  then have "fst (PruneExpiredCircuitDeposits K E ctx1) = Inr ()"
    using prune_hits_ok p by (auto simp: PruneExpiredCircuitDeposits_def Let_def split: option.splits prod.splits)
  then show ?thesis using t unfolding wasm_EndBlock_def by (metis bindR_simps(2) prod.collapse)
qed

section \<open>Blocks in a row\<close>

fun end_blocks :: "('v, 'w, 'g) wasm_keeper \<Rightarrow> wasm_env list \<Rightarrow> ('v, 'w, 'g) wasm_ctx \<Rightarrow> unit res \<times> ('v, 'w, 'g) wasm_ctx" where
  "end_blocks K [] ctx = (Inr (), ctx)"
| "end_blocks K (E # Es) ctx = bindR (wasm_EndBlock K E ctx) (\<lambda>_. end_blocks K Es)"

text \<open>An address whose time has come stays in sight of the collector until nothing of it is left.\<close>

definition pending :: "nat \<Rightarrow> wasm_val kv \<Rightarrow> string \<Rightarrow> bool" where
  "pending t kv a = (expired t kv a \<or> marked kv a)"

definition collected :: "'w sdk \<Rightarrow> wasm_val kv \<Rightarrow> string \<Rightarrow> bool" where
  "collected S kv a \<longleftrightarrow>
     depositee_get kv a = None \<and> \<not> marked kv a \<and> (\<not> circuit_allowed S kv a \<longrightarrow> (\<forall>i. creator_of S kv i \<noteq> Some a))"

lemma expired_mono: "expired t kv a \<Longrightarrow> t \<le> t' \<Longrightarrow> expired t' kv a"
  by (auto simp: expired_def)

lemma pending_measure: "pending t kv a \<Longrightarrow> 0 < gc_measure kv"
  using finite_marked [of kv] finite_deposits [of kv] by (auto simp: pending_def expired_def gc_measure_def card_gt_0_iff)

lemma gc_step_pending:
  assumes inv: "circuit_inv S kv" and step: "gc_step S now (circuit_allowed S kv) c d kv kv'" and t: "t \<le> now"
  shows "pending t kv a \<Longrightarrow> pending t kv' a \<or> collected S kv' a" and "collected S kv a \<Longrightarrow> collected S kv' a"
proof -
  note D = gc_stepD [OF step]
  have al: "circuit_allowed S kv' a = circuit_allowed S kv a" by (simp add: circuit_allowed_def D(2))
  show "pending t kv' a \<or> collected S kv' a" if p: "pending t kv a"
  proof (cases "depositee_get kv' a")
    case (Some u)
    then have "depositee_get kv a = Some u" using D(3) [of a] by auto
    moreover from this have "\<not> marked kv a"
      using circuit_invD(4) [OF inv] gc_key_inj unfolding marked_def by (metis option.distinct(1))
    ultimately have "expired t kv' a" using p Some by (simp add: pending_def expired_def)
    then show ?thesis by (simp add: pending_def)
  next
    case None
    have "expired now kv a \<or> marked kv a" using p t unfolding pending_def using expired_mono by blast
    then have "due S now kv a" by (auto simp: due_def)
    then show ?thesis using D(6) [of a] None by (auto simp: pending_def collected_def due_def expired_def al)
  qed
  show "collected S kv' a" if c: "collected S kv a"
  proof -
    have "depositee_get kv' a = None" "\<not> expired now kv a" using D(3) [of a] c by (auto simp: collected_def expired_def)
    moreover from this have "\<not> marked kv' a" using D(5) [of a] c by (auto simp: collected_def)
    moreover have "creator_of S kv i = Some a" if "creator_of S kv' i = Some a" for i
      using D(4) [of i] creator_of_info [OF that] that by (auto simp: creator_of_def)
    ultimately show ?thesis using c by (auto simp: collected_def al)
  qed
qed

lemma end_blocks_drain:
  assumes "pool_ok K" and "circuit_inv (wk_sdk K) (kv_of ctx)" and "upload_access_known (kv_of ctx)"
    and "\<forall>E \<in> set Es. t \<le> nat (block_now E)"
  shows "\<exists>ctx'. end_blocks K Es ctx = (Inr (), ctx') \<and> circuit_inv (wk_sdk K) (kv_of ctx') \<and>
    (\<forall>a. pending t (kv_of ctx) a \<and> gc_measure (kv_of ctx) \<le> length Es \<or> collected (wk_sdk K) (kv_of ctx) a \<longrightarrow>
       collected (wk_sdk K) (kv_of ctx') a)"
  using assms
proof (induction Es arbitrary: ctx)
  case Nil
  then show ?case using pending_measure by fastforce
next
  case (Cons E Es)
  obtain ctx1 where e: "wasm_EndBlock K E ctx = (Inr (), ctx1)" using end_block_ok [OF Cons.prems(1,3)] by blast
  note step = end_block_step [OF Cons.prems(2) e]
  have "upload_access_known (kv_of ctx1)" using Cons.prems(3) gc_stepD(2) [OF step(1)] by (simp add: upload_access_known_def)
  then obtain ctx' where r: "end_blocks K Es ctx1 = (Inr (), ctx')" "circuit_inv (wk_sdk K) (kv_of ctx')"
    "\<And>a. pending t (kv_of ctx1) a \<and> gc_measure (kv_of ctx1) \<le> length Es \<or> collected (wk_sdk K) (kv_of ctx1) a \<Longrightarrow>
       collected (wk_sdk K) (kv_of ctx') a"
    using Cons.IH [OF Cons.prems(1) gc_stepD(1) [OF step(1)]] Cons.prems(4) by fastforce
  have t: "t \<le> nat (block_now E)" using Cons.prems(4) by simp
  note P = gc_step_pending [OF Cons.prems(2) step(1) t]
  have "collected (wk_sdk K) (kv_of ctx') a"
    if "pending t (kv_of ctx) a \<and> gc_measure (kv_of ctx) \<le> length (E # Es) \<or> collected (wk_sdk K) (kv_of ctx) a" for a
  proof (cases "collected (wk_sdk K) (kv_of ctx) a")
    case True
    then show ?thesis using P(2) r(3) by blast
  next
    case False
    then have p: "pending t (kv_of ctx) a" and m: "gc_measure (kv_of ctx) \<le> length (E # Es)" using that by auto
    have "marked (kv_of ctx) a \<or> expired (nat (block_now E)) (kv_of ctx) a" using p t expired_mono unfolding pending_def by blast
    from step(2) [OF this] have "gc_measure (kv_of ctx1) \<le> length Es" using m by simp
    then show ?thesis using P(1) [OF p] r(3) by blast
  qed
  then show ?case using e r(1,2) by auto
qed

end
