(* ===== verification/CircuitSteps.thy ===== *)
theory CircuitSteps
  imports CircuitGC
begin

text \<open>
  The messages of the circuit part of \<open>x/wasm\<close> on its store (x/wasm/keeper/keeper.go, msg_server.go): what an
  upload, a payment and a change of parameters or pins write, and that every step of the module keeps the
  circuit invariant.
\<close>

section \<open>Payments and uploads on the store\<close>

definition kv_add_deposit :: "u64 \<Rightarrow> string \<Rightarrow> wasm_val kv \<Rightarrow> wasm_val kv" where
  "kv_add_deposit u a kv =
     kv_set (CHR 0x1B # GetCircuitDepositExpiryKey u a) (Bytes [CHR 0x01]) (kv_set (CHR 0x1A # a) (Bytes (Uint64ToBigEndian u)) kv)"

lemma kv_add_deposit_get:
  "kv_get (kv_add_deposit u a kv) k =
     (if k = CHR 0x1B # GetCircuitDepositExpiryKey u a then Some (Bytes [CHR 0x01])
      else if k = CHR 0x1A # a then Some (Bytes (Uint64ToBigEndian u)) else kv_get kv k)"
  by (simp add: kv_add_deposit_def kv_simps)

lemma kv_add_deposit_proj:
  shows "depositee_get (kv_add_deposit u a kv) = (depositee_get kv)(a \<mapsto> u)"
    and "GetCircuitInfo (kv_add_deposit u a kv) = GetCircuitInfo kv"
    and "creator_of S (kv_add_deposit u a kv) = creator_of S kv"
    and "PeekAutoIncrementID (kv_add_deposit u a kv) KeySequenceCircuitID = PeekAutoIncrementID kv KeySequenceCircuitID"
proof -
  show c: "GetCircuitInfo (kv_add_deposit u a kv) = GetCircuitInfo kv"
    by (simp add: fun_eq_iff GetCircuitInfo_def kv_add_deposit_get key_defs)
  show "creator_of S (kv_add_deposit u a kv) = creator_of S kv" by (simp add: fun_eq_iff creator_of_def c)
qed (simp_all add: fun_eq_iff depositee_get_def raw_value_def PeekAutoIncrementID_def kv_add_deposit_get key_defs)

lemma kv_add_deposit_inv:
  assumes inv: "circuit_inv S kv" and ok: "addr_ok a" and none: "depositee_get kv a = None" and mark: "\<not> marked kv a"
  shows "circuit_inv S (kv_add_deposit u a kv)"
proof -
  let ?kv = "kv_add_deposit u a kv"
  note I = circuit_invD [OF inv]
  have wf: "kv_wf ?kv" using I(1) by (simp add: kv_add_deposit_def kv_simps)
  have has: "kv_has ?kv (CHR 0x1A # k) \<longleftrightarrow> k = a \<or> kv_has kv (CHR 0x1A # k)"
    "kv_has ?kv (CHR 0x1B # k) \<longleftrightarrow> k = GetCircuitDepositExpiryKey u a \<or> kv_has kv (CHR 0x1B # k)"
    "kv_has ?kv (CHR 0x1C # k) = kv_has kv (CHR 0x1C # k)" "kv_has ?kv (CHR 0x1D # k) = kv_has kv (CHR 0x1D # k)" for k
    by (simp_all add: kv_has_def kv_add_deposit_get)
  have exp: "k = GetCircuitDepositExpiryKey u a \<or> kv_has kv (CHR 0x1B # k) \<longleftrightarrow>
      (\<exists>b v. addr_ok b \<and> ((depositee_get kv)(a \<mapsto> u)) b = Some v \<and> k = GetCircuitDepositExpiryKey v b)" for k
  proof
    assume "k = GetCircuitDepositExpiryKey u a \<or> kv_has kv (CHR 0x1B # k)"
    then show "\<exists>b v. addr_ok b \<and> ((depositee_get kv)(a \<mapsto> u)) b = Some v \<and> k = GetCircuitDepositExpiryKey v b"
    proof
      assume "kv_has kv (CHR 0x1B # k)"
      then obtain b v where b: "addr_ok b" "depositee_get kv b = Some v" "k = GetCircuitDepositExpiryKey v b" unfolding I(3) by blast
      then have "b \<noteq> a" using none by auto
      then show ?thesis using b by (intro exI [of _ b] exI [of _ v]) simp
    qed (use ok in auto)
  next
    assume "\<exists>b v. addr_ok b \<and> ((depositee_get kv)(a \<mapsto> u)) b = Some v \<and> k = GetCircuitDepositExpiryKey v b"
    then show "k = GetCircuitDepositExpiryKey u a \<or> kv_has kv (CHR 0x1B # k)" unfolding I(3) by (auto split: if_splits)
  qed
  have gc: "\<exists>b. addr_ok b \<and> ((depositee_get kv)(a \<mapsto> u)) b = None \<and> k = GetCircuitDepositGCKey b"
    if k: "kv_has kv (CHR 0x1C # k)" for k
  proof -
    obtain b where b: "addr_ok b" "depositee_get kv b = None" "k = GetCircuitDepositGCKey b" using I(4) [OF k] by blast
    then have "b \<noteq> a" using mark k by (auto simp: marked_def)
    then show ?thesis using b by auto
  qed
  show ?thesis unfolding circuit_inv_def kv_add_deposit_proj has exp using wf I(2,5-7) ok gc by auto
qed

text \<open>A payment: the old deposit goes, the mark goes, the new deposit comes.\<close>

definition kv_pay :: "u64 \<Rightarrow> string \<Rightarrow> wasm_val kv \<Rightarrow> wasm_val kv" where
  "kv_pay u a kv =
     kv_del (CHR 0x1C # GetCircuitDepositGCKey a)
       (kv_add_deposit u a (case depositee_get kv a of None \<Rightarrow> kv | Some ex \<Rightarrow> kv_del (CHR 0x1B # GetCircuitDepositExpiryKey ex a) kv))"

lemma kv_pay_inv:
  assumes inv: "circuit_inv S kv" and ok: "addr_ok a"
  shows "circuit_inv S (kv_pay u a kv)"
proof -
  define kv1 where "kv1 = (case depositee_get kv a of None \<Rightarrow> kv | Some ex \<Rightarrow> kv_drop_deposit ex a kv)"
  have i1: "circuit_inv S kv1" using inv kv_drop_deposit_inv [OF inv] by (simp add: kv1_def split: option.splits)
  have n1: "depositee_get kv1 a = None" by (simp add: kv1_def kv_drop_deposit_proj split: option.splits)
  have "circuit_inv S (kv_add_deposit u a (kv_mark False a kv1))"
    by (rule kv_add_deposit_inv [OF kv_mark_inv [OF i1 ok n1] ok]) (simp_all add: kv_mark_proj n1 kv_mark_marked [OF ok])
  then show ?thesis
  proof (rule circuit_inv_cong)
    show "kv_wf (kv_pay u a kv)" using circuit_invD(1) [OF inv] by (simp add: kv_pay_def kv_add_deposit_def kv_simps split: option.splits)
    show "kv_get (kv_pay u a kv) k = kv_get (kv_add_deposit u a (kv_mark False a kv1)) k" for k
      by (cases "depositee_get kv a") (simp_all add: kv_pay_def kv_add_deposit_get kv_mark_get kv1_def kv_drop_deposit_get kv_simps)
  qed
qed

lemma kv_pay_proj:
  shows "depositee_get (kv_pay u a kv) = (depositee_get kv)(a \<mapsto> u)" and "GetCircuitInfo (kv_pay u a kv) = GetCircuitInfo kv"
    and "addr_ok a \<Longrightarrow> \<not> marked (kv_pay u a kv) a"
  by (simp_all add: fun_eq_iff depositee_get_def raw_value_def GetCircuitInfo_def marked_def kv_has_def kv_pay_def kv_add_deposit_get kv_simps key_defs
      split: option.splits)

text \<open>An upload: the sequence, the record, its parameters, the index by creator, the bytes.\<close>

definition kv_add_circuit :: "string \<Rightarrow> u64 \<Rightarrow> CircuitInfo \<Rightarrow> u64 \<Rightarrow> string \<Rightarrow> wasm_val kv \<Rightarrow> wasm_val kv" where
  "kv_add_circuit a i info p blob kv =
     kv_set (GetCircuitBytesKey i) (Bytes blob) (kv_set (GetCircuitByCreatorIDKey a i) (Bytes [CHR 0x01])
       (kv_set (circuitParamRefKey i) (Bytes (Uint64ToBigEndian p)) (kv_set (GetCircuitKey i) (CircuitVal info)
         (kv_set KeySequenceCircuitID (Bytes (Uint64ToBigEndian (i + 1))) kv))))"

lemma kv_add_circuit_get:
  "kv_get (kv_add_circuit a i info p blob kv) k =
     (if k = GetCircuitBytesKey i then Some (Bytes blob)
      else if k = GetCircuitByCreatorIDKey a i then Some (Bytes [CHR 0x01])
      else if k = circuitParamRefKey i then Some (Bytes (Uint64ToBigEndian p))
      else if k = GetCircuitKey i then Some (CircuitVal info)
      else if k = KeySequenceCircuitID then Some (Bytes (Uint64ToBigEndian (i + 1))) else kv_get kv k)"
  by (simp add: kv_add_circuit_def kv_simps)

lemma be_uint64_bytes: "be_uint64 (Uint64ToBigEndian n) = Inr n"
proof -
  have "Uint64ToBigEndian n \<noteq> []" using length_Uint64ToBigEndian [of n] by (metis list.size(3) zero_neq_numeral)
  then show ?thesis using Uint64_roundtrip [of n] by (simp add: BigEndianToUint64_def be_uint64_def)
qed

lemma kv_add_circuit_proj:
  shows "depositee_get (kv_add_circuit a i info p blob kv) = depositee_get kv"
    and "marked (kv_add_circuit a i info p blob kv) = marked kv"
    and "GetCircuitInfo (kv_add_circuit a i info p blob kv) = (GetCircuitInfo kv)(i \<mapsto> info)"
    and "AccAddressFromBech32 S (zk_Creator info) = Inr c \<Longrightarrow>
      creator_of S (kv_add_circuit a i info p blob kv) = (creator_of S kv)(i \<mapsto> c)"
    and "PeekAutoIncrementID (kv_add_circuit a i info p blob kv) KeySequenceCircuitID = Inr (i + 1)"
proof -
  show c: "GetCircuitInfo (kv_add_circuit a i info p blob kv) = (GetCircuitInfo kv)(i \<mapsto> info)"
    by (simp add: fun_eq_iff GetCircuitInfo_def kv_add_circuit_get key_defs)
  show "creator_of S (kv_add_circuit a i info p blob kv) = (creator_of S kv)(i \<mapsto> c)" if "AccAddressFromBech32 S (zk_Creator info) = Inr c"
    using that by (simp add: fun_eq_iff creator_of_def c)
qed (simp_all add: fun_eq_iff depositee_get_def raw_value_def marked_def kv_has_def PeekAutoIncrementID_def kv_add_circuit_get key_defs be_uint64_bytes)

lemma kv_add_circuit_inv:
  assumes inv: "circuit_inv S kv" and ok: "addr_ok a" and cr: "AccAddressFromBech32 S (zk_Creator info) = Inr a"
    and seq: "PeekAutoIncrementID kv KeySequenceCircuitID = Inr i" and room: "i \<noteq> - 1"
  shows "circuit_inv S (kv_add_circuit a i info p blob kv)"
proof -
  let ?kv = "kv_add_circuit a i info p blob kv"
  note I = circuit_invD [OF inv]
  have wf: "kv_wf ?kv" using I(1) by (simp add: kv_add_circuit_def kv_simps)
  have has: "kv_has ?kv (CHR 0x1A # k) = kv_has kv (CHR 0x1A # k)" "kv_has ?kv (CHR 0x1B # k) = kv_has kv (CHR 0x1B # k)"
    "kv_has ?kv (CHR 0x1C # k) = kv_has kv (CHR 0x1C # k)"
    "kv_has ?kv (CHR 0x1D # k) \<longleftrightarrow> k = MustLengthPrefix a @ Uint64ToBigEndian i \<or> kv_has kv (CHR 0x1D # k)" for k
    by (simp_all add: kv_has_def kv_add_circuit_get key_defs)
  have below: "unat j < unat i" if "GetCircuitInfo kv j \<noteq> None" for j using I(7) seq that by auto
  have new: "creator_of S kv i = None"
  proof (rule ccontr)
    assume "creator_of S kv i \<noteq> None"
    then obtain b where "creator_of S kv i = Some b" by blast
    from creator_of_info [OF this] below [of i] show False by auto
  qed
  have suc: "unat (i + 1) = unat i + 1" 
  proof -
    have "1 + i \<noteq> 0" using room by (metis add.commute eq_neg_iff_add_eq_0)
    then show ?thesis using unatSuc [of i] by (simp add: add.commute)
  qed
  have idx: "k = MustLengthPrefix a @ Uint64ToBigEndian i \<or> kv_has kv (CHR 0x1D # k) \<longleftrightarrow>
      (\<exists>b j. addr_ok b \<and> ((creator_of S kv)(i \<mapsto> a)) j = Some b \<and> k = MustLengthPrefix b @ Uint64ToBigEndian j)" for k
  proof
    assume "k = MustLengthPrefix a @ Uint64ToBigEndian i \<or> kv_has kv (CHR 0x1D # k)"
    then show "\<exists>b j. addr_ok b \<and> ((creator_of S kv)(i \<mapsto> a)) j = Some b \<and> k = MustLengthPrefix b @ Uint64ToBigEndian j"
    proof
      assume "kv_has kv (CHR 0x1D # k)"
      then obtain b j where b: "addr_ok b" "creator_of S kv j = Some b" "k = MustLengthPrefix b @ Uint64ToBigEndian j" unfolding I(5) by blast
      then have "j \<noteq> i" using new by auto
      then show ?thesis using b by (intro exI [of _ b] exI [of _ j]) simp
    qed (use ok in auto)
  next
    assume "\<exists>b j. addr_ok b \<and> ((creator_of S kv)(i \<mapsto> a)) j = Some b \<and> k = MustLengthPrefix b @ Uint64ToBigEndian j"
    then obtain b j where b: "addr_ok b" "((creator_of S kv)(i \<mapsto> a)) j = Some b" "k = MustLengthPrefix b @ Uint64ToBigEndian j" by blast
    then show "k = MustLengthPrefix a @ Uint64ToBigEndian i \<or> kv_has kv (CHR 0x1D # k)"
      unfolding I(5) by (cases "j = i") auto
  qed
  have own: "\<exists>b. addr_ok b \<and> ((creator_of S kv)(i \<mapsto> a)) j = Some b" if "((GetCircuitInfo kv)(i \<mapsto> info)) j \<noteq> None" for j
    using that I(6) [of j] ok by (cases "j = i") auto
  have lim: "unat j < unat (i + 1)" if "((GetCircuitInfo kv)(i \<mapsto> info)) j \<noteq> None" for j
    using that below [of j] by (cases "j = i") (simp_all add: suc)
  show ?thesis
    unfolding circuit_inv_def kv_add_circuit_proj(1-3,5) kv_add_circuit_proj(4) [OF cr] has idx
    using wf I(2-4) own lim by (intro conjI allI) blast+
qed

section \<open>The handlers on the store\<close>

lemma snd_wrapR [simp]: "snd (wrapR e m) = snd m"
  by (cases m; cases "fst m") (simp_all add: wrapR_def)

lemma wrapR_ok: "wrapR e m = (Inr a, s) \<longleftrightarrow> m = (Inr a, s)"
  by (cases m; cases "fst m") (auto simp: wrapR_def)

lemma charge_uncompress_kv: "charge_uncompress K bz ctx = (r, ctx') \<Longrightarrow> kv_of ctx' = kv_of ctx"
  using kv_of_simps(5) by (fastforce simp: charge_uncompress_def bindR_def split: sum.splits dest: arg_cong [of _ _ snd])

lemma unpack_kv: "unpack K l bz ctx = (Inr x, ctx') \<Longrightarrow> kv_of ctx' = kv_of ctx"
  by (auto simp: unpack_def bindR_ok wrapR_ok dest: charge_uncompress_kv split: if_splits)

lemma run_vm_kv: "run_vm K f ctx = (Inr x, ctx') \<Longrightarrow> kv_of ctx' = kv_of ctx"
proof -
  assume run: "run_vm K f ctx = (Inr x, ctx')"
  obtain g where g: "runtimeGasForContract (gasRegister K) (wk_meter K) (meter ctx) = Inr g"
    using run by (auto simp: run_vm_def bindR_ok)
  obtain r u ctx1 where v: "on_vm (f g) ctx = ((r, u), ctx1)" by (metis surj_pair)
  have "on_meter (consumeRuntimeGas (gasRegister K) (wk_meter K) u) ctx1 = (Inr (), ctx')"
    using run g v by (auto simp: run_vm_def bindR_ok wrapR_ok)
  then show ?thesis using kv_of_simps(3) [of "f g" ctx] kv_of_simps(5) [of _ ctx1] v by (metis snd_conv)
qed

lemma on_vm_kv: "on_vm f ctx = (r, ctx') \<Longrightarrow> kv_of ctx' = kv_of ctx"
  using kv_of_simps(3) [of f ctx] by simp

lemma on_world_kv: "on_world f ctx = (r, ctx') \<Longrightarrow> kv_of ctx' = kv_of ctx"
  using kv_of_simps(4) [of f ctx] by simp

lemma on_meter_kv: "on_meter f ctx = (r, ctx') \<Longrightarrow> kv_of ctx' = kv_of ctx"
  using kv_of_simps(5) [of f ctx] by simp

lemma mustAutoIncrementID_ok:
  "mustAutoIncrementID k ctx = (Inr n, ctx') \<longleftrightarrow>
     PeekAutoIncrementID (kv_of ctx) k = Inr n \<and> ctx' = on_kv (kv_set k (Bytes (Uint64ToBigEndian (n + 1)))) ctx"
  by (auto simp: mustAutoIncrementID_def PeekAutoIncrementID_def split: option.splits sum.splits)

lemmas handler_ok = bindR_ok guardR_ok wrapR_ok mustAutoIncrementID_ok Let_def
lemmas handler_kv = unpack_kv run_vm_kv on_vm_kv on_world_kv on_meter_kv charge_uncompress_kv

lemma store_circuit_effect:
  assumes "store_circuit K E (Some a) p vk acc authZ ctx = (Inr (i, ck), ctx')"
  shows "PeekAutoIncrementID (kv_of ctx) KeySequenceCircuitID = Inr i"
    and "\<exists>acc' pl vl blob.
      kv_of ctx' = kv_add_circuit a i (NewCircuitInfoWithLayout (wk_sdk K) ck a acc' 0 pl 0 vl) p blob (kv_of ctx)"
    and "\<exists>acc'. authorizeCircuitUpload K E a (Some acc') authZ (kv_of ctx) = Inr ()"
proof -
  show "\<exists>acc'. authorizeCircuitUpload K E a (Some acc') authZ (kv_of ctx) = Inr ()"
    using assms by (auto simp: store_circuit_def handler_ok)
  show "PeekAutoIncrementID (kv_of ctx) KeySequenceCircuitID = Inr i"
    using assms unfolding store_circuit_def by (clarsimp simp: handler_ok) (drule handler_kv, simp)+
  show "\<exists>acc' pl vl blob.
      kv_of ctx' = kv_add_circuit a i (NewCircuitInfoWithLayout (wk_sdk K) ck a acc' 0 pl 0 vl) p blob (kv_of ctx)"
    using assms unfolding store_circuit_def
    apply (clarsimp simp: handler_ok)
    apply (drule handler_kv)+
    apply (simp add: mustStoreCircuitInfo_def mustStoreCircuitParamRef_def setCircuitCreatorIndex_def mustStoreCircuitBytes_def kv_add_circuit_def)
    apply (intro exI)
    apply (rule refl)
    done
qed

text \<open>What is written besides keeps the keys of the invariant.\<close>

definition framed :: "wasm_val kv \<Rightarrow> wasm_val kv \<Rightarrow> bool" where
  "framed kv kv' \<longleftrightarrow> (kv_wf kv \<longrightarrow> kv_wf kv') \<and> (\<forall>k. gc_key k \<longrightarrow> kv_get kv' k = kv_get kv k)"

lemma framed_refl [simp]: "framed kv kv"
  by (simp add: framed_def)

lemma framed_trans: "framed kv kv' \<Longrightarrow> framed kv' kv'' \<Longrightarrow> framed kv kv''"
  by (simp add: framed_def)

lemma framed_set: "\<not> gc_key k \<Longrightarrow> framed kv kv' \<Longrightarrow> framed kv (kv_set k v kv')"
  by (auto simp: framed_def kv_simps)

lemma framed_del: "\<not> gc_key k \<Longrightarrow> framed kv kv' \<Longrightarrow> framed kv (kv_del k kv')"
  by (auto simp: framed_def kv_simps)

lemma framed_inv: "framed kv kv' \<Longrightarrow> circuit_inv S kv \<Longrightarrow> circuit_inv S kv'"
  using circuit_inv_cong [of S kv kv'] circuit_invD(1) [of S kv] by (simp add: framed_def)

lemma other_keys:
  "\<not> gc_key (CHR 0x12 # k)" "\<not> gc_key (CHR 0x14 # k)" "\<not> gc_key (CHR 0x01 # k)" "\<not> gc_key (CHR 0x07 # k)" "\<not> gc_key [CHR 0x10]"
  "\<not> gc_key (CHR 0x19 # k)" "\<not> gc_key KeySequenceVkParamID" "\<not> gc_key KeySequenceCodeID"
  by (simp_all add: gc_key_def key_defs)

lemma store_vk_param_frame:
  assumes "store_vk_param K E (Some a) auth bz authZ ctx = (Inr r, ctx')"
  shows "framed (kv_of ctx) (kv_of ctx')"
    and "\<exists>acc'. authorizeCircuitUpload K E a (Some acc') authZ (kv_of ctx) = Inr ()"
proof -
  show "\<exists>acc'. authorizeCircuitUpload K E a (Some acc') authZ (kv_of ctx) = Inr ()"
    using assms by (auto simp: store_vk_param_def handler_ok)
  show "framed (kv_of ctx) (kv_of ctx')"
    using assms unfolding store_vk_param_def
    apply (clarsimp simp: handler_ok)
    apply (drule handler_kv)+
    apply (simp add: mustStoreVkParamInfo_def GetVkParamId_def GetVkParamBytesKey_def framed_set other_keys)
    done
qed

lemma create_code_frame:
  assumes "create_code K E (Some a) bz acc authZ ctx = (Inr r, ctx')"
  shows "framed (kv_of ctx) (kv_of ctx')"
  using assms unfolding create_code_def
  apply (clarsimp simp: handler_ok)
  apply (drule handler_kv)+
  apply (simp add: mustStoreCodeInfo_def GetCodeKey_def framed_set other_keys)
  done

lemma pin_frame:
  shows "pinCode K n ctx = (Inr (), ctx') \<Longrightarrow> framed (kv_of ctx) (kv_of ctx')"
    and "unpinCode K n ctx = (Inr (), ctx') \<Longrightarrow> framed (kv_of ctx) (kv_of ctx')"
    and "unpinCircuit K n ctx = (Inr (), ctx') \<Longrightarrow> framed (kv_of ctx) (kv_of ctx')"
  by (auto simp: pinCode_def unpinCode_def unpinCircuit_def handler_ok GetPinnedCodeIndexPrefix_def GetPinnedCircuitIndexPrefix_def
      framed_set framed_del other_keys dest!: handler_kv split: option.splits)

lemma each_id_frame:
  assumes "\<And>n ctx ctx'. f n ctx = (Inr (), ctx') \<Longrightarrow> framed (kv_of ctx) (kv_of ctx')"
  shows "each_id f ns ctx = (Inr (), ctx') \<Longrightarrow> framed (kv_of ctx) (kv_of ctx')"
proof (induction ns arbitrary: ctx)
  case (Cons n ns)
  then obtain ctx1 where "f n ctx = (Inr (), ctx1)" "each_id f ns ctx1 = (Inr (), ctx')" by (auto simp: bindR_ok)
  then show ?case using assms Cons.IH framed_trans by blast
qed simp

lemma receive_kv: "receiveCircuitRunwayPayment K a amt ctx = (Inr (), ctx') \<Longrightarrow> kv_of ctx' = kv_of ctx"
  by (auto simp: receiveCircuitRunwayPayment_def handler_ok dest!: on_world_kv split: if_splits)

definition paid_until :: "wasm_env \<Rightarrow> wasm_val kv \<Rightarrow> string \<Rightarrow> u32 \<Rightarrow> u64" where
  "paid_until E kv a years =
     (let now = of_int (block_now E) in
      (case depositee_get kv a of None \<Rightarrow> now | Some ex \<Rightarrow> if now < ex then ex else now) + ucast years * 31536000)"

lemma pay_effect:
  assumes "PayCircuitDeposit K E a years ctx = (Inr u, ctx')"
  shows "1 \<le> years" and "years \<le> 10" and "u = paid_until E (kv_of ctx) a years" and "kv_of ctx' = kv_pay u a (kv_of ctx)"
proof -
  obtain amt ctx1 where r: "receiveCircuitRunwayPayment K a amt ctx = (Inr (), ctx1)"
    and rest: "u = paid_until E (kv_of ctx1) a years" "kv_of ctx' = kv_pay u a (kv_of ctx1)" and y: "\<not> (years = 0 \<or> 10 < years)"
    using assms unfolding PayCircuitDeposit_def
    by (auto simp: handler_ok paid_until_def kv_pay_def kv_add_deposit_def deleteCircuitDepositExpiry_def deleteCircuitDepositGC_def
        setCircuitDepositExpiry_def depositee_set_def split: option.splits)
  show "u = paid_until E (kv_of ctx) a years" "kv_of ctx' = kv_pay u a (kv_of ctx)" using rest receive_kv [OF r] by simp_all
  show "1 \<le> years" "years \<le> 10" using y by (simp_all add: not_less word_le_nat_alt Suc_le_eq unat_gt_0)
qed

section \<open>Reachable states\<close>

text \<open>
  An address is what a bech32 string decodes to: one to 255 bytes, and the canonical string decodes back.
\<close>

definition address_laws :: "'w sdk \<Rightarrow> bool" where
  "address_laws S \<longleftrightarrow>
     bech32_laws S \<and> (\<forall>s a. AccAddressFromBech32 S s = Inr a \<longrightarrow> 1 \<le> length a \<and> length a \<le> 255)"

text \<open>
  The steps of the module on its store: every message of the modelled part that succeeds, the end of a block, and
  steps of other modules, which leave the store alone.  A message that fails is rolled back.  The ids of
  circuits, 64 bits wide, are taken as not used up.
\<close>

inductive wasm_step :: "('v, 'w, 'g) wasm_keeper \<Rightarrow> ('v, 'w, 'g) wasm_ctx \<Rightarrow> ('v, 'w, 'g) wasm_ctx \<Rightarrow> bool" for K where
  step_StoreCode: "StoreCodeMsg K E msgC ctx = (Inr r, ctx') \<Longrightarrow> wasm_step K ctx ctx'"
| step_StoreVkParam: "StoreVkParamMsg K E msgV ctx = (Inr r, ctx') \<Longrightarrow> wasm_step K ctx ctx'"
| step_StoreCircuit: "PeekAutoIncrementID (kv_of ctx) KeySequenceCircuitID \<noteq> Inr (- 1) \<Longrightarrow>
    StoreCircuitMsg K E msgZ ctx = (Inr r, ctx') \<Longrightarrow> wasm_step K ctx ctx'"
| step_StoreFullCircuit: "PeekAutoIncrementID (kv_of ctx) KeySequenceCircuitID \<noteq> Inr (- 1) \<Longrightarrow>
    StoreFullCircuitMsg K E msgF ctx = (Inr f, ctx') \<Longrightarrow> wasm_step K ctx ctx'"
| step_Pay: "PayCircuitDepositMsg K E sender years ctx = (Inr u, ctx') \<Longrightarrow> wasm_step K ctx ctx'"
| step_PinCodes: "PinCodes K authority ids ctx = (Inr (), ctx') \<Longrightarrow> wasm_step K ctx ctx'"
| step_UnpinCodes: "UnpinCodes K authority ids ctx = (Inr (), ctx') \<Longrightarrow> wasm_step K ctx ctx'"
| step_UnpinCircuits: "UnpinCircuits K authority ids ctx = (Inr (), ctx') \<Longrightarrow> wasm_step K ctx ctx'"
| step_UpdateParams: "WasmUpdateParams K authority ps ctx = (Inr (), ctx') \<Longrightarrow> wasm_step K ctx ctx'"
| step_AddCode: "AddCodeUploadParamsAddresses K authority as ctx = (Inr (), ctx') \<Longrightarrow> wasm_step K ctx ctx'"
| step_RemoveCode: "RemoveCodeUploadParamsAddresses K authority as ctx = (Inr (), ctx') \<Longrightarrow> wasm_step K ctx ctx'"
| step_AddCircuit: "AddCircuitUploadParamsAddresses K authority as ctx = (Inr (), ctx') \<Longrightarrow> wasm_step K ctx ctx'"
| step_RemoveCircuit: "RemoveCircuitUploadParamsAddresses K authority as ctx = (Inr (), ctx') \<Longrightarrow> wasm_step K ctx ctx'"
| step_EndBlock: "wasm_EndBlock K E ctx = (Inr (), ctx') \<Longrightarrow> wasm_step K ctx ctx'"
| step_GetCircuit: "GetCircuit K i ctx = (Inr b, ctx') \<Longrightarrow> wasm_step K ctx ctx'"
| step_other: "wkv (gstore ctx') = wkv (gstore ctx) \<Longrightarrow> wasm_step K ctx ctx'"

inductive wasm_reach :: "('v, 'w, 'g) wasm_keeper \<Rightarrow> ('v, 'w, 'g) wasm_ctx \<Rightarrow> ('v, 'w, 'g) wasm_ctx \<Rightarrow> bool" for K where
  reach_here: "wasm_reach K ctx ctx"
| reach_step: "wasm_reach K ctx ctx' \<Longrightarrow> wasm_step K ctx' ctx'' \<Longrightarrow> wasm_reach K ctx ctx''"

lemma add_circuit_keeps:
  assumes laws: "address_laws (wk_sdk K)" and inv: "circuit_inv (wk_sdk K) (kv_of ctx)"
    and room: "PeekAutoIncrementID (kv_of ctx) KeySequenceCircuitID \<noteq> Inr (- 1)"
    and addr: "AccAddressFromBech32 (wk_sdk K) s = Inr a"
    and run: "store_circuit K E (Some a) p vk acc authZ ctx = (Inr (i, ck), ctx')"
  shows "circuit_inv (wk_sdk K) (kv_of ctx')"
proof -
  note C = store_circuit_effect(1,2) [OF run]
  have "addr_ok a" "AccAddressFromBech32 (wk_sdk K) (AccAddressString (wk_sdk K) a) = Inr a"
    using laws addr bech32_lawsD(4) by (auto simp: address_laws_def addr_ok_def)
  then show ?thesis using C room kv_add_circuit_inv [OF inv] by (auto simp: NewCircuitInfoWithLayout_def)
qed

lemma params_frame: "framed (kv_of ctx) (kv_of (WasmSetParams ps ctx))"
  by (simp add: WasmSetParams_def framed_set other_keys)

lemma wasm_step_keeps:
  assumes laws: "address_laws (wk_sdk K)" and inv: "circuit_inv (wk_sdk K) (kv_of ctx)" and step: "wasm_step K ctx ctx'"
  shows "circuit_inv (wk_sdk K) (kv_of ctx')"
  using step
proof cases
  case (step_StoreCircuit E msgZ r)
  then show ?thesis using add_circuit_keeps [OF laws inv] by (cases r) (auto simp: StoreCircuitMsg_def bindR_ok)
next
  case (step_StoreFullCircuit E msgF f)
  then obtain a ctx1 p ck i ck' where a: "AccAddressFromBech32 (wk_sdk K) (fc_Sender msgF) = Inr a"
    and v: "store_vk_param K E (Some a) (fc_K msgF) (CircuitParamBinaryFile msgF) (selectAuthorizationPolicy K E (fc_Sender msgF)) ctx
        = (Inr (p, ck), ctx1)"
    and z: "\<exists>c. store_circuit K E (Some a) p (CircuitVkBinaryFile msgF) None (selectAuthorizationPolicy K E (fc_Sender msgF)) ctx1
        = (Inr (i, ck'), c) \<and> kv_of ctx' = kv_of c"
    by (auto simp: StoreFullCircuitMsg_def store_full_circuit_def bindR_ok)
  note fr = store_vk_param_frame(1) [OF v]
  have "PeekAutoIncrementID (kv_of ctx1) KeySequenceCircuitID \<noteq> Inr (- 1)"
    using fr step_StoreFullCircuit(1) same_gc_keys(5) [of "kv_of ctx1" "kv_of ctx"] by (simp add: framed_def)
  then show ?thesis using z add_circuit_keeps [OF laws framed_inv [OF fr inv] _ a] by metis
next
  case (step_Pay E sender years u)
  then obtain a where "AccAddressFromBech32 (wk_sdk K) sender = Inr a" and p: "PayCircuitDeposit K E a years ctx = (Inr u, ctx')"
    by (auto simp: PayCircuitDepositMsg_def bindR_ok)
  then have "addr_ok a" using laws by (auto simp: address_laws_def addr_ok_def)
  then show ?thesis using pay_effect(4) [OF p] kv_pay_inv [OF inv] by simp
next
  case (step_EndBlock E)
  then show ?thesis using gc_stepD(1) [OF end_block_step(1) [OF inv]] by blast
next
  case (step_StoreCode E msgC r)
  then show ?thesis using framed_inv [OF create_code_frame inv] by (cases r) (auto simp: StoreCodeMsg_def bindR_ok)
next
  case (step_StoreVkParam E msgV r)
  then show ?thesis using framed_inv [OF store_vk_param_frame(1) inv] by (cases r) (auto simp: StoreVkParamMsg_def bindR_ok)
next
  case step_PinCodes
  then show ?thesis using framed_inv [OF each_id_frame [OF pin_frame(1)] inv] by (auto simp: PinCodes_def bindR_ok)
next
  case step_UnpinCodes
  then show ?thesis using framed_inv [OF each_id_frame [OF pin_frame(2)] inv] by (auto simp: UnpinCodes_def bindR_ok)
next
  case step_UnpinCircuits
  then show ?thesis using framed_inv [OF each_id_frame [OF pin_frame(3)] inv] by (auto simp: UnpinCircuits_def handler_ok)
next
  case (step_GetCircuit i b)
  then have "framed (kv_of ctx) (kv_of ctx')"
    by (auto simp: GetCircuit_def bindR_ok framed_set other_keys GetCircuitBytesKey_def split: option.splits wasm_val.splits)
  then show ?thesis using framed_inv inv by blast
qed (use inv framed_inv [OF params_frame inv] in \<open>auto simp: WasmUpdateParams_def AddCodeUploadParamsAddresses_def
    RemoveCodeUploadParamsAddresses_def AddCircuitUploadParamsAddresses_def RemoveCircuitUploadParamsAddresses_def handler_ok\<close>)

lemma wasm_reach_keeps:
  assumes "wasm_reach K ctx ctx'" and "address_laws (wk_sdk K)" and "circuit_inv (wk_sdk K) (kv_of ctx)"
  shows "circuit_inv (wk_sdk K) (kv_of ctx')"
  using assms by (induction rule: wasm_reach.induct) (auto intro: wasm_step_keeps)

text \<open>The store as genesis leaves it when it has no circuits.\<close>

lemma circuit_inv_start: "circuit_inv S [([CHR 0x10], ParamsVal ps)]"
  by (simp add: circuit_inv_def kv_wf_def kv_has_def kv_get_def depositee_get_def raw_value_def creator_of_def GetCircuitInfo_def
      PeekAutoIncrementID_def key_defs)

end
