(* ===== verification/CircuitProps.thy ===== *)
theory CircuitProps
  imports CircuitSteps
begin

text \<open>
  The properties of the circuit part of \<open>x/wasm\<close> over its reachable states: consistency of its indexes, what
  the collector keeps and removes, who may upload, what a payment does and what a settlement pays out.  The
  instance at the start runs an upload and a payment on a small ledger.
\<close>

section \<open>An instance\<close>

text \<open>A keeper over the small ledger: addresses are bounded, the machine stores what it is given.\<close>

definition circuit_sdk :: "ledger sdk" where
  "circuit_sdk = ledger_sdk\<lparr>AccAddressFromBech32 := (\<lambda>s. if s \<noteq> [] \<and> length s \<le> 255 \<and> list_all addr_char s then Inr s
                                                else Inl (Plain ''decoding bech32 failed''))\<rparr>"

definition echo_engine :: "unit wasm_engine" where
  "echo_engine =
     \<lparr>StoreParam = (\<lambda>bz v. (Inr (replicate 36 CHR 0x01), v)), StoreCircuit = (\<lambda>bz g v. ((Inr ''sum'', 0), v)),
      SimulateStoreCircuit = (\<lambda>bz g v. ((Inr ''sum'', 0), v)), StoreCode = (\<lambda>bz g v. ((Inr ''sum'', 0), v)),
      SimulateStoreCode = (\<lambda>bz g v. ((Inr ''sum'', 0), v)), AnalyzeCode = (\<lambda>c v. Inr []),
      UnpinCircuitVM = (\<lambda>c v. (Inr (), v)), RemoveCircuitVM = None, SyncPinnedCodes = (\<lambda>cs v. (Inr (), v)),
      SyncPinnedCircuits = (\<lambda>cs v. (Inr (), v)), GetCircuitVM = (\<lambda>c v. Inr None)\<rparr>"

definition circuit_keeper :: "(unit, ledger, u64 \<times> u64) wasm_keeper" where
  "circuit_keeper =
     \<lparr>wk_sdk = circuit_sdk, wk_coins = ref_coins, wk_meter = ref_meter, wasmVM = echo_engine,
      gasRegister = DefaultGasRegisterConfig, wk_authority = ''gov'',
      ValidateAuthority = (\<lambda>a b. if a = b then Inr () else Inl ErrUnauthorized), propagateGovAuthorization = [],
      Sha256 = (\<lambda>bz. replicate 32 CHR 0x01), GzipReadAll = (\<lambda>bz l. Inr bz),
      circuitDepositYearly = \<lparr>Denom = ''uterp'', Amount = 101\<rparr>, GetAllBalances = (\<lambda>w a. [\<lparr>Denom = ''uterp'', Amount = 10\<rparr>]),
      NewModuleAddress = (\<lambda>m. m), GetBondedValidatorsByPower = None, ValAddressFromBech32 = Inr,
      circuitWeight = None, CoinsString = (\<lambda>cs. [])\<rparr>"

lemma circuit_keeper_sel [simp]:
  "wk_sdk circuit_keeper = circuit_sdk" "wk_coins circuit_keeper = ref_coins"
  by (simp_all add: circuit_keeper_def)

lemma circuit_sdk_laws: "address_laws circuit_sdk"
  by (auto simp: address_laws_def bech32_laws_def circuit_sdk_def ledger_sdk_def Suc_le_eq list_all_iff addr_char_def less_eq_char_def split: if_splits)

lemma circuit_pool_ok: "pool_ok circuit_keeper"
  by (simp add: pool_ok_def circuit_keeper_def circuit_sdk_def ledger_sdk_def ledger_send_def ref_coins_def)

definition block_env :: "i64 \<Rightarrow> wasm_env" where
  "block_env t =
     \<lparr>BlockTimeUnix = t, BlockHeight = 1, ExecModeSimulate = False, SubMsgAuthzPolicy = None,
      CIRCUIT_EPOCH_DURATION_SECONDS = [], MAX_CIRCUIT_SIZE = []\<rparr>"

definition nobody_params :: WasmParams where
  "nobody_params = WasmDefaultParams\<lparr>CircuitUploadAccess := \<lparr>Permission = AccessTypeNobody, Addresses = []\<rparr>\<rparr>"

definition full_msg :: MsgStoreFullCircuit where
  "full_msg = \<lparr>fc_Sender = ''gov'', fc_K = Some 4, CircuitParamBinaryFile = ''parameters'', CircuitVkBinaryFile = ''the key body''\<rparr>"

definition start_kv :: "wasm_val kv" where
  "start_kv = [([CHR 0x10], ParamsVal nobody_params)]"

definition uploaded_kv :: "wasm_val kv" where
  "uploaded_kv =
     kv_add_circuit ''gov'' 1 (NewCircuitInfoWithLayout circuit_sdk ''sum'' ''gov'' AllowEverybody 0 10 0 12) 1 ''parametersthe key body''
       (kv_set (GetVkParamBytesKey 1) (Bytes ''parameters'')
         (kv_set (GetVkParamId 1) (VkParamVal (NewVkParamInfo circuit_sdk 1 (replicate 36 CHR 0x01) ''gov''))
           (kv_set KeySequenceVkParamID (Bytes (Uint64ToBigEndian 2)) start_kv)))"

lemma start_kv_get: "kv_get start_kv k = (if k = [CHR 0x10] then Some (ParamsVal nobody_params) else None)"
  by (simp add: start_kv_def kv_get_def)

definition ctx_with :: "wasm_val kv \<Rightarrow> ledger \<Rightarrow> u64 \<times> u64 \<Rightarrow> Event list \<Rightarrow> (unit, ledger, u64 \<times> u64) wasm_ctx" where
  "ctx_with kv w m es = \<lparr>gstore = \<lparr>wkv = kv, vm = (), world = w\<rparr>, meter = m, evs = es\<rparr>"

definition start_world :: ledger where
  "start_world = credit ''gov'' [\<lparr>Denom = ''uterp'', Amount = 1000\<rparr>] ledger0"

lemma uploaded_run:
  "\<exists>es. StoreFullCircuitMsg circuit_keeper (block_env 2) full_msg (ctx_with start_kv start_world (1000000, 0) []) =
     (Inr (1, 1, replicate 36 CHR 0x01, ''sum''), ctx_with uploaded_kv start_world (1000000, 1) es)"
proof -
  have v: "MsgStoreFullCircuit_ValidateBasic circuit_sdk [] full_msg = Inr ()" by code_simp
  have a: "AccAddressFromBech32 circuit_sdk ''gov'' = Inr ''gov''" by code_simp
  have p: "selectAuthorizationPolicy circuit_keeper (block_env 2) ''gov'' = GovAuthorizationPolicy []" by code_simp
  have e: "MAX_CIRCUIT_SIZE (block_env 2) = []" "fc_Sender full_msg = ''gov''" "fc_K full_msg = Some 4" "ExecModeSimulate (block_env 2) = False"
    "CircuitParamBinaryFile full_msg = ''parameters''" "CircuitVkBinaryFile full_msg = ''the key body''"
    by (simp_all add: block_env_def full_msg_def)
  have w: "AccessType_With circuit_sdk (InstantiateDefaultPermission nobody_params) [''gov''] = Inr AllowEverybody" by code_simp
  have z: "\<not> IsGzip ''parameters''" "\<not> IsGzip ''the key body''" by code_simp+
  have K: "wasmVM circuit_keeper = echo_engine" "Sha256 circuit_keeper = (\<lambda>bz. replicate 32 CHR 0x01)"
    "wk_meter circuit_keeper = ref_meter" "gasRegister circuit_keeper = DefaultGasRegisterConfig"
    by (simp_all add: circuit_keeper_def)
  have g: "UncompressCosts DefaultGasRegisterConfig 10 = Inr 1" by code_simp
  have m: "MeterConsume ref_meter 1 (1000000, 0) = (Inr (), (1000000, 1))" by code_simp
  have r: "runtimeGasForContract DefaultGasRegisterConfig ref_meter (1000000, 1) = Inr 139999860000"
    "consumeRuntimeGas DefaultGasRegisterConfig ref_meter 0 (1000000, 1) = (Inr (), (1000000, 1))" by code_simp+
  show ?thesis
    by (simp add: StoreFullCircuitMsg_def v a p e store_full_circuit_def store_vk_param_def w unpack_def z K authorizeCircuitUpload_def
        echo_engine_def on_vm_def on_kv_def on_meter_def wrapR_def mustAutoIncrementID_def charge_uncompress_def g m r ctx_with_def
        WasmGetParams_def kv_simps start_kv_get key_defs raw_value_def mustStoreVkParamInfo_def emit_def EmitEvents_def Let_def
        store_circuit_def GetVkParamInfo_def getVkParamBytes_def param_integrity_def NewVkParamInfo_def run_vm_def
        mustStoreCircuitInfo_def mustStoreCircuitParamRef_def setCircuitCreatorIndex_def mustStoreCircuitBytes_def
        kv_add_circuit_def uploaded_kv_def del: kv_set.simps)
qed

definition paid_world :: ledger where
  "paid_world = snd (ledger_send ''gov'' ''circuit_dev_pool'' [\<lparr>Denom = ''uterp'', Amount = 51\<rparr>]
     (snd (ledger_send ''gov'' ''circuit_val_pool'' [\<lparr>Denom = ''uterp'', Amount = 50\<rparr>] start_world)))"

lemma uploaded_params: "WasmGetParams uploaded_kv = Inr nobody_params"
  by (simp add: uploaded_kv_def kv_add_circuit_def WasmGetParams_def kv_simps start_kv_get key_defs del: kv_set.simps)

lemma uploaded_deposit: "depositee_get uploaded_kv a = None"
  by (simp add: uploaded_kv_def kv_add_circuit_def depositee_get_def raw_value_def kv_simps start_kv_get key_defs del: kv_set.simps)

lemma uploaded_creator: "creator_of circuit_sdk uploaded_kv = [1 \<mapsto> ''gov'']"
proof -
  have a: "AccAddressFromBech32 circuit_sdk (AccAddressString circuit_sdk ''gov'') = Inr ''gov''" by code_simp
  show ?thesis
    unfolding uploaded_kv_def
    by (subst kv_add_circuit_proj(4) [of _ _ "''gov''"])
      (simp_all add: NewCircuitInfoWithLayout_def a fun_eq_iff creator_of_def GetCircuitInfo_def kv_simps start_kv_get key_defs del: kv_set.simps)
qed

lemma paid_run:
  "\<exists>es'. PayCircuitDepositMsg circuit_keeper (block_env 3) ''gov'' 1 (ctx_with uploaded_kv start_world m es) =
     (Inr 31536003, ctx_with (kv_pay 31536003 ''gov'' uploaded_kv) paid_world m es')"
proof -
  have v: "MsgPayCircuitDeposit_ValidateBasic circuit_sdk ''gov'' 1 = Inr ()" by code_simp
  have a: "AccAddressFromBech32 circuit_sdk ''gov'' = Inr ''gov''" by code_simp
  have t: "block_now (block_env 3) = 3" by code_simp
  have K: "circuitDepositYearly circuit_keeper = \<lparr>Denom = ''uterp'', Amount = 101\<rparr>" by (simp add: circuit_keeper_def)
  have c: "NewCoin ref_coins ''uterp'' 101 = Inr \<lparr>Denom = ''uterp'', Amount = 101\<rparr>"
    "NewCoins circuit_sdk [\<lparr>Denom = ''uterp'', Amount = 101\<rparr>] = Inr [\<lparr>Denom = ''uterp'', Amount = 101\<rparr>]"
    "SplitCircuitRunway ref_coins [\<lparr>Denom = ''uterp'', Amount = 101\<rparr>] =
       Inr ([\<lparr>Denom = ''uterp'', Amount = 50\<rparr>], [\<lparr>Denom = ''uterp'', Amount = 51\<rparr>])"
    by code_simp+
  have d: "CircuitDevDestination nobody_params = []" by code_simp
  have s: "SendCoinsFromAccountToModule circuit_sdk = ledger_send" by (simp add: circuit_sdk_def ledger_sdk_def)
  show ?thesis
    by (simp add: PayCircuitDepositMsg_def v a PayCircuitDeposit_def t K c receiveCircuitRunwayPayment_def s d ctx_with_def on_world_def
        uploaded_params uploaded_deposit paid_world_def ledger_send_def covers_def credit_def debit_def start_world_def ledger0_def
        kv_pay_def kv_add_deposit_def setCircuitDepositExpiry_def depositee_set_def deleteCircuitDepositGC_def on_kv_def emit_def EmitEvents_def Let_def
        del: kv_set.simps)
qed


section \<open>Consistency\<close>

lemma reach_uploaded:
  "\<exists>es. wasm_reach circuit_keeper (ctx_with start_kv start_world (1000000, 0) []) (ctx_with uploaded_kv start_world (1000000, 1) es)"
proof -
  have "PeekAutoIncrementID (kv_of (ctx_with start_kv start_world (1000000, 0) [])) KeySequenceCircuitID \<noteq> Inr (- 1)"
    by (simp add: ctx_with_def PeekAutoIncrementID_def raw_value_def start_kv_get KeySequenceCircuitID_def)
  then show ?thesis using uploaded_run by (blast intro: reach_here reach_step step_StoreFullCircuit)
qed

lemma reach_paid:
  "\<exists>es. wasm_reach circuit_keeper (ctx_with start_kv start_world (1000000, 0) [])
     (ctx_with (kv_pay 31536003 ''gov'' uploaded_kv) paid_world (1000000, 1) es)"
proof -
  obtain es where u: "wasm_reach circuit_keeper (ctx_with start_kv start_world (1000000, 0) []) (ctx_with uploaded_kv start_world (1000000, 1) es)"
    using reach_uploaded by blast
  obtain es' where p: "PayCircuitDepositMsg circuit_keeper (block_env 3) ''gov'' 1 (ctx_with uploaded_kv start_world (1000000, 1) es) =
      (Inr 31536003, ctx_with (kv_pay 31536003 ''gov'' uploaded_kv) paid_world (1000000, 1) es')"
    using paid_run by blast
  show ?thesis by (rule exI, rule reach_step [OF u step_Pay [OF p]])
qed

text \<open>
  C5.  In every state the module reaches from a genesis without circuits, by any sequence of its messages, ends of
  blocks and steps of other modules, its circuit store is consistent: the expiry index lists exactly the
  deposits, an address marked for collection has no deposit, the index by creator lists exactly the circuits,
  every circuit has an owner, and every id is below the next one that is handed out.
\<close>

theorem wasm_circuit_store_consistent:
  assumes "address_laws (wk_sdk K)" and "wasm_reach K ctx ctx'" and "kv_of ctx = [([CHR 0x10], ParamsVal ps)]"
  shows "circuit_inv (wk_sdk K) (kv_of ctx')"
  using wasm_reach_keeps [OF assms(2,1)] circuit_inv_start [of "wk_sdk K" ps] assms(3) by simp

theorem wasm_circuit_store_consistent_witness:
  "\<exists>es. wasm_reach circuit_keeper (ctx_with start_kv start_world (1000000, 0) [])
      (ctx_with (kv_pay 31536003 ''gov'' uploaded_kv) paid_world (1000000, 1) es) \<and>
    circuit_inv circuit_sdk (kv_pay 31536003 ''gov'' uploaded_kv)"
proof -
  obtain es where r: "wasm_reach circuit_keeper (ctx_with start_kv start_world (1000000, 0) [])
      (ctx_with (kv_pay 31536003 ''gov'' uploaded_kv) paid_world (1000000, 1) es)" using reach_paid by blast
  have "kv_of (ctx_with start_kv start_world (1000000, 0) []) = [([CHR 0x10], ParamsVal nobody_params)]"
    by (simp add: ctx_with_def start_kv_def)
  from wasm_circuit_store_consistent [OF _ r this] circuit_sdk_laws r show ?thesis by (auto simp: ctx_with_def)
qed

section \<open>The collector\<close>

lemma kv_pay_params: "WasmGetParams (kv_pay u a kv) = WasmGetParams kv"
  by (simp add: WasmGetParams_def kv_pay_def kv_add_deposit_get kv_simps split: option.splits)

lemma covered_not_pending:
  assumes "circuit_inv S kv" and "HasCircuitDeposit E kv a"
  shows "\<not> marked kv a" and "\<not> expired (nat (block_now E)) kv a"
proof -
  obtain u where u: "depositee_get kv a = Some u" "block_now E < sint u"
    using assms(2) by (auto simp: HasCircuitDeposit_def split: option.splits)
  show "\<not> marked kv a"
    using circuit_invD(4) [OF assms(1)] gc_key_inj u(1) unfolding marked_def by (metis option.distinct(1))
  have "uint u = sint u" using u(2) block_now_bounds(1) [of E] by (intro sint_nonneg_uint) linarith
  then have "int (nat (block_now E)) < int (unat u)" using u(2) block_now_bounds(1) [of E] unfolding uint_nat by linarith
  then show "\<not> expired (nat (block_now E)) kv a" using u(1) unfolding expired_def by (metis not_less of_nat_less_iff option.inject)
qed

text \<open>
  C9.  The end of a block does not touch an address that is covered: its deposit stays, and so does every circuit
  it uploaded, record and bytes.
\<close>

theorem wasm_covered_circuits_kept:
  assumes "address_laws (wk_sdk K)" and "wasm_reach K ctx0 ctx" and "kv_of ctx0 = [([CHR 0x10], ParamsVal ps)]"
    and "wasm_EndBlock K E ctx = (Inr (), ctx')" and "HasCircuitDeposit E (kv_of ctx) a"
  shows "depositee_get (kv_of ctx') a = depositee_get (kv_of ctx) a \<and>
    (\<forall>i. creator_of (wk_sdk K) (kv_of ctx) i = Some a \<longrightarrow>
       GetCircuitInfo (kv_of ctx') i = GetCircuitInfo (kv_of ctx) i \<and>
       kv_get (kv_of ctx') (GetCircuitBytesKey i) = kv_get (kv_of ctx) (GetCircuitBytesKey i))"
proof -
  have inv: "circuit_inv (wk_sdk K) (kv_of ctx)"
    using wasm_reach_keeps [OF assms(2,1)] circuit_inv_start [of "wk_sdk K" ps] assms(3) by simp
  note N = covered_not_pending [OF inv assms(5)] and D = gc_stepD [OF end_block_step(1) [OF inv assms(4)]]
  show ?thesis using N D(3) [of a] D(4) by (metis option.inject)
qed

theorem wasm_covered_circuits_kept_witness:
  "\<exists>ctx'. wasm_EndBlock circuit_keeper (block_env 5) ctx' = (Inr (), snd (wasm_EndBlock circuit_keeper (block_env 5) ctx')) \<and>
     depositee_get (kv_of (snd (wasm_EndBlock circuit_keeper (block_env 5) ctx'))) ''gov'' = Some 31536003 \<and>
     GetCircuitInfo (kv_of (snd (wasm_EndBlock circuit_keeper (block_env 5) ctx'))) 1 \<noteq> None"
proof -
  let ?kv = "kv_pay 31536003 ''gov'' uploaded_kv"
  obtain es where r: "wasm_reach circuit_keeper (ctx_with start_kv start_world (1000000, 0) []) (ctx_with ?kv paid_world (1000000, 1) es)"
    using reach_paid by blast
  let ?ctx = "ctx_with ?kv paid_world (1000000, 1) es"
  have s: "kv_of (ctx_with start_kv start_world (1000000, 0) []) = [([CHR 0x10], ParamsVal nobody_params)]"
    by (simp add: ctx_with_def start_kv_def)
  have kv: "kv_of ?ctx = ?kv" by (simp add: ctx_with_def)
  have row: "depositee_get (kv_of ?ctx) ''gov'' = Some 31536003" by (simp add: kv kv_pay_proj)
  have cov: "HasCircuitDeposit (block_env 5) (kv_of ?ctx) ''gov''"
    unfolding HasCircuitDeposit_def row by (simp add: block_now_def block_env_def)
  have cr: "creator_of circuit_sdk (kv_of ?ctx) 1 = Some ''gov''"
    using uploaded_creator by (simp add: kv creator_of_def kv_pay_proj fun_eq_iff split: option.splits)
  have acc: "upload_access_known (kv_of ?ctx)"
    using uploaded_params by (simp add: kv upload_access_known_def kv_pay_params nobody_params_def getCircuitUploadAccessConfig_def WasmDefaultParams_def)
  obtain ctx' where run: "wasm_EndBlock circuit_keeper (block_env 5) ?ctx = (Inr (), ctx')"
    using end_block_ok [OF circuit_pool_ok acc] by blast
  have "depositee_get (kv_of ctx') ''gov'' = Some 31536003 \<and> GetCircuitInfo (kv_of ctx') 1 = GetCircuitInfo (kv_of ?ctx) 1"
    using wasm_covered_circuits_kept [OF _ r s run cov] circuit_sdk_laws row cr by simp
  then show ?thesis using run creator_of_info [OF cr] by (intro exI [of _ ?ctx]) auto
qed

lemma paid_example:
  "\<exists>ctx. wasm_reach circuit_keeper (ctx_with start_kv start_world (1000000, 0) []) ctx \<and> kv_of ctx = kv_pay 31536003 ''gov'' uploaded_kv \<and>
     upload_access_known (kv_of ctx) \<and> creator_of circuit_sdk (kv_of ctx) 1 = Some ''gov'' \<and>
     depositee_get (kv_of ctx) ''gov'' = Some 31536003 \<and> \<not> circuit_allowed circuit_sdk (kv_of ctx) ''gov''"
proof -
  let ?kv = "kv_pay 31536003 ''gov'' uploaded_kv"
  obtain es where r: "wasm_reach circuit_keeper (ctx_with start_kv start_world (1000000, 0) []) (ctx_with ?kv paid_world (1000000, 1) es)"
    using reach_paid by blast
  have "upload_access_known ?kv" "\<not> circuit_allowed circuit_sdk ?kv ''gov''"
    using uploaded_params by (simp_all add: upload_access_known_def circuit_allowed_def kv_pay_params nobody_params_def
        getCircuitUploadAccessConfig_def WasmDefaultParams_def Allowed_def)
  moreover have "creator_of circuit_sdk ?kv 1 = Some ''gov''"
    using uploaded_creator by (simp add: creator_of_def kv_pay_proj fun_eq_iff split: option.splits)
  moreover have "kv_of (ctx_with ?kv paid_world (1000000, 1) es) = ?kv" by (simp add: ctx_with_def)
  ultimately show ?thesis using r by (intro exI [of _ "ctx_with ?kv paid_world (1000000, 1) es"]) (simp add: kv_pay_proj)
qed

text \<open>
  C21.  The end of a block removes at most two circuits and at most eight deposits, and only circuits whose
  owner has an expired deposit or is marked for collection; the ids it removes are the only ones that go.
\<close>

theorem wasm_gc_bounded:
  assumes "address_laws (wk_sdk K)" and "wasm_reach K ctx0 ctx" and "kv_of ctx0 = [([CHR 0x10], ParamsVal ps)]"
    and "wasm_EndBlock K E ctx = (Inr (), ctx')"
  shows "card {i. GetCircuitInfo (kv_of ctx') i \<noteq> GetCircuitInfo (kv_of ctx) i} \<le> 2 \<and>
    card {a. depositee_get (kv_of ctx') a \<noteq> depositee_get (kv_of ctx) a} \<le> 8 \<and>
    (\<forall>i. GetCircuitInfo (kv_of ctx') i \<noteq> GetCircuitInfo (kv_of ctx) i \<longrightarrow> GetCircuitInfo (kv_of ctx') i = None \<and>
       (\<exists>a. creator_of (wk_sdk K) (kv_of ctx) i = Some a \<and> pending (nat (block_now E)) (kv_of ctx) a))"
proof -
  have inv: "circuit_inv (wk_sdk K) (kv_of ctx)"
    using wasm_reach_keeps [OF assms(2,1)] circuit_inv_start [of "wk_sdk K" ps] assms(3) by simp
  note D = gc_stepD [OF end_block_step(1) [OF inv assms(4)]]
  have "{i. GetCircuitInfo (kv_of ctx') i \<noteq> GetCircuitInfo (kv_of ctx) i} = gone_circuits (kv_of ctx) (kv_of ctx')"
    using D(4) unfolding gone_circuits_def by (intro set_eqI) (metis (mono_tags, lifting) mem_Collect_eq)
  moreover have "{a. depositee_get (kv_of ctx') a \<noteq> depositee_get (kv_of ctx) a} = gone_deposits (kv_of ctx) (kv_of ctx')"
    using D(3) unfolding gone_deposits_def by (intro set_eqI) (metis (mono_tags, lifting) mem_Collect_eq)
  moreover have "GetCircuitInfo (kv_of ctx') i = None \<and> (\<exists>a. creator_of (wk_sdk K) (kv_of ctx) i = Some a \<and> pending (nat (block_now E)) (kv_of ctx) a)"
    if "GetCircuitInfo (kv_of ctx') i \<noteq> GetCircuitInfo (kv_of ctx) i" for i
    using D(4) [of i] that unfolding pending_def by metis
  ultimately show ?thesis using D(7,8) by simp
qed

theorem wasm_gc_bounded_witness:
  "\<exists>ctx ctx'. creator_of circuit_sdk (kv_of ctx) 1 = Some ''gov'' \<and>
     wasm_EndBlock circuit_keeper (block_env 40000000) ctx = (Inr (), ctx') \<and>
     card {i. GetCircuitInfo (kv_of ctx') i \<noteq> GetCircuitInfo (kv_of ctx) i} \<le> 2"
proof -
  obtain ctx where r: "wasm_reach circuit_keeper (ctx_with start_kv start_world (1000000, 0) []) ctx"
    and acc: "upload_access_known (kv_of ctx)" and cr: "creator_of circuit_sdk (kv_of ctx) 1 = Some ''gov''"
    using paid_example by blast
  have s: "kv_of (ctx_with start_kv start_world (1000000, 0) []) = [([CHR 0x10], ParamsVal nobody_params)]"
    by (simp add: ctx_with_def start_kv_def)
  obtain ctx' where run: "wasm_EndBlock circuit_keeper (block_env 40000000) ctx = (Inr (), ctx')"
    using end_block_ok [OF circuit_pool_ok acc] by blast
  show ?thesis using wasm_gc_bounded [OF _ r s run] circuit_sdk_laws cr run by (intro exI [of _ ctx] exI [of _ ctx']) simp
qed


lemma card_keys:
  assumes "inj_on f X" and "\<And>x. x \<in> X \<Longrightarrow> kv_get kv (f x) \<noteq> None"
  shows "card X \<le> length kv"
proof -
  have "f ` X \<subseteq> fst ` set kv" using assms(2) by (force simp: kv_get_def map_of_eq_None_iff)
  then have "card X \<le> card (fst ` set kv)" by (rule card_inj_on_le [OF assms(1)]) simp
  also have "\<dots> \<le> length kv" using card_length [of "map fst kv"] by simp
  finally show ?thesis .
qed

lemma gc_measure_bound: "gc_measure kv \<le> 4 * length kv"
proof -
  have "card {i. GetCircuitInfo kv i \<noteq> None} \<le> length kv"
    by (rule card_keys [of GetCircuitKey]) (auto simp: inj_on_def GetCircuitKey_def GetCircuitInfo_def split: option.splits)
  moreover have "card {a. marked kv a} \<le> length kv"
    by (rule card_keys [of "\<lambda>a. CHR 0x1C # GetCircuitDepositGCKey a"]) (auto simp: inj_on_def marked_def kv_has_def gc_key_inj)
  moreover have "card {a. depositee_get kv a \<noteq> None} \<le> length kv"
    by (rule card_keys [of "\<lambda>a. CHR 0x1A # a"]) (auto simp: inj_on_def depositee_get_def raw_value_def split: option.splits)
  ultimately show ?thesis by (simp add: gc_measure_def)
qed


section \<open>Uploads\<close>

lemma authorized_upload:
  assumes "authorizeCircuitUpload K E a acc DefaultAuthorizationPolicy kv = Inr ()"
  shows "circuit_allowed (wk_sdk K) kv a \<or> HasCircuitDeposit E kv a"
  using assms by (auto simp: authorizeCircuitUpload_def circuit_allowed_def Let_def split: sum.splits option.splits bool.splits if_splits)


definition alice_msg :: MsgStoreCircuit where
  "alice_msg = \<lparr>cir_Sender = ''alice'', CircuitParamKey = 1, CircuitBinaryFile = ''the key body'', cir_InstantiatePermission = None\<rparr>"

lemma alice_run:
  "\<exists>ctx'. StoreCircuitMsg circuit_keeper (block_env 5) alice_msg (ctx_with (kv_pay 31536003 ''alice'' uploaded_kv) w (1000000, 1) es) =
     (Inr (2, ''sum''), ctx')"
proof -
  have v: "MsgStoreCircuit_ValidateBasic circuit_sdk [] alice_msg = Inr ()" by code_simp
  have a: "AccAddressFromBech32 circuit_sdk ''alice'' = Inr ''alice''" by code_simp
  have p: "selectAuthorizationPolicy circuit_keeper (block_env 5) ''alice'' = DefaultAuthorizationPolicy" by code_simp
  have e: "MAX_CIRCUIT_SIZE (block_env 5) = []" "cir_Sender alice_msg = ''alice''" "ExecModeSimulate (block_env 5) = False"
    "CircuitParamKey alice_msg = 1" "CircuitBinaryFile alice_msg = ''the key body''" "cir_InstantiatePermission alice_msg = None"
    by (simp_all add: block_env_def alice_msg_def)
  have ac: "AccessType_With circuit_sdk (InstantiateDefaultPermission nobody_params) [''alice''] = Inr AllowEverybody"
    "Allowed circuit_sdk (getCircuitUploadAccessConfig nobody_params) ''alice'' = Inr False" "IsSubset AllowEverybody AllowEverybody"
    by code_simp+
  have z: "\<not> IsGzip ''the key body''" by code_simp
  have K: "wasmVM circuit_keeper = echo_engine" "Sha256 circuit_keeper = (\<lambda>bz. replicate 32 CHR 0x01)"
    "wk_meter circuit_keeper = ref_meter" "gasRegister circuit_keeper = DefaultGasRegisterConfig"
    by (simp_all add: circuit_keeper_def)
  have r: "runtimeGasForContract DefaultGasRegisterConfig ref_meter (1000000, 1) = Inr 139999860000"
    "consumeRuntimeGas DefaultGasRegisterConfig ref_meter 0 (1000000, 1) = (Inr (), (1000000, 1))" by code_simp+
  have cov: "HasCircuitDeposit (block_env 5) (kv_pay 31536003 ''alice'' uploaded_kv) ''alice''"
    by (simp add: HasCircuitDeposit_def kv_pay_proj block_now_def block_env_def)
  have get: "kv_get (kv_pay 31536003 ''alice'' uploaded_kv) k = kv_get uploaded_kv k" if "hd k \<notin> {CHR 0x1A, CHR 0x1B, CHR 0x1C}" for k
    using that by (auto simp: kv_pay_def uploaded_deposit kv_add_deposit_get kv_simps)
  have sq: "be_uint64 (Uint64ToBigEndian 2) = Inr 2" by (rule be_uint64_bytes)
  have st: "GetVkParamInfo (kv_pay 31536003 ''alice'' uploaded_kv) 1 = Some (NewVkParamInfo circuit_sdk 1 (replicate 36 CHR 0x01) ''gov'')"
    "getVkParamBytes (kv_pay 31536003 ''alice'' uploaded_kv) 1 = Inr ''parameters''"
    "raw_value (kv_pay 31536003 ''alice'' uploaded_kv) KeySequenceCircuitID = Some (Uint64ToBigEndian 2)"
    by (simp_all add: GetVkParamInfo_def getVkParamBytes_def raw_value_def get key_defs)
      (simp_all add: uploaded_kv_def kv_add_circuit_get kv_simps key_defs del: kv_set.simps)
  show ?thesis
    by (simp add: StoreCircuitMsg_def v a p e unpack_def z K authorizeCircuitUpload_def kv_pay_params uploaded_params ac cov
        echo_engine_def on_vm_def on_meter_def wrapR_def mustAutoIncrementID_def r ctx_with_def sq st Let_def
        store_circuit_def param_integrity_def NewVkParamInfo_def run_vm_def del: kv_set.simps)
qed



section \<open>Payments\<close>

text \<open>\<open>sdk.NewCoins\<close> of one positive coin is that coin.\<close>

definition single_coin_law :: "'w sdk \<Rightarrow> bool" where
  "single_coin_law S \<longleftrightarrow> (\<forall>c cs. NewCoins S [c] = Inr cs \<and> 0 < Amount c \<longrightarrow> cs = [c])"

lemma split_single:
  assumes laws: "coin_set_laws A" and pos: "0 < Amount c" and run: "SplitCircuitRunway A [c] = Inr (v, d)"
  shows "coins_amount v x = (if x = Denom c then Amount c div 2 else 0)"
    and "coins_amount d x = (if x = Denom c then Amount c - Amount c div 2 else 0)"
    and "v = [] \<Longrightarrow> Amount c div 2 = 0" and "d \<noteq> []"
proof -
  have half: "int_quo (Amount c) 2 = Amount c div 2" using pos by (simp add: int_quo_nonneg)
  have rest: "0 < Amount c - Amount c div 2" using pos by simp
  have add: "coins_amount (CoinsAdd A [] [h]) x = (if x = Denom c then n else 0)" if "NewCoin A (Denom c) n = Inr h" for h n x
    using coin_set_lawsD(3) [OF laws, of "[]" "[h]" x] coin_set_lawsD(6) [OF laws that] by simp
  have v: "coins_amount v x = (if x = Denom c then Amount c div 2 else 0)" for x
    using run pos rest by (auto simp: SplitCircuitRunway_def half Let_def add split: sum.splits if_splits)
  have d: "coins_amount d x = (if x = Denom c then Amount c - Amount c div 2 else 0)" for x
    using run pos rest by (auto simp: SplitCircuitRunway_def half Let_def add split: sum.splits if_splits)
  show "coins_amount v x = (if x = Denom c then Amount c div 2 else 0)"
    "coins_amount d x = (if x = Denom c then Amount c - Amount c div 2 else 0)" by (fact v, fact d)
  show "v = [] \<Longrightarrow> Amount c div 2 = 0" using v [of "Denom c"] by simp
  show "d \<noteq> []" using d [of "Denom c"] rest by auto
qed

lemma on_world_run: "on_world f ctx = (r, ctx') \<Longrightarrow> f (world (gstore ctx)) = (r, world (gstore ctx'))"
  by (auto simp: on_world_def split: prod.splits)

lemma receive_single:
  assumes laws: "coin_set_laws (wk_coins K)" and bank: "bank_laws (wk_sdk K) supply bal modaddr" and pos: "0 < Amount c"
    and run: "receiveCircuitRunwayPayment K a [c] ctx = (Inr (), ctx')"
  shows "\<exists>p dev. WasmGetParams (kv_of ctx) = Inr p \<and>
    (if CircuitDevDestination p = [] then dev = modaddr ''circuit_dev_pool''
     else AccAddressFromBech32 (wk_sdk K) (CircuitDevDestination p) = Inr dev) \<and>
    supply (world (gstore ctx')) = supply (world (gstore ctx)) \<and>
    (\<forall>x d. bal (world (gstore ctx')) x d = bal (world (gstore ctx)) x d +
       (if d = Denom c then (if x = modaddr ''circuit_val_pool'' then Amount c div 2 else 0)
          + (if x = dev then Amount c - Amount c div 2 else 0) - (if x = a then Amount c else 0) else 0))"
proof -
  let ?w = "world (gstore ctx)"
  obtain v d where sp: "SplitCircuitRunway (wk_coins K) [c] = Inr (v, d)"
    using run by (auto simp: receiveCircuitRunwayPayment_def bindR_ok)
  note S = split_single [OF laws pos sp]
  obtain ctx1 where s1: "(if v \<noteq> [] then on_world (SendCoinsFromAccountToModule (wk_sdk K) a ''circuit_val_pool'' v) ctx else (Inr (), ctx)) = (Inr (), ctx1)"
    and s2: "bindR (WasmGetParams (kv_of ctx1), ctx1) (\<lambda>params ctx.
              if CircuitDevDestination params \<noteq> []
              then bindR (AccAddressFromBech32 (wk_sdk K) (CircuitDevDestination params), ctx) (\<lambda>addr.
                     on_world (SendCoins (wk_sdk K) a addr d))
              else on_world (SendCoinsFromAccountToModule (wk_sdk K) a ''circuit_dev_pool'' d) ctx) = (Inr (), ctx')"
    using run S(4) unfolding receiveCircuitRunwayPayment_def sp by (auto simp: bindR_ok)
  have kv: "kv_of ctx1 = kv_of ctx" using s1 on_world_kv by (auto split: if_splits)
  have m1: "supply (world (gstore ctx1)) = supply ?w \<and> (\<forall>x e. bal (world (gstore ctx1)) x e = bal ?w x e +
      (if x = modaddr ''circuit_val_pool'' then coins_amount v e else 0) - (if x = a then coins_amount v e else 0))"
    using s1 bank_lawsD(7) [OF bank] by (auto simp: on_world_def moved_def split: if_splits prod.splits)
  obtain p where p: "WasmGetParams (kv_of ctx) = Inr p" using s2 kv by (auto simp: bindR_ok)
  obtain dev where dev: "if CircuitDevDestination p = [] then dev = modaddr ''circuit_dev_pool''
      else AccAddressFromBech32 (wk_sdk K) (CircuitDevDestination p) = Inr dev"
    and m2: "moved supply bal a dev d (world (gstore ctx1)) (world (gstore ctx'))"
  proof (cases "CircuitDevDestination p = []")
    case True
    then have "on_world (SendCoinsFromAccountToModule (wk_sdk K) a ''circuit_dev_pool'' d) ctx1 = (Inr (), ctx')"
      using s2 p kv by simp
    from bank_lawsD(7) [OF bank on_world_run [OF this]] True that show ?thesis by simp
  next
    case False
    then obtain dev where dev: "AccAddressFromBech32 (wk_sdk K) (CircuitDevDestination p) = Inr dev"
      and send: "on_world (SendCoins (wk_sdk K) a dev d) ctx1 = (Inr (), ctx')"
      using s2 p kv by (auto simp: bindR_ok)
    from bank_lawsD(5) [OF bank on_world_run [OF send]] dev False that show ?thesis by simp
  qed
  show ?thesis using p dev m1 m2 by (intro exI [of _ p] exI [of _ dev]) (auto simp: moved_def S(1,2))
qed

definition yearly_fee :: "('v, 'w, 'g) wasm_keeper \<Rightarrow> Coin" where
  "yearly_fee K =
     (if \<not> 0 < Amount (circuitDepositYearly K) then \<lparr>Denom = ''stake'', Amount = 1000000\<rparr> else circuitDepositYearly K)"

lemma pay_receive:
  assumes single: "single_coin_law (wk_sdk K)" and laws: "coin_set_laws (wk_coins K)"
    and run: "PayCircuitDeposit K E a years ctx = (Inr u, ctx')"
  shows "\<exists>ctx1. receiveCircuitRunwayPayment K a [\<lparr>Denom = Denom (yearly_fee K), Amount = Amount (yearly_fee K) * uint years\<rparr>] ctx = (Inr (), ctx1) \<and>
     world (gstore ctx') = world (gstore ctx1)"
    and "0 < Amount (yearly_fee K) * uint years"
proof -
  have "0 < Amount (yearly_fee K)" by (simp add: yearly_fee_def)
  moreover have "0 < uint years" using pay_effect(1) [OF run] by (simp add: word_le_def)
  ultimately show pos: "0 < Amount (yearly_fee K) * uint years" by simp
  have w: "world (gstore (emit t as (deleteCircuitDepositGC x (setCircuitDepositExpiry y z (depositee_set z y
        (case ex of None \<Rightarrow> ctx1 | Some e \<Rightarrow> deleteCircuitDepositExpiry e z ctx1)))))) = world (gstore ctx1)" for t as x y z ex ctx1
    by (simp add: deleteCircuitDepositExpiry_def deleteCircuitDepositGC_def setCircuitDepositExpiry_def
        depositee_set_def on_kv_def emit_def EmitEvents_def split: option.splits)
  obtain c cs ctx1 where c: "NewCoin (wk_coins K) (Denom (yearly_fee K)) (Amount (yearly_fee K) * uint years) = Inr c"
    and cs: "NewCoins (wk_sdk K) [c] = Inr cs" and r: "receiveCircuitRunwayPayment K a cs ctx = (Inr (), ctx1)"
    and w: "world (gstore ctx') = world (gstore ctx1)"
    using run unfolding PayCircuitDeposit_def handler_ok yearly_fee_def [symmetric] by (auto simp: w)
  have "c = \<lparr>Denom = Denom (yearly_fee K), Amount = Amount (yearly_fee K) * uint years\<rparr>" by (rule coin_set_lawsD(6) [OF laws c])
  moreover from this have "cs = [c]" using single cs pos unfolding single_coin_law_def by auto
  ultimately show "\<exists>ctx1. receiveCircuitRunwayPayment K a [\<lparr>Denom = Denom (yearly_fee K), Amount = Amount (yearly_fee K) * uint years\<rparr>] ctx = (Inr (), ctx1) \<and>
     world (gstore ctx') = world (gstore ctx1)" using r w by auto
qed


text \<open>The time a payment is counted from; ten more years do not wrap.\<close>

definition covered_from :: "wasm_env \<Rightarrow> wasm_val kv \<Rightarrow> string \<Rightarrow> int" where
  "covered_from E kv a =
     (case depositee_get kv a of None \<Rightarrow> block_now E | Some ex \<Rightarrow> max (block_now E) (int (unat ex)))"

lemma paid_until_sint:
  assumes room: "covered_from E kv a + 31536000 * 10 < 2 ^ 63" and years: "years \<le> 10"
  shows "sint (paid_until E kv a years) = covered_from E kv a + 31536000 * uint years"
proof -
  define st :: u64 where "st = (case depositee_get kv a of None \<Rightarrow> of_int (block_now E)
    | Some ex \<Rightarrow> if of_int (block_now E) < ex then ex else of_int (block_now E))"
  have now: "uint (of_int (block_now E) :: u64) = block_now E"
    using block_now_bounds [of E] by (simp add: uint_word_of_int_eq take_bit_int_eq_self)
  have st: "uint st = covered_from E kv a"
    by (simp add: st_def covered_from_def word_less_def now max_def split: option.splits)
  have y: "uint years \<le> 10" using years by (simp add: word_le_def)
  have "uint (ucast years :: u64) = uint years" by (simp add: uint_up_ucast is_up)
  then have m: "uint (ucast years * 31536000 :: u64) = 31536000 * uint years"
    using y by (simp add: uint_word_ariths)
  have p: "paid_until E kv a years = st + ucast years * 31536000" by (simp add: paid_until_def st_def Let_def)
  have lt: "uint st + 31536000 * uint years < 2 ^ 63" using st room y by simp
  have "uint (paid_until E kv a years) = uint st + 31536000 * uint years"
    using lt by (simp add: p uint_word_ariths(1) m)
  moreover from this lt have "unat (paid_until E kv a years) < 2 ^ 63" by (simp add: unat_eq_nat_uint nat_less_iff)
  ultimately show ?thesis using sint_of_nat_small st by simp
qed

text \<open>
  C18.  A payment for a number of years covers its sender for that many years from the later of now and the end of
  the present cover, until that time and not beyond; it leaves every other deposit and every circuit as
  they are; and it moves the yearly fee times the years from the sender, half of it, rounded down, to the pool of the
  validators and the rest to the developers' destination.
\<close>

theorem wasm_payment_effect:
  assumes "coin_set_laws (wk_coins K)" and "bank_laws (wk_sdk K) supply bal modaddr" and "single_coin_law (wk_sdk K)"
    and "PayCircuitDepositMsg K E sender years ctx = (Inr u, ctx')"
    and "AccAddressFromBech32 (wk_sdk K) sender = Inr a" and "WasmGetParams (kv_of ctx) = Inr p"
    and "covered_from E (kv_of ctx) a + 31536000 * 10 < 2 ^ 63" and "fee = Amount (yearly_fee K) * uint years"
  shows "1 \<le> years \<and> years \<le> 10 \<and> sint u = covered_from E (kv_of ctx) a + 31536000 * uint years \<and>
    depositee_get (kv_of ctx') = (depositee_get (kv_of ctx))(a \<mapsto> u) \<and> GetCircuitInfo (kv_of ctx') = GetCircuitInfo (kv_of ctx) \<and>
    (\<forall>E'. HasCircuitDeposit E' (kv_of ctx') a \<longleftrightarrow> block_now E' < sint u) \<and>
    supply (world (gstore ctx')) = supply (world (gstore ctx)) \<and>
    (\<exists>dev. (if CircuitDevDestination p = [] then dev = modaddr ''circuit_dev_pool''
            else AccAddressFromBech32 (wk_sdk K) (CircuitDevDestination p) = Inr dev) \<and>
       (\<forall>x d. bal (world (gstore ctx')) x d = bal (world (gstore ctx)) x d +
          (if d = Denom (yearly_fee K) then (if x = modaddr ''circuit_val_pool'' then fee div 2 else 0)
             + (if x = dev then fee - fee div 2 else 0) - (if x = a then fee else 0) else 0)))"
proof -
  have run: "PayCircuitDeposit K E a years ctx = (Inr u, ctx')"
    using assms(4,5) by (auto simp: PayCircuitDepositMsg_def bindR_ok)
  note P = pay_effect [OF run]
  have u: "sint u = covered_from E (kv_of ctx) a + 31536000 * uint years"
    unfolding P(3) by (rule paid_until_sint [OF assms(7) P(2)])
  obtain ctx1 where r: "receiveCircuitRunwayPayment K a [\<lparr>Denom = Denom (yearly_fee K), Amount = fee\<rparr>] ctx = (Inr (), ctx1)"
    and w: "world (gstore ctx') = world (gstore ctx1)" and pos: "0 < fee"
    using pay_receive [OF assms(3,1) run] unfolding assms(8) by blast
  have "HasCircuitDeposit E' (kv_of ctx') a \<longleftrightarrow> block_now E' < sint u" for E'
    by (simp add: HasCircuitDeposit_def P(4) kv_pay_proj)
  moreover have "supply (world (gstore ctx')) = supply (world (gstore ctx)) \<and>
    (\<exists>dev. (if CircuitDevDestination p = [] then dev = modaddr ''circuit_dev_pool''
            else AccAddressFromBech32 (wk_sdk K) (CircuitDevDestination p) = Inr dev) \<and>
       (\<forall>x d. bal (world (gstore ctx')) x d = bal (world (gstore ctx)) x d +
          (if d = Denom (yearly_fee K) then (if x = modaddr ''circuit_val_pool'' then fee div 2 else 0)
             + (if x = dev then fee - fee div 2 else 0) - (if x = a then fee else 0) else 0)))"
    using receive_single [OF assms(1,2) _ r] pos unfolding w Coin.select_convs assms(6) by (metis sum.inject(2))
  ultimately show ?thesis using P(1,2,4) u by (simp add: kv_pay_proj)
qed

theorem wasm_payment_effect_witness:
  "\<exists>es. PayCircuitDepositMsg circuit_keeper (block_env 3) ''gov'' 1 (ctx_with uploaded_kv start_world (1000000, 1) []) =
      (Inr 31536003, ctx_with (kv_pay 31536003 ''gov'' uploaded_kv) paid_world (1000000, 1) es) \<and>
    balances paid_world ''circuit_val_pool'' ''uterp'' = 50 \<and> balances paid_world ''gov'' ''uterp'' = 899"
proof -
  let ?ctx = "ctx_with uploaded_kv start_world (1000000, 1) []"
  obtain es where run: "PayCircuitDepositMsg circuit_keeper (block_env 3) ''gov'' 1 ?ctx =
      (Inr 31536003, ctx_with (kv_pay 31536003 ''gov'' uploaded_kv) paid_world (1000000, 1) es)" using paid_run by blast
  have sdk: "bank_laws (wk_sdk circuit_keeper) supplies balances (\<lambda>m. m)"
    using ledger_bank by (simp add: bank_laws_def circuit_sdk_def)
  have single: "single_coin_law (wk_sdk circuit_keeper)"
    by (auto simp: single_coin_law_def circuit_sdk_def ledger_sdk_def split: if_splits)
  have coins: "coin_set_laws (wk_coins circuit_keeper)" by (simp add: ref_coin_set_laws)
  have a: "AccAddressFromBech32 (wk_sdk circuit_keeper) ''gov'' = Inr ''gov''" unfolding circuit_keeper_sel by code_simp
  have p: "WasmGetParams (kv_of ?ctx) = Inr nobody_params" by (simp add: ctx_with_def uploaded_params)
  have f: "covered_from (block_env 3) (kv_of ?ctx) ''gov'' + 31536000 * 10 < 2 ^ 63"
    by (simp add: covered_from_def ctx_with_def uploaded_deposit block_now_def block_env_def)
  have fee: "101 = Amount (yearly_fee circuit_keeper) * uint (1 :: u32)" "Denom (yearly_fee circuit_keeper) = ''uterp''"
    by (simp_all add: yearly_fee_def circuit_keeper_def)
  have d: "CircuitDevDestination nobody_params = []" by code_simp
  have b: "balances start_world ''circuit_val_pool'' ''uterp'' = 0" "balances start_world ''gov'' ''uterp'' = 1000"
    by (simp_all add: start_world_def credit_def ledger0_def)
  from wasm_payment_effect [OF coins sdk single run a p f fee(1)] b d fee(2) run show ?thesis by (auto simp: ctx_with_def)
qed

section \<open>Settlement\<close>

lemma sint_sum_list:
  assumes "\<forall>w \<in> set ws. 0 \<le> sint (w :: u64)" and "(\<Sum>w \<leftarrow> ws. sint w) < 2 ^ 63"
  shows "sint (sum_list ws) = (\<Sum>w \<leftarrow> ws. sint w)"
proof -
  have "uint (sum_list ws) = (\<Sum>w \<leftarrow> ws. sint w)" using assms
  proof (induction ws)
    case (Cons w ws)
    have nn: "0 \<le> (\<Sum>w \<leftarrow> ws. sint w)" using Cons.prems(1) by (intro sum_list_nonneg) auto
    have "uint (sum_list ws) = (\<Sum>w \<leftarrow> ws. sint w)" using Cons nn by simp
    then show ?case using Cons.prems sint_nonneg_uint [of w] nn by (simp add: uint_word_ariths(1))
  qed simp
  moreover from this assms(2) have "unat (sum_list ws) < 2 ^ 63" by (simp add: unat_eq_nat_uint nat_less_iff)
  ultimately show ?thesis using sint_of_nat_small by simp
qed

lemma settle_share_bound:
  assumes laws: "coin_set_laws A" and W: "0 < sint W" and w: "0 \<le> sint w"
  shows "settle_share A w W cs share = Inr s \<Longrightarrow> \<forall>c \<in> set cs. 0 \<le> Amount c \<Longrightarrow>
    sint W * coins_amount s d \<le> sint W * coins_amount share d + coins_amount cs d * sint w"
proof (induction cs arbitrary: share)
  case (Cons c cs)
  let ?q = "int_quo (Amount c * sint w) (sint W)"
  have q: "?q = Amount c * sint w div sint W" using Cons.prems(2) w W by (simp add: int_quo_nonneg)
  have le: "sint W * ?q \<le> Amount c * sint w" unfolding q using W by (metis mult.commute div_mod_decomp_int le_add_same_cancel1 pos_mod_sign)
  have nn: "\<forall>c \<in> set cs. 0 \<le> Amount c" and c: "0 \<le> Amount c" using Cons.prems(2) by simp_all
  show ?case
  proof (cases "0 < ?q")
    case True
    then obtain x where x: "NewCoin A (Denom c) ?q = Inr x" and r: "settle_share A w W cs (CoinsAdd A share [x]) = Inr s"
      using Cons.prems(1) by (auto simp: Let_def split: sum.splits)
    have "coins_amount (CoinsAdd A share [x]) d = coins_amount share d + (if Denom c = d then ?q else 0)"
      using coin_set_lawsD(3) [OF laws, of share "[x]" d] coin_set_lawsD(6) [OF laws x] by simp
    then show ?thesis using Cons.IH [OF r nn] le by (auto simp: algebra_simps)
  next
    case False
    then have r: "settle_share A w W cs share = Inr s" using Cons.prems(1) by (simp add: Let_def)
    have "0 \<le> Amount c * sint w" using c w by simp
    then show ?thesis using Cons.IH [OF r nn] by (auto simp: algebra_simps)
  qed
qed simp

lemma settle_loop_bound:
  assumes laws: "coin_set_laws (wk_coins K)" and W: "0 < sint W" and bal: "\<forall>c \<in> set bal. 0 \<le> Amount c"
  shows "\<forall>vw \<in> set vws. 0 \<le> sint (snd vw) \<Longrightarrow> settle_loop K bal W vws paid n ctx = (Inr (paid', n'), ctx') \<Longrightarrow>
    sint W * coins_amount paid' d \<le> sint W * coins_amount paid d + coins_amount bal d * (\<Sum>vw \<leftarrow> vws. sint (snd vw))"
proof (induction vws arbitrary: paid n ctx)
  case (Cons vw vws)
  have w: "0 \<le> sint (snd vw)" and nn: "\<forall>vw \<in> set vws. 0 \<le> sint (snd vw)" using Cons.prems(1) by simp_all
  have b: "0 \<le> coins_amount bal d * sint (snd vw)" using coins_amount_nonneg [of bal d] bal w by simp
  consider n1 ctx1 where "settle_loop K bal W vws paid n1 ctx1 = (Inr (paid', n'), ctx')"
    | n1 share ctx1 where "settle_share (wk_coins K) (snd vw) W bal [] = Inr share"
        "settle_loop K bal W vws (CoinsAdd (wk_coins K) paid share) n1 ctx1 = (Inr (paid', n'), ctx')"
    using Cons.prems(2) by (auto simp: bindR_ok split: if_splits sum.splits prod.splits error.splits)
  then show ?case
  proof cases
    case 1
    then show ?thesis using Cons.IH [OF nn 1] b by (simp add: algebra_simps)
  next
    case 2
    have "sint W * coins_amount share d \<le> coins_amount bal d * sint (snd vw)"
      using settle_share_bound [OF laws W w 2(1) bal, of d] by simp
    then show ?thesis using Cons.IH [OF nn 2(2)] by (simp add: coin_set_lawsD(3) [OF laws] algebra_simps)
  qed
qed simp

text \<open>
  C20.  A settlement never pays out more than the pool holds: of every denomination, what the validators receive
  together is at most the balance it started from, whatever their weights, as long as the sum of the weights
  fits the 64-bit integer it is computed in.
\<close>

theorem wasm_settlement_within_pool:
  assumes "coin_set_laws (wk_coins K)" and "\<forall>c \<in> set bal. 0 \<le> Amount c" and "weights = map (settle_weight K w) vals"
    and "(\<Sum>x \<leftarrow> weights. sint x) < 2 ^ 63" and "sum_list weights \<noteq> 0"
    and "settle_loop K bal (sum_list weights) (zip vals weights) [] 0 ctx = (Inr (paid, eligible), ctx')"
  shows "coins_amount paid d \<le> coins_amount bal d"
proof -
  have nn: "\<forall>x \<in> set weights. 0 \<le> sint x" by (auto simp: assms(3) settle_weight_def Let_def)
  have W: "sint (sum_list weights) = (\<Sum>x \<leftarrow> weights. sint x)" by (rule sint_sum_list [OF nn assms(4)])
  have "0 \<le> (\<Sum>x \<leftarrow> weights. sint x)" using nn by (intro sum_list_nonneg) auto
  moreover have "sint (sum_list weights) \<noteq> 0" using assms(5) by (metis signed_0 signed_word_eqI)
  ultimately have pos: "0 < sint (sum_list weights)" using W by simp
  have z: "map snd (zip vals weights) = weights" by (simp add: assms(3))
  have "\<forall>vw \<in> set (zip vals weights). 0 \<le> sint (snd vw)" using nn by (auto dest: set_zip_rightD)
  from settle_loop_bound [OF assms(1) pos assms(2) this assms(6), of d]
  have "sint (sum_list weights) * coins_amount paid d \<le> coins_amount bal d * (\<Sum>x \<leftarrow> map snd (zip vals weights). sint x)"
    by (simp add: comp_def)
  then have "sint (sum_list weights) * coins_amount paid d \<le> sint (sum_list weights) * coins_amount bal d"
    unfolding z W by (simp add: mult.commute)
  then show ?thesis using pos by simp
qed


definition three_validators :: "validator list" where
  "three_validators = map (\<lambda>n. \<lparr>OperatorAddress = n, Jailed = False\<rparr>) [''val1'', ''val2'', ''val3'']"

theorem wasm_settlement_within_pool_witness:
  "\<exists>paid ctx'. settle_loop circuit_keeper [\<lparr>Denom = ''uterp'', Amount = 10\<rparr>] 3 (zip three_validators [1, 1, 1]) [] 0
      (ctx_with [] (credit ''circuit_val_pool'' [\<lparr>Denom = ''uterp'', Amount = 10\<rparr>] ledger0) (0, 0) []) = (Inr (paid, 3), ctx') \<and>
    coins_amount paid ''uterp'' = 9 \<and> coins_amount paid ''uterp'' \<le> coins_amount [\<lparr>Denom = ''uterp'', Amount = 10\<rparr>] ''uterp''"
proof -
  let ?bal = "[\<lparr>Denom = ''uterp'', Amount = 10\<rparr>]"
  let ?ctx = "ctx_with [] (credit ''circuit_val_pool'' ?bal ledger0) (0, 0) []"
  have r: "fst (settle_loop circuit_keeper ?bal 3 (zip three_validators [1, 1, 1]) [] 0 ?ctx) = Inr ([\<lparr>Denom = ''uterp'', Amount = 9\<rparr>], 3)"
    by code_simp
  then obtain ctx' where run: "settle_loop circuit_keeper ?bal 3 (zip three_validators [1, 1, 1]) [] 0 ?ctx =
      (Inr ([\<lparr>Denom = ''uterp'', Amount = 9\<rparr>], 3), ctx')" by (metis prod.collapse)
  have w: "[1, 1, 1] = map (settle_weight circuit_keeper ledger0) three_validators" by code_simp
  have s: "sum_list [1, 1, 1 :: i64] = 3" by simp
  have "coins_amount [\<lparr>Denom = ''uterp'', Amount = 9\<rparr>] ''uterp'' \<le> coins_amount ?bal ''uterp''"
    by (rule wasm_settlement_within_pool [OF _ _ w, where ctx = ?ctx])
      (use run ref_coin_set_laws in \<open>simp_all add: s\<close>)
  then show ?thesis using run by auto
qed

section \<open>Two handlers that write elsewhere\<close>

lemma set_add_addresses: "set (add_addresses as bs) = set as \<union> set bs"
  unfolding add_addresses_def by (induction bs arbitrary: as) auto

text \<open>
  C39.  The message that adds addresses to the circuit upload access leaves that access as it is, and adds the
  addresses to the upload access of codes instead.
\<close>

theorem wasm_circuit_addresses_added_to_codes:
  assumes "AddCircuitUploadParamsAddresses K authority new ctx = (Inr (), ctx')"
  shows "\<exists>p p'. WasmGetParams (kv_of ctx) = Inr p \<and> WasmGetParams (kv_of ctx') = Inr p' \<and>
    CircuitUploadAccess p' = CircuitUploadAccess p \<and>
    set (Addresses (CodeUploadAccess p')) = set (Addresses (CodeUploadAccess p)) \<union> set new"
proof -
  obtain p where p: "WasmGetParams (kv_of ctx) = Inr p"
    and k: "kv_of ctx' = kv_set [CHR 0x10] (ParamsVal (p\<lparr>CodeUploadAccess := (CodeUploadAccess p)
        \<lparr>Addresses := add_addresses (Addresses (CodeUploadAccess p)) new\<rparr>\<rparr>)) (kv_of ctx)"
    using assms by (auto simp: AddCircuitUploadParamsAddresses_def handler_ok WasmSetParams_def)
  have "WasmGetParams (kv_of ctx') = Inr (p\<lparr>CodeUploadAccess := (CodeUploadAccess p)
        \<lparr>Addresses := add_addresses (Addresses (CodeUploadAccess p)) new\<rparr>\<rparr>)"
    by (simp add: k WasmGetParams_def kv_simps)
  then show ?thesis using p by (auto simp: set_add_addresses)
qed

definition listed_params :: WasmParams where
  "listed_params = WasmDefaultParams\<lparr>CodeUploadAccess := \<lparr>Permission = AccessTypeAnyOfAddresses, Addresses = [''alice'']\<rparr>\<rparr>"

theorem wasm_circuit_addresses_added_to_codes_witness:
  "\<exists>ctx' p'. AddCircuitUploadParamsAddresses circuit_keeper ''gov'' [''bob'']
      (ctx_with [([CHR 0x10], ParamsVal listed_params)] ledger0 (0, 0) []) = (Inr (), ctx') \<and>
    WasmGetParams (kv_of ctx') = Inr p' \<and> CircuitUploadAccess p' = AllowEverybody \<and> set (Addresses (CodeUploadAccess p')) = {''alice'', ''bob''}"
proof -
  let ?ctx = "ctx_with [([CHR 0x10], ParamsVal listed_params)] ledger0 (0, 0) []"
  have v: "MsgAddCircuitUploadParamsAddresses_ValidateBasic circuit_sdk ''gov'' [''bob''] = Inr ()" by code_simp
  have p: "WasmGetParams (kv_of ?ctx) = Inr listed_params" by (simp add: ctx_with_def WasmGetParams_def kv_get_def)
  have g: "wk_authority circuit_keeper = ''gov''" by (simp add: circuit_keeper_def)
  have perm: "Permission (CodeUploadAccess listed_params) = AccessTypeAnyOfAddresses" by (simp add: listed_params_def)
  obtain ctx' where run: "AddCircuitUploadParamsAddresses circuit_keeper ''gov'' [''bob''] ?ctx = (Inr (), ctx')"
    by (simp add: AddCircuitUploadParamsAddresses_def v p g perm)
  show ?thesis using wasm_circuit_addresses_added_to_codes [OF run] run p
    by (auto simp: listed_params_def WasmDefaultParams_def)
qed

text \<open>
  C40.  Codes and circuits share the index of pins: removing a circuit unpins the code that has the same id,
  although the code is still stored.
\<close>

theorem wasm_circuit_removal_unpins_code:
  assumes "GetCircuitInfo (kv_of ctx) i \<noteq> None" and "IsPinnedCode (kv_of ctx) i"
  shows "fst (removeCircuit K i ctx) = Inr () \<and> \<not> IsPinnedCode (kv_of (snd (removeCircuit K i ctx))) i \<and>
    GetCodeInfo (kv_of (snd (removeCircuit K i ctx))) i = GetCodeInfo (kv_of ctx) i"
  using assms by (auto simp: removeCircuit_def Let_def IsPinnedCode_def kv_has_def GetCodeInfo_def key_defs kv_simps
      deleteCircuitCreatorIndex_def split: option.splits sum.splits)

theorem wasm_circuit_removal_unpins_code_witness:
  "IsPinnedCode (kv_set (GetPinnedCodeIndexPrefix 1) (Bytes [CHR 0x01]) uploaded_kv) 1 \<and>
   \<not> IsPinnedCode (kv_of (snd (removeCircuit circuit_keeper 1
       (ctx_with (kv_set (GetPinnedCodeIndexPrefix 1) (Bytes [CHR 0x01]) uploaded_kv) ledger0 (0, 0) [])))) 1"
proof -
  let ?kv = "kv_set (GetPinnedCodeIndexPrefix 1) (Bytes [CHR 0x01]) uploaded_kv"
  let ?ctx = "ctx_with ?kv ledger0 (0, 0) []"
  have c: "GetCircuitInfo (kv_of ?ctx) 1 \<noteq> None"
    by (simp add: ctx_with_def GetCircuitInfo_def uploaded_kv_def kv_add_circuit_get kv_simps key_defs del: kv_set.simps)
  have p: "IsPinnedCode (kv_of ?ctx) 1" by (simp add: ctx_with_def IsPinnedCode_def kv_has_def kv_simps)
  show ?thesis using wasm_circuit_removal_unpins_code [OF c p, of circuit_keeper] p by (simp add: ctx_with_def)
qed

end
