(* ===== verification/Spec2Isabelle.thy ===== *)
theory Spec2Isabelle
  imports TokenFactory Drip FeeShare GlobalFee WasmAuthz Dispatcher CwHooks HashMerchantVotes SmartAccountAnte CircuitProps
begin

text \<open>
  Verification of the modules of the Terp Network chain (\<open>src/x\<close>), a Cosmos SDK application.

  \<^bold>\<open>The program.\<close>  The chain runs the modules of the SDK and, besides them, its own: \<open>x/tokenfactory\<close>
  (denominations that their admin mints), \<open>x/drip\<close> (coins sent to the fee collector), \<open>x/feeshare\<close> (a share of
  the fees for the contracts that were called), \<open>x/globalfee\<close> (minimum gas prices), \<open>x/wasm\<close> (contracts and
  zero-knowledge circuits), \<open>x/cw-hooks\<close> (contracts that are told about staking and governance),
  \<open>x/hashmerchant\<close> (validators vote on the roots of foreign chains) and \<open>x/smart-account\<close> (accounts that choose
  how their messages are authenticated).  A transaction passes the ante handlers, its messages go to the
  handlers of the modules, and at the end of a block the modules run their own work.  A handler reads and
  writes the key-value store of its module and calls the bank and other keepers of the SDK.

  \<^bold>\<open>Conventions.\<close>  A record of the source is a \<open>record\<close>, a fallible function returns \<open>error + 'a\<close> (a panic is
  the error \<open>Panicked\<close>), a handler takes and returns its state, and a write that precedes an error stays in the
  returned state, since only the caller rolls it back.  Machine integers are words of their width.  A
  store is an ordered list of byte keys (\<open>KVStore\<close>), so that iteration orders, prefixes and collisions of
  keys are those of the source.  Code outside the repository is a record of functions (\<open>sdk\<close>, \<open>coin_ops\<close>,
  \<open>dec_ops\<close>, \<open>gas_ops\<close>, \<open>meter_ops\<close>, \<open>text_ops\<close>, \<open>auth_env\<close>, \<open>wasm_engine\<close>), and what a theorem needs of it is a
  named predicate (\<open>bech32_laws\<close>, \<open>bank_laws\<close>, \<open>coin_set_laws\<close>, \<open>gas_laws\<close>, \<open>meter_laws\<close>, \<open>address_laws\<close>, ...)
  which a concrete instance is proved to satisfy.

  \<^bold>\<open>Shared theories.\<close>
  \<^item> \<open>Prelude\<close>: errors and results, Go's string functions, decimal and big-endian encodings, sequencing of
    handlers (\<open>bindR\<close>, \<open>guardR\<close>).
  \<^item> \<open>KVStore\<close>: the ordered store; its contract is the locale \<open>ordered_store\<close>, interpreted as \<open>kvs\<close>.
  \<^item> \<open>Sdk\<close>, \<open>SdkMath\<close>, \<open>Gas\<close>: the functions of the SDK the modules call, with their laws and instances.
  \<^item> \<open>ParamsServer\<close>: the contract of an \<open>UpdateParams\<close> handler, a locale interpreted for five modules.
  \<^item> \<open>Budget\<close>: a budget that every step spends; interpreted for the funds and calls of authorizations.

  \<^bold>\<open>Components.\<close>
  \<^item> \<open>TokenFactory\<close> (\<open>x/tokenfactory/keeper\<close>, \<open>types\<close>): state \<open>tf_state\<close>; \<open>CreateDenom\<close>, \<open>Mint\<close>, \<open>Burn\<close>,
    \<open>ForceTransfer\<close>, \<open>ChangeAdmin\<close>, \<open>SetDenomMetadata\<close>, parameters, genesis, queries.  The supply of a
    denomination changes only through its admin; reachable states are well formed; an admin that is given up
    does not return; genesis round trip.
  \<^item> \<open>Drip\<close> (\<open>x/drip\<close>): \<open>DistributeTokens\<close> and what it moves.
  \<^item> \<open>FeeShare\<close> (\<open>x/feeshare\<close>): registration with its two indexes (locale \<open>contract_index\<close>, interpreted twice) and the
    payout of the ante handler.  The indexes agree with the registrations in every reachable state; changes
    are authorised; a payout never exceeds the share of the fee.
  \<^item> \<open>GlobalFee\<close> (\<open>x/globalfee\<close>): the fee check of the ante handler against its specification.
  \<^item> \<open>WasmAccess\<close>, \<open>WasmMsgs\<close>, \<open>WasmAuthz\<close> (\<open>x/wasm/types\<close>, \<open>keeper/authz_policy.go\<close>): access configurations and
    policies (locale \<open>attenuating\<close>), stateless checks of all messages, authorizations for contracts and code.
    A policy for sub-messages never grants more; what a grant accepts stays within its filters and limits.
  \<^item> \<open>Dispatcher\<close> (\<open>x/wasm/keeper/msg_dispatcher.go\<close>): sub-messages with sandbox, gas limit and reply.  It refines
    one transaction per message, and the gas a message can cost is bounded.
  \<^item> \<open>GasRegister\<close> (\<open>x/wasm/types/gas_register.go\<close>): costs of calls, events and replies; conversion of gas.
  \<^item> \<open>WasmStore\<close>, \<open>Circuits\<close>, \<open>CircuitDeposit\<close> (\<open>x/wasm/keeper/keeper.go\<close>, \<open>msg_server.go\<close>,
    \<open>circuit_deposit_gc.go\<close>, \<open>circuit_runway_pool.go\<close>): keys, records and sequences, pins and parameters;
    uploads of codes, parameters and circuits; deposits, their collection at the end of a block, the pool of
    the validators and its settlement.
  \<^item> \<open>CircuitInv\<close>, \<open>CircuitGC\<close>, \<open>CircuitSteps\<close>, \<open>CircuitProps\<close>: the invariant of the circuit store, one step
    of the collector and its measure, the relation \<open>wasm_step\<close> of all messages of these parts, and the
    properties: consistency of the indexes in reachable states, what a block keeps and removes, that
    collection ends, who may upload, the effect of a payment, the bound of a settlement.
  \<^item> \<open>CwHooks\<close> (\<open>x/cw-hooks\<close>): registration of contracts and the hooks; a failing contract affects neither the
    others nor the chain.
  \<^item> \<open>HashMerchant\<close>, \<open>HashMerchantVotes\<close> (\<open>x/hashmerchant\<close>): chains, contracts, escrow and pruning; vote extensions,
    attestations, aggregation.  Escrow is backed by coins; a root is stored only with a quorum; the
    iteration order of Go maps does not matter except for the empty root.
  \<^item> \<open>Authenticators\<close>, \<open>AuthTrees\<close> (\<open>x/smart-account/authenticator\<close>): the authenticators and their trees.  A tree
    accepts exactly when the formula it stands for is true; configurations are finite, so their recursion ends.
  \<^item> \<open>SmartAccount\<close>, \<open>SmartAccountAnte\<close> (\<open>x/smart-account/keeper\<close>, \<open>ante\<close>, \<open>post\<close>): ids are never reused, changes
    are authorised, and a transaction passes only when every message is authenticated by its only signer.

  \<^bold>\<open>Bounds and fuel.\<close>  Loops over lists and maps are structural recursion.  The recursion of nested
  authenticator configurations takes a depth, the length of the configuration text, which is enough since every
  level is a proper part of it.  The collector is total; that it finishes its work is
  proved with the measure \<open>gc_measure\<close>.  Circuit ids are 64 bits wide; \<open>wasm_step\<close> takes them as not used up.

  \<^bold>\<open>Not modelled.\<close>  The life cycle of contracts (instantiate, execute, migrate), queries, message encoders and IBC of
  \<open>x/wasm\<close>, which run contracts in the wasmvm library through callbacks; its genesis and migrations, which compile
  codes while they import them; the bindings of wasmvm (foreign calls into Rust); generated protobuf code; the
  wiring of the application, its upgrades, command line, servers and tools, which are input and output without
  consensus state of their own.  Logging and telemetry are left out of the handlers that are modelled; the text of
  wrapped errors is reduced to the registered error.
\<close>

end
